(* ===== verification/Prelude.thy ===== *)
theory Prelude
  imports Main "HOL-Library.Word" "HOL-Library.AList" "HOL-Library.Multiset"
begin

text \<open>
  Shared vocabulary of the development: the machine integers of the C++ code, association
  lists as the model of its unordered maps (a list fixes one iteration order, which the C++
  standard leaves open), and the generic lemmas on them that the component theories share.
  The collection \<open>enum_defs\<close> gathers small operations that proofs always unfold, and
  \<open>alist_simps\<close> the laws of sums over association lists.
\<close>

named_theorems enum_defs
named_theorems alist_simps

type_synonym u8 = "8 word"
type_synonym u16 = "16 word"
type_synonym u32 = "32 word"
type_synonym u64 = "64 word"

section \<open>Unsigned arithmetic\<close>

lemma unat_add_exact:
  fixes a b :: "'a::len word"
  shows "unat a + unat b < 2 ^ LENGTH('a) \<Longrightarrow> unat (a + b) = unat a + unat b"
  by (rule unat_add_lem [THEN iffD1])

lemma unat_sub_exact:
  fixes a b :: "'a::len word"
  shows "unat b \<le> unat a \<Longrightarrow> unat (a - b) = unat a - unat b"
  by (simp add: unat_sub word_le_nat_alt)

lemma unat_Suc_exact:
  fixes a :: "'a::len word"
  shows "a \<noteq> - 1 \<Longrightarrow> unat (a + 1) = Suc (unat a)"
  by (metis Suc_eq_plus1 add.commute add.right_neutral diff_add_cancel
      eq_neg_iff_add_eq_0 unatSuc)

lemma word_not_max_less:
  fixes a :: "'a::len word"
  shows "a \<noteq> - 1 \<Longrightarrow> a < a + 1"
  by (simp add: word_less_nat_alt unat_Suc_exact)

lemma unat_max64 [simp]: "unat (- 1 :: u64) = 18446744073709551615"
  by (simp add: unsigned_minus_1_eq_mask mask_eq_exp_minus_1)

section \<open>Association lists\<close>

definition keys_of :: "('k \<times> 'v) list \<Rightarrow> 'k list" where
  "keys_of xs = map fst xs"

definition asum :: "('v \<Rightarrow> 'n::comm_monoid_add) \<Rightarrow> ('k \<times> 'v) list \<Rightarrow> 'n" where
  "asum f xs = sum_list (map (\<lambda>kv. f (snd kv)) xs)"

lemma asum_Nil [simp]: "asum f [] = 0"
  by (simp add: asum_def)

lemma asum_Cons [simp]: "asum f (kv # xs) = f (snd kv) + asum f xs"
  by (simp add: asum_def)

lemma map_of_delete [simp]: "map_of (AList.delete k xs) = (map_of xs)(k := None)"
  by (rule delete_conv')

lemma map_of_update [simp]: "map_of (AList.update k v xs) = (map_of xs)(k \<mapsto> v)"
  by (rule update_conv')

lemma keys_of_delete: "keys_of (AList.delete k xs) = filter (\<lambda>k'. k' \<noteq> k) (keys_of xs)"
  by (induction xs) (auto simp: keys_of_def)

lemma distinct_keys_delete [intro]:
  "distinct (keys_of xs) \<Longrightarrow> distinct (keys_of (AList.delete k xs))"
  by (simp add: keys_of_delete)

lemma distinct_keys_update [intro]:
  "distinct (keys_of xs) \<Longrightarrow> distinct (keys_of (AList.update k v xs))"
  by (simp add: keys_of_def distinct_update)

lemma set_keys_update: "set (keys_of (AList.update k v xs)) = insert k (set (keys_of xs))"
  using dom_update [of k v xs] by (simp add: keys_of_def)

lemma set_keys_delete: "set (keys_of (AList.delete k xs)) = set (keys_of xs) - {k}"
  by (auto simp: keys_of_delete)

lemma map_of_eq_None: "map_of xs k = None \<longleftrightarrow> k \<notin> set (keys_of xs)"
  by (simp add: keys_of_def map_of_eq_None_iff image_iff)

lemma map_of_mem_keys: "map_of xs k = Some v \<Longrightarrow> k \<in> set (keys_of xs)"
  by (metis map_of_eq_None option.distinct(1))

lemma delete_absent: "map_of xs k = None \<Longrightarrow> AList.delete k xs = xs"
  by (induction xs) (auto split: if_splits)

lemma asum_delete [alist_simps]:
  assumes "distinct (keys_of xs)" "map_of xs k = Some v"
  shows "asum f xs = f v + asum f (AList.delete k xs)"
  using assms
proof (induction xs)
  case (Cons p xs)
  show ?case
  proof (cases "fst p = k")
    case True
    with Cons.prems have "map_of xs k = None"
      by (auto simp: keys_of_def map_of_eq_None_iff)
    with True Cons.prems show ?thesis
      by (cases p) (auto simp: delete_absent)
  next
    case False
    with Cons.prems have "asum f xs = f v + asum f (AList.delete k xs)"
      by (intro Cons.IH) (auto simp: keys_of_def split: prod.splits)
    with False show ?thesis
      by (cases p) (simp add: ac_simps)
  qed
qed simp

lemma mset_vals_delete:
  assumes "distinct (keys_of xs)" "map_of xs k = Some v"
  shows "mset (map snd xs) = add_mset v (mset (map snd (AList.delete k xs)))"
  using assms
proof (induction xs)
  case (Cons p xs)
  show ?case
  proof (cases "fst p = k")
    case True
    with Cons.prems have "map_of xs k = None"
      by (auto simp: keys_of_def map_of_eq_None_iff)
    with True Cons.prems show ?thesis
      by (cases p) (auto simp: delete_absent)
  next
    case False
    with Cons.prems have "mset (map snd xs) = add_mset v (mset (map snd (AList.delete k xs)))"
      by (intro Cons.IH) (auto simp: keys_of_def split: prod.splits)
    with False show ?thesis by (cases p) simp
  qed
qed simp

lemma asum_update_new [alist_simps]:
  "map_of xs k = None \<Longrightarrow> asum f (AList.update k v xs) = asum f xs + f v"
  by (induction xs) (auto split: if_splits simp: ac_simps)

lemma asum_update_old [alist_simps]:
  "map_of xs k = Some w \<Longrightarrow> asum f (AList.update k v xs) + f w = asum f xs + f v"
proof (induction xs)
  case (Cons p xs)
  obtain k' u where p: "p = (k', u)" by (cases p)
  show ?case
  proof (cases "k' = k")
    case True
    with Cons.prems p show ?thesis by (simp add: ac_simps)
  next
    case False
    with Cons p have "asum f (AList.update k v xs) + f w = asum f xs + f v" by simp
    with False p show ?thesis by (simp add: add.assoc)
  qed
qed simp

lemma asum_update_same [alist_simps]:
  "map_of xs k = Some w \<Longrightarrow> f v = f w \<Longrightarrow> asum f (AList.update k v xs) = asum f xs"
  by (induction xs) (auto split: if_splits)

lemma update_overwrite [simp]:
  "AList.update k v (AList.update k w xs) = AList.update k v xs"
  by (induction xs) auto

lemma asum_nat_member_le:
  fixes f :: "'v \<Rightarrow> nat"
  shows "map_of xs k = Some v \<Longrightarrow> f v \<le> asum f xs"
  by (induction xs) (auto split: if_splits)

lemma asum_dom:
  "distinct (keys_of xs) \<Longrightarrow> asum f xs = (\<Sum>k\<in>dom (map_of xs). f (the (map_of xs k)))"
proof (induction xs)
  case (Cons p xs)
  obtain k v where p: "p = (k, v)" by (cases p)
  with Cons.prems have k: "k \<notin> dom (map_of xs)"
    by (auto simp: keys_of_def dom_map_of_conv_image_fst)
  have "(\<Sum>j\<in>dom (map_of (p # xs)). f (the (map_of (p # xs) j)))
      = f v + (\<Sum>j\<in>dom (map_of xs). f (the (map_of (p # xs) j)))"
    using k p by (simp add: sum.insert finite_dom_map_of)
  also have "(\<Sum>j\<in>dom (map_of xs). f (the (map_of (p # xs) j)))
      = (\<Sum>j\<in>dom (map_of xs). f (the (map_of xs j)))"
    using k p by (intro sum.cong) auto
  finally show ?case using Cons p by (simp add: keys_of_def)
qed simp

lemma map_of_in_set_distinct:
  "distinct (keys_of xs) \<Longrightarrow> (k, v) \<in> set xs \<Longrightarrow> map_of xs k = Some v"
  by (simp add: keys_of_def)

section \<open>Options and lists\<close>

lemma last_butlast_conv: "xs \<noteq> [] \<Longrightarrow> butlast xs @ [last xs] = xs"
  by simp

lemma distinct_last_butlast: "distinct xs \<Longrightarrow> xs \<noteq> [] \<Longrightarrow> last xs \<notin> set (butlast xs)"
  by (metis distinct_append append_butlast_last_id disjoint_iff list.set_intros(1))

end
