(* ===== verification/Double.thy ===== *)
theory Double
  imports Prelude "HOL-Library.Log_Nat" Complex_Main
begin

text \<open>
  The floating-point numbers of the C++ code. A \<open>double\<close> is modelled by the rational number
  it denotes and every arithmetic result is rounded to \<open>p\<close> significant bits, to nearest with
  ties to even, as IEEE-754 prescribes (\<open>p = 53\<close> for \<open>double\<close>, \<open>24\<close> for \<open>float\<close>).
  Overflow to infinity, NaN and subnormal results are outside the model: the quantities the
  code computes (byte counts, milliseconds, utilisation ratios, scores) stay far inside the
  normal range. The lemmas give what the components rely on: rounding is monotone and it is
  exact on every multiple of a power of two with at most \<open>p\<close> significant bits.
\<close>

section \<open>Powers of two and binary exponents\<close>

definition pow2 :: "int \<Rightarrow> rat" where
  "pow2 k = (if 0 \<le> k then 2 ^ nat k else 1 / 2 ^ nat (- k))"

lemma pow2_powi: "pow2 k = 2 powi k"
  by (simp add: pow2_def power_int_def field_simps)

lemma pow2_pos [simp]: "0 < pow2 k"
  by (simp add: pow2_def)

lemma pow2_nz [simp]: "pow2 k \<noteq> 0"
  using pow2_pos [of k] by linarith

lemma pow2_add: "pow2 (a + b) = pow2 a * pow2 b"
  by (simp add: pow2_powi power_int_add)

lemma pow2_diff: "pow2 (a - b) = pow2 a / pow2 b"
  by (simp add: pow2_powi power_int_diff)

lemma pow2_strict_mono: "a < b \<Longrightarrow> pow2 a < pow2 b"
  by (simp add: pow2_powi power_int_strict_increasing)

lemma pow2_less_iff [simp]: "pow2 a < pow2 b \<longleftrightarrow> a < b"
  by (metis linorder_less_linear order_less_asym pow2_strict_mono)

lemma pow2_le_iff [simp]: "pow2 a \<le> pow2 b \<longleftrightarrow> a \<le> b"
  by (simp add: linorder_not_less [symmetric])

lemma pow2_nat: "pow2 (int n) = of_int (2 ^ n)"
  by (simp add: pow2_def)

definition ilog2 :: "rat \<Rightarrow> int" where
  "ilog2 x = (let (a, b) = quotient_of x; e = bitlen a - bitlen b
              in if pow2 e \<le> x then e else e - 1)"

lemma bitlen_pow2:
  assumes "0 < a"
  shows "pow2 (bitlen a - 1) \<le> of_int a" "of_int a < pow2 (bitlen a)"
proof -
  have b: "2 ^ nat (bitlen a - 1) \<le> a \<and> a < 2 ^ nat (bitlen a)"
    using assms by (rule bitlen_bounds)
  have p: "0 < bitlen a" using assms by (simp add: bitlen_eq_zero_iff bitlen_nonneg order_neq_le_trans)
  from b have "of_int (2 ^ nat (bitlen a - 1)) \<le> (of_int a :: rat)"
    by (subst of_int_le_iff) simp
  with p show "pow2 (bitlen a - 1) \<le> of_int a"
    by (simp add: pow2_def)
  from b have "(of_int a :: rat) < of_int (2 ^ nat (bitlen a))"
    by (subst of_int_less_iff) simp
  with p show "of_int a < pow2 (bitlen a)"
    by (simp add: pow2_def)
qed

lemma ilog2_bounds:
  assumes "0 < x"
  shows "pow2 (ilog2 x) \<le> x \<and> x < pow2 (ilog2 x + 1)"
proof -
  obtain a b where q: "quotient_of x = (a, b)" by (cases "quotient_of x")
  have b: "0 < b" using q by (rule quotient_of_denom_pos)
  have x: "x = of_int a / of_int b" using q by (rule quotient_of_div)
  have a: "0 < a" using assms x b by (simp add: zero_less_divide_iff)
  let ?e = "bitlen a - bitlen b"
  have "x < pow2 (bitlen a) / pow2 (bitlen b - 1)"
    unfolding x using bitlen_pow2 [OF a] bitlen_pow2 [OF b] b
    by (intro frac_less) (auto simp: a less_imp_le [OF a])
  then have up: "x < pow2 (?e + 1)"
    by (simp add: pow2_diff [symmetric] algebra_simps)
  have "pow2 (bitlen a - 1) / pow2 (bitlen b) \<le> x"
    unfolding x using bitlen_pow2 [OF a] bitlen_pow2 [OF b] b
    by (intro frac_le) (auto simp: less_imp_le less_imp_le [OF a])
  then have lo: "pow2 (?e - 1) \<le> x"
    by (simp add: pow2_diff [symmetric] algebra_simps)
  show ?thesis
    using up lo q by (auto simp: ilog2_def Let_def)
qed

lemma ilog2_eqI:
  assumes "pow2 k \<le> x" "x < pow2 (k + 1)"
  shows "ilog2 x = k"
proof -
  have x: "0 < x" using assms(1) pow2_pos [of k] by linarith
  note b = ilog2_bounds [OF x]
  from b assms have "pow2 (ilog2 x) < pow2 (k + 1)" "pow2 k < pow2 (ilog2 x + 1)" by linarith+
  then show ?thesis by simp
qed

lemma ilog2_mono: "0 < x \<Longrightarrow> x \<le> y \<Longrightarrow> ilog2 x \<le> ilog2 y"
proof -
  assume "0 < x" "x \<le> y"
  then have "pow2 (ilog2 x) < pow2 (ilog2 y + 1)"
    using ilog2_bounds [of x] ilog2_bounds [of y] by linarith
  then show ?thesis by simp
qed

section \<open>Rounding to the nearest integer, ties to even\<close>

definition rne :: "rat \<Rightarrow> int" where
  "rne y = (let f = \<lfloor>y\<rfloor>; d = y - of_int f in
            if d < 1 / 2 then f else if 1 / 2 < d then f + 1
            else if even f then f else f + 1)"

lemma rne_of_int [simp]: "rne (of_int n) = n"
  by (simp add: rne_def)

lemma rne_near: "\<bar>of_int (rne y) - y\<bar> \<le> 1 / 2"
  unfolding rne_def Let_def by (auto simp: abs_if) linarith+

lemma rne_mono: "y \<le> z \<Longrightarrow> rne y \<le> rne z"
proof -
  assume le: "y \<le> z"
  show ?thesis
  proof (cases "\<lfloor>y\<rfloor> = \<lfloor>z\<rfloor>")
    case True
    with le show ?thesis by (auto simp: rne_def Let_def)
  next
    case False
    then have "\<lfloor>y\<rfloor> + 1 \<le> \<lfloor>z\<rfloor>" using floor_mono [OF le] by linarith
    moreover have "rne y \<le> \<lfloor>y\<rfloor> + 1" "\<lfloor>z\<rfloor> \<le> rne z" by (auto simp: rne_def Let_def)
    ultimately show ?thesis by linarith
  qed
qed

lemma rne_minus: "rne (- y) = - rne y"
proof (cases "y = of_int \<lfloor>y\<rfloor>")
  case True
  then have "- y = of_int (- \<lfloor>y\<rfloor>)" by simp
  then have "rne (- y) = - \<lfloor>y\<rfloor>" by (metis rne_of_int)
  moreover have "rne y = \<lfloor>y\<rfloor>" using True by (metis rne_of_int)
  ultimately show ?thesis by simp
next
  case False
  have "of_int \<lfloor>y\<rfloor> < y" using False of_int_floor_le [of y] by linarith
  then have f: "\<lfloor>- y\<rfloor> = - \<lfloor>y\<rfloor> - 1" by linarith
  show ?thesis
    unfolding rne_def Let_def f by (auto; linarith)
qed

section \<open>Rounding to \<open>p\<close> significant bits\<close>

definition ulp :: "nat \<Rightarrow> rat \<Rightarrow> rat" where
  "ulp p x = pow2 (ilog2 \<bar>x\<bar> - (int p - 1))"

definition fl :: "nat \<Rightarrow> rat \<Rightarrow> rat" where
  "fl p x = (if x = 0 then 0 else of_int (rne (x / ulp p x)) * ulp p x)"

lemma fl_zero [simp]: "fl p 0 = 0"
  by (simp add: fl_def)

lemma fl_minus: "fl p (- x) = - fl p x"
  by (simp add: fl_def ulp_def rne_minus)

lemma ulp_pos [simp]: "0 < ulp p x"
  by (simp add: ulp_def)

lemma ulp_nz [simp]: "ulp p x \<noteq> 0"
  using ulp_pos [of p x] by linarith

text \<open>Rounding is exact on multiples of a power of two with fewer than \<open>p + 1\<close> bits.\<close>

lemma fl_exact:
  assumes m: "\<bar>m\<bar> < 2 ^ p"
  shows "fl p (of_int m * pow2 e) = of_int m * pow2 e"
proof (cases "m = 0")
  case False
  let ?x = "of_int m * pow2 e :: rat"
  let ?k = "ilog2 \<bar>?x\<bar>"
  have x: "0 < \<bar>?x\<bar>" using False by simp
  have "pow2 ?k \<le> \<bar>?x\<bar>" using ilog2_bounds [OF x] by simp
  also have "\<bar>?x\<bar> = of_int \<bar>m\<bar> * pow2 e"
    using pow2_pos [of e] by (simp add: abs_mult less_imp_le)
  also have "\<dots> < of_int (2 ^ p) * pow2 e"
    using m by (intro mult_strict_right_mono) (simp_all only: of_int_less_iff pow2_pos)
  also have "\<dots> = pow2 (int p + e)" by (simp only: pow2_add pow2_nat)
  finally have "?k < int p + e" by simp
  then obtain n where n: "e - (?k - (int p - 1)) = int n"
    using nonneg_int_cases [of "e - (?k - (int p - 1))"] by auto
  have "?x / ulp p ?x = of_int m * pow2 (e - (?k - (int p - 1)))"
    by (simp add: ulp_def pow2_diff)
  also have "\<dots> = of_int (m * 2 ^ n)" unfolding n by (simp add: pow2_def)
  finally have "?x / ulp p ?x = of_int (m * 2 ^ n)" .
  then have "of_int (rne (?x / ulp p ?x)) = ?x / ulp p ?x" by (metis rne_of_int)
  then show ?thesis using False by (simp add: fl_def)
qed simp

corollary fl_int: "\<bar>m\<bar> < 2 ^ p \<Longrightarrow> fl p (of_int m) = of_int m"
  using fl_exact [of m p 0] by (simp add: pow2_def)

corollary fl_pow2: "0 < p \<Longrightarrow> fl p (pow2 e) = pow2 e"
  using fl_exact [of 1 p e] by simp

lemma fl_mono_same:
  assumes "0 < x" "x \<le> y" "ilog2 x = ilog2 y"
  shows "fl p x \<le> fl p y"
proof -
  have u: "ulp p x = ulp p y" using assms by (simp add: ulp_def)
  have "rne (x / ulp p y) \<le> rne (y / ulp p y)"
    using assms by (intro rne_mono divide_right_mono) (simp_all add: less_imp_le)
  then have "of_int (rne (x / ulp p y)) * ulp p y \<le> of_int (rne (y / ulp p y)) * ulp p y"
    by (intro mult_right_mono) (simp_all only: of_int_le_iff less_imp_le ulp_pos)
  then show ?thesis using assms u by (simp add: fl_def)
qed

lemma fl_between:
  assumes "0 < p" "0 < x"
  shows "pow2 (ilog2 x) \<le> fl p x" "fl p x \<le> pow2 (ilog2 x + 1)"
proof -
  note b = ilog2_bounds [OF assms(2)]
  have "ilog2 (pow2 (ilog2 x)) = ilog2 x" by (rule ilog2_eqI) simp_all
  then have "fl p (pow2 (ilog2 x)) \<le> fl p x"
    using b by (intro fl_mono_same) simp_all
  then show "pow2 (ilog2 x) \<le> fl p x" using assms by (simp add: fl_pow2)
  have "x / ulp p x \<le> pow2 (ilog2 x + 1) / ulp p x"
    using b by (intro divide_right_mono) (simp_all add: less_imp_le)
  also have "\<dots> = pow2 (int p)" using assms by (simp add: ulp_def pow2_diff [symmetric])
  also have "\<dots> = of_int (2 ^ p)" by (rule pow2_nat)
  finally have "rne (x / ulp p x) \<le> 2 ^ p" using rne_mono rne_of_int by metis
  then have "of_int (rne (x / ulp p x)) * ulp p x \<le> of_int (2 ^ p) * ulp p x"
    by (intro mult_right_mono) (simp_all only: of_int_le_iff less_imp_le ulp_pos)
  also have "\<dots> = pow2 (ilog2 x + 1)"
    using assms by (simp only: pow2_nat [symmetric] ulp_def pow2_add [symmetric]) simp
  finally show "fl p x \<le> pow2 (ilog2 x + 1)" using assms by (simp add: fl_def)
qed

lemma fl_mono_pos:
  assumes "0 < p" "0 < x" "x \<le> y"
  shows "fl p x \<le> fl p y"
proof (cases "ilog2 x = ilog2 y")
  case True
  with assms show ?thesis by (intro fl_mono_same)
next
  case False
  with ilog2_mono [OF assms(2,3)] have "ilog2 x + 1 \<le> ilog2 y" by linarith
  then have "pow2 (ilog2 x + 1) \<le> pow2 (ilog2 y)" by simp
  with fl_between(2) [OF assms(1,2)] fl_between(1) [of p y] assms show ?thesis by linarith
qed

lemma fl_pos_iff: "0 < p \<Longrightarrow> 0 < x \<Longrightarrow> 0 < fl p x"
  using fl_between(1) [of p x] pow2_pos [of "ilog2 x"] by linarith

theorem fl_mono:
  assumes "0 < p" "x \<le> y"
  shows "fl p x \<le> fl p y"
proof -
  consider "0 < x" | "x = 0" | "x < 0" "y < 0" | "x < 0" "0 \<le> y" by linarith
  then show ?thesis
  proof cases
    case 1 with assms show ?thesis by (intro fl_mono_pos)
  next
    case 2 with assms show ?thesis
      by (cases "y = 0") (auto intro!: less_imp_le fl_pos_iff)
  next
    case 3
    have "fl p (- y) \<le> fl p (- x)" using assms 3 by (intro fl_mono_pos) simp_all
    then show ?thesis by (simp add: fl_minus)
  next
    case 4
    have "0 < fl p (- x)" using assms 4 by (intro fl_pos_iff) simp_all
    moreover have "0 \<le> fl p y" using assms 4 fl_pos_iff [of p y] by (cases "y = 0") auto
    ultimately show ?thesis by (simp add: fl_minus)
  qed
qed

corollary fl_nonneg: "0 < p \<Longrightarrow> 0 \<le> x \<Longrightarrow> 0 \<le> fl p x"
  using fl_mono [of p 0 x] by simp

section \<open>The operations of \<open>double\<close>\<close>

definition dbl :: "rat \<Rightarrow> rat" where
  "dbl = fl 53"

definition dbl_of_u64 :: "u64 \<Rightarrow> rat" where
  "dbl_of_u64 n = dbl (of_int (uint n))"

lemma dbl_mono: "x \<le> y \<Longrightarrow> dbl x \<le> dbl y"
  by (simp add: dbl_def fl_mono)

lemma dbl_int: "\<bar>m\<bar> < 2 ^ 53 \<Longrightarrow> dbl (of_int m) = of_int m"
  by (simp add: dbl_def fl_int)

lemma dbl_numeral: "(numeral n :: int) < 2 ^ 53 \<Longrightarrow> dbl (numeral n) = numeral n"
  using dbl_int [of "numeral n"] by simp

lemma dbl_zero [simp]: "dbl 0 = 0"
  by (simp add: dbl_def)

lemma dbl_nonneg: "0 \<le> x \<Longrightarrow> 0 \<le> dbl x"
  by (simp add: dbl_def fl_nonneg)

lemma dbl_of_u64_mono: "m \<le> n \<Longrightarrow> dbl_of_u64 m \<le> dbl_of_u64 n"
  unfolding dbl_of_u64_def
  by (intro dbl_mono) (simp only: of_int_le_iff word_le_def)

lemma dbl_of_u64_nonneg: "0 \<le> dbl_of_u64 n"
  unfolding dbl_of_u64_def
  by (intro dbl_nonneg) (simp only: of_int_0_le_iff uint_nonnegative)

lemma dbl_of_u64_zero [simp]: "dbl_of_u64 0 = 0"
  by (simp add: dbl_of_u64_def)

end
