(* ===== verification/MemTypes.thy ===== *)
theory MemTypes
  imports Prelude Double
begin

text \<open>
  Data of the memory subsystem (\<open>src/mem/MemoryTypes.h\<close>): the location, state, priority,
  residency and pressure enumerations with their printers, the block descriptor every
  allocator hands out, the transfer record and the statistics snapshot. Time points are
  counts of clock ticks; the epoch of a default-constructed time point is 0.
\<close>

section \<open>Enumerations\<close>

datatype MemoryLocation = CPU | GPU | ACCELERATOR | DISK
datatype MemoryState = FREE | RESIDENT | LOADING | EVICTING
datatype MemoryPriority = CRITICAL | HIGH | NORMAL | LOW
datatype Residency = DISK | CPU | GPU | CPU_AND_GPU
datatype PressureLevel = NORMAL | WARNING | HIGH | CRITICAL

fun toString_MemoryLocation :: "MemoryLocation \<Rightarrow> string" where
  "toString_MemoryLocation MemoryLocation.CPU = ''CPU''"
| "toString_MemoryLocation MemoryLocation.GPU = ''GPU''"
| "toString_MemoryLocation MemoryLocation.ACCELERATOR = ''ACCELERATOR''"
| "toString_MemoryLocation MemoryLocation.DISK = ''DISK''"

fun toString_MemoryState :: "MemoryState \<Rightarrow> string" where
  "toString_MemoryState MemoryState.FREE = ''FREE''"
| "toString_MemoryState MemoryState.RESIDENT = ''RESIDENT''"
| "toString_MemoryState MemoryState.LOADING = ''LOADING''"
| "toString_MemoryState MemoryState.EVICTING = ''EVICTING''"

fun toString_MemoryPriority :: "MemoryPriority \<Rightarrow> string" where
  "toString_MemoryPriority MemoryPriority.CRITICAL = ''CRITICAL''"
| "toString_MemoryPriority MemoryPriority.HIGH = ''HIGH''"
| "toString_MemoryPriority MemoryPriority.NORMAL = ''NORMAL''"
| "toString_MemoryPriority MemoryPriority.LOW = ''LOW''"

fun toString_PressureLevel :: "PressureLevel \<Rightarrow> string" where
  "toString_PressureLevel PressureLevel.NORMAL = ''NORMAL''"
| "toString_PressureLevel PressureLevel.WARNING = ''WARNING''"
| "toString_PressureLevel PressureLevel.HIGH = ''HIGH''"
| "toString_PressureLevel PressureLevel.CRITICAL = ''CRITICAL''"

text \<open>The enumerations are ordered by their C++ values; the ordering is used for pressure.\<close>

fun level_rank :: "PressureLevel \<Rightarrow> nat" where
  "level_rank PressureLevel.NORMAL = 0"
| "level_rank PressureLevel.WARNING = 1"
| "level_rank PressureLevel.HIGH = 2"
| "level_rank PressureLevel.CRITICAL = 3"

lemma level_rank_inj: "level_rank a = level_rank b \<Longrightarrow> a = b"
  by (cases a; cases b) simp_all

instantiation PressureLevel :: linorder
begin

definition less_eq_PressureLevel :: "PressureLevel \<Rightarrow> PressureLevel \<Rightarrow> bool" where
  "a \<le> b \<longleftrightarrow> level_rank a \<le> level_rank b"

definition less_PressureLevel :: "PressureLevel \<Rightarrow> PressureLevel \<Rightarrow> bool" where
  "a < b \<longleftrightarrow> level_rank a < level_rank b"

instance
  by intro_classes
    (auto simp: less_eq_PressureLevel_def less_PressureLevel_def intro: level_rank_inj)

end

fun priority_value :: "MemoryPriority \<Rightarrow> nat" where
  "priority_value MemoryPriority.CRITICAL = 0"
| "priority_value MemoryPriority.HIGH = 1"
| "priority_value MemoryPriority.NORMAL = 2"
| "priority_value MemoryPriority.LOW = 3"

section \<open>Block descriptors\<close>

type_synonym time_point = nat

record MemoryBlock =
  mb_id :: u64
  mb_size :: u64
  mb_location :: MemoryLocation
  mb_state :: MemoryState
  mb_priority :: MemoryPriority
  mb_residency :: Residency
  mb_last_accessed :: time_point
  mb_access_count :: u64
  mb_backend_handle :: u64

definition empty_block :: MemoryBlock where
  "empty_block = \<lparr>mb_id = 0, mb_size = 0, mb_location = MemoryLocation.CPU,
     mb_state = MemoryState.FREE, mb_priority = MemoryPriority.NORMAL,
     mb_residency = Residency.CPU, mb_last_accessed = 0, mb_access_count = 0,
     mb_backend_handle = 0\<rparr>"

definition isValid :: "MemoryBlock \<Rightarrow> bool" where
  "isValid b \<longleftrightarrow> mb_id b \<noteq> 0"

lemma empty_block_invalid [simp]: "\<not> isValid empty_block"
  by (simp add: isValid_def empty_block_def)

lemma empty_block_sel [simp]:
  "mb_id empty_block = 0" "mb_size empty_block = 0"
  "mb_location empty_block = MemoryLocation.CPU" "mb_backend_handle empty_block = 0"
  by (simp_all add: empty_block_def)

section \<open>Telemetry records\<close>

record TransferRecord =
  tr_id :: u64
  tr_source :: MemoryLocation
  tr_destination :: MemoryLocation
  tr_bytes :: u64
  tr_start_time :: time_point
  tr_end_time :: time_point
  tr_duration_ms :: rat
  tr_bandwidth_gbps :: rat
  tr_success :: bool

record MemoryStats =
  ms_cpu_total_bytes :: u64
  ms_cpu_used_bytes :: u64
  ms_cpu_peak_bytes :: u64
  ms_gpu_device_local_bytes :: u64
  ms_gpu_used_bytes :: u64
  ms_gpu_peak_bytes :: u64
  ms_allocation_count :: u64
  ms_transfer_count :: u64
  ms_pool_reuse_count :: u64
  ms_eviction_count :: u64
  ms_bytes_uploaded :: u64
  ms_bytes_downloaded :: u64
  ms_upload_bandwidth_gbps :: rat
  ms_download_bandwidth_gbps :: rat
  ms_cpu_pressure :: PressureLevel
  ms_gpu_pressure :: PressureLevel

end
