(* ===== verification/MemPolicy.thy ===== *)
theory MemPolicy
  imports MemTypes "HOL-Library.Signed_Division" "HOL-Library.Multiset"
begin

text \<open>
  The bookkeeping policies of the memory subsystem: the per-block residency table
  (\<open>src/mem/ResidencyManager.cpp\<close>), the utilisation thresholds
  (\<open>src/mem/PressureMonitor.cpp\<close>) and the choice of eviction victims
  (\<open>src/mem/EvictionPolicy.cpp\<close>). Clock readings are parameters.
\<close>

section \<open>ResidencyManager\<close>

record Meta =
  mt_residency :: Residency
  mt_last_accessed :: time_point
  mt_access_count :: u64

type_synonym ResidencyManager = "(u64 \<times> Meta) list"

definition registerBlock :: "time_point \<Rightarrow> u64 \<Rightarrow> Residency \<Rightarrow> ResidencyManager \<Rightarrow> ResidencyManager" where
  "registerBlock now ident r m =
     AList.update ident \<lparr>mt_residency = r, mt_last_accessed = now, mt_access_count = 0\<rparr> m"

definition unregisterBlock :: "u64 \<Rightarrow> ResidencyManager \<Rightarrow> ResidencyManager" where
  "unregisterBlock ident m = AList.delete ident m"

fun promote_residency :: "MemoryLocation \<Rightarrow> Residency \<Rightarrow> Residency" where
  "promote_residency MemoryLocation.GPU r =
     (if r = Residency.CPU then Residency.CPU_AND_GPU
      else if r = Residency.DISK then Residency.GPU else r)"
| "promote_residency MemoryLocation.CPU r =
     (if r = Residency.DISK then Residency.CPU
      else if r = Residency.GPU then Residency.CPU_AND_GPU else r)"
| "promote_residency _ r = r"

fun demote_residency :: "MemoryLocation \<Rightarrow> Residency \<Rightarrow> Residency" where
  "demote_residency MemoryLocation.GPU r =
     (if r = Residency.CPU_AND_GPU then Residency.CPU
      else if r = Residency.GPU then Residency.DISK else r)"
| "demote_residency MemoryLocation.CPU r =
     (if r = Residency.CPU_AND_GPU then Residency.GPU
      else if r = Residency.CPU then Residency.DISK else r)"
| "demote_residency _ r = r"

definition promote :: "u64 \<Rightarrow> MemoryLocation \<Rightarrow> ResidencyManager \<Rightarrow> ResidencyManager" where
  "promote ident target m = (case map_of m ident of None \<Rightarrow> m
     | Some e \<Rightarrow> AList.update ident (e\<lparr>mt_residency := promote_residency target (mt_residency e)\<rparr>) m)"

definition demote :: "u64 \<Rightarrow> MemoryLocation \<Rightarrow> ResidencyManager \<Rightarrow> ResidencyManager" where
  "demote ident from_loc m = (case map_of m ident of None \<Rightarrow> m
     | Some e \<Rightarrow> AList.update ident (e\<lparr>mt_residency := demote_residency from_loc (mt_residency e)\<rparr>) m)"

definition getResidency :: "ResidencyManager \<Rightarrow> u64 \<Rightarrow> Residency" where
  "getResidency m ident = (case map_of m ident of None \<Rightarrow> Residency.DISK | Some e \<Rightarrow> mt_residency e)"

definition touch :: "time_point \<Rightarrow> u64 \<Rightarrow> ResidencyManager \<Rightarrow> ResidencyManager" where
  "touch now ident m = (case map_of m ident of None \<Rightarrow> m
     | Some e \<Rightarrow> AList.update ident
         (e\<lparr>mt_last_accessed := now, mt_access_count := mt_access_count e + 1\<rparr>) m)"

definition getBlockInfo :: "ResidencyManager \<Rightarrow> u64 \<Rightarrow> (time_point \<times> u64) option" where
  "getBlockInfo m ident = map_option (\<lambda>e. (mt_last_accessed e, mt_access_count e)) (map_of m ident)"

lemma getResidency_promote:
  "getResidency (promote i t m) j =
     (if i = j \<and> map_of m j \<noteq> None then promote_residency t (getResidency m j) else getResidency m j)"
  by (auto simp: getResidency_def promote_def split: option.splits)

lemma getResidency_demote:
  "getResidency (demote i t m) j =
     (if i = j \<and> map_of m j \<noteq> None then demote_residency t (getResidency m j) else getResidency m j)"
  by (auto simp: getResidency_def demote_def split: option.splits)

lemma getResidency_touch [simp]: "getResidency (touch now i m) j = getResidency m j"
  by (auto simp: getResidency_def touch_def split: option.splits)

lemma touch_keys [simp]: "map_of (touch now i m) j = None \<longleftrightarrow> map_of m j = None"
  by (auto simp: touch_def split: option.splits)

lemma promote_keys [simp]: "map_of (promote i t m) j = None \<longleftrightarrow> map_of m j = None"
  by (auto simp: promote_def split: option.splits)

section \<open>PressureMonitor\<close>

record PressureMonitor =
  pm_warn :: rat
  pm_high :: rat
  pm_crit :: rat

definition pressure_default :: PressureMonitor where
  "pressure_default = \<lparr>pm_warn = dbl (70 / 100), pm_high = dbl (85 / 100), pm_crit = dbl (95 / 100)\<rparr>"

definition assess :: "PressureMonitor \<Rightarrow> u64 \<Rightarrow> u64 \<Rightarrow> PressureLevel" where
  "assess p usedBytes capacityBytes =
     (if capacityBytes = 0 then PressureLevel.NORMAL
      else let ratio = dbl (dbl_of_u64 usedBytes / dbl_of_u64 capacityBytes) in
      if ratio \<ge> pm_crit p then PressureLevel.CRITICAL
      else if ratio \<ge> pm_high p then PressureLevel.HIGH
      else if ratio \<ge> pm_warn p then PressureLevel.WARNING
      else PressureLevel.NORMAL)"

definition setThresholds :: "rat \<Rightarrow> rat \<Rightarrow> rat \<Rightarrow> PressureMonitor \<Rightarrow> PressureMonitor" where
  "setThresholds w h c p = p\<lparr>pm_warn := w, pm_high := h, pm_crit := c\<rparr>"

section \<open>EvictionPolicy\<close>

record ScoredBlock =
  sb_id :: u64
  sb_score :: rat
  sb_priority :: MemoryPriority

fun priority_base :: "MemoryPriority \<Rightarrow> rat" where
  "priority_base MemoryPriority.LOW = 0"
| "priority_base MemoryPriority.NORMAL = 1000"
| "priority_base MemoryPriority.HIGH = 10000"
| "priority_base MemoryPriority.CRITICAL = 100000"

text \<open>Time points count nanoseconds; \<open>duration_cast\<close> to milliseconds truncates.\<close>

definition age_ms :: "time_point \<Rightarrow> MemoryBlock \<Rightarrow> int" where
  "age_ms now b = (int now - int (mb_last_accessed b)) sdiv 1000000"

definition agePenalty :: "int \<Rightarrow> rat" where
  "agePenalty age = (let pen = dbl (dbl (of_int age) * dbl (1 / 1000)) in
     if pen > 900 then 900 else pen)"

definition scoreBlock :: "time_point \<Rightarrow> MemoryBlock \<Rightarrow> rat" where
  "scoreBlock now b = dbl (dbl (0 + priority_base (mb_priority b)) - agePenalty (age_ms now b))"

definition scored :: "time_point \<Rightarrow> MemoryBlock \<Rightarrow> ScoredBlock" where
  "scored now b = \<lparr>sb_id = mb_id b, sb_score = scoreBlock now b, sb_priority = mb_priority b\<rparr>"

text \<open>The collecting loop: skip critical blocks, stop when \<open>count\<close> are taken.\<close>

fun take_victims :: "nat \<Rightarrow> ScoredBlock list \<Rightarrow> u64 list" where
  "take_victims n [] = []"
| "take_victims n (b # bs) =
     (if n = 0 then []
      else if sb_priority b = MemoryPriority.CRITICAL then take_victims n bs
      else sb_id b # take_victims (n - 1) bs)"

text \<open>
  \<open>std::sort\<close> is not stable, so which of two equal scores comes first is open: the sorting
  function is a parameter, and the theorems assume only that it sorts.
\<close>

definition selectForEviction ::
    "(ScoredBlock list \<Rightarrow> ScoredBlock list) \<Rightarrow> time_point \<Rightarrow> MemoryBlock list \<Rightarrow> nat \<Rightarrow> u64 list" where
  "selectForEviction srt now candidates cnt =
     (if cnt = 0 \<or> candidates = [] then []
      else take_victims cnt (srt (map (scored now) candidates)))"

definition is_sort :: "(ScoredBlock list \<Rightarrow> ScoredBlock list) \<Rightarrow> bool" where
  "is_sort srt \<longleftrightarrow> (\<forall>xs. mset (srt xs) = mset xs \<and> sorted (map sb_score (srt xs)))"

lemma is_sort_sort_key: "is_sort (sort_key sb_score)"
  by (simp add: is_sort_def)

section \<open>Properties\<close>

text \<open>
  pressure is monotone in the used bytes, in spite of the rounding of both conversions and
  of the division, whatever the three thresholds are.
\<close>

lemma assess_mono:
  assumes "u \<le> u'"
  shows "assess p u cap \<le> assess p u' cap"
proof -
  have "dbl_of_u64 u / dbl_of_u64 cap \<le> dbl_of_u64 u' / dbl_of_u64 cap"
    using assms by (intro divide_right_mono dbl_of_u64_mono dbl_of_u64_nonneg)
  then have "dbl (dbl_of_u64 u / dbl_of_u64 cap) \<le> dbl (dbl_of_u64 u' / dbl_of_u64 cap)"
    by (rule dbl_mono)
  then show ?thesis
    by (simp add: assess_def Let_def less_eq_PressureLevel_def)
qed

lemma assess_mono_instance:
  "assess pressure_default 900 1000 \<le> assess pressure_default 960 1000"
  by (rule assess_mono) simp

text \<open>Scores: the age penalty stays within \<open>[0, 900]\<close>, so priorities never overlap.\<close>

lemma agePenalty_bounds:
  assumes "0 \<le> age"
  shows "0 \<le> agePenalty age" "agePenalty age \<le> 900"
proof -
  have "0 \<le> dbl (of_int age)" using assms by (intro dbl_nonneg) simp
  moreover have "0 \<le> dbl (1 / 1000)" by (intro dbl_nonneg) simp
  ultimately have "0 \<le> dbl (dbl (of_int age) * dbl (1 / 1000))"
    by (simp add: dbl_nonneg)
  then show "0 \<le> agePenalty age" by (simp add: agePenalty_def Let_def)
  show "agePenalty age \<le> 900" by (simp add: agePenalty_def Let_def)
qed

lemma age_ms_nonneg: "mb_last_accessed b \<le> now \<Longrightarrow> 0 \<le> age_ms now b"
  by (simp add: age_ms_def signed_divide_int_def sgn_if)

lemma dbl_base: "dbl (priority_base p) = priority_base p"
  by (cases p) (simp_all add: dbl_numeral)

lemma dbl_base_minus: "dbl (priority_base p - 900) = priority_base p - 900"
proof (cases p)
  case LOW
  have "dbl (of_int (- 900)) = of_int (- 900)" by (intro dbl_int) simp
  with LOW show ?thesis by simp
qed (simp_all add: dbl_numeral)

lemma scoreBlock_bounds:
  assumes "mb_last_accessed b \<le> now"
  shows "priority_base (mb_priority b) - 900 \<le> scoreBlock now b"
    and "scoreBlock now b \<le> priority_base (mb_priority b)"
proof -
  note pen = agePenalty_bounds [OF age_ms_nonneg [OF assms]]
  have "dbl (priority_base (mb_priority b) - 900)
      \<le> dbl (priority_base (mb_priority b) - agePenalty (age_ms now b))"
    using pen by (intro dbl_mono) simp
  then show "priority_base (mb_priority b) - 900 \<le> scoreBlock now b"
    by (simp add: scoreBlock_def dbl_base dbl_base_minus)
  have "dbl (priority_base (mb_priority b) - agePenalty (age_ms now b))
      \<le> dbl (priority_base (mb_priority b))"
    using pen by (intro dbl_mono) simp
  then show "scoreBlock now b \<le> priority_base (mb_priority b)"
    by (simp add: scoreBlock_def dbl_base)
qed

lemma score_priority:
  assumes "mb_last_accessed b \<le> now" "mb_last_accessed c \<le> now" "scoreBlock now b \<le> scoreBlock now c"
  shows "priority_value (mb_priority c) \<le> priority_value (mb_priority b)"
  using scoreBlock_bounds [OF assms(1)] scoreBlock_bounds [OF assms(2)] assms(3)
  by (cases "mb_priority b"; cases "mb_priority c") simp_all

lemma take_victims_filter:
  "take_victims n bs = map sb_id (take n (filter (\<lambda>b. sb_priority b \<noteq> MemoryPriority.CRITICAL) bs))"
proof (induction bs arbitrary: n)
  case (Cons b bs)
  then show ?case by (cases n) simp_all
qed simp

lemma sorted_take_drop_le:
  assumes "sorted (map f xs)" "x \<in> set (take n xs)" "y \<in> set (drop n xs)"
  shows "f x \<le> f y"
proof -
  have "sorted (map f (take n xs) @ map f (drop n xs))"
    using assms(1) by (simp flip: map_append)
  then show ?thesis using assms(2,3) by (simp add: sorted_append)
qed

text \<open>
  victims are non-critical candidates, at most \<open>count\<close> of them, and the choice is by
  priority first: a candidate that was spared, though it could have been evicted, is at least
  as important as each victim and scores at least as high.
\<close>

lemma selectForEviction_sound:
  assumes srt: "is_sort srt" and now: "\<forall>b\<in>set cs. mb_last_accessed b \<le> now"
    and v: "v \<in> set (selectForEviction srt now cs cnt)"
  shows "length (selectForEviction srt now cs cnt) \<le> cnt \<and>
    (\<exists>b\<in>set cs. mb_id b = v \<and> mb_priority b \<noteq> MemoryPriority.CRITICAL \<and>
       (\<forall>c\<in>set cs. mb_priority c \<noteq> MemoryPriority.CRITICAL \<longrightarrow>
          mb_id c \<notin> set (selectForEviction srt now cs cnt) \<longrightarrow>
          scoreBlock now b \<le> scoreBlock now c \<and>
          priority_value (mb_priority c) \<le> priority_value (mb_priority b)))"
proof -
  define fs where "fs = filter (\<lambda>b. sb_priority b \<noteq> MemoryPriority.CRITICAL) (srt (map (scored now) cs))"
  have sel: "selectForEviction srt now cs cnt = map sb_id (take cnt fs)"
    using v by (auto simp: selectForEviction_def take_victims_filter fs_def split: if_splits)
  have "mset (srt (map (scored now) cs)) = mset (map (scored now) cs)"
    using srt by (simp add: is_sort_def)
  then have "set (srt (map (scored now) cs)) = set (map (scored now) cs)"
    by (rule mset_eq_setD)
  then have set_fs: "set fs = {scored now b | b. b \<in> set cs \<and> mb_priority b \<noteq> MemoryPriority.CRITICAL}"
    by (auto simp: fs_def scored_def)
  have sorted: "sorted (map sb_score fs)"
    using srt by (simp add: fs_def is_sort_def sorted_filter)
  obtain sv where sv: "sv \<in> set (take cnt fs)" "sb_id sv = v" using v sel by auto
  then obtain b where b: "sv = scored now b" "b \<in> set cs" "mb_priority b \<noteq> MemoryPriority.CRITICAL"
    using set_fs set_take_subset [of cnt fs] by blast
  have "scoreBlock now b \<le> scoreBlock now c \<and>
      priority_value (mb_priority c) \<le> priority_value (mb_priority b)"
    if c: "c \<in> set cs" "mb_priority c \<noteq> MemoryPriority.CRITICAL"
      "mb_id c \<notin> set (selectForEviction srt now cs cnt)" for c
  proof -
    have "scored now c \<in> set fs" using c set_fs by blast
    moreover have "scored now c \<notin> set (take cnt fs)" using c(3) sel by (force simp: scored_def)
    ultimately have "scored now c \<in> set (drop cnt fs)"
      by (metis append_take_drop_id Un_iff set_append)
    from sorted_take_drop_le [OF sorted sv(1) this]
    have "scoreBlock now b \<le> scoreBlock now c" by (simp add: b scored_def)
    with score_priority [of b now c] now b(2) c(1) show ?thesis by simp
  qed
  with b sv sel show ?thesis by (auto simp: scored_def)
qed

lemma selectForEviction_sound_instance:
  "let cs = [empty_block\<lparr>mb_id := 1, mb_priority := MemoryPriority.HIGH, mb_last_accessed := 5\<rparr>,
             empty_block\<lparr>mb_id := 2, mb_priority := MemoryPriority.LOW, mb_last_accessed := 7\<rparr>]
   in 2 \<in> set (selectForEviction (sort_key sb_score) 9 cs 1) \<and>
      length (selectForEviction (sort_key sb_score) 9 cs 1) \<le> 1"
proof -
  let ?cs = "[empty_block\<lparr>mb_id := 1, mb_priority := MemoryPriority.HIGH, mb_last_accessed := 5\<rparr>,
             empty_block\<lparr>mb_id := 2, mb_priority := MemoryPriority.LOW, mb_last_accessed := 7\<rparr>]"
  have v: "2 \<in> set (selectForEviction (sort_key sb_score) 9 ?cs 1)"
    by code_simp
  from selectForEviction_sound [OF is_sort_sort_key _ v] v show ?thesis by simp
qed

end
