(* ===== verification/Allocators.thy ===== *)
theory Allocators
  imports MemTypes
begin

text \<open>
  The two allocators behind \<open>IMemoryAllocator\<close> (\<open>src/mem/CPUAllocator.cpp\<close>,
  \<open>src/mem/VulkanAllocator.cpp\<close>). What the operating system and the Vulkan driver answer is
  a parameter of each call: the pointer \<open>std::malloc\<close> returns (0 for the null pointer) and
  the buffer identifier \<open>createBuffer\<close> returns (0 on failure). The interface is a record of
  operations, the model of the C++ virtual table; the locale \<open>memory_allocator\<close> states what
  a client may rely on and both allocators are interpreted as instances of it.
\<close>

section \<open>The interface\<close>

record 'a IMemoryAllocator =
  ma_allocate :: "u64 \<Rightarrow> 'a \<Rightarrow> MemoryBlock \<times> 'a"
  ma_free :: "MemoryBlock \<Rightarrow> 'a \<Rightarrow> MemoryBlock \<times> 'a"
  ma_used :: "'a \<Rightarrow> u64"
  ma_capacity :: "'a \<Rightarrow> u64"

section \<open>CPUAllocator\<close>

record CPUAllocator =
  ca_records :: "(u64 \<times> (u64 \<times> u64)) list"
  ca_nextId :: u64
  ca_usedBytes :: u64
  ca_peakBytes :: u64
  ca_allocationCount :: u64
  ca_totalRamBytes :: u64

definition cpu_init :: "u64 \<Rightarrow> CPUAllocator" where
  "cpu_init totalRam = \<lparr>ca_records = [], ca_nextId = 1, ca_usedBytes = 0, ca_peakBytes = 0,
     ca_allocationCount = 0, ca_totalRamBytes = totalRam\<rparr>"

definition cpu_allocate ::
    "(u64 \<Rightarrow> u64) \<Rightarrow> time_point \<Rightarrow> u64 \<Rightarrow> CPUAllocator \<Rightarrow> MemoryBlock \<times> CPUAllocator" where
  "cpu_allocate malloc now sz a =
     (if sz = 0 then (empty_block, a)
      else let ptr = malloc sz in
      if ptr = 0 then (empty_block, a)
      else let
        ident = ca_nextId a;
        used = ca_usedBytes a + sz;
        a' = a\<lparr>ca_nextId := ca_nextId a + 1,
               ca_records := AList.update ident (ptr, sz) (ca_records a),
               ca_usedBytes := used,
               ca_peakBytes := (if used > ca_peakBytes a then used else ca_peakBytes a),
               ca_allocationCount := ca_allocationCount a + 1\<rparr>
      in (empty_block\<lparr>mb_id := ident, mb_size := sz, mb_location := MemoryLocation.CPU,
            mb_state := MemoryState.RESIDENT, mb_residency := Residency.CPU,
            mb_backend_handle := ptr, mb_last_accessed := now\<rparr>, a'))"

definition cpu_free :: "MemoryBlock \<Rightarrow> CPUAllocator \<Rightarrow> MemoryBlock \<times> CPUAllocator" where
  "cpu_free b a =
     (if \<not> isValid b then (b, a)
      else case map_of (ca_records a) (mb_id b) of
        None \<Rightarrow> (b, a)
      | Some (ptr, sz) \<Rightarrow>
          (empty_block,
           a\<lparr>ca_usedBytes := ca_usedBytes a - sz,
             ca_records := AList.delete (mb_id b) (ca_records a)\<rparr>))"

definition cpu_vtable :: "(u64 \<Rightarrow> u64) \<Rightarrow> time_point \<Rightarrow> CPUAllocator IMemoryAllocator" where
  "cpu_vtable malloc now = \<lparr>ma_allocate = cpu_allocate malloc now, ma_free = cpu_free,
     ma_used = ca_usedBytes, ma_capacity = ca_totalRamBytes\<rparr>"

section \<open>VulkanAllocator\<close>

record Buffer =
  buf_id :: u64
  buf_size_bytes :: u64

record VulkanAllocator =
  va_records :: "(u64 \<times> Buffer) list"
  va_nextId :: u64
  va_usedBytes :: u64
  va_peakBytes :: u64
  va_allocationCount :: u64
  va_deviceLocalHeapBytes :: u64
  va_hostVisibleHeapBytes :: u64

definition gpu_init :: "u64 \<Rightarrow> u64 \<Rightarrow> VulkanAllocator" where
  "gpu_init deviceLocal hostVisible = \<lparr>va_records = [], va_nextId = 1, va_usedBytes = 0,
     va_peakBytes = 0, va_allocationCount = 0, va_deviceLocalHeapBytes = deviceLocal,
     va_hostVisibleHeapBytes = hostVisible\<rparr>"

text \<open>
  What the Vulkan backend answers: whether it is available, and the identifier of the buffer
  it creates for a request, 0 when a driver call fails. A created buffer carries the size that
  was asked for.
\<close>

record VulkanEnv =
  ve_available :: bool
  ve_newBufferId :: "u64 \<Rightarrow> u64"

definition createBuffer :: "VulkanEnv \<Rightarrow> u64 \<Rightarrow> Buffer" where
  "createBuffer backend sz = (let ident = ve_newBufferId backend sz in
     if ident = 0 then \<lparr>buf_id = 0, buf_size_bytes = 0\<rparr>
     else \<lparr>buf_id = ident, buf_size_bytes = sz\<rparr>)"

definition gpu_allocate ::
    "VulkanEnv \<Rightarrow> time_point \<Rightarrow> u64 \<Rightarrow> VulkanAllocator \<Rightarrow> MemoryBlock \<times> VulkanAllocator" where
  "gpu_allocate backend now sz a =
     (if \<not> ve_available backend \<or> sz = 0 then (empty_block, a)
      else let buf = createBuffer backend sz in
      if buf_id buf = 0 then (empty_block, a)
      else let
        ident = va_nextId a;
        used = va_usedBytes a + sz;
        a' = a\<lparr>va_nextId := va_nextId a + 1,
               va_records := AList.update ident buf (va_records a),
               va_usedBytes := used,
               va_peakBytes := (if used > va_peakBytes a then used else va_peakBytes a),
               va_allocationCount := va_allocationCount a + 1\<rparr>
      in (empty_block\<lparr>mb_id := ident, mb_size := sz, mb_location := MemoryLocation.GPU,
            mb_state := MemoryState.RESIDENT, mb_residency := Residency.GPU,
            mb_backend_handle := buf_id buf, mb_last_accessed := now\<rparr>, a'))"

text \<open>The GPU allocator subtracts the size in the caller's descriptor, not the recorded one.\<close>

definition gpu_free :: "MemoryBlock \<Rightarrow> VulkanAllocator \<Rightarrow> MemoryBlock \<times> VulkanAllocator" where
  "gpu_free b a =
     (if \<not> isValid b then (b, a)
      else case map_of (va_records a) (mb_id b) of
        None \<Rightarrow> (b, a)
      | Some buf \<Rightarrow>
          (empty_block,
           a\<lparr>va_usedBytes := va_usedBytes a - mb_size b,
             va_records := AList.delete (mb_id b) (va_records a)\<rparr>))"

definition gpu_available :: "VulkanAllocator \<Rightarrow> u64" where
  "gpu_available a = (if va_deviceLocalHeapBytes a > va_usedBytes a
     then va_deviceLocalHeapBytes a - va_usedBytes a else 0)"

definition gpu_vtable :: "VulkanEnv \<Rightarrow> time_point \<Rightarrow> VulkanAllocator IMemoryAllocator" where
  "gpu_vtable backend now = \<lparr>ma_allocate = gpu_allocate backend now, ma_free = gpu_free,
     ma_used = va_usedBytes, ma_capacity = va_deviceLocalHeapBytes\<rparr>"

section \<open>The contract of an allocator\<close>

text \<open>
  \<open>blocks a\<close> is the abstract state: the sizes of the live allocations by identifier.
  \<open>ids_left\<close> counts the identifiers the 64-bit counter can still give out before it wraps.
\<close>

locale memory_allocator =
  fixes ops :: "'a IMemoryAllocator"
    and blocks :: "'a \<Rightarrow> u64 \<Rightarrow> u64 option"
    and inv :: "'a \<Rightarrow> bool"
    and ids_left :: "'a \<Rightarrow> nat"
  assumes alloc_fail: "inv a \<Longrightarrow> ma_allocate ops n a = (b, a') \<Longrightarrow> \<not> isValid b \<Longrightarrow>
      b = empty_block \<and> a' = a"
    and alloc_ok: "inv a \<Longrightarrow> ma_allocate ops n a = (b, a') \<Longrightarrow> isValid b \<Longrightarrow>
      blocks a (mb_id b) = None \<and> blocks a' = (blocks a)(mb_id b \<mapsto> n) \<and> mb_size b = n"
    and alloc_inv: "inv a \<Longrightarrow> 0 < ids_left a \<Longrightarrow> inv (snd (ma_allocate ops n a))"
    and alloc_left: "inv a \<Longrightarrow> ids_left a \<le> Suc (ids_left (snd (ma_allocate ops n a)))"
    and free_left: "ids_left (snd (ma_free ops b a)) = ids_left a"
    and free_live: "inv a \<Longrightarrow> blocks a (mb_id b) = Some (mb_size b) \<Longrightarrow>
      ma_free ops b a = (b', a') \<Longrightarrow> b' = empty_block \<and> blocks a' = (blocks a)(mb_id b := None)"
    and free_unknown: "blocks a (mb_id b) = None \<Longrightarrow> ma_free ops b a = (b, a)"
    and free_inv: "inv a \<Longrightarrow> (blocks a (mb_id b) = None \<or> blocks a (mb_id b) = Some (mb_size b)) \<Longrightarrow>
      inv (snd (ma_free ops b a))"
    and zero_free: "inv a \<Longrightarrow> blocks a 0 = None"
    and used_sum: "inv a \<Longrightarrow> finite (dom (blocks a)) \<and>
      ma_used ops a = (\<Sum>i\<in>dom (blocks a). the (blocks a i))"
begin

lemma live_valid: "inv a \<Longrightarrow> blocks a (mb_id b) = Some n \<Longrightarrow> isValid b"
  using zero_free by (auto simp: isValid_def)

text \<open>Allocating and freeing at once restores the abstract state and the byte count.\<close>

lemma alloc_free_restores:
  assumes "inv a" "0 < ids_left a" "ma_allocate ops n a = (b, a1)" "isValid b"
    and "ma_free ops b a1 = (b2, a2)"
  shows "blocks a2 = blocks a \<and> ma_used ops a2 = ma_used ops a \<and> b2 = empty_block"
proof -
  note ok = alloc_ok [OF assms(1,3,4)]
  have i1: "inv a1" using alloc_inv [OF assms(1,2), of n] assms(3) by simp
  have live: "blocks a1 (mb_id b) = Some (mb_size b)" using ok by simp
  note fr = free_live [OF i1 live assms(5)]
  have "blocks a2 = blocks a" using fr ok by (auto simp: fun_upd_idem)
  moreover have "inv a2" using free_inv [OF i1 disjI2 [OF live]] assms(5) by simp
  ultimately show ?thesis using fr used_sum [OF assms(1)] used_sum [of a2] by simp
qed

text \<open>A second free of the same descriptor, or of its emptied copy, changes nothing.\<close>

lemma double_free_ignored:
  assumes "inv a" "blocks a (mb_id b) = Some (mb_size b)" "ma_free ops b a = (b1, a1)"
  shows "ma_free ops b a1 = (b, a1) \<and> ma_free ops b1 a1 = (b1, a1)"
proof -
  note fr = free_live [OF assms]
  have "inv a1" using free_inv [OF assms(1) disjI2 [OF assms(2)]] assms(3) by simp
  then show ?thesis using fr zero_free [OF assms(1)] by (auto intro!: free_unknown)
qed

end

section \<open>Both allocators meet the contract\<close>

definition cpu_blocks :: "CPUAllocator \<Rightarrow> u64 \<Rightarrow> u64 option" where
  "cpu_blocks a ident = map_option snd (map_of (ca_records a) ident)"

definition cpu_inv :: "CPUAllocator \<Rightarrow> bool" where
  "cpu_inv a \<longleftrightarrow> distinct (keys_of (ca_records a)) \<and> ca_nextId a \<noteq> 0 \<and>
     (\<forall>ident\<in>set (keys_of (ca_records a)). ident \<noteq> 0 \<and> ident < ca_nextId a) \<and>
     ca_usedBytes a = asum snd (ca_records a)"

definition cpu_ids_left :: "CPUAllocator \<Rightarrow> nat" where
  "cpu_ids_left a = 2 ^ 64 - 1 - unat (ca_nextId a)"

lemma cpu_ids_left_pos: "0 < cpu_ids_left a \<Longrightarrow> ca_nextId a \<noteq> - 1"
  by (auto simp: cpu_ids_left_def)

lemma cpu_alloc_left: "cpu_ids_left a \<le> Suc (cpu_ids_left (snd (cpu_allocate malloc now n a)))"
  by (cases "ca_nextId a = - 1")
    (auto simp: cpu_ids_left_def cpu_allocate_def Let_def unat_Suc_exact)

lemma cpu_free_left: "cpu_ids_left (snd (cpu_free b a)) = cpu_ids_left a"
  by (auto simp: cpu_ids_left_def cpu_free_def split: option.splits)

lemma cpu_inv_init: "cpu_inv (cpu_init ram)"
  by (simp add: cpu_inv_def cpu_init_def keys_of_def)

lemma fresh_id_absent:
  fixes n :: u64
  shows "\<forall>i\<in>set (keys_of xs). i \<noteq> 0 \<and> i < n \<Longrightarrow> map_of xs n = None"
  by (auto simp: map_of_eq_None)

lemma keys_of_update: "set (keys_of (AList.update k v xs)) = insert k (set (keys_of xs))"
  by (auto simp: keys_of_def update_keys)

lemma next_id_step:
  fixes n :: u64
  assumes "n \<noteq> - 1" "n \<noteq> 0"
  shows "n + 1 \<noteq> 0 \<and> n < n + 1 \<and> (\<forall>i. i < n \<longrightarrow> i < n + 1)"
  using assms word_not_max_less [of n] by (auto simp: word_le_less_eq)

lemma cpu_alloc_inv:
  assumes "cpu_inv a" "0 < cpu_ids_left a"
  shows "cpu_inv (snd (cpu_allocate malloc now n a))"
proof -
  have "map_of (ca_records a) (ca_nextId a) = None"
    using assms(1) by (intro fresh_id_absent) (simp add: cpu_inv_def)
  then show ?thesis
    using assms cpu_ids_left_pos next_id_step [of "ca_nextId a"]
    by (auto simp: cpu_allocate_def Let_def cpu_inv_def keys_of_update
        asum_update_new distinct_keys_update)
qed

lemma cpu_free_inv: "cpu_inv a \<Longrightarrow> cpu_inv (snd (cpu_free b a))"
  using asum_delete [of "ca_records a" "mb_id b" _ snd]
  by (auto simp: cpu_free_def cpu_inv_def keys_of_delete split: option.splits)

interpretation cpu: memory_allocator "cpu_vtable malloc now" cpu_blocks cpu_inv cpu_ids_left
  for malloc now
proof unfold_locales
  fix a n and b :: MemoryBlock and a'
  assume "cpu_inv a" "ma_allocate (cpu_vtable malloc now) n a = (b, a')" "\<not> isValid b"
  then show "b = empty_block \<and> a' = a"
    by (auto simp: cpu_vtable_def cpu_allocate_def Let_def cpu_inv_def isValid_def
        split: if_splits)
next
  fix a n and b :: MemoryBlock and a'
  assume "cpu_inv a" "ma_allocate (cpu_vtable malloc now) n a = (b, a')" "isValid b"
  then show "cpu_blocks a (mb_id b) = None \<and> cpu_blocks a' = (cpu_blocks a)(mb_id b \<mapsto> n) \<and>
      mb_size b = n"
    by (auto simp: cpu_vtable_def cpu_allocate_def Let_def cpu_inv_def cpu_blocks_def
        fresh_id_absent fun_eq_iff split: if_splits)
next
  fix a n
  assume "cpu_inv a" "0 < cpu_ids_left a"
  then show "cpu_inv (snd (ma_allocate (cpu_vtable malloc now) n a))"
    by (simp add: cpu_vtable_def cpu_alloc_inv)
next
  fix a n
  show "cpu_ids_left a \<le> Suc (cpu_ids_left (snd (ma_allocate (cpu_vtable malloc now) n a)))"
    by (simp add: cpu_vtable_def cpu_alloc_left)
next
  fix a and b :: MemoryBlock
  show "cpu_ids_left (snd (ma_free (cpu_vtable malloc now) b a)) = cpu_ids_left a"
    by (simp add: cpu_vtable_def cpu_free_left)
next
  fix a and b b' :: MemoryBlock and a'
  assume "cpu_inv a" "cpu_blocks a (mb_id b) = Some (mb_size b)"
    "ma_free (cpu_vtable malloc now) b a = (b', a')"
  then show "b' = empty_block \<and> cpu_blocks a' = (cpu_blocks a)(mb_id b := None)"
    by (auto simp: cpu_vtable_def cpu_free_def cpu_blocks_def cpu_inv_def fun_eq_iff isValid_def
        dest!: map_of_mem_keys split: option.splits if_splits)
next
  fix a and b :: MemoryBlock
  assume "cpu_blocks a (mb_id b) = None"
  then show "ma_free (cpu_vtable malloc now) b a = (b, a)"
    by (auto simp: cpu_vtable_def cpu_free_def cpu_blocks_def split: option.splits)
next
  fix a and b :: MemoryBlock
  assume "cpu_inv a"
  then show "cpu_inv (snd (ma_free (cpu_vtable malloc now) b a))"
    by (simp add: cpu_vtable_def cpu_free_inv)
next
  fix a
  assume "cpu_inv a"
  then show "cpu_blocks a 0 = None"
    by (auto simp: cpu_inv_def cpu_blocks_def map_of_eq_None)
next
  fix a
  assume "cpu_inv a"
  then show "finite (dom (cpu_blocks a)) \<and> ma_used (cpu_vtable malloc now) a =
      (\<Sum>i\<in>dom (cpu_blocks a). the (cpu_blocks a i))"
    by (auto simp: cpu_inv_def cpu_vtable_def cpu_blocks_def [abs_def] asum_dom finite_dom_map_of
        dom_def [symmetric] dom_map_option intro!: sum.cong)
qed

definition gpu_blocks :: "VulkanAllocator \<Rightarrow> u64 \<Rightarrow> u64 option" where
  "gpu_blocks a ident = map_option buf_size_bytes (map_of (va_records a) ident)"

definition gpu_inv :: "VulkanAllocator \<Rightarrow> bool" where
  "gpu_inv a \<longleftrightarrow> distinct (keys_of (va_records a)) \<and> va_nextId a \<noteq> 0 \<and>
     (\<forall>ident\<in>set (keys_of (va_records a)). ident \<noteq> 0 \<and> ident < va_nextId a) \<and>
     va_usedBytes a = asum buf_size_bytes (va_records a)"

definition gpu_ids_left :: "VulkanAllocator \<Rightarrow> nat" where
  "gpu_ids_left a = 2 ^ 64 - 1 - unat (va_nextId a)"

lemma gpu_ids_left_pos: "0 < gpu_ids_left a \<Longrightarrow> va_nextId a \<noteq> - 1"
  by (auto simp: gpu_ids_left_def)

lemma gpu_alloc_left: "gpu_ids_left a \<le> Suc (gpu_ids_left (snd (gpu_allocate backend now n a)))"
  by (cases "va_nextId a = - 1")
    (auto simp: gpu_ids_left_def gpu_allocate_def Let_def unat_Suc_exact)

lemma gpu_free_left: "gpu_ids_left (snd (gpu_free b a)) = gpu_ids_left a"
  by (auto simp: gpu_ids_left_def gpu_free_def split: option.splits)

lemma gpu_inv_init: "gpu_inv (gpu_init dl hv)"
  by (simp add: gpu_inv_def gpu_init_def keys_of_def)

lemma gpu_alloc_inv:
  assumes "gpu_inv a" "0 < gpu_ids_left a"
  shows "gpu_inv (snd (gpu_allocate backend now n a))"
proof -
  have "map_of (va_records a) (va_nextId a) = None"
    using assms(1) by (intro fresh_id_absent) (simp add: gpu_inv_def)
  then show ?thesis
    using assms gpu_ids_left_pos next_id_step [of "va_nextId a"]
    by (auto simp: gpu_allocate_def createBuffer_def Let_def gpu_inv_def
        keys_of_update asum_update_new distinct_keys_update)
qed

lemma gpu_free_inv:
  "gpu_inv a \<Longrightarrow> gpu_blocks a (mb_id b) = None \<or> gpu_blocks a (mb_id b) = Some (mb_size b) \<Longrightarrow>
   gpu_inv (snd (gpu_free b a))"
  using asum_delete [of "va_records a" "mb_id b" _ buf_size_bytes]
  by (auto simp: gpu_free_def gpu_inv_def gpu_blocks_def keys_of_delete split: option.splits)

interpretation gpu: memory_allocator "gpu_vtable backend now" gpu_blocks gpu_inv gpu_ids_left
  for backend now
proof unfold_locales
  fix a n and b :: MemoryBlock and a'
  assume "gpu_inv a" "ma_allocate (gpu_vtable backend now) n a = (b, a')" "\<not> isValid b"
  then show "b = empty_block \<and> a' = a"
    by (auto simp: gpu_vtable_def gpu_allocate_def createBuffer_def Let_def gpu_inv_def isValid_def
        split: if_splits)
next
  fix a n and b :: MemoryBlock and a'
  assume "gpu_inv a" "ma_allocate (gpu_vtable backend now) n a = (b, a')" "isValid b"
  then show "gpu_blocks a (mb_id b) = None \<and> gpu_blocks a' = (gpu_blocks a)(mb_id b \<mapsto> n) \<and>
      mb_size b = n"
    by (auto simp: gpu_vtable_def gpu_allocate_def createBuffer_def Let_def gpu_inv_def gpu_blocks_def
        fresh_id_absent fun_eq_iff split: if_splits)
next
  fix a n
  assume "gpu_inv a" "0 < gpu_ids_left a"
  then show "gpu_inv (snd (ma_allocate (gpu_vtable backend now) n a))"
    by (simp add: gpu_vtable_def gpu_alloc_inv)
next
  fix a n
  show "gpu_ids_left a \<le> Suc (gpu_ids_left (snd (ma_allocate (gpu_vtable backend now) n a)))"
    by (simp add: gpu_vtable_def gpu_alloc_left)
next
  fix a and b :: MemoryBlock
  show "gpu_ids_left (snd (ma_free (gpu_vtable backend now) b a)) = gpu_ids_left a"
    by (simp add: gpu_vtable_def gpu_free_left)
next
  fix a and b b' :: MemoryBlock and a'
  assume "gpu_inv a" "gpu_blocks a (mb_id b) = Some (mb_size b)"
    "ma_free (gpu_vtable backend now) b a = (b', a')"
  then show "b' = empty_block \<and> gpu_blocks a' = (gpu_blocks a)(mb_id b := None)"
    by (auto simp: gpu_vtable_def gpu_free_def gpu_blocks_def gpu_inv_def fun_eq_iff isValid_def
        dest!: map_of_mem_keys split: option.splits if_splits)
next
  fix a and b :: MemoryBlock
  assume "gpu_blocks a (mb_id b) = None"
  then show "ma_free (gpu_vtable backend now) b a = (b, a)"
    by (auto simp: gpu_vtable_def gpu_free_def gpu_blocks_def split: option.splits)
next
  fix a and b :: MemoryBlock
  assume "gpu_inv a" "gpu_blocks a (mb_id b) = None \<or> gpu_blocks a (mb_id b) = Some (mb_size b)"
  then show "gpu_inv (snd (ma_free (gpu_vtable backend now) b a))"
    by (simp add: gpu_vtable_def gpu_free_inv)
next
  fix a
  assume "gpu_inv a"
  then show "gpu_blocks a 0 = None"
    by (auto simp: gpu_inv_def gpu_blocks_def map_of_eq_None)
next
  fix a
  assume "gpu_inv a"
  then show "finite (dom (gpu_blocks a)) \<and> ma_used (gpu_vtable backend now) a =
      (\<Sum>i\<in>dom (gpu_blocks a). the (gpu_blocks a i))"
    by (auto simp: gpu_inv_def gpu_vtable_def gpu_blocks_def [abs_def] asum_dom finite_dom_map_of
        dom_def [symmetric] dom_map_option intro!: sum.cong)
qed

end
