(* ===== verification/MemoryPool.thy ===== *)
theory MemoryPool
  imports Allocators
begin

text \<open>
  The free-list pool of equally sized blocks (\<open>src/mem/MemoryPool.cpp\<close>), a client of the
  allocator interface: it is written over the operations of an \<open>IMemoryAllocator\<close> and the
  allocator's state travels beside the pool's, since the pool holds a reference to it. The
  free list is a vector used as a stack: its back is the last element.
\<close>

section \<open>State and operations\<close>

record MemoryPool =
  mp_blockSize :: u64
  mp_maxFree :: u64
  mp_freeList :: "MemoryBlock list"
  mp_reuseCount :: u64
  mp_activeCount :: u64
  mp_totalCreated :: u64

definition pool_init :: "u64 \<Rightarrow> u64 \<Rightarrow> MemoryPool" where
  "pool_init blockSize maxFree = \<lparr>mp_blockSize = blockSize, mp_maxFree = maxFree,
     mp_freeList = [], mp_reuseCount = 0, mp_activeCount = 0, mp_totalCreated = 0\<rparr>"

definition pool_acquire ::
    "'a IMemoryAllocator \<Rightarrow> MemoryPool \<times> 'a \<Rightarrow> MemoryBlock \<times> MemoryPool \<times> 'a" where
  "pool_acquire ops s = (case s of (p, a) \<Rightarrow>
     if mp_freeList p \<noteq> [] then
       let b = last (mp_freeList p) in
       (b\<lparr>mb_state := MemoryState.RESIDENT, mb_access_count := 0\<rparr>,
        p\<lparr>mp_freeList := butlast (mp_freeList p),
          mp_reuseCount := mp_reuseCount p + 1,
          mp_activeCount := mp_activeCount p + 1\<rparr>, a)
     else case ma_allocate ops (mp_blockSize p) a of (b, a') \<Rightarrow>
       if isValid b then
         (b, p\<lparr>mp_activeCount := mp_activeCount p + 1,
               mp_totalCreated := mp_totalCreated p + 1\<rparr>, a')
       else (b, p, a'))"

definition pool_release ::
    "'a IMemoryAllocator \<Rightarrow> MemoryBlock \<Rightarrow> MemoryPool \<times> 'a \<Rightarrow> MemoryBlock \<times> MemoryPool \<times> 'a" where
  "pool_release ops b s = (case s of (p, a) \<Rightarrow>
     if \<not> isValid b then (b, p, a)
     else let p' = p\<lparr>mp_activeCount := mp_activeCount p - 1\<rparr> in
     if length (mp_freeList p) < unat (mp_maxFree p) then
       (empty_block,
        p'\<lparr>mp_freeList := mp_freeList p @ [b\<lparr>mb_state := MemoryState.FREE\<rparr>]\<rparr>, a)
     else (empty_block, p', snd (ma_free ops b a)))"

fun free_all :: "'a IMemoryAllocator \<Rightarrow> MemoryBlock list \<Rightarrow> 'a \<Rightarrow> 'a" where
  "free_all ops [] a = a"
| "free_all ops (b # bs) a = free_all ops bs (snd (ma_free ops b a))"

definition pool_destroy :: "'a IMemoryAllocator \<Rightarrow> MemoryPool \<times> 'a \<Rightarrow> MemoryPool \<times> 'a" where
  "pool_destroy ops s = (case s of (p, a) \<Rightarrow>
     (p\<lparr>mp_freeList := []\<rparr>, free_all ops (mp_freeList p) a))"

section \<open>Clients of a pool\<close>

text \<open>
  A client holds the blocks it acquired. \<open>Acquire\<close> adds the block when the pool could
  serve it, \<open>Release i\<close> gives back the \<open>i\<close>-th held block.
\<close>

datatype pool_op = Acquire | Release nat

fun pool_step ::
    "'a IMemoryAllocator \<Rightarrow> pool_op \<Rightarrow> MemoryBlock list \<times> MemoryPool \<times> 'a
     \<Rightarrow> MemoryBlock list \<times> MemoryPool \<times> 'a" where
  "pool_step ops Acquire (held, s) =
     (case pool_acquire ops s of (b, s') \<Rightarrow> (if isValid b then held @ [b] else held, s'))"
| "pool_step ops (Release i) (held, s) =
     (if i < length held then
        (take i held @ drop (Suc i) held, snd (pool_release ops (held ! i) s))
      else (held, s))"

fun pool_run ::
    "'a IMemoryAllocator \<Rightarrow> pool_op list \<Rightarrow> MemoryBlock list \<times> MemoryPool \<times> 'a
     \<Rightarrow> MemoryBlock list \<times> MemoryPool \<times> 'a" where
  "pool_run ops [] s = s"
| "pool_run ops (x # xs) s = pool_run ops xs (pool_step ops x s)"

section \<open>Correctness over any allocator\<close>

context memory_allocator
begin

text \<open>
  Held and free blocks together are pairwise different live allocations of the pool's size;
  the free list respects its bound and \<open>activeCount\<close> counts the held blocks.
\<close>

definition pool_ok :: "MemoryBlock list \<times> MemoryPool \<times> 'a \<Rightarrow> bool" where
  "pool_ok s \<longleftrightarrow> (case s of (held, p, a) \<Rightarrow>
     inv a \<and> distinct (map mb_id (held @ mp_freeList p)) \<and>
     (\<forall>b\<in>set (held @ mp_freeList p).
        blocks a (mb_id b) = Some (mp_blockSize p) \<and> mb_size b = mp_blockSize p) \<and>
     length (mp_freeList p) \<le> unat (mp_maxFree p) \<and>
     mp_activeCount p = of_nat (length held))"

lemma pool_ok_init: "inv a \<Longrightarrow> pool_ok ([], pool_init n m, a)"
  by (simp add: pool_ok_def pool_init_def)

lemma acquire_reuse_ok:
  assumes ok: "pool_ok (held, p, a)" and ne: "mp_freeList p \<noteq> []"
  shows "pool_ok (pool_step ops Acquire (held, p, a))"
proof -
  obtain fs b where f: "mp_freeList p = fs @ [b]" using ne by (metis append_butlast_last_id)
  have "blocks a (mb_id b) = Some (mp_blockSize p)" using ok f by (simp add: pool_ok_def)
  then have "isValid b" using ok by (auto simp: pool_ok_def intro: live_valid)
  with ok f show ?thesis
    by (auto simp: pool_ok_def pool_acquire_def isValid_def Let_def)
qed

lemma acquire_fresh_ok:
  assumes ok: "pool_ok (held, p, a)" and e: "mp_freeList p = []" and room: "0 < ids_left a"
  shows "pool_ok (pool_step ops Acquire (held, p, a))"
proof -
  obtain b a' where al: "ma_allocate ops (mp_blockSize p) a = (b, a')" by fastforce
  have i: "inv a" using ok by (simp add: pool_ok_def)
  have i': "inv a'" using alloc_inv [OF i room, of "mp_blockSize p"] al by simp
  show ?thesis
  proof (cases "isValid b")
    case False
    with alloc_fail [OF i al] al ok e show ?thesis
      by (simp add: pool_acquire_def)
  next
    case True
    note new = alloc_ok [OF i al True]
    then have "mb_id b \<notin> mb_id ` set held" using ok by (auto simp: pool_ok_def)
    with new True al ok e i' show ?thesis
      by (auto simp: pool_ok_def pool_acquire_def)
  qed
qed

lemma release_ok:
  assumes ok: "pool_ok (held, p, a)"
  shows "pool_ok (pool_step ops (Release i) (held, p, a))"
proof (cases "i < length held")
  case False
  with ok show ?thesis by simp
next
  case True
  define b where "b = held ! i"
  define l1 l2 where "l1 = take i held" and "l2 = drop (Suc i) held"
  have held: "held = l1 @ b # l2"
    using True by (simp add: b_def l1_def l2_def id_take_nth_drop)
  have step: "pool_step ops (Release i) (held, p, a) =
      (l1 @ l2, snd (pool_release ops b (p, a)))"
    using True by (simp add: b_def l1_def l2_def)
  have live: "blocks a (mb_id b) = Some (mp_blockSize p)" "mb_size b = mp_blockSize p"
    and i: "inv a"
    using ok held by (simp_all add: pool_ok_def)
  then have valid: "isValid b" by (auto intro: live_valid)
  obtain b' a' where fr: "ma_free ops b a = (b', a')" by fastforce
  have live': "blocks a (mb_id b) = Some (mb_size b)" using live by simp
  have a': "inv a'" "blocks a' = (blocks a)(mb_id b := None)"
    using free_inv [OF i disjI2 [OF live']] free_live [OF i live' fr] fr by simp_all
  have other: "\<forall>x\<in>set (l1 @ l2 @ mp_freeList p). mb_id x \<noteq> mb_id b"
  proof
    fix x assume "x \<in> set (l1 @ l2 @ mp_freeList p)"
    then have "mb_id x \<in> set (map mb_id (l1 @ l2 @ mp_freeList p))" by auto
    moreover have "mb_id b \<notin> set (map mb_id (l1 @ l2 @ mp_freeList p))"
      using ok by (simp add: pool_ok_def held)
    ultimately show "mb_id x \<noteq> mb_id b" by metis
  qed
  show ?thesis
  proof (cases "length (mp_freeList p) < unat (mp_maxFree p)")
    case True
    then show ?thesis
      unfolding step using valid live ok
      by (auto simp: pool_ok_def held pool_release_def Let_def)
  next
    case False
    have "\<forall>x\<in>set ((l1 @ l2) @ mp_freeList p).
        blocks a' (mb_id x) = Some (mp_blockSize p) \<and> mb_size x = mp_blockSize p"
      using ok other by (simp add: pool_ok_def held a'(2) ball_Un)
    moreover have "distinct (map mb_id ((l1 @ l2) @ mp_freeList p))"
      using ok by (auto simp: pool_ok_def held)
    ultimately show ?thesis
      unfolding step using False valid ok a'(1) fr
      by (simp add: pool_ok_def held pool_release_def Let_def)
  qed
qed

text \<open>
  Every run of client operations keeps the pool sound, as long as the allocator's identifier
  counter does not wrap during the run.
\<close>

lemma pool_step_left:
  assumes "pool_ok (held, p, a)" "pool_step ops x (held, p, a) = (held', p', a')"
  shows "ids_left a \<le> Suc (ids_left a')"
  using assms alloc_left [of a "mp_blockSize p"] free_left
  by (cases x)
    (auto simp: pool_acquire_def pool_release_def Let_def pool_ok_def split: if_splits prod.splits)

theorem pool_run_ok:
  "pool_ok (held, p, a) \<Longrightarrow> length xs \<le> ids_left a \<Longrightarrow> pool_ok (pool_run ops xs (held, p, a))"
proof (induction xs arbitrary: held p a)
  case (Cons x xs)
  obtain held' p' a' where st: "pool_step ops x (held, p, a) = (held', p', a')"
    by (metis prod_cases3)
  have "pool_ok (held', p', a')"
    using Cons.prems acquire_reuse_ok [of held p a] acquire_fresh_ok [of held p a]
      release_ok [of held p a] st
    by (cases x; cases "mp_freeList p = []") (simp_all del: pool_step.simps, metis+)
  moreover have "length xs \<le> ids_left a'"
    using pool_step_left [OF Cons.prems(1) st] Cons.prems(2) by simp
  ultimately show ?case using Cons.IH st by simp
qed simp

text \<open>Releasing and acquiring again gives the same allocation back, without the allocator.\<close>

lemma release_acquire:
  assumes "isValid b" "length (mp_freeList p) < unat (mp_maxFree p)"
    and "pool_release ops b (p, a) = (b0, p1, a1)"
    and "pool_acquire ops (p1, a1) = (b2, p2, a2)"
  shows "b0 = empty_block \<and> mb_id b2 = mb_id b \<and> mb_size b2 = mb_size b \<and>
    mb_backend_handle b2 = mb_backend_handle b \<and> a2 = a \<and>
    mp_freeList p2 = mp_freeList p \<and> mp_activeCount p2 = mp_activeCount p"
  using assms by (auto simp: pool_release_def pool_acquire_def Let_def)

end

section \<open>The pool over the host allocator\<close>



end
