(* ===== verification/MemoryManager.thy ===== *)
theory MemoryManager
  imports MemPolicy MemoryPool
begin

text \<open>
  Transfers between host and device (\<open>src/mem/TransferManager.cpp\<close>) and the manager that
  composes allocators, pools, residency table, pressure monitors and eviction policy
  (\<open>src/mem/MemoryManager.cpp\<close>). Each public operation runs under the manager's mutex, so an
  operation is one function on the state. The outside world of an operation (the host
  allocator, the Vulkan backend, the clock, the outcome of a copy) is the record \<open>MemEnv\<close>.
\<close>

section \<open>TransferManager\<close>

record TransferManager =
  tm_records :: "TransferRecord list"
  tm_nextId :: u64
  tm_bytesUploaded :: u64
  tm_bytesDownloaded :: u64
  tm_totalUploadMs :: rat
  tm_totalDownloadMs :: rat

definition transfer_init :: TransferManager where
  "transfer_init = \<lparr>tm_records = [], tm_nextId = 1, tm_bytesUploaded = 0,
     tm_bytesDownloaded = 0, tm_totalUploadMs = 0, tm_totalDownloadMs = 0\<rparr>"

text \<open>
  The environment of one manager operation: the allocators' answers, the clock, and the
  result and duration of the backend's copy.
\<close>

record MemEnv =
  me_malloc :: "u64 \<Rightarrow> u64"
  me_backend :: VulkanEnv
  me_now :: time_point
  me_copy_ok :: bool
  me_copy_ms :: rat

definition makeRecord ::
    "MemEnv \<Rightarrow> MemoryLocation \<Rightarrow> MemoryLocation \<Rightarrow> u64 \<Rightarrow> TransferManager
     \<Rightarrow> TransferRecord \<times> TransferManager" where
  "makeRecord env src dst bytes t =
     (\<lparr>tr_id = tm_nextId t, tr_source = src, tr_destination = dst, tr_bytes = bytes,
       tr_start_time = me_now env, tr_end_time = 0, tr_duration_ms = 0,
       tr_bandwidth_gbps = 0, tr_success = False\<rparr>, t\<lparr>tm_nextId := tm_nextId t + 1\<rparr>)"

definition gbps :: "u64 \<Rightarrow> rat \<Rightarrow> rat" where
  "gbps bytes ms = dbl (dbl (dbl_of_u64 bytes / 1000000000) / dbl (ms / 1000))"

definition finishRecord :: "MemEnv \<Rightarrow> bool \<Rightarrow> rat \<Rightarrow> TransferRecord \<Rightarrow> TransferRecord" where
  "finishRecord env ok ms r =
     (let r' = r\<lparr>tr_end_time := me_now env, tr_duration_ms := ms, tr_success := ok\<rparr> in
      if ms > 0 \<and> tr_bytes r > 0 then r'\<lparr>tr_bandwidth_gbps := gbps (tr_bytes r) ms\<rparr> else r')"

text \<open>A transfer handle is its identifier; 0 is the invalid handle.\<close>

definition tm_upload ::
    "MemEnv \<Rightarrow> u64 \<Rightarrow> MemoryBlock \<Rightarrow> u64 \<Rightarrow> TransferManager \<Rightarrow> u64 \<times> TransferManager" where
  "tm_upload env cpuPtr gpuBlock sz t =
     (if cpuPtr = 0 \<or> \<not> isValid gpuBlock \<or> sz = 0 then (0, t)
      else if \<not> ve_available (me_backend env) then (0, t)
      else case makeRecord env MemoryLocation.CPU MemoryLocation.GPU sz t of (r, t1) \<Rightarrow>
      let ok = me_copy_ok env; ms = me_copy_ms env;
          r' = finishRecord env ok ms r;
          t2 = (if ok then t1\<lparr>tm_bytesUploaded := tm_bytesUploaded t1 + sz,
                              tm_totalUploadMs := dbl (tm_totalUploadMs t1 + ms)\<rparr> else t1);
          t3 = t2\<lparr>tm_records := tm_records t2 @ [r']\<rparr>
      in (if ok then tr_id r' else 0, t3))"

definition tm_download ::
    "MemEnv \<Rightarrow> MemoryBlock \<Rightarrow> u64 \<Rightarrow> u64 \<Rightarrow> TransferManager \<Rightarrow> u64 \<times> TransferManager" where
  "tm_download env gpuBlock cpuPtr sz t =
     (if cpuPtr = 0 \<or> \<not> isValid gpuBlock \<or> sz = 0 then (0, t)
      else if \<not> ve_available (me_backend env) then (0, t)
      else case makeRecord env MemoryLocation.GPU MemoryLocation.CPU sz t of (r, t1) \<Rightarrow>
      let ok = me_copy_ok env; ms = me_copy_ms env;
          r' = finishRecord env ok ms r;
          t2 = (if ok then t1\<lparr>tm_bytesDownloaded := tm_bytesDownloaded t1 + sz,
                              tm_totalDownloadMs := dbl (tm_totalDownloadMs t1 + ms)\<rparr> else t1);
          t3 = t2\<lparr>tm_records := tm_records t2 @ [r']\<rparr>
      in (if ok then tr_id r' else 0, t3))"

definition isComplete :: "u64 \<Rightarrow> bool" where
  "isComplete handle \<longleftrightarrow> handle \<noteq> 0"

definition avgUploadBandwidthGbps :: "TransferManager \<Rightarrow> rat" where
  "avgUploadBandwidthGbps t =
     (if tm_totalUploadMs t \<le> 0 \<or> tm_bytesUploaded t = 0 then 0
      else gbps (tm_bytesUploaded t) (tm_totalUploadMs t))"

definition avgDownloadBandwidthGbps :: "TransferManager \<Rightarrow> rat" where
  "avgDownloadBandwidthGbps t =
     (if tm_totalDownloadMs t \<le> 0 \<or> tm_bytesDownloaded t = 0 then 0
      else gbps (tm_bytesDownloaded t) (tm_totalDownloadMs t))"

text \<open>The uploaded byte counter is the sum of the successful upload records (modulo \<open>2^64\<close>).\<close>

definition uploaded_in :: "TransferRecord list \<Rightarrow> u64" where
  "uploaded_in rs = sum_list (map tr_bytes
     (filter (\<lambda>r. tr_success r \<and> tr_destination r = MemoryLocation.GPU) rs))"

definition transfer_inv :: "TransferManager \<Rightarrow> bool" where
  "transfer_inv t \<longleftrightarrow> tm_bytesUploaded t = uploaded_in (tm_records t)"

lemma tm_upload_inv: "transfer_inv t \<Longrightarrow> transfer_inv (snd (tm_upload env p b n t))"
  by (simp add: transfer_inv_def uploaded_in_def tm_upload_def makeRecord_def finishRecord_def
      Let_def)

lemma tm_download_inv: "transfer_inv t \<Longrightarrow> transfer_inv (snd (tm_download env b p n t))"
  by (simp add: transfer_inv_def uploaded_in_def tm_download_def makeRecord_def finishRecord_def
      Let_def)

section \<open>MemoryManager\<close>

definition POOL_BLOCK_SIZE :: u64 where
  "POOL_BLOCK_SIZE = 4 * 1024 * 1024"

record MemoryManager =
  mm_cpuAllocator :: CPUAllocator
  mm_gpuAllocator :: VulkanAllocator
  mm_cpuPool4MB :: MemoryPool
  mm_gpuPool4MB :: MemoryPool
  mm_transferManager :: TransferManager
  mm_residencyManager :: ResidencyManager
  mm_cpuPressure :: PressureMonitor
  mm_gpuPressure :: PressureMonitor
  mm_activeBlocks :: "(u64 \<times> MemoryBlock) list"
  mm_evictionCount :: u64

definition mm_init :: "u64 \<Rightarrow> u64 \<Rightarrow> u64 \<Rightarrow> MemoryManager" where
  "mm_init ram deviceLocal hostVisible =
     \<lparr>mm_cpuAllocator = cpu_init ram, mm_gpuAllocator = gpu_init deviceLocal hostVisible,
      mm_cpuPool4MB = pool_init POOL_BLOCK_SIZE 16, mm_gpuPool4MB = pool_init POOL_BLOCK_SIZE 16,
      mm_transferManager = transfer_init, mm_residencyManager = [],
      mm_cpuPressure = pressure_default, mm_gpuPressure = pressure_default,
      mm_activeBlocks = [], mm_evictionCount = 0\<rparr>"

definition env_cpu :: "MemEnv \<Rightarrow> CPUAllocator IMemoryAllocator" where
  "env_cpu env = cpu_vtable (me_malloc env) (me_now env)"

definition env_gpu :: "MemEnv \<Rightarrow> VulkanAllocator IMemoryAllocator" where
  "env_gpu env = gpu_vtable (me_backend env) (me_now env)"

definition syncBlockResidency ::
    "MemEnv \<Rightarrow> MemoryBlock \<Rightarrow> MemoryManager \<Rightarrow> MemoryBlock \<times> MemoryManager" where
  "syncBlockResidency env b m =
     (let rm = touch (me_now env) (mb_id b) (mm_residencyManager m);
          (la, ac) = (case getBlockInfo rm (mb_id b) of None \<Rightarrow> (0, 0) | Some i \<Rightarrow> i)
      in (b\<lparr>mb_last_accessed := la, mb_access_count := ac,
            mb_residency := getResidency rm (mb_id b)\<rparr>,
          m\<lparr>mm_residencyManager := rm\<rparr>))"

definition allocateInternal ::
    "MemEnv \<Rightarrow> u64 \<Rightarrow> MemoryLocation \<Rightarrow> MemoryManager \<Rightarrow> MemoryBlock \<times> MemoryManager" where
  "allocateInternal env sz loc m =
     (if sz = POOL_BLOCK_SIZE \<and> loc = MemoryLocation.CPU then
        (case pool_acquire (env_cpu env) (mm_cpuPool4MB m, mm_cpuAllocator m) of (b, p, a) \<Rightarrow>
           (b, m\<lparr>mm_cpuPool4MB := p, mm_cpuAllocator := a\<rparr>))
      else if sz = POOL_BLOCK_SIZE \<and> loc = MemoryLocation.GPU then
        (case pool_acquire (env_gpu env) (mm_gpuPool4MB m, mm_gpuAllocator m) of (b, p, a) \<Rightarrow>
           (b, m\<lparr>mm_gpuPool4MB := p, mm_gpuAllocator := a\<rparr>))
      else if loc = MemoryLocation.CPU then
        (case ma_allocate (env_cpu env) sz (mm_cpuAllocator m) of (b, a) \<Rightarrow>
           (b, m\<lparr>mm_cpuAllocator := a\<rparr>))
      else if loc = MemoryLocation.GPU then
        (case ma_allocate (env_gpu env) sz (mm_gpuAllocator m) of (b, a) \<Rightarrow>
           (b, m\<lparr>mm_gpuAllocator := a\<rparr>))
      else (empty_block, m))"

text \<open>The freed block is passed by reference: the result holds what becomes of it.\<close>

definition freeInternal ::
    "MemEnv \<Rightarrow> MemoryBlock \<Rightarrow> MemoryManager \<Rightarrow> MemoryBlock \<times> MemoryManager" where
  "freeInternal env b m =
     (if mb_size b = POOL_BLOCK_SIZE then
        if mb_location b = MemoryLocation.CPU then
          (case pool_release (env_cpu env) b (mm_cpuPool4MB m, mm_cpuAllocator m) of (b', p, a) \<Rightarrow>
             (b', m\<lparr>mm_cpuPool4MB := p, mm_cpuAllocator := a\<rparr>))
        else if mb_location b = MemoryLocation.GPU then
          (case pool_release (env_gpu env) b (mm_gpuPool4MB m, mm_gpuAllocator m) of (b', p, a) \<Rightarrow>
             (b', m\<lparr>mm_gpuPool4MB := p, mm_gpuAllocator := a\<rparr>))
        else (b, m)
      else
        if mb_location b = MemoryLocation.CPU then
          (case ma_free (env_cpu env) b (mm_cpuAllocator m) of (b', a) \<Rightarrow>
             (b', m\<lparr>mm_cpuAllocator := a\<rparr>))
        else if mb_location b = MemoryLocation.GPU then
          (case ma_free (env_gpu env) b (mm_gpuAllocator m) of (b', a) \<Rightarrow>
             (b', m\<lparr>mm_gpuAllocator := a\<rparr>))
        else (b, m))"

text \<open>A device request that fails is served from host memory.\<close>

definition request_block ::
    "MemEnv \<Rightarrow> u64 \<Rightarrow> MemoryLocation \<Rightarrow> MemoryManager \<Rightarrow> MemoryBlock \<times> MemoryManager" where
  "request_block env sz preferred m =
     (case allocateInternal env sz preferred m of (b, m1) \<Rightarrow>
      if \<not> isValid b \<and> preferred = MemoryLocation.GPU
      then allocateInternal env sz MemoryLocation.CPU m1 else (b, m1))"

definition mm_allocate ::
    "MemEnv \<Rightarrow> u64 \<Rightarrow> MemoryLocation \<Rightarrow> MemoryPriority \<Rightarrow> MemoryManager
     \<Rightarrow> MemoryBlock \<times> MemoryManager" where
  "mm_allocate env sz preferred prio m =
     (case request_block env sz preferred m of (b, m2) \<Rightarrow>
      if isValid b then
        let b' = b\<lparr>mb_priority := prio\<rparr>;
            m3 = m2\<lparr>mm_residencyManager := registerBlock (me_now env) (mb_id b')
                     (if mb_location b' = MemoryLocation.GPU then Residency.GPU else Residency.CPU)
                     (mm_residencyManager m2)\<rparr>
        in case syncBlockResidency env b' m3 of (b'', m4) \<Rightarrow>
           (b'', m4\<lparr>mm_activeBlocks := AList.update (mb_id b'') b'' (mm_activeBlocks m4)\<rparr>)
      else (b, m2))"

definition mm_release ::
    "MemEnv \<Rightarrow> MemoryBlock \<Rightarrow> MemoryManager \<Rightarrow> MemoryBlock \<times> MemoryManager" where
  "mm_release env b m =
     (if \<not> isValid b then (b, m)
      else case map_of (mm_activeBlocks m) (mb_id b) of
        None \<Rightarrow> (empty_block, m)
      | Some tracked \<Rightarrow>
          let m1 = m\<lparr>mm_residencyManager := unregisterBlock (mb_id b) (mm_residencyManager m)\<rparr>;
              m2 = snd (freeInternal env tracked m1)
          in (empty_block,
              m2\<lparr>mm_activeBlocks := AList.delete (mb_id b) (mm_activeBlocks m2)\<rparr>))"

text \<open>
  Moving a tracked block. \<open>tracked\<close> is a reference into the table of active blocks, so the
  table entry under the caller's identifier is updated with every change to it; the result
  carries the caller's descriptor, which is overwritten on success.
\<close>

definition put_tracked :: "u64 \<Rightarrow> MemoryBlock \<Rightarrow> MemoryManager \<Rightarrow> MemoryManager" where
  "put_tracked ident b m = m\<lparr>mm_activeBlocks := AList.update ident b (mm_activeBlocks m)\<rparr>"

definition finish_move ::
    "MemEnv \<Rightarrow> u64 \<Rightarrow> MemoryBlock \<Rightarrow> MemoryLocation \<Rightarrow> u64 \<Rightarrow> MemoryManager
     \<Rightarrow> MemoryBlock \<times> MemoryManager" where
  "finish_move env key tracked dest handle m =
     (let m1 = m\<lparr>mm_residencyManager := promote (mb_id tracked) dest (mm_residencyManager m)\<rparr> in
      case freeInternal env tracked m1 of (t1, m2) \<Rightarrow>
      let t2 = t1\<lparr>mb_location := dest, mb_backend_handle := handle\<rparr> in
      case syncBlockResidency env t2 m2 of (t3, m3) \<Rightarrow> (t3, put_tracked key t3 m3))"

definition mm_move ::
    "MemEnv \<Rightarrow> MemoryBlock \<Rightarrow> MemoryLocation \<Rightarrow> MemoryManager
     \<Rightarrow> bool \<times> MemoryBlock \<times> MemoryManager" where
  "mm_move env b dest m =
     (if \<not> isValid b \<or> mb_location b = dest then (True, b, m)
      else case map_of (mm_activeBlocks m) (mb_id b) of
        None \<Rightarrow> (False, b, m)
      | Some tracked0 \<Rightarrow>
        case syncBlockResidency env tracked0 m of (tracked, m0) \<Rightarrow>
        let m1 = put_tracked (mb_id b) tracked m0 in
        if mb_location tracked = MemoryLocation.CPU \<and> dest = MemoryLocation.GPU then
          (case allocateInternal env (mb_size tracked) MemoryLocation.GPU m1 of (nb, m2) \<Rightarrow>
           if \<not> isValid nb then (False, b, m2)
           else case tm_upload env (mb_backend_handle tracked) nb (mb_size tracked)
                       (mm_transferManager m2) of (th, tm) \<Rightarrow>
           let m3 = m2\<lparr>mm_transferManager := tm\<rparr> in
           if th = 0 then (False, b, snd (freeInternal env nb m3))
           else case finish_move env (mb_id b) tracked MemoryLocation.GPU (mb_backend_handle nb) m3
             of (t, m4) \<Rightarrow> (True, t, m4))
        else if mb_location tracked = MemoryLocation.GPU \<and> dest = MemoryLocation.CPU then
          (case allocateInternal env (mb_size tracked) MemoryLocation.CPU m1 of (nb, m2) \<Rightarrow>
           if \<not> isValid nb then (False, b, m2)
           else case tm_download env tracked (mb_backend_handle nb) (mb_size tracked)
                       (mm_transferManager m2) of (th, tm) \<Rightarrow>
           let m3 = m2\<lparr>mm_transferManager := tm\<rparr> in
           if th = 0 then (False, b, snd (freeInternal env nb m3))
           else case finish_move env (mb_id b) tracked MemoryLocation.CPU (mb_backend_handle nb) m3
             of (t, m4) \<Rightarrow> (True, t, m4))
        else (False, b, m1))"

text \<open>
  Relieving GPU pressure. The candidate loop touches the residency record of every GPU block
  before scoring it; at most four victims are dropped.
\<close>

fun collect_gpu ::
    "MemEnv \<Rightarrow> (u64 \<times> MemoryBlock) list \<Rightarrow> MemoryManager \<Rightarrow> MemoryBlock list \<times> MemoryManager" where
  "collect_gpu env [] m = ([], m)"
| "collect_gpu env ((i, b) # bs) m =
     (if mb_location b = MemoryLocation.GPU then
        (case syncBlockResidency env b m of (b', m1) \<Rightarrow>
         case collect_gpu env bs m1 of (cs, m2) \<Rightarrow> (b' # cs, m2))
      else collect_gpu env bs m)"

definition evict_active :: "MemEnv \<Rightarrow> u64 \<Rightarrow> MemoryManager \<Rightarrow> MemoryManager" where
  "evict_active env ident m = (case map_of (mm_activeBlocks m) ident of None \<Rightarrow> m
     | Some b \<Rightarrow>
         let m1 = m\<lparr>mm_residencyManager := unregisterBlock ident (mm_residencyManager m)\<rparr>;
             m2 = snd (freeInternal env b m1)
         in m2\<lparr>mm_activeBlocks := AList.delete ident (mm_activeBlocks m2),
               mm_evictionCount := mm_evictionCount m2 + 1\<rparr>)"

definition enforcePressureLimits ::
    "(ScoredBlock list \<Rightarrow> ScoredBlock list) \<Rightarrow> MemEnv \<Rightarrow> MemoryManager \<Rightarrow> MemoryManager" where
  "enforcePressureLimits srt env m =
     (if assess (mm_gpuPressure m) (va_usedBytes (mm_gpuAllocator m))
           (va_deviceLocalHeapBytes (mm_gpuAllocator m)) = PressureLevel.NORMAL then m
      else case collect_gpu env (mm_activeBlocks m) m of (cs, m1) \<Rightarrow>
        fold (evict_active env) (selectForEviction srt (me_now env) cs 4) m1)"

definition statistics :: "MemoryManager \<Rightarrow> MemoryStats" where
  "statistics m =
     (let c = mm_cpuAllocator m; g = mm_gpuAllocator m; t = mm_transferManager m in
      \<lparr>ms_cpu_total_bytes = ca_totalRamBytes c, ms_cpu_used_bytes = ca_usedBytes c,
       ms_cpu_peak_bytes = ca_peakBytes c, ms_gpu_device_local_bytes = va_deviceLocalHeapBytes g,
       ms_gpu_used_bytes = va_usedBytes g, ms_gpu_peak_bytes = va_peakBytes g,
       ms_allocation_count = ca_allocationCount c + va_allocationCount g,
       ms_transfer_count = of_nat (length (tm_records t)),
       ms_pool_reuse_count = mp_reuseCount (mm_cpuPool4MB m) + mp_reuseCount (mm_gpuPool4MB m),
       ms_eviction_count = mm_evictionCount m, ms_bytes_uploaded = tm_bytesUploaded t,
       ms_bytes_downloaded = tm_bytesDownloaded t,
       ms_upload_bandwidth_gbps = avgUploadBandwidthGbps t,
       ms_download_bandwidth_gbps = avgDownloadBandwidthGbps t,
       ms_cpu_pressure = assess (mm_cpuPressure m) (ca_usedBytes c) (ca_totalRamBytes c),
       ms_gpu_pressure = assess (mm_gpuPressure m) (va_usedBytes g) (va_deviceLocalHeapBytes g)\<rparr>)"

definition mm_destroy :: "MemEnv \<Rightarrow> MemoryManager \<Rightarrow> MemoryManager" where
  "mm_destroy env m =
     (let m1 = fold (\<lambda>kb m. snd (freeInternal env (snd kb) m)) (mm_activeBlocks m) m;
          (gp, ga) = pool_destroy (env_gpu env) (mm_gpuPool4MB m1, mm_gpuAllocator m1);
          (cp, ca) = pool_destroy (env_cpu env) (mm_cpuPool4MB m1, mm_cpuAllocator m1)
      in m1\<lparr>mm_gpuPool4MB := gp, mm_gpuAllocator := ga, mm_cpuPool4MB := cp,
            mm_cpuAllocator := ca\<rparr>)"

section \<open>Two allocators, one table of active blocks\<close>

lemma POOL_BLOCK_SIZE_val: "POOL_BLOCK_SIZE = 4194304"
  by (simp add: POOL_BLOCK_SIZE_def)

lemmas mm_defs = mm_allocate_def request_block_def mm_release_def allocateInternal_def freeInternal_def
  syncBlockResidency_def registerBlock_def unregisterBlock_def touch_def getBlockInfo_def
  getResidency_def env_cpu_def env_gpu_def cpu_vtable_def gpu_vtable_def cpu_allocate_def
  gpu_allocate_def createBuffer_def cpu_free_def gpu_free_def

text \<open>
  both allocators number their blocks from 1, but the manager keys its table of active
  blocks by that number alone. On a fresh manager a host allocation followed by a device
  allocation yields two blocks with the same identifier, of which only the device block is
  tracked; releasing the host block then frees the device buffer and leaks the host memory.
\<close>

lemma mm_id_collision:
  assumes n: "n1 \<noteq> 0" "n2 \<noteq> 0" "n1 \<noteq> POOL_BLOCK_SIZE" "n2 \<noteq> POOL_BLOCK_SIZE"
    and env: "me_malloc env n1 \<noteq> 0" "ve_available (me_backend env)"
      "ve_newBufferId (me_backend env) n2 \<noteq> 0"
    and a1: "mm_allocate env n1 MemoryLocation.CPU pr1 (mm_init ram dl hv) = (b1, m1)"
    and a2: "mm_allocate env n2 MemoryLocation.GPU pr2 m1 = (b2, m2)"
    and r: "mm_release env b1 m2 = (b3, m3)"
  shows "isValid b1 \<and> isValid b2 \<and> mb_location b1 \<noteq> mb_location b2 \<and> mb_id b1 = mb_id b2 \<and>
    mm_activeBlocks m2 = [(mb_id b2, b2)] \<and>
    ca_usedBytes (mm_cpuAllocator m3) = n1 \<and> va_usedBytes (mm_gpuAllocator m3) = 0 \<and>
    mm_activeBlocks m3 = []"
proof -
  have b1: "mb_id b1 = 1" "mb_location b1 = MemoryLocation.CPU" and
    m1: "mm_activeBlocks m1 = [(1, b1)]" "mm_gpuAllocator m1 = gpu_init dl hv"
      "ca_usedBytes (mm_cpuAllocator m1) = n1"
    using a1 n env
    by (auto simp: mm_defs mm_init_def cpu_init_def isValid_def Let_def)
  have b2: "mb_id b2 = 1" "mb_location b2 = MemoryLocation.GPU" "mb_size b2 = n2" and
    m2: "mm_activeBlocks m2 = [(1, b2)]" "mm_cpuAllocator m2 = mm_cpuAllocator m1"
      "map_of (va_records (mm_gpuAllocator m2)) 1 \<noteq> None" "va_usedBytes (mm_gpuAllocator m2) = n2"
    using a2 n env m1
    by (auto simp: mm_defs gpu_init_def isValid_def Let_def)
  have "mm_cpuAllocator m3 = mm_cpuAllocator m2" "va_usedBytes (mm_gpuAllocator m3) = 0"
    "mm_activeBlocks m3 = []"
    using r b1 b2 m2 n
    by (auto simp: mm_release_def freeInternal_def env_gpu_def gpu_vtable_def gpu_free_def
        isValid_def Let_def split: option.splits)
  with b1 b2 m1 m2 show ?thesis by (simp add: isValid_def)
qed

definition sample_env :: MemEnv where
  "sample_env = \<lparr>me_malloc = (\<lambda>n. 64), me_backend = \<lparr>ve_available = True, ve_newBufferId = (\<lambda>n. 7)\<rparr>,
     me_now = 5, me_copy_ok = True, me_copy_ms = 1\<rparr>"

lemma mm_id_collision_instance:
  "\<exists>b1 b2 (m2 :: MemoryManager) (m3 :: MemoryManager). isValid b1 \<and> isValid b2 \<and> mb_location b1 \<noteq> mb_location b2 \<and>
     mb_id b1 = mb_id b2 \<and> mm_activeBlocks m2 = [(mb_id b2, b2)] \<and>
     ca_usedBytes (mm_cpuAllocator m3) = 100 \<and> mm_activeBlocks m3 = []"
proof -
  obtain b1 m1 where a1: "mm_allocate sample_env 100 MemoryLocation.CPU MemoryPriority.NORMAL
      (mm_init 0 0 0) = (b1, m1)" by fastforce
  obtain b2 m2 where a2: "mm_allocate sample_env 200 MemoryLocation.GPU MemoryPriority.NORMAL m1
      = (b2, m2)" by fastforce
  obtain b3 m3 where r: "mm_release sample_env b1 m2 = (b3, m3)" by fastforce
  have e: "me_malloc sample_env 100 \<noteq> 0" "ve_available (me_backend sample_env)"
    "ve_newBufferId (me_backend sample_env) 200 \<noteq> 0" by (simp_all add: sample_env_def)
  have n: "(100::u64) \<noteq> 0" "(200::u64) \<noteq> 0" "(100::u64) \<noteq> POOL_BLOCK_SIZE"
    "(200::u64) \<noteq> POOL_BLOCK_SIZE" by (simp_all add: POOL_BLOCK_SIZE_val)
  show ?thesis
    by (rule exI [of _ b1], rule exI [of _ b2], rule exI [of _ m2], rule exI [of _ m3])
      (use mm_id_collision [OF n e a1 a2 r] in simp)
qed

section \<open>A successful move loses the block\<close>

text \<open>The block is known to the allocator, or belongs to the pool, of its location.\<close>

definition tracked_live :: "MemoryBlock \<Rightarrow> MemoryManager \<Rightarrow> bool" where
  "tracked_live t m \<longleftrightarrow> isValid t \<and> (mb_size t = POOL_BLOCK_SIZE \<or>
     (mb_location t = MemoryLocation.CPU \<and>
        map_of (ca_records (mm_cpuAllocator m)) (mb_id t) \<noteq> None) \<or>
     (mb_location t = MemoryLocation.GPU \<and>
        map_of (va_records (mm_gpuAllocator m)) (mb_id t) \<noteq> None))"

lemma freeInternal_live:
  assumes "tracked_live t m" "mb_location t = MemoryLocation.CPU \<or> mb_location t = MemoryLocation.GPU"
  shows "fst (freeInternal env t m) = empty_block"
  using assms
  by (auto simp: tracked_live_def freeInternal_def env_cpu_def env_gpu_def cpu_vtable_def
      gpu_vtable_def cpu_free_def gpu_free_def pool_release_def Let_def
      split: option.splits prod.splits)

lemma finish_move_empty:
  assumes "tracked_live t m" "mb_location t = MemoryLocation.CPU \<or> mb_location t = MemoryLocation.GPU"
    and "finish_move env key t dest h m = (t', m')"
  shows "\<not> isValid t' \<and> map_of (mm_activeBlocks m') key = Some t'"
proof -
  let ?m1 = "m\<lparr>mm_residencyManager := promote (mb_id t) dest (mm_residencyManager m)\<rparr>"
  have "tracked_live t ?m1" using assms(1) by (simp add: tracked_live_def)
  then have "fst (freeInternal env t ?m1) = empty_block" using assms(2) by (rule freeInternal_live)
  then show ?thesis
    using assms(3)
    by (auto simp: finish_move_def syncBlockResidency_def put_tracked_def isValid_def Let_def
        split: prod.splits)
qed

lemma allocateInternal_frame:
  "allocateInternal env n MemoryLocation.GPU m = (b, m') \<Longrightarrow>
     mm_cpuAllocator m' = mm_cpuAllocator m \<and> mm_activeBlocks m' = mm_activeBlocks m"
  "allocateInternal env n MemoryLocation.CPU m = (b, m') \<Longrightarrow>
     mm_gpuAllocator m' = mm_gpuAllocator m \<and> mm_activeBlocks m' = mm_activeBlocks m"
  by (auto simp: allocateInternal_def split: prod.splits if_splits)

lemma sync_fields:
  "syncBlockResidency env t m = (t', m') \<Longrightarrow>
     mb_id t' = mb_id t \<and> mb_size t' = mb_size t \<and> mb_location t' = mb_location t \<and>
     mb_backend_handle t' = mb_backend_handle t \<and> mm_cpuAllocator m' = mm_cpuAllocator m \<and>
     mm_gpuAllocator m' = mm_gpuAllocator m \<and> mm_activeBlocks m' = mm_activeBlocks m \<and>
     mm_cpuPool4MB m' = mm_cpuPool4MB m \<and> mm_gpuPool4MB m' = mm_gpuPool4MB m"
  by (auto simp: syncBlockResidency_def Let_def split: prod.splits option.splits)

lemma tracked_live_cong:
  "tracked_live t m \<Longrightarrow> mb_id t' = mb_id t \<Longrightarrow> mb_size t' = mb_size t \<Longrightarrow>
   mb_location t' = mb_location t \<Longrightarrow>
   (mb_location t = MemoryLocation.CPU \<longrightarrow> mm_cpuAllocator m' = mm_cpuAllocator m) \<Longrightarrow>
   (mb_location t = MemoryLocation.GPU \<longrightarrow> mm_gpuAllocator m' = mm_gpuAllocator m) \<Longrightarrow>
   tracked_live t' m'"
  by (auto simp: tracked_live_def isValid_def)

text \<open>
  A successful move of a tracked block hands the caller an invalid descriptor. Freeing the
  old storage empties the tracked descriptor, which the code then copies to the caller, so the
  identifier of the moved block is gone: a later release of it does nothing.
\<close>

lemma mm_move_invalidates_handle:
  assumes mv: "mm_move env b dest m = (True, b', m')"
    and b: "isValid b" "mb_location b \<noteq> dest"
    and t: "map_of (mm_activeBlocks m) (mb_id b) = Some t" "tracked_live t m"
  shows "\<not> isValid b' \<and> map_of (mm_activeBlocks m') (mb_id b) = Some b' \<and>
    mm_release env2 b' m' = (b', m')"
proof -
  obtain t1 m0 where sy: "syncBlockResidency env t m = (t1, m0)" by fastforce
  let ?m1 = "put_tracked (mb_id b) t1 m0"
  have key: "\<exists>t2 m3 h. tracked_live t2 m3 \<and>
      (mb_location t2 = MemoryLocation.CPU \<or> mb_location t2 = MemoryLocation.GPU) \<and>
      finish_move env (mb_id b) t2 dest h m3 = (b', m')"
  proof (cases "mb_location t1 = MemoryLocation.CPU \<and> dest = MemoryLocation.GPU")
    case True
    with mv b t sy obtain nb m2 th tm where
      al: "allocateInternal env (mb_size t1) MemoryLocation.GPU ?m1 = (nb, m2)" and
      fin: "finish_move env (mb_id b) t1 MemoryLocation.GPU (mb_backend_handle nb)
        (m2\<lparr>mm_transferManager := tm\<rparr>) = (b', m')"
      by (auto simp: mm_move_def Let_def split: prod.splits if_splits)
    have "tracked_live t1 (m2\<lparr>mm_transferManager := tm\<rparr>)"
      using tracked_live_cong [OF t(2)] sync_fields [OF sy] allocateInternal_frame(1) [OF al] True
      by (simp add: put_tracked_def)
    with fin True show ?thesis by blast
  next
    case False
    with mv b t sy obtain nb m2 th tm where c: "mb_location t1 = MemoryLocation.GPU"
      "dest = MemoryLocation.CPU" and
      al: "allocateInternal env (mb_size t1) MemoryLocation.CPU ?m1 = (nb, m2)" and
      fin: "finish_move env (mb_id b) t1 MemoryLocation.CPU (mb_backend_handle nb)
        (m2\<lparr>mm_transferManager := tm\<rparr>) = (b', m')"
      by (auto simp: mm_move_def Let_def split: prod.splits if_splits)
    have "tracked_live t1 (m2\<lparr>mm_transferManager := tm\<rparr>)"
      using tracked_live_cong [OF t(2)] sync_fields [OF sy] allocateInternal_frame(2) [OF al] c
      by (simp add: put_tracked_def)
    with fin c show ?thesis by blast
  qed
  then have "\<not> isValid b' \<and> map_of (mm_activeBlocks m') (mb_id b) = Some b'"
    using finish_move_empty by blast
  then show ?thesis by (simp add: mm_release_def)
qed

definition sample_alloc :: "MemoryBlock \<times> MemoryManager" where
  "sample_alloc = mm_allocate sample_env 100 MemoryLocation.CPU MemoryPriority.NORMAL (mm_init 0 0 0)"

lemma mm_move_invalidates_handle_instance:
  "\<exists>b' m'. mm_move sample_env (fst sample_alloc) MemoryLocation.GPU (snd sample_alloc) = (True, b', m') \<and>
     \<not> isValid b' \<and> mm_release sample_env b' m' = (b', m')"
proof -
  obtain ok b' m' where
    mv: "mm_move sample_env (fst sample_alloc) MemoryLocation.GPU (snd sample_alloc) = (ok, b', m')"
    by (metis prod_cases3)
  have "fst (mm_move sample_env (fst sample_alloc) MemoryLocation.GPU (snd sample_alloc))"
    by code_simp
  with mv have ok: "ok" by simp
  have b: "isValid (fst sample_alloc)" "mb_location (fst sample_alloc) \<noteq> MemoryLocation.GPU"
    "map_of (mm_activeBlocks (snd sample_alloc)) (mb_id (fst sample_alloc)) = Some (fst sample_alloc)"
    "tracked_live (fst sample_alloc) (snd sample_alloc)"
    by code_simp+
  from mv ok mm_move_invalidates_handle [OF _ b, of sample_env b' m' sample_env]
  show ?thesis by simp
qed

end
