(* ===== verification/MemoryHost.thy ===== *)
theory MemoryHost
  imports MemoryManager
begin

text \<open>
  The memory manager on a machine without a usable Vulkan backend. There every block comes
  from the host allocator, so identifiers do not collide, and the manager's accounting is
  exact: each live allocation is owned by exactly one active block or one pooled block. The
  ownership predicate is stated over any allocator and used on the host allocator.
\<close>

section \<open>Ownership\<close>

context memory_allocator
begin

definition owns :: "'a \<Rightarrow> MemoryBlock list \<Rightarrow> bool" where
  "owns a bs \<longleftrightarrow> distinct (map mb_id bs) \<and> (\<forall>b\<in>set bs. blocks a (mb_id b) = Some (mb_size b)) \<and>
     dom (blocks a) = mb_id ` set bs"

lemma owns_perm: "mset bs = mset cs \<Longrightarrow> owns a bs \<longleftrightarrow> owns a cs"
  unfolding owns_def
  by (metis mset_eq_imp_distinct_iff mset_eq_setD mset_map)

lemma owns_valid: "inv a \<Longrightarrow> owns a bs \<Longrightarrow> b \<in> set bs \<Longrightarrow> isValid b"
  by (auto simp: owns_def intro: live_valid)

lemma owns_retag:
  "owns a (b # bs) \<Longrightarrow> mb_id b' = mb_id b \<Longrightarrow> mb_size b' = mb_size b \<Longrightarrow> owns a (b' # bs)"
  by (simp add: owns_def)

lemma owns_map:
  assumes "map (\<lambda>b. (mb_id b, mb_size b)) bs = map (\<lambda>b. (mb_id b, mb_size b)) cs"
  shows "owns a bs \<longleftrightarrow> owns a cs"
proof -
  have ids: "map mb_id bs = map mb_id cs"
    using arg_cong [OF assms, of "map fst"] by (simp add: comp_def)
  have "list_all (\<lambda>p. blocks a (fst p) = Some (snd p)) (map (\<lambda>b. (mb_id b, mb_size b)) bs) \<longleftrightarrow>
      list_all (\<lambda>p. blocks a (fst p) = Some (snd p)) (map (\<lambda>b. (mb_id b, mb_size b)) cs)"
    using assms by simp
  then have "(\<forall>b\<in>set bs. blocks a (mb_id b) = Some (mb_size b)) \<longleftrightarrow>
      (\<forall>b\<in>set cs. blocks a (mb_id b) = Some (mb_size b))"
    by (simp only: list_all_iff set_map ball_simps fst_conv snd_conv)
  moreover have "mb_id ` set bs = mb_id ` set cs" using ids by (metis list.set_map)
  ultimately show ?thesis using ids by (simp add: owns_def)
qed

lemma owns_alloc:
  assumes "inv a" "owns a bs" "ma_allocate ops n a = (b, a')" "isValid b"
  shows "owns a' (b # bs) \<and> mb_size b = n"
proof -
  note al = alloc_ok [OF assms(1,3,4)]
  then have "\<forall>x\<in>set bs. mb_id x \<noteq> mb_id b" using assms(2) by (auto simp: owns_def)
  with al assms(2) show ?thesis by (auto simp: owns_def)
qed

lemma owns_free:
  assumes "inv a" "owns a (b # bs)"
  shows "owns (snd (ma_free ops b a)) bs \<and> inv (snd (ma_free ops b a))"
proof -
  have live: "blocks a (mb_id b) = Some (mb_size b)" using assms(2) by (simp add: owns_def)
  obtain b' a' where fr: "ma_free ops b a = (b', a')" by fastforce
  note f = free_live [OF assms(1) live fr] free_inv [OF assms(1) disjI2 [OF live]]
  have "\<forall>x\<in>set bs. mb_id x \<noteq> mb_id b" using assms(2) by (auto simp: owns_def image_iff)
  then show ?thesis using f fr assms(2) by (auto simp: owns_def)
qed

lemma owns_used:
  assumes "inv a" "owns a bs"
  shows "ma_used ops a = sum_list (map mb_size bs)"
proof -
  have d: "distinct (map mb_id bs)" and o: "\<forall>b\<in>set bs. blocks a (mb_id b) = Some (mb_size b)"
    and dom: "dom (blocks a) = mb_id ` set bs"
    using assms(2) by (simp_all add: owns_def)
  have "ma_used ops a = (\<Sum>i\<in>set (map mb_id bs). the (blocks a i))"
    using used_sum [OF assms(1)] dom by simp
  also have "\<dots> = sum_list (map (\<lambda>i. the (blocks a i)) (map mb_id bs))"
    using d by (rule sum_list_distinct_conv_sum_set [symmetric])
  also have "\<dots> = sum_list (map mb_size bs)"
    using o by (simp add: comp_def cong: map_cong)
  finally show ?thesis .
qed

end

section \<open>The invariant of the host-only manager\<close>

definition active_list :: "MemoryManager \<Rightarrow> MemoryBlock list" where
  "active_list m = map snd (mm_activeBlocks m)"

definition host_ok_with :: "MemoryBlock list \<Rightarrow> MemoryManager \<Rightarrow> bool" where
  "host_ok_with bs m \<longleftrightarrow>
     cpu_inv (mm_cpuAllocator m) \<and>
     cpu.owns (mm_cpuAllocator m) (bs @ active_list m @ mp_freeList (mm_cpuPool4MB m)) \<and>
     (\<forall>b\<in>set bs \<union> set (active_list m) \<union> set (mp_freeList (mm_cpuPool4MB m)).
        mb_location b = MemoryLocation.CPU) \<and>
     (\<forall>b\<in>set (mp_freeList (mm_cpuPool4MB m)). mb_size b = POOL_BLOCK_SIZE) \<and>
     mp_blockSize (mm_cpuPool4MB m) = POOL_BLOCK_SIZE \<and>
     distinct (keys_of (mm_activeBlocks m)) \<and>
     (\<forall>(i, b)\<in>set (mm_activeBlocks m). mb_id b = i) \<and>
     mp_freeList (mm_gpuPool4MB m) = []"

abbreviation host_ok :: "MemoryManager \<Rightarrow> bool" where
  "host_ok m \<equiv> host_ok_with [] m"

lemma cpu_init_blocks: "cpu_blocks (cpu_init ram) = Map.empty"
  by (simp add: cpu_blocks_def [abs_def] cpu_init_def)

lemma host_ok_init: "host_ok (mm_init ram dl hv)"
  by (simp add: host_ok_with_def mm_init_def cpu_inv_init active_list_def pool_init_def keys_of_def
      cpu.owns_def cpu_init_blocks)

lemma host_ok_cong:
  "host_ok_with bs m \<Longrightarrow> mm_cpuAllocator m' = mm_cpuAllocator m \<Longrightarrow>
   mm_activeBlocks m' = mm_activeBlocks m \<Longrightarrow> mm_cpuPool4MB m' = mm_cpuPool4MB m \<Longrightarrow>
   mm_gpuPool4MB m' = mm_gpuPool4MB m \<Longrightarrow> host_ok_with bs m'"
  by (simp add: host_ok_with_def active_list_def)

text \<open>Without Vulkan a request for device memory fails and changes nothing.\<close>

lemma gpu_request_fails:
  assumes "\<not> ve_available (me_backend env)" "mp_freeList (mm_gpuPool4MB m) = []"
  shows "allocateInternal env n MemoryLocation.GPU m = (empty_block, m)"
  using assms
  by (simp add: allocateInternal_def pool_acquire_def env_gpu_def gpu_vtable_def gpu_allocate_def)

lemma host_alloc_pooled:
  assumes ok: "host_ok m" and ne: "mp_freeList (mm_cpuPool4MB m) \<noteq> []"
    and al: "allocateInternal env POOL_BLOCK_SIZE MemoryLocation.CPU m = (b, m')"
  shows "host_ok_with [b] m' \<and> mm_cpuAllocator m' = mm_cpuAllocator m \<and> isValid b"
proof -
  let ?A = "active_list m"
  obtain fs f where f: "mp_freeList (mm_cpuPool4MB m) = fs @ [f]"
    using ne by (metis append_butlast_last_id)
  have o: "cpu.owns (mm_cpuAllocator m) (f # ?A @ fs)"
    using ok f by (subst cpu.owns_perm [of _ "?A @ fs @ [f]"]) (simp_all add: host_ok_with_def)
  have b: "b = f\<lparr>mb_state := MemoryState.RESIDENT, mb_access_count := 0\<rparr>"
    and m': "mm_cpuAllocator m' = mm_cpuAllocator m" "mp_freeList (mm_cpuPool4MB m') = fs"
      "mm_activeBlocks m' = mm_activeBlocks m" "mm_gpuPool4MB m' = mm_gpuPool4MB m"
      "mp_blockSize (mm_cpuPool4MB m') = mp_blockSize (mm_cpuPool4MB m)"
    using al f by (auto simp: allocateInternal_def pool_acquire_def Let_def)
  have "cpu.owns (mm_cpuAllocator m) (b # ?A @ fs)"
    using cpu.owns_retag [OF o, of b] b by simp
  moreover have "isValid f" using cpu.owns_valid [of "mm_cpuAllocator m" _ f] o ok
    by (auto simp: host_ok_with_def)
  ultimately show ?thesis
    using ok f b m' by (auto simp: host_ok_with_def active_list_def isValid_def)
qed

lemma host_alloc_fresh:
  assumes ok: "host_ok m" and left: "0 < cpu_ids_left (mm_cpuAllocator m)"
    and fresh: "n \<noteq> POOL_BLOCK_SIZE \<or> mp_freeList (mm_cpuPool4MB m) = []"
    and al: "allocateInternal env n MemoryLocation.CPU m = (b, m')"
  shows "if isValid b then host_ok_with [b] m' else host_ok m'"
proof -
  obtain b0 a' where ca: "ma_allocate (env_cpu env) n (mm_cpuAllocator m) = (b0, a')" by fastforce
  have sz: "mp_blockSize (mm_cpuPool4MB m) = POOL_BLOCK_SIZE" using ok by (simp add: host_ok_with_def)
  have m': "b = b0" "mm_cpuAllocator m' = a'" "mm_activeBlocks m' = mm_activeBlocks m"
      "mp_freeList (mm_cpuPool4MB m') = mp_freeList (mm_cpuPool4MB m)"
      "mp_blockSize (mm_cpuPool4MB m') = POOL_BLOCK_SIZE" "mm_gpuPool4MB m' = mm_gpuPool4MB m"
    using al fresh ca sz
    by (auto simp: allocateInternal_def pool_acquire_def split: if_splits)
  have i: "cpu_inv (mm_cpuAllocator m)" using ok by (simp add: host_ok_with_def)
  note ca' = ca [unfolded env_cpu_def]
  have i': "cpu_inv a'" using cpu.alloc_inv [OF i left] ca' by (metis snd_conv)
  show ?thesis
  proof (cases "isValid b0")
    case True
    have "mb_location b0 = MemoryLocation.CPU"
      using ca' True by (auto simp: cpu_vtable_def cpu_allocate_def Let_def split: if_splits)
    moreover have "cpu.owns a' (b0 # active_list m @ mp_freeList (mm_cpuPool4MB m))"
      using cpu.owns_alloc [OF i _ ca' True] ok by (simp add: host_ok_with_def)
    ultimately show ?thesis
      using True ok m' i' by (simp add: host_ok_with_def active_list_def)
  next
    case False
    with cpu.alloc_fail [OF i ca'] m' ok show ?thesis
      by (simp add: host_ok_with_def active_list_def)
  qed
qed

lemma host_alloc:
  assumes "host_ok m" "0 < cpu_ids_left (mm_cpuAllocator m)"
    and "allocateInternal env n MemoryLocation.CPU m = (b, m')"
  shows "if isValid b then host_ok_with [b] m' else host_ok m'"
  using host_alloc_fresh [OF assms(1,2) _ assms(3)] host_alloc_pooled [OF assms(1)] assms(3)
  by (cases "n = POOL_BLOCK_SIZE \<and> mp_freeList (mm_cpuPool4MB m) \<noteq> []") auto

lemma host_free:
  assumes ok: "host_ok_with [b] m"
  shows "host_ok (snd (freeInternal env b m))"
proof -
  let ?a = "mm_cpuAllocator m" and ?rest = "active_list m @ mp_freeList (mm_cpuPool4MB m)"
  have o: "cpu.owns ?a (b # ?rest)" and i: "cpu_inv ?a" and loc: "mb_location b = MemoryLocation.CPU"
    using ok by (simp_all add: host_ok_with_def)
  have v: "isValid b" using cpu.owns_valid [OF i o] by simp
  note fr = cpu.owns_free [OF i o, of "me_malloc env" "me_now env", folded env_cpu_def]
  let ?b' = "b\<lparr>mb_state := MemoryState.FREE\<rparr>"
  have "cpu.owns ?a (?b' # ?rest)" using cpu.owns_retag [OF o, of ?b'] by simp
  then have "cpu.owns ?a (active_list m @ mp_freeList (mm_cpuPool4MB m) @ [?b'])"
    by (subst (asm) cpu.owns_perm [where cs = "active_list m @ mp_freeList (mm_cpuPool4MB m) @ [?b']"]) simp_all
  with fr show ?thesis
    using ok v loc
    by (auto simp: host_ok_with_def active_list_def freeInternal_def pool_release_def Let_def
        split: prod.splits)
qed

text \<open>Tracking a block moves it from the caller's hands into the table, and back.\<close>

lemma host_track:
  assumes ok: "host_ok_with [b] m" and b': "mb_id b' = mb_id b" "mb_size b' = mb_size b"
      "mb_location b' = mb_location b"
  shows "host_ok (put_tracked (mb_id b) b' m)"
proof -
  let ?a = "mm_cpuAllocator m"
  have fresh: "mb_id b \<notin> set (keys_of (mm_activeBlocks m))"
    using ok by (fastforce simp: host_ok_with_def cpu.owns_def active_list_def keys_of_def image_iff)
  have upd: "AList.update (mb_id b) b' xs = xs @ [(mb_id b, b')]"
    if "mb_id b \<notin> set (keys_of xs)" for xs :: "(u64 \<times> MemoryBlock) list"
    using that by (induction xs) (auto simp: keys_of_def)
  have "cpu.owns ?a (b' # active_list m @ mp_freeList (mm_cpuPool4MB m))"
    using ok b' by (auto simp: host_ok_with_def intro: cpu.owns_retag)
  then have "cpu.owns ?a ((active_list m @ [b']) @ mp_freeList (mm_cpuPool4MB m))"
    by (subst (asm) cpu.owns_perm [where cs = "(active_list m @ [b']) @ mp_freeList (mm_cpuPool4MB m)"])
      simp_all
  with ok b' fresh show ?thesis
    by (auto simp: host_ok_with_def put_tracked_def active_list_def upd keys_of_def)
qed

lemma host_untrack:
  assumes ok: "host_ok m" and t: "map_of (mm_activeBlocks m) i = Some t"
  shows "host_ok_with [t] (m\<lparr>mm_activeBlocks := AList.delete i (mm_activeBlocks m)\<rparr>) \<and> mb_id t = i"
proof -
  let ?d = "AList.delete i (mm_activeBlocks m)"
  have dk: "distinct (keys_of (mm_activeBlocks m))" using ok by (simp add: host_ok_with_def)
  note ms = mset_vals_delete [OF dk t]
  have mem: "(i, t) \<in> set (mm_activeBlocks m)" using t by (rule map_of_SomeD)
  have sub: "set ?d \<subseteq> set (mm_activeBlocks m)" by (simp add: AList.delete_eq)
  have k: "\<forall>(j, b)\<in>set (mm_activeBlocks m). mb_id b = j"
    and l: "\<forall>b\<in>set (active_list m). mb_location b = MemoryLocation.CPU"
    and o: "cpu.owns (mm_cpuAllocator m) (active_list m @ mp_freeList (mm_cpuPool4MB m))"
    using ok by (simp_all add: host_ok_with_def)
  have "t \<in> set (active_list m)" using mem by (force simp: active_list_def)
  with l bspec [OF k mem] have t': "mb_id t = i" "mb_location t = MemoryLocation.CPU" by simp_all
  have o': "cpu.owns (mm_cpuAllocator m) (t # map snd ?d @ mp_freeList (mm_cpuPool4MB m))"
    using o ms
    by (subst cpu.owns_perm [of _ "active_list m @ mp_freeList (mm_cpuPool4MB m)"])
      (simp_all add: active_list_def)
  have l': "\<forall>b\<in>set (map snd ?d). mb_location b = MemoryLocation.CPU"
    using l sub by (force simp: active_list_def)
  have k': "\<forall>(j, b)\<in>set ?d. mb_id b = j" using k sub by blast
  show ?thesis
    using ok o' l' k' t' distinct_keys_delete [OF dk]
    by (simp add: host_ok_with_def active_list_def ball_Un del: set_map)
qed

lemma host_retag:
  assumes ok: "host_ok m" and t: "map_of (mm_activeBlocks m) i = Some t"
    and b': "mb_id b' = mb_id t" "mb_size b' = mb_size t" "mb_location b' = mb_location t"
  shows "host_ok (put_tracked i b' m)"
proof -
  let ?u = "AList.update i b' (mm_activeBlocks m)"
  have upd: "map_of xs i = Some t \<Longrightarrow> f b' = f t \<Longrightarrow> map f (map snd (AList.update i b' xs)) = map f (map snd xs)"
    for f :: "MemoryBlock \<Rightarrow> 'x" and xs
    by (induction xs) (auto split: if_splits)
  let ?f = "\<lambda>b. (mb_id b, mb_size b)"
  have "cpu.owns (mm_cpuAllocator m) (map snd ?u @ mp_freeList (mm_cpuPool4MB m))"
    using ok upd [OF t, of ?f] b'
    by (subst cpu.owns_map [of _ "active_list m @ mp_freeList (mm_cpuPool4MB m)"])
      (simp_all add: host_ok_with_def active_list_def)
  moreover have "\<forall>b\<in>set (map snd ?u). mb_location b = MemoryLocation.CPU"
  proof -
    have "map mb_location (map snd ?u) = map mb_location (active_list m)"
      using upd [OF t, of mb_location] b' by (simp add: active_list_def)
    then have "mb_location ` set (map snd ?u) = mb_location ` set (active_list m)"
      by (metis list.set_map)
    with ok show ?thesis by (force simp: host_ok_with_def)
  qed
  moreover have "\<forall>(j, b)\<in>set ?u. mb_id b = j"
  proof -
    have k: "\<forall>(j, b)\<in>set (mm_activeBlocks m). mb_id b = j" using ok by (simp add: host_ok_with_def)
    have "set (AList.update i b' xs) \<subseteq> insert (i, b') (set xs)" for xs
      by (induction xs) auto
    with k bspec [OF k map_of_SomeD [OF t]] b' show ?thesis by fastforce
  qed
  ultimately show ?thesis
    using ok by (simp add: host_ok_with_def put_tracked_def active_list_def ball_Un
        distinct_keys_update del: set_map)
qed

section \<open>Runs of manager operations\<close>

datatype mm_op =
    MAlloc u64 MemoryLocation MemoryPriority
  | MRelease MemoryBlock
  | MMove MemoryBlock MemoryLocation
  | MEnforce

fun mm_step ::
    "(ScoredBlock list \<Rightarrow> ScoredBlock list) \<Rightarrow> MemEnv \<Rightarrow> mm_op \<Rightarrow> MemoryManager \<Rightarrow> MemoryManager" where
  "mm_step srt env (MAlloc n loc prio) m = snd (mm_allocate env n loc prio m)"
| "mm_step srt env (MRelease b) m = snd (mm_release env b m)"
| "mm_step srt env (MMove b dest) m = snd (snd (mm_move env b dest m))"
| "mm_step srt env MEnforce m = enforcePressureLimits srt env m"

definition mm_run ::
    "(ScoredBlock list \<Rightarrow> ScoredBlock list) \<Rightarrow> (MemEnv \<times> mm_op) list \<Rightarrow> MemoryManager \<Rightarrow> MemoryManager" where
  "mm_run srt xs m = fold (\<lambda>(env, x) m. mm_step srt env x m) xs m"

lemma host_mm_allocate:
  assumes nov: "\<not> ve_available (me_backend env)" and ok: "host_ok m"
    and left: "0 < cpu_ids_left (mm_cpuAllocator m)"
  shows "host_ok (snd (mm_allocate env n loc prio m))"
proof -
  have gp: "mp_freeList (mm_gpuPool4MB m) = []" using ok by (simp add: host_ok_with_def)
  obtain b m2 where ai: "request_block env n loc m = (b, m2)" by fastforce
  have "(b, m2) = allocateInternal env n MemoryLocation.CPU m \<or> (b = empty_block \<and> m2 = m)"
  proof (cases loc)
    case GPU
    with ai gpu_request_fails [OF nov gp, of n] show ?thesis by (simp add: request_block_def)
  qed (use ai in \<open>auto simp: request_block_def allocateInternal_def split: prod.splits\<close>)
  then have b: "if isValid b then host_ok_with [b] m2 else host_ok m2"
    using host_alloc [OF ok left, of env n b m2] ok by auto
  show ?thesis
  proof (cases "isValid b")
    case False
    with ai b show ?thesis by (simp add: mm_allocate_def)
  next
    case True
    let ?b = "b\<lparr>mb_priority := prio\<rparr>"
    let ?m3 = "m2\<lparr>mm_residencyManager := registerBlock (me_now env) (mb_id ?b)
       (if mb_location ?b = MemoryLocation.GPU then Residency.GPU else Residency.CPU)
       (mm_residencyManager m2)\<rparr>"
    obtain b'' m4 where sy: "syncBlockResidency env ?b ?m3 = (b'', m4)" by fastforce
    have "host_ok_with [b] m2" using b True by simp
    then have "host_ok_with [b] m4"
      by (rule host_ok_cong) (use sync_fields [OF sy] in simp_all)
    then have "host_ok (put_tracked (mb_id b) b'' m4)"
      by (rule host_track) (use sync_fields [OF sy] in simp_all)
    moreover have "snd (mm_allocate env n loc prio m) = put_tracked (mb_id b) b'' m4"
      using ai True sy sync_fields [OF sy]
      by (simp add: mm_allocate_def put_tracked_def Let_def)
    ultimately show ?thesis by simp
  qed
qed

lemma host_drop:
  assumes ok: "host_ok m" and t: "map_of (mm_activeBlocks m) i = Some t"
    and m': "m' = snd (freeInternal env t (m\<lparr>mm_residencyManager := rm\<rparr>))"
  shows "host_ok (m'\<lparr>mm_activeBlocks := AList.delete i (mm_activeBlocks m'), mm_evictionCount := ec\<rparr>)"
proof -
  let ?m1 = "m\<lparr>mm_residencyManager := rm\<rparr>"
  have fr: "freeInternal env t (s\<lparr>mm_activeBlocks := xs\<rparr>) =
      (case freeInternal env t s of (b, s') \<Rightarrow> (b, s'\<lparr>mm_activeBlocks := xs\<rparr>))"
    "mm_activeBlocks (snd (freeInternal env t s)) = mm_activeBlocks s" for s xs
    by (simp_all add: freeInternal_def split: prod.splits)
  have "host_ok ?m1" using ok by (rule host_ok_cong) simp_all
  then have "host_ok_with [t] (?m1\<lparr>mm_activeBlocks := AList.delete i (mm_activeBlocks ?m1)\<rparr>)"
    using host_untrack [of ?m1 i t] t by simp
  from host_free [OF this, of env]
  have "host_ok (m'\<lparr>mm_activeBlocks := AList.delete i (mm_activeBlocks m')\<rparr>)"
    unfolding m' fr by (simp split: prod.splits)
  then show ?thesis by (rule host_ok_cong) simp_all
qed

lemma host_mm_release:
  assumes ok: "host_ok m"
  shows "host_ok (snd (mm_release env b m))"
proof (cases "map_of (mm_activeBlocks m) (mb_id b)")
  case None
  with ok show ?thesis by (simp add: mm_release_def)
next
  case (Some t)
  from host_drop [OF ok Some refl, where env = env and
      rm = "unregisterBlock (mb_id b) (mm_residencyManager m)" and
      ec = "mm_evictionCount (snd (freeInternal env t
        (m\<lparr>mm_residencyManager := unregisterBlock (mb_id b) (mm_residencyManager m)\<rparr>)))"]
  show ?thesis using ok Some by (simp add: mm_release_def Let_def)
qed

lemma host_mm_move:
  assumes nov: "\<not> ve_available (me_backend env)" and ok: "host_ok m"
  shows "host_ok (snd (snd (mm_move env b dest m)))"
proof (cases "map_of (mm_activeBlocks m) (mb_id b)")
  case None
  with ok show ?thesis by (simp add: mm_move_def)
next
  case (Some t)
  obtain t1 m0 where sy: "syncBlockResidency env t m = (t1, m0)" by fastforce
  let ?m1 = "put_tracked (mb_id b) t1 m0"
  note sf = sync_fields [OF sy]
  have loc: "mb_location t = MemoryLocation.CPU"
    using ok map_of_SomeD [OF Some] by (force simp: host_ok_with_def active_list_def)
  have "host_ok m0" using ok by (rule host_ok_cong) (use sf in simp_all)
  then have o: "host_ok ?m1"
    by (rule host_retag) (use Some sf in simp_all)
  then have "mp_freeList (mm_gpuPool4MB ?m1) = []" by (simp add: host_ok_with_def)
  from gpu_request_fails [OF nov this] have
    "snd (snd (mm_move env b dest m)) = (if \<not> isValid b \<or> mb_location b = dest then m else ?m1)"
    using Some sy loc sf by (simp add: mm_move_def Let_def split: prod.splits)
  with ok o show ?thesis by simp
qed

lemma host_no_candidates:
  assumes "\<forall>(i, b)\<in>set xs. mb_location b = MemoryLocation.CPU"
  shows "collect_gpu env xs m = ([], m)"
  using assms by (induction env xs m rule: collect_gpu.induct) auto

lemma host_enforce:
  assumes ok: "host_ok m"
  shows "enforcePressureLimits srt env m = m"
proof -
  have "\<forall>(i, b)\<in>set (mm_activeBlocks m). mb_location b = MemoryLocation.CPU"
    using ok by (force simp: host_ok_with_def active_list_def)
  then show ?thesis
    by (simp add: enforcePressureLimits_def host_no_candidates selectForEviction_def)
qed

lemma host_step:
  assumes "\<not> ve_available (me_backend env)" "host_ok m" "0 < cpu_ids_left (mm_cpuAllocator m)"
  shows "host_ok (mm_step srt env x m)"
  using assms
  by (cases x) (simp_all add: host_mm_allocate host_mm_release host_mm_move host_enforce)

text \<open>Each operation uses up at most one identifier.\<close>

lemma freeInternal_left:
  "cpu_ids_left (mm_cpuAllocator (snd (freeInternal env b m))) = cpu_ids_left (mm_cpuAllocator m)"
  using cpu.free_left [of "me_malloc env" "me_now env" b "mm_cpuAllocator m"]
  by (auto simp: freeInternal_def pool_release_def Let_def env_cpu_def split: prod.splits)

lemma allocateInternal_left:
  "cpu_inv (mm_cpuAllocator m) \<Longrightarrow> allocateInternal env n loc m = (b, m') \<Longrightarrow>
   cpu_ids_left (mm_cpuAllocator m) \<le> Suc (cpu_ids_left (mm_cpuAllocator m'))"
  using cpu.alloc_left [of "mm_cpuAllocator m" "me_malloc env" "me_now env" n]
    cpu.alloc_left [of "mm_cpuAllocator m" "me_malloc env" "me_now env" "mp_blockSize (mm_cpuPool4MB m)"]
  by (auto simp: allocateInternal_def pool_acquire_def env_cpu_def Let_def
      split: prod.splits if_splits)

lemma mm_allocate_left:
  assumes nov: "\<not> ve_available (me_backend env)" and ok: "host_ok m"
  shows "cpu_ids_left (mm_cpuAllocator m)
    \<le> Suc (cpu_ids_left (mm_cpuAllocator (snd (mm_allocate env n loc prio m))))"
proof -
  have gp: "mp_freeList (mm_gpuPool4MB m) = []" and i: "cpu_inv (mm_cpuAllocator m)"
    using ok by (simp_all add: host_ok_with_def)
  obtain b m2 where ai: "request_block env n loc m = (b, m2)" by fastforce
  have "cpu_ids_left (mm_cpuAllocator m) \<le> Suc (cpu_ids_left (mm_cpuAllocator m2))"
  proof (cases loc)
    case GPU
    with ai gpu_request_fails [OF nov gp, of n] allocateInternal_left [OF i, of env n _ b m2]
    show ?thesis by (simp add: request_block_def)
  qed (use ai allocateInternal_left [OF i, of env n _ b m2] in
      \<open>auto simp: request_block_def split: prod.splits\<close>)
  then show ?thesis
    using ai by (auto simp: mm_allocate_def Let_def dest!: sync_fields split: prod.splits)
qed

lemma mm_release_left:
  "cpu_ids_left (mm_cpuAllocator (snd (mm_release env b m))) = cpu_ids_left (mm_cpuAllocator m)"
  by (auto simp: mm_release_def Let_def freeInternal_left split: option.splits)

lemma host_step_left:
  assumes nov: "\<not> ve_available (me_backend env)" and ok: "host_ok m"
  shows "cpu_ids_left (mm_cpuAllocator m) \<le> Suc (cpu_ids_left (mm_cpuAllocator (mm_step srt env x m)))"
proof (cases x)
  case (MMove b dest)
  have gp: "mp_freeList (mm_gpuPool4MB m) = []" using ok by (simp add: host_ok_with_def)
  have loc: "mb_location t = MemoryLocation.CPU" if "map_of (mm_activeBlocks m) i = Some t" for i t
    using ok map_of_SomeD [OF that] by (force simp: host_ok_with_def active_list_def)
  have "mm_cpuAllocator (snd (snd (mm_move env b dest m))) = mm_cpuAllocator m"
  proof (cases "map_of (mm_activeBlocks m) (mb_id b)")
    case (Some t)
    obtain t1 m0 where sy: "syncBlockResidency env t m = (t1, m0)" by fastforce
    let ?m1 = "put_tracked (mb_id b) t1 m0"
    note sf = sync_fields [OF sy]
    have "allocateInternal env n MemoryLocation.GPU ?m1 = (empty_block, ?m1)" for n
      using gp sf by (intro gpu_request_fails [OF nov]) (simp add: put_tracked_def)
    then show ?thesis
      using Some sy sf loc [OF Some] by (simp add: mm_move_def Let_def put_tracked_def)
  qed (simp add: mm_move_def)
  with MMove show ?thesis by simp
qed (use ok nov in \<open>simp_all add: mm_allocate_left mm_release_left host_enforce\<close>)

lemma host_run:
  assumes "\<forall>(env, x)\<in>set xs. \<not> ve_available (me_backend env)" "host_ok m"
    and "length xs \<le> cpu_ids_left (mm_cpuAllocator m)"
  shows "host_ok (mm_run srt xs m)"
  using assms
proof (induction xs arbitrary: m)
  case (Cons p xs)
  obtain env x where p: "p = (env, x)" by (cases p)
  with Cons.prems have nov: "\<not> ve_available (me_backend env)" by simp
  have "host_ok (mm_step srt env x m)"
    using host_step [OF nov Cons.prems(2)] Cons.prems(3) by simp
  moreover have "length xs \<le> cpu_ids_left (mm_cpuAllocator (mm_step srt env x m))"
    using host_step_left [OF nov Cons.prems(2), of srt x] Cons.prems(3) by simp
  ultimately have "host_ok (mm_run srt xs (mm_step srt env x m))"
    using Cons.prems(1) by (intro Cons.IH) simp_all
  then show ?case by (simp add: mm_run_def p)
qed (simp add: mm_run_def)

text \<open>
  C34: on a machine without Vulkan, after any sequence of allocations, releases, moves and
  pressure checks from a fresh manager, the used bytes the statistics report are exactly the
  bytes of the active blocks plus those waiting in the pool, all these blocks have different
  identifiers, and every tracked block is a live host allocation of its recorded size.
\<close>

theorem host_only_accounting:
  assumes env: "\<forall>(env, x)\<in>set xs. \<not> ve_available (me_backend env)"
    and len: "length xs < 2 ^ 64 - 1"
    and m: "m = mm_run srt xs (mm_init ram dl hv)"
  shows "ms_cpu_used_bytes (statistics m) =
      sum_list (map mb_size (active_list m @ mp_freeList (mm_cpuPool4MB m))) \<and>
    distinct (map mb_id (active_list m @ mp_freeList (mm_cpuPool4MB m))) \<and>
    (\<forall>b\<in>set (active_list m). mb_location b = MemoryLocation.CPU \<and>
       cpu_blocks (mm_cpuAllocator m) (mb_id b) = Some (mb_size b))"
proof -
  have "length xs \<le> cpu_ids_left (mm_cpuAllocator (mm_init ram dl hv))"
    using len by (simp add: mm_init_def cpu_ids_left_def cpu_init_def)
  from host_run [OF env host_ok_init this, of srt] m have ok: "host_ok m" by simp
  let ?bs = "active_list m @ mp_freeList (mm_cpuPool4MB m)"
  have o: "cpu_inv (mm_cpuAllocator m)" "cpu.owns (mm_cpuAllocator m) ?bs"
    using ok by (simp_all add: host_ok_with_def)
  have "ca_usedBytes (mm_cpuAllocator m) = sum_list (map mb_size ?bs)"
    using cpu.owns_used [OF o] by (simp add: cpu_vtable_def)
  moreover have "distinct (map mb_id ?bs)" using o(2) unfolding cpu.owns_def by blast
  ultimately show ?thesis
    using ok o(2) by (simp add: statistics_def Let_def host_ok_with_def cpu.owns_def)
qed

definition host_env :: MemEnv where
  "host_env = sample_env\<lparr>me_backend := \<lparr>ve_available = False, ve_newBufferId = (\<lambda>n. 0)\<rparr>\<rparr>"

theorem host_only_accounting_witness:
  "ms_cpu_used_bytes (statistics (mm_run (sort_key sb_score)
      [(host_env, MAlloc 100 MemoryLocation.GPU MemoryPriority.LOW),
       (host_env, MAlloc POOL_BLOCK_SIZE MemoryLocation.CPU MemoryPriority.NORMAL),
       (host_env, MRelease (empty_block\<lparr>mb_id := 2\<rparr>)), (host_env, MEnforce)]
      (mm_init 0 0 0))) = 4194404"
proof -
  let ?m = "mm_run (sort_key sb_score)
      [(host_env, MAlloc 100 MemoryLocation.GPU MemoryPriority.LOW),
       (host_env, MAlloc POOL_BLOCK_SIZE MemoryLocation.CPU MemoryPriority.NORMAL),
       (host_env, MRelease (empty_block\<lparr>mb_id := 2\<rparr>)), (host_env, MEnforce)]
      (mm_init 0 0 0)"
  have "sum_list (map mb_size (active_list ?m @ mp_freeList (mm_cpuPool4MB ?m))) = 4194404"
    by code_simp
  moreover have "\<not> ve_available (me_backend host_env)" by (simp add: host_env_def)
  ultimately show ?thesis
    using host_only_accounting [OF _ _ refl, of _ "sort_key sb_score" 0 0 0] by simp
qed

end
