(* ===== verification/ModelTypes.thy ===== *)
theory ModelTypes
  imports MemTypes
begin

text \<open>
  Data of the model-residency subsystem: the resource, workload and strategy enumerations with
  their printers, model resources and layers (\<open>src/model/ModelTypes.h\<close>), byte regions of a
  model file (\<open>src/model/ModelRegion.h\<close>), residency states, budget and telemetry
  (\<open>src/model/ModelResidencyTypes.h\<close>).
\<close>

section \<open>Enumerations of ModelTypes.h\<close>

datatype ResourceResidency =
    DISK | COLD | WARM | HOT | LOADING | EVICTING

fun toString_ResourceResidency :: "ResourceResidency \<Rightarrow> string" where
  "toString_ResourceResidency ResourceResidency.DISK = ''DISK''"
| "toString_ResourceResidency ResourceResidency.COLD = ''COLD''"
| "toString_ResourceResidency ResourceResidency.WARM = ''WARM''"
| "toString_ResourceResidency ResourceResidency.HOT = ''HOT''"
| "toString_ResourceResidency ResourceResidency.LOADING = ''LOADING''"
| "toString_ResourceResidency ResourceResidency.EVICTING = ''EVICTING''"

datatype ResourceType =
    GENERIC | TEXT_WEIGHTS | VISION_ENCODER | AUDIO_ENCODER | PROJECTION | DECODER
    | EMBEDDINGS | KV_CACHE

fun toString_ResourceType :: "ResourceType \<Rightarrow> string" where
  "toString_ResourceType ResourceType.GENERIC = ''GENERIC''"
| "toString_ResourceType ResourceType.TEXT_WEIGHTS = ''TEXT_WEIGHTS''"
| "toString_ResourceType ResourceType.VISION_ENCODER = ''VISION_ENCODER''"
| "toString_ResourceType ResourceType.AUDIO_ENCODER = ''AUDIO_ENCODER''"
| "toString_ResourceType ResourceType.PROJECTION = ''PROJECTION''"
| "toString_ResourceType ResourceType.DECODER = ''DECODER''"
| "toString_ResourceType ResourceType.EMBEDDINGS = ''EMBEDDINGS''"
| "toString_ResourceType ResourceType.KV_CACHE = ''KV_CACHE''"

datatype WorkloadClass =
    DEFAULT | LOW_LATENCY | THROUGHPUT | MEMORY_BOUND | COMPUTE_BOUND | STREAMING
    | BACKGROUND | INTERACTIVE | BATCH

fun toString_WorkloadClass :: "WorkloadClass \<Rightarrow> string" where
  "toString_WorkloadClass WorkloadClass.DEFAULT = ''DEFAULT''"
| "toString_WorkloadClass WorkloadClass.LOW_LATENCY = ''LOW_LATENCY''"
| "toString_WorkloadClass WorkloadClass.THROUGHPUT = ''THROUGHPUT''"
| "toString_WorkloadClass WorkloadClass.MEMORY_BOUND = ''MEMORY_BOUND''"
| "toString_WorkloadClass WorkloadClass.COMPUTE_BOUND = ''COMPUTE_BOUND''"
| "toString_WorkloadClass WorkloadClass.STREAMING = ''STREAMING''"
| "toString_WorkloadClass WorkloadClass.BACKGROUND = ''BACKGROUND''"
| "toString_WorkloadClass WorkloadClass.INTERACTIVE = ''INTERACTIVE''"
| "toString_WorkloadClass WorkloadClass.BATCH = ''BATCH''"

datatype ExecutionStrategy =
    AUTO | FULL_RESIDENT | PARTIAL_RESIDENT | STREAMING | MEMORY_PRESSURE | CPU_FALLBACK
    | ACCELERATOR_OFFLOAD | HYBRID

fun toString_ExecutionStrategy :: "ExecutionStrategy \<Rightarrow> string" where
  "toString_ExecutionStrategy ExecutionStrategy.AUTO = ''AUTO''"
| "toString_ExecutionStrategy ExecutionStrategy.FULL_RESIDENT = ''FULL_RESIDENT''"
| "toString_ExecutionStrategy ExecutionStrategy.PARTIAL_RESIDENT = ''PARTIAL_RESIDENT''"
| "toString_ExecutionStrategy ExecutionStrategy.STREAMING = ''STREAMING''"
| "toString_ExecutionStrategy ExecutionStrategy.MEMORY_PRESSURE = ''MEMORY_PRESSURE''"
| "toString_ExecutionStrategy ExecutionStrategy.CPU_FALLBACK = ''CPU_FALLBACK''"
| "toString_ExecutionStrategy ExecutionStrategy.ACCELERATOR_OFFLOAD = ''ACCELERATOR_OFFLOAD''"
| "toString_ExecutionStrategy ExecutionStrategy.HYBRID = ''HYBRID''"

section \<open>Resources and layers\<close>

record ModelResource =
  rs_id :: u64
  rs_name :: string
  rs_size_bytes :: u64
  rs_type :: ResourceType
  rs_source_path :: string
  rs_source_offset :: u64
  rs_block :: MemoryBlock
  rs_current_residency :: ResourceResidency
  rs_priority :: MemoryPriority
  rs_access_count :: u64
  rs_last_access_time :: time_point

definition empty_resource :: ModelResource where
  "empty_resource = \<lparr>rs_id = 0, rs_name = [], rs_size_bytes = 0, rs_type = ResourceType.GENERIC,
     rs_source_path = [], rs_source_offset = 0, rs_block = empty_block,
     rs_current_residency = ResourceResidency.DISK, rs_priority = MemoryPriority.NORMAL,
     rs_access_count = 0, rs_last_access_time = 0\<rparr>"

record ModelLayer =
  ly_id :: u64
  ly_model_id :: u64
  ly_name :: string
  ly_input_resources :: "u64 list"
  ly_output_resources :: "u64 list"
  ly_depends_on_layers :: "u64 list"
  ly_prefer_gpu :: bool
  ly_estimated_compute_ops :: u64
  ly_access_count :: u64
  ly_last_access_time :: time_point

definition empty_layer :: ModelLayer where
  "empty_layer = \<lparr>ly_id = 0, ly_model_id = 0, ly_name = [], ly_input_resources = [],
     ly_output_resources = [], ly_depends_on_layers = [], ly_prefer_gpu = True,
     ly_estimated_compute_ops = 0, ly_access_count = 0, ly_last_access_time = 0\<rparr>"

section \<open>Regions of a model file\<close>

datatype ModelRegionKind =
    GENERIC | TENSOR | LAYER | WEIGHT_BLOCK | ATTENTION_BLOCK | EMBEDDING_BLOCK | EXPERT
    | CUSTOM

fun toString_ModelRegionKind :: "ModelRegionKind \<Rightarrow> string" where
  "toString_ModelRegionKind ModelRegionKind.GENERIC = ''GENERIC''"
| "toString_ModelRegionKind ModelRegionKind.TENSOR = ''TENSOR''"
| "toString_ModelRegionKind ModelRegionKind.LAYER = ''LAYER''"
| "toString_ModelRegionKind ModelRegionKind.WEIGHT_BLOCK = ''WEIGHT_BLOCK''"
| "toString_ModelRegionKind ModelRegionKind.ATTENTION_BLOCK = ''ATTENTION_BLOCK''"
| "toString_ModelRegionKind ModelRegionKind.EMBEDDING_BLOCK = ''EMBEDDING_BLOCK''"
| "toString_ModelRegionKind ModelRegionKind.EXPERT = ''EXPERT''"
| "toString_ModelRegionKind ModelRegionKind.CUSTOM = ''CUSTOM''"

record ModelRegion =
  rg_id :: u64
  rg_offset :: u64
  rg_size :: u64
  rg_identifier :: string
  rg_kind :: ModelRegionKind
  rg_layer :: u32
  rg_tensor :: u32

definition empty_region :: ModelRegion where
  "empty_region = \<lparr>rg_id = 0, rg_offset = 0, rg_size = 0, rg_identifier = [],
     rg_kind = ModelRegionKind.GENERIC, rg_layer = 0, rg_tensor = 0\<rparr>"

definition rg_valid :: "ModelRegion \<Rightarrow> bool" where
  "rg_valid r \<longleftrightarrow> rg_size r > 0"

section \<open>Residency states, budget and telemetry\<close>

datatype ModelResidencyState =
    NOT_RESIDENT | LOADING_TO_RAM | RESIDENT_IN_RAM | LOADING_TO_ACCELERATOR
    | RESIDENT_IN_ACCELERATOR | EVICTING | ERROR

fun toString_ModelResidencyState :: "ModelResidencyState \<Rightarrow> string" where
  "toString_ModelResidencyState ModelResidencyState.NOT_RESIDENT = ''NOT_RESIDENT''"
| "toString_ModelResidencyState ModelResidencyState.LOADING_TO_RAM = ''LOADING_TO_RAM''"
| "toString_ModelResidencyState ModelResidencyState.RESIDENT_IN_RAM = ''RESIDENT_IN_RAM''"
| "toString_ModelResidencyState ModelResidencyState.LOADING_TO_ACCELERATOR = ''LOADING_TO_ACCELERATOR''"
| "toString_ModelResidencyState ModelResidencyState.RESIDENT_IN_ACCELERATOR = ''RESIDENT_IN_ACCELERATOR''"
| "toString_ModelResidencyState ModelResidencyState.EVICTING = ''EVICTING''"
| "toString_ModelResidencyState ModelResidencyState.ERROR = ''ERROR''"

datatype ModelResidencyTarget = RAM | ACCELERATOR

record ModelResidencyBudget =
  bd_ram_bytes :: u64
  bd_accelerator_bytes :: u64
  bd_prefetch_bytes :: u64

definition budget_default :: ModelResidencyBudget where
  "budget_default = \<lparr>bd_ram_bytes = 64 * 1024 * 1024, bd_accelerator_bytes = 64 * 1024 * 1024,
     bd_prefetch_bytes = 16 * 1024 * 1024\<rparr>"

record StreamingTelemetry =
  st_bytes_read_from_disk :: u64
  st_bytes_to_ram :: u64
  st_bytes_to_accelerator :: u64
  st_read_ms :: rat
  st_upload_ms :: rat
  st_eviction_count :: u64
  st_prefetch_count :: u64
  st_prefetch_hits :: u64
  st_prefetch_misses :: u64
  st_resident_ram_bytes :: u64
  st_resident_accelerator_bytes :: u64
  st_peak_ram_bytes :: u64
  st_peak_accelerator_bytes :: u64
  st_stall_count :: u64
  st_transfer_failures :: u64
  st_last_error :: string

definition telemetry_zero :: StreamingTelemetry where
  "telemetry_zero = \<lparr>st_bytes_read_from_disk = 0, st_bytes_to_ram = 0,
     st_bytes_to_accelerator = 0, st_read_ms = 0, st_upload_ms = 0, st_eviction_count = 0,
     st_prefetch_count = 0, st_prefetch_hits = 0, st_prefetch_misses = 0,
     st_resident_ram_bytes = 0, st_resident_accelerator_bytes = 0, st_peak_ram_bytes = 0,
     st_peak_accelerator_bytes = 0, st_stall_count = 0, st_transfer_failures = 0,
     st_last_error = []\<rparr>"

end
