(* ===== verification/AcceleratorMemory.thy ===== *)
theory AcceleratorMemory
  imports ModelTypes
begin

text \<open>
  Accelerator-visible memory: the interface (\<open>src/model/IAcceleratorMemory.h\<close>) as a record of
  operations, its contract as the locale \<open>accelerator_memory\<close>, and the host-RAM implementation
  (\<open>src/model/HostAcceleratorMemory.cpp\<close>) as an instance. A pointer is the serial number of
  its allocation (0 is null): the code only compares pointers. The bytes behind a pointer are
  part of the state, because the residency manager's promise is about them.
\<close>

section \<open>The interface\<close>

type_synonym ptr = nat

record 'a IAcceleratorMemory =
  am_name :: string
  am_isAvailable :: "'a \<Rightarrow> bool"
  am_capacity :: "'a \<Rightarrow> u64"
  am_available :: "'a \<Rightarrow> u64"
  am_lastError :: "'a \<Rightarrow> string"
  am_allocate :: "u64 \<Rightarrow> 'a \<Rightarrow> ptr \<times> 'a"
  am_release :: "ptr \<Rightarrow> 'a \<Rightarrow> 'a"
  am_upload :: "u8 list option \<Rightarrow> ptr \<Rightarrow> u64 \<Rightarrow> 'a \<Rightarrow> bool \<times> 'a"
  am_download :: "u8 list option \<Rightarrow> ptr \<Rightarrow> u64 \<Rightarrow> 'a \<Rightarrow> bool \<times> u8 list option \<times> 'a"

text \<open>\<open>memcpy\<close> of \<open>n\<close> bytes onto the start of a buffer.\<close>

definition memcpy :: "u8 list \<Rightarrow> u8 list \<Rightarrow> nat \<Rightarrow> u8 list" where
  "memcpy dst src n = take n src @ drop n dst"

lemma length_memcpy [simp]:
  "n \<le> length src \<Longrightarrow> n \<le> length dst \<Longrightarrow> length (memcpy dst src n) = length dst"
  by (simp add: memcpy_def)

lemma take_memcpy [simp]: "n \<le> length src \<Longrightarrow> take n (memcpy dst src n) = take n src"
  by (simp add: memcpy_def)

section \<open>The contract\<close>

text \<open>
  \<open>mem s p\<close> is the contents of the live allocation \<open>p\<close>. An allocation has a fresh non-null
  pointer and the requested length, a release forgets exactly its pointer, and an upload
  writes its destination only; when it succeeds the bytes have arrived.
\<close>

locale accelerator_memory =
  fixes ops :: "'a IAcceleratorMemory"
    and mem :: "'a \<Rightarrow> ptr \<Rightarrow> u8 list option"
    and inv :: "'a \<Rightarrow> bool"
  assumes alloc_null: "\<lbrakk>inv a; am_allocate ops n a = (0, a')\<rbrakk> \<Longrightarrow> inv a' \<and> mem a' = mem a"
    and alloc_ptr: "\<lbrakk>inv a; am_allocate ops n a = (p, a'); p \<noteq> 0\<rbrakk> \<Longrightarrow>
      inv a' \<and> mem a p = None \<and> (\<exists>bs. length bs = unat n \<and> mem a' = (mem a)(p \<mapsto> bs))"
    and release_mem: "\<lbrakk>inv a; mem a p \<noteq> None\<rbrakk> \<Longrightarrow>
      inv (am_release ops p a) \<and> mem (am_release ops p a) = (mem a)(p := None)"
    and upload_fail: "\<lbrakk>inv a; mem a p = Some bs; am_upload ops source p n a = (False, a')\<rbrakk> \<Longrightarrow>
      inv a' \<and> (\<exists>bs'. mem a' = (mem a)(p \<mapsto> bs'))"
    and upload_ok: "\<lbrakk>inv a; mem a p = Some bs; am_upload ops (Some src) p n a = (True, a');
        length src = unat n; length bs = unat n\<rbrakk> \<Longrightarrow> inv a' \<and> mem a' = (mem a)(p \<mapsto> src)"
    and null_dead: "inv a \<Longrightarrow> mem a 0 = None"
begin

text \<open>
  An allocation, an upload into it, and its release on failure: what the residency manager
  does with a fresh destination. Other allocations are untouched on every path.
\<close>

lemma alloc_upload_other:
  assumes "inv a" "am_allocate ops n a = (p, a1)" "p \<noteq> 0"
    and "am_upload ops source p n a1 = (False, a2)"
  shows "inv (am_release ops p a2) \<and> mem (am_release ops p a2) = mem a"
proof -
  from alloc_ptr [OF assms(1-3)] obtain bs where
    a1: "inv a1" "mem a p = None" "mem a1 = (mem a)(p \<mapsto> bs)" by blast
  then have "mem a1 p = Some bs" by simp
  from upload_fail [OF a1(1) this assms(4)] obtain bs' where
    a2: "inv a2" "mem a2 = (mem a1)(p \<mapsto> bs')" by blast
  then have "mem a2 p \<noteq> None" by simp
  from release_mem [OF a2(1) this] a1 a2 show ?thesis
    by auto
qed

lemma alloc_upload_ok:
  assumes "inv a" "am_allocate ops n a = (p, a1)" "p \<noteq> 0"
    and "am_upload ops (Some src) p n a1 = (True, a2)" "length src = unat n"
  shows "inv a2 \<and> mem a p = None \<and> mem a2 = (mem a)(p \<mapsto> src)"
proof -
  from alloc_ptr [OF assms(1-3)] obtain bs where
    a1: "inv a1" "mem a p = None" "mem a1 = (mem a)(p \<mapsto> bs)" "length bs = unat n" by blast
  then have "mem a1 p = Some bs" by simp
  from upload_ok [OF a1(1) this assms(4,5) a1(4)] a1 show ?thesis by simp
qed

end

section \<open>HostAcceleratorMemory\<close>

record HostAcceleratorMemory =
  ha_capacity :: u64
  ha_used :: u64
  ha_fail_next_upload :: bool
  ha_last_error :: string
  ha_allocs :: "(ptr \<times> (u64 \<times> u8 list)) list"
  ha_next :: ptr

definition host_acc_init :: "u64 \<Rightarrow> HostAcceleratorMemory" where
  "host_acc_init capacity_bytes = \<lparr>ha_capacity = capacity_bytes, ha_used = 0,
     ha_fail_next_upload = False, ha_last_error = [], ha_allocs = [], ha_next = 1\<rparr>"

definition host_acc_available :: "HostAcceleratorMemory \<Rightarrow> u64" where
  "host_acc_available a =
     (if ha_capacity a > ha_used a then ha_capacity a - ha_used a else 0)"

text \<open>
  \<open>newok n\<close> tells whether the system can serve \<open>new (std::nothrow) uint8_t[n]\<close>; the language
  never creates an array of more than \<open>PTRDIFF_MAX\<close> bytes.
\<close>

definition new_nothrow :: "(u64 \<Rightarrow> bool) \<Rightarrow> u64 \<Rightarrow> bool" where
  "new_nothrow newok n \<longleftrightarrow> n < 0x8000000000000000 \<and> newok n"

lemma new_nothrow_bound: "new_nothrow newok n \<Longrightarrow> unat n < 2 ^ 63"
  by (simp add: new_nothrow_def word_less_nat_alt)

definition host_acc_allocate ::
    "(u64 \<Rightarrow> bool) \<Rightarrow> u64 \<Rightarrow> HostAcceleratorMemory \<Rightarrow> ptr \<times> HostAcceleratorMemory" where
  "host_acc_allocate newok bytes a =
     (if bytes = 0 then (0, a\<lparr>ha_last_error := ''Zero-size accelerator allocation''\<rparr>)
      else if ha_used a + bytes > ha_capacity a then
        (0, a\<lparr>ha_last_error := ''Accelerator budget exceeded''\<rparr>)
      else if \<not> new_nothrow newok bytes then
        (0, a\<lparr>ha_last_error := ''Host accelerator allocation failed''\<rparr>)
      else let p = ha_next a in
        (p, a\<lparr>ha_allocs := AList.update p (bytes, replicate (unat bytes) 0) (ha_allocs a),
              ha_used := ha_used a + bytes,
              ha_last_error := [],
              ha_next := Suc p\<rparr>))"

definition host_acc_release :: "ptr \<Rightarrow> HostAcceleratorMemory \<Rightarrow> HostAcceleratorMemory" where
  "host_acc_release p a = (case map_of (ha_allocs a) p of
     None \<Rightarrow> a
   | Some (n, _) \<Rightarrow> a\<lparr>ha_used := ha_used a - n, ha_allocs := AList.delete p (ha_allocs a)\<rparr>)"

definition host_acc_upload ::
    "u8 list option \<Rightarrow> ptr \<Rightarrow> u64 \<Rightarrow> HostAcceleratorMemory \<Rightarrow> bool \<times> HostAcceleratorMemory" where
  "host_acc_upload source destination bytes a =
     (if ha_fail_next_upload a then
        (False, a\<lparr>ha_fail_next_upload := False,
                  ha_last_error := ''Simulated accelerator upload failure''\<rparr>)
      else case (source, map_of (ha_allocs a) destination) of
        (Some src, Some (n, dst)) \<Rightarrow>
          if bytes > n then (False, a\<lparr>ha_last_error := ''Invalid accelerator upload''\<rparr>)
          else (True, a\<lparr>ha_allocs := AList.update destination (n, memcpy dst src (unat bytes))
                          (ha_allocs a),
                        ha_last_error := []\<rparr>)
      | _ \<Rightarrow> (False, a\<lparr>ha_last_error := ''Invalid accelerator upload''\<rparr>))"

definition host_acc_download ::
    "u8 list option \<Rightarrow> ptr \<Rightarrow> u64 \<Rightarrow> HostAcceleratorMemory
     \<Rightarrow> bool \<times> u8 list option \<times> HostAcceleratorMemory" where
  "host_acc_download destination source bytes a =
     (case (destination, map_of (ha_allocs a) source) of
        (Some dst, Some (n, src)) \<Rightarrow>
          if bytes > n then
            (False, destination, a\<lparr>ha_last_error := ''Invalid accelerator download''\<rparr>)
          else (True, Some (memcpy dst src (unat bytes)), a)
      | _ \<Rightarrow> (False, destination, a\<lparr>ha_last_error := ''Invalid accelerator download''\<rparr>))"

definition host_acc_vtable :: "(u64 \<Rightarrow> bool) \<Rightarrow> HostAcceleratorMemory IAcceleratorMemory" where
  "host_acc_vtable newok = \<lparr>am_name = ''HostAcceleratorMemory'', am_isAvailable = (\<lambda>_. True),
     am_capacity = ha_capacity, am_available = host_acc_available, am_lastError = ha_last_error,
     am_allocate = host_acc_allocate newok, am_release = host_acc_release,
     am_upload = host_acc_upload, am_download = host_acc_download\<rparr>"

lemmas host_acc_defs = host_acc_allocate_def host_acc_release_def host_acc_upload_def
  host_acc_vtable_def

section \<open>Its invariant and its contract\<close>

definition host_mem :: "HostAcceleratorMemory \<Rightarrow> ptr \<Rightarrow> u8 list option" where
  "host_mem a p = map_option snd (map_of (ha_allocs a) p)"

definition alloc_size :: "u64 \<times> u8 list \<Rightarrow> nat" where
  "alloc_size e = unat (fst e)"

definition host_acc_inv :: "HostAcceleratorMemory \<Rightarrow> bool" where
  "host_acc_inv a \<longleftrightarrow>
     distinct (keys_of (ha_allocs a)) \<and> 0 < ha_next a \<and>
     (\<forall>p\<in>set (keys_of (ha_allocs a)). 0 < p \<and> p < ha_next a) \<and>
     (\<forall>p n bs. map_of (ha_allocs a) p = Some (n, bs) \<longrightarrow> length bs = unat n) \<and>
     ha_used a = asum fst (ha_allocs a) \<and>
     (unat (ha_capacity a) < 2 ^ 63 \<longrightarrow> asum alloc_size (ha_allocs a) \<le> unat (ha_capacity a))"

lemma host_acc_inv_init: "host_acc_inv (host_acc_init n)"
  by (simp add: host_acc_inv_def host_acc_init_def keys_of_def)

lemma of_nat_asum: "asum fst xs = (of_nat (asum alloc_size xs) :: u64)"
  by (induction xs) (simp_all add: alloc_size_def)

lemma host_used_exact:
  assumes "host_acc_inv a" "unat (ha_capacity a) < 2 ^ 63"
  shows "unat (ha_used a) = asum alloc_size (ha_allocs a)"
proof -
  have "asum alloc_size (ha_allocs a) < 2 ^ LENGTH(64)"
    using assms by (simp add: host_acc_inv_def)
  then show ?thesis
    using assms(1) of_nat_asum [of "ha_allocs a"]
    by (simp add: host_acc_inv_def unat_of_nat take_bit_nat_eq_self)
qed

lemma fresh_next: "host_acc_inv a \<Longrightarrow> map_of (ha_allocs a) (ha_next a) = None"
  by (auto simp: host_acc_inv_def map_of_eq_None)

lemma host_alloc_room:
  assumes inv: "host_acc_inv a" and cap: "unat (ha_capacity a) < 2 ^ 63"
    and fit: "\<not> ha_used a + n > ha_capacity a" and n: "unat n < 2 ^ 63"
  shows "asum alloc_size (ha_allocs a) + unat n \<le> unat (ha_capacity a)"
proof -
  have u: "unat (ha_used a) = asum alloc_size (ha_allocs a)"
    by (rule host_used_exact [OF inv cap])
  moreover have "asum alloc_size (ha_allocs a) \<le> unat (ha_capacity a)"
    using inv cap by (simp add: host_acc_inv_def)
  ultimately have "unat (ha_used a + n) = unat (ha_used a) + unat n"
    using cap n by (intro unat_add_exact) simp
  with fit u show ?thesis by (simp add: word_less_nat_alt)
qed

lemma host_acc_inv_alloc:
  assumes inv: "host_acc_inv a" and al: "host_acc_allocate newok n a = (p, a')" and p: "p \<noteq> 0"
  shows "host_acc_inv a' \<and> host_mem a p = None \<and>
    (\<exists>bs. length bs = unat n \<and> host_mem a' = (host_mem a)(p \<mapsto> bs))"
proof -
  let ?e = "(n, replicate (unat n) 0)"
  have g: "\<not> ha_used a + n > ha_capacity a" "unat n < 2 ^ 63" "p = ha_next a"
    and a': "a' = a\<lparr>ha_allocs := AList.update p ?e (ha_allocs a), ha_used := ha_used a + n,
      ha_last_error := [], ha_next := Suc p\<rparr>"
    using al p by (auto simp: host_acc_allocate_def Let_def dest: new_nothrow_bound split: if_splits)
  have fresh: "map_of (ha_allocs a) p = None" using inv g(3) by (simp add: fresh_next)
  have keys: "distinct (keys_of (ha_allocs a'))"
    "\<forall>q\<in>set (keys_of (ha_allocs a')). 0 < q \<and> q < ha_next a'"
    using inv g(3) by (auto simp: host_acc_inv_def a' set_keys_update intro: less_SucI)
  have lens: "\<forall>q m bs. map_of (ha_allocs a') q = Some (m, bs) \<longrightarrow> length bs = unat m"
    using inv by (auto simp: host_acc_inv_def a')
  have used: "ha_used a' = asum fst (ha_allocs a')"
    using inv fresh by (simp add: host_acc_inv_def a' asum_update_new)
  have cap: "unat (ha_capacity a') < 2 ^ 63 \<longrightarrow>
      asum alloc_size (ha_allocs a') \<le> unat (ha_capacity a')"
    using host_alloc_room [OF inv _ g(1,2)] fresh
    by (simp add: a' asum_update_new alloc_size_def)
  have "host_acc_inv a'"
    unfolding host_acc_inv_def using keys lens used cap by (simp add: a')
  moreover have "host_mem a p = None" using fresh by (simp add: host_mem_def)
  moreover have "host_mem a' = (host_mem a)(p \<mapsto> replicate (unat n) 0)"
    by (auto simp: host_mem_def a')
  ultimately show ?thesis by (metis length_replicate)
qed

lemma host_acc_inv_release:
  assumes inv: "host_acc_inv a"
  shows "host_acc_inv (host_acc_release p a) \<and>
    host_mem (host_acc_release p a) = (host_mem a)(p := None)"
proof (cases "map_of (ha_allocs a) p")
  case None
  with inv show ?thesis by (auto simp: host_acc_release_def host_mem_def)
next
  case (Some e)
  obtain n bs where e: "e = (n, bs)" by (cases e)
  have d: "distinct (keys_of (ha_allocs a))" using inv by (simp add: host_acc_inv_def)
  note s1 = asum_delete [OF d Some, of fst] and s2 = asum_delete [OF d Some, of alloc_size]
  have "host_acc_inv (host_acc_release p a)"
    using inv s1 s2 Some e
    by (auto simp: host_acc_inv_def host_acc_release_def set_keys_delete)
  then show ?thesis using Some e by (auto simp: host_acc_release_def host_mem_def)
qed

lemma host_acc_inv_upload:
  assumes inv: "host_acc_inv a" and live: "host_mem a p = Some bs"
    and up: "host_acc_upload source p n a = (ok, a')"
    and src: "ok \<Longrightarrow> \<exists>s. source = Some s \<and> unat n \<le> length s"
  shows "host_acc_inv a' \<and> (if ok
     then host_mem a' = (host_mem a)(p \<mapsto> memcpy bs (the source) (unat n))
     else host_mem a' = host_mem a)"
proof (cases ok)
  case False
  with up live inv show ?thesis
    by (auto simp: host_acc_upload_def host_acc_inv_def host_mem_def split: if_splits option.splits)
next
  case True
  from src [OF True] obtain s where s: "source = Some s" "unat n \<le> length s" by blast
  obtain m where m: "map_of (ha_allocs a) p = Some (m, bs)"
    using live by (auto simp: host_mem_def)
  have le: "n \<le> m" and a': "a' = a\<lparr>ha_allocs := AList.update p (m, memcpy bs s (unat n)) (ha_allocs a),
      ha_last_error := []\<rparr>"
    using up True s m by (auto simp: host_acc_upload_def split: if_splits)
  have lb: "length bs = unat m" using inv m by (auto simp: host_acc_inv_def)
  have "length (memcpy bs s (unat n)) = unat m"
    using s(2) lb le by (simp add: word_le_nat_alt)
  moreover have "asum fst (AList.update p (m, memcpy bs s (unat n)) (ha_allocs a)) =
      asum fst (ha_allocs a)"
    by (rule asum_update_same [OF m]) simp
  moreover have "asum alloc_size (AList.update p (m, memcpy bs s (unat n)) (ha_allocs a)) =
      asum alloc_size (ha_allocs a)"
    by (rule asum_update_same [OF m]) (simp add: alloc_size_def)
  moreover have "set (keys_of (ha_allocs a')) = set (keys_of (ha_allocs a))"
    using m by (auto simp: a' set_keys_update intro: map_of_mem_keys)
  ultimately have "host_acc_inv a'"
    using inv by (auto simp: host_acc_inv_def a')
  then show ?thesis using True s by (auto simp: a' host_mem_def)
qed

interpretation host_acc: accelerator_memory "host_acc_vtable newok" host_mem host_acc_inv
proof
  fix a a' :: HostAcceleratorMemory and n p bs src and source :: "u8 list option"
  show "host_acc_inv a \<Longrightarrow> am_allocate (host_acc_vtable newok) n a = (0, a') \<Longrightarrow>
      host_acc_inv a' \<and> host_mem a' = host_mem a"
    by (auto simp: host_acc_defs host_acc_inv_def host_mem_def Let_def split: if_splits)
  show "host_acc_inv a \<Longrightarrow> am_allocate (host_acc_vtable newok) n a = (p, a') \<Longrightarrow> p \<noteq> 0 \<Longrightarrow>
      host_acc_inv a' \<and> host_mem a p = None \<and>
      (\<exists>bs. length bs = unat n \<and> host_mem a' = (host_mem a)(p \<mapsto> bs))"
    using host_acc_inv_alloc by (simp add: host_acc_vtable_def)
  show "host_acc_inv a \<Longrightarrow> host_mem a p \<noteq> None \<Longrightarrow>
      host_acc_inv (am_release (host_acc_vtable newok) p a) \<and>
      host_mem (am_release (host_acc_vtable newok) p a) = (host_mem a)(p := None)"
    using host_acc_inv_release by (simp add: host_acc_vtable_def)
  show "host_acc_inv a \<Longrightarrow> host_mem a p = Some bs \<Longrightarrow>
      am_upload (host_acc_vtable newok) source p n a = (False, a') \<Longrightarrow>
      host_acc_inv a' \<and> (\<exists>bs'. host_mem a' = (host_mem a)(p \<mapsto> bs'))"
    using host_acc_inv_upload [of a p bs source n False a']
    by (auto simp: host_acc_vtable_def) (metis fun_upd_triv)
  show "host_acc_inv a \<Longrightarrow> host_mem a p = Some bs \<Longrightarrow>
      am_upload (host_acc_vtable newok) (Some src) p n a = (True, a') \<Longrightarrow>
      length src = unat n \<Longrightarrow> length bs = unat n \<Longrightarrow>
      host_acc_inv a' \<and> host_mem a' = (host_mem a)(p \<mapsto> src)"
    using host_acc_inv_upload [of a p bs "Some src" n True a']
    by (auto simp: host_acc_vtable_def memcpy_def)
  show "host_acc_inv a \<Longrightarrow> host_mem a 0 = None"
    by (auto simp: host_acc_inv_def host_mem_def map_of_eq_None)
qed

section \<open>Round trip\<close>

text \<open>
  bytes uploaded into a live host allocation are what a later download of it returns, with
  the rest of the destination buffer untouched.
\<close>

lemma host_acc_upload_download:
  assumes "host_acc_inv a" and "unat n \<le> length src"
    and "host_acc_upload (Some src) p n a = (True, a')"
  shows "host_acc_download (Some dst) p n a' = (True, Some (take (unat n) src @ drop (unat n) dst), a')"
proof -
  obtain m bs where m: "map_of (ha_allocs a) p = Some (m, bs)" and le: "n \<le> m"
    and a': "ha_allocs a' = AList.update p (m, memcpy bs src (unat n)) (ha_allocs a)"
    using assms(3) by (auto simp: host_acc_upload_def split: if_splits option.splits)
  have "take (unat n) (memcpy bs src (unat n)) = take (unat n) src"
    using assms(2) by simp
  then show ?thesis
    using le by (simp add: host_acc_download_def a' memcpy_def)
qed

lemma host_acc_upload_download_instance:
  "let a = snd (host_acc_upload (Some [1, 2]) 1 2
         (snd (host_acc_allocate (\<lambda>_. True) 3 (host_acc_init 8))))
   in host_acc_download (Some [9, 9, 9]) 1 2 a = (True, Some [1, 2, 9], a)"
proof -
  let ?a = "snd (host_acc_allocate (\<lambda>_. True) 3 (host_acc_init 8))"
  have "host_acc_allocate (\<lambda>_. True) 3 (host_acc_init 8) = (1, ?a)" by code_simp
  then have i: "host_acc_inv ?a"
    by (rule host_acc_inv_alloc [OF host_acc_inv_init, THEN conjunct1]) (rule one_neq_zero)
  let ?b = "snd (host_acc_upload (Some [1, 2]) 1 2 ?a)"
  have u: "host_acc_upload (Some [1, 2]) 1 2 ?a = (True, ?b)" by code_simp
  have l: "unat (2 :: u64) \<le> length [1, 2 :: u8]" by code_simp
  have t: "take (unat (2 :: u64)) [1, 2 :: u8] @ drop (unat (2 :: u64)) [9, 9, 9] = [1, 2, 9]"
    by code_simp
  show ?thesis
    unfolding Let_def host_acc_upload_download [OF i l u, of "[9, 9, 9]"] t ..
qed

end
