(* ===== verification/DataSource.thy ===== *)
theory DataSource
  imports ModelTypes
begin

text \<open>
  Random-access model bytes: the interface (\<open>src/model/IModelDataSource.h\<close>) as a record of
  operations with its contract as the locale \<open>model_data_source\<close>, and the file-backed source
  (\<open>src/model/FileModelDataSource.cpp\<close>) with its chunked read loop. The operating system is an
  environment record: the bytes of the file, which calls succeed and how many bytes each
  \<open>fread\<close> delivers. A cancel flag is the list of values its successive loads return; the empty
  list is a flag that is never set, or the null pointer.
\<close>

section \<open>The interface\<close>

type_synonym cancel = "bool list"

fun poll :: "cancel \<Rightarrow> bool \<times> cancel" where
  "poll [] = (False, [])"
| "poll (b # bs) = (b, bs)"

lemma poll_never [simp]: "set c \<subseteq> {False} \<Longrightarrow> fst (poll c) = False \<and> set (snd (poll c)) \<subseteq> {False}"
  by (cases c) auto

record 'd IModelDataSource =
  ds_size :: "'d \<Rightarrow> u64"
  ds_description :: "'d \<Rightarrow> string"
  ds_lastError :: "'d \<Rightarrow> string"
  ds_read :: "u64 \<Rightarrow> u8 list option \<Rightarrow> u64 \<Rightarrow> cancel \<Rightarrow> 'd
    \<Rightarrow> bool \<times> u8 list option \<times> cancel \<times> 'd"

definition bytes_at :: "u8 list \<Rightarrow> u64 \<Rightarrow> u64 \<Rightarrow> u8 list" where
  "bytes_at content off n = take (unat n) (drop (unat off) content)"

lemma length_bytes_at:
  "unat off + unat n \<le> length content \<Longrightarrow> length (bytes_at content off n) = unat n"
  by (simp add: bytes_at_def)

text \<open>A successful read stays within the data and fills the whole buffer with its bytes.\<close>

locale model_data_source =
  fixes ops :: "'d IModelDataSource"
    and content :: "u8 list"
    and inv :: "'d \<Rightarrow> bool"
  assumes read_inv: "\<lbrakk>inv d; ds_read ops off dst n c d = (ok, dst', c', d')\<rbrakk> \<Longrightarrow> inv d'"
    and read_ok: "\<lbrakk>inv d; ds_read ops off (Some buf) n c d = (True, dst', c', d');
        length buf = unat n\<rbrakk> \<Longrightarrow>
      unat off + unat n \<le> length content \<and> dst' = Some (bytes_at content off n)"
begin

lemma read_length:
  assumes "inv d" "ds_read ops off (Some buf) n c d = (True, Some buf', c', d')"
    and "length buf = unat n"
  shows "length buf' = unat n"
  using read_ok [OF assms] by (simp add: length_bytes_at)

end

section \<open>FileModelDataSource\<close>

text \<open>\<open>fd_file\<close> is the open stream, by its position; \<open>None\<close> is the null \<open>FILE\<close> pointer.\<close>

record FileModelDataSource =
  fd_path :: string
  fd_file :: "nat option"
  fd_size :: u64
  fd_last_error :: string

record FileEnv =
  fe_contents :: "u8 list"
  fe_fopen :: bool
  fe_seek :: "nat \<Rightarrow> bool"
  fe_seek_end :: bool
  fe_tell_fails :: bool
  fe_fread :: "nat \<Rightarrow> nat \<Rightarrow> nat"
  fe_ferror :: "nat \<Rightarrow> bool"

definition file_source :: "string \<Rightarrow> FileModelDataSource" where
  "file_source path = \<lparr>fd_path = path, fd_file = None, fd_size = 0, fd_last_error = []\<rparr>"

definition seek64 :: "FileEnv \<Rightarrow> u64 \<Rightarrow> nat option" where
  "seek64 env offset = (if fe_seek env (unat offset) then Some (unat offset) else None)"

definition tell64 :: "FileEnv \<Rightarrow> nat \<Rightarrow> u64" where
  "tell64 env pos = (if fe_tell_fails env then 0 else of_nat pos)"

definition file_open :: "FileEnv \<Rightarrow> FileModelDataSource \<Rightarrow> bool \<times> FileModelDataSource" where
  "file_open env d =
     (if fd_file d \<noteq> None then (True, d)
      else if \<not> fe_fopen env then
        (False, d\<lparr>fd_last_error := ''Failed to open model file: '' @ fd_path d\<rparr>)
      else if seek64 env 0 = None then
        (False, d\<lparr>fd_last_error := ''Failed to seek to start of '' @ fd_path d\<rparr>)
      else if \<not> fe_seek_end env then
        (False, d\<lparr>fd_last_error := ''Failed to measure size of '' @ fd_path d\<rparr>)
      else let pos = length (fe_contents env) in
        (True, d\<lparr>fd_file := Some pos, fd_size := tell64 env pos, fd_last_error := []\<rparr>))"

definition file_close :: "FileModelDataSource \<Rightarrow> FileModelDataSource" where
  "file_close d = d\<lparr>fd_file := None\<rparr>"

definition file_description :: "FileModelDataSource \<Rightarrow> string" where
  "file_description d = ''file:'' @ fd_path d"

text \<open>\<open>fread\<close> delivers at most what is asked and what the file has left.\<close>

definition fread :: "FileEnv \<Rightarrow> nat \<Rightarrow> nat \<Rightarrow> u8 list" where
  "fread env pos chunk = take (min chunk (fe_fread env pos chunk)) (drop pos (fe_contents env))"

lemma length_fread: "length (fread env pos chunk) \<le> chunk"
  by (simp add: fread_def)

definition CHUNK :: u64 where
  "CHUNK = 1024 * 1024"

lemma remaining_exact:
  assumes "g = fread env pos (unat (if remaining > CHUNK then CHUNK else remaining))"
  shows "length g \<le> unat remaining"
    "unat (remaining - of_nat (length g)) = unat remaining - length g"
proof -
  have "length g \<le> unat (if remaining > CHUNK then CHUNK else remaining)"
    using assms length_fread by simp
  also have "\<dots> \<le> unat remaining" by (simp add: word_less_nat_alt)
  finally show le: "length g \<le> unat remaining" .
  have "unat (of_nat (length g) :: u64) = length g"
    using le unsigned_less [of remaining, where 'a = nat]
    by (simp add: unat_of_nat take_bit_nat_eq_self)
  then show "unat (remaining - of_nat (length g)) = unat remaining - length g"
    using le unat_sub_exact [of "of_nat (length g)" remaining] by simp
qed

text \<open>
  The read loop: \<open>out\<close> collects the bytes written so far. It ends because a delivery of no
  bytes is an error.
\<close>

function read_loop ::
    "FileEnv \<Rightarrow> cancel \<Rightarrow> nat \<Rightarrow> u64 \<Rightarrow> u8 list \<Rightarrow> bool \<times> u8 list \<times> cancel \<times> nat \<times> string" where
  "read_loop env c pos remaining out =
     (if remaining = 0 then (True, out, c, pos, [])
      else case poll c of (cancelled, c) \<Rightarrow>
        if cancelled then (False, out, c, pos, ''Read cancelled'')
        else let
          chunk = (if remaining > CHUNK then CHUNK else remaining);
          got = fread env pos (unat chunk)
        in if got = [] then
             (False, out, c, pos,
              if fe_ferror env pos then ''I/O error during read''
              else ''Unexpected EOF (truncated file)'')
           else read_loop env c (pos + length got) (remaining - of_nat (length got)) (out @ got))"
  by pat_completeness auto

termination
proof (relation "measure (\<lambda>(env, c, pos, remaining, out). unat remaining)", goal_cases)
  case (2 env c pos remaining out cancelled c1 chunk got)
  then have "length got \<noteq> 0" "unat remaining \<noteq> 0"
    "unat (remaining - of_nat (length got)) = unat remaining - length got"
    using remaining_exact [of got env pos remaining] by (simp_all add: unat_eq_zero)
  then show ?case by simp
qed simp

declare read_loop.simps [simp del]

definition file_read ::
    "FileEnv \<Rightarrow> u64 \<Rightarrow> u8 list option \<Rightarrow> u64 \<Rightarrow> cancel \<Rightarrow> FileModelDataSource
     \<Rightarrow> bool \<times> u8 list option \<times> cancel \<times> FileModelDataSource" where
  "file_read env offset destination nbytes c d =
     (if destination = None \<or> nbytes = 0 then
        (False, destination, c, d\<lparr>fd_last_error := ''Invalid destination or zero-length read''\<rparr>)
      else case poll c of (cancelled, c) \<Rightarrow>
      if cancelled then (False, destination, c, d\<lparr>fd_last_error := ''Read cancelled''\<rparr>)
      else if fd_file d = None then
        (False, destination, c, d\<lparr>fd_last_error := ''File is not open''\<rparr>)
      else if offset > fd_size d \<or> nbytes > fd_size d - offset then
        (False, destination, c, d\<lparr>fd_last_error := ''Read exceeds file bounds''\<rparr>)
      else case seek64 env offset of
        None \<Rightarrow> (False, destination, c, d\<lparr>fd_last_error := ''Seek failed''\<rparr>)
      | Some pos \<Rightarrow> (case read_loop env c pos nbytes [] of (ok, out, c, pos, err) \<Rightarrow>
          (ok, Some (out @ drop (length out) (the destination)), c,
           d\<lparr>fd_file := Some pos, fd_last_error := err\<rparr>)))"

text \<open>The asynchronous read is the same read, run by the future's thread.\<close>

definition file_readAsync ::
    "FileEnv \<Rightarrow> u64 \<Rightarrow> u8 list option \<Rightarrow> u64 \<Rightarrow> cancel \<Rightarrow> FileModelDataSource
     \<Rightarrow> bool \<times> u8 list option \<times> cancel \<times> FileModelDataSource" where
  "file_readAsync env offset destination nbytes c d =
     file_read env offset destination nbytes c d"

definition file_vtable :: "FileEnv \<Rightarrow> FileModelDataSource IModelDataSource" where
  "file_vtable env = \<lparr>ds_size = fd_size, ds_description = file_description,
     ds_lastError = fd_last_error, ds_read = file_read env\<rparr>"

section \<open>The read loop\<close>

lemma fread_prefix:
  "fread env pos chunk = take (length (fread env pos chunk)) (drop pos (fe_contents env))"
  unfolding fread_def by (metis length_take take_take min.idem take_all_iff nat_le_linear min_def)

lemma read_loop_step:
  assumes "poll c = (cancelled, c1)"
    and "g = fread env pos (unat (if remaining > CHUNK then CHUNK else remaining))"
  shows "read_loop env c pos remaining out =
    (if remaining = 0 then (True, out, c, pos, [])
     else if cancelled then (False, out, c1, pos, ''Read cancelled'')
     else if g = [] then (False, out, c1, pos, if fe_ferror env pos then ''I/O error during read''
       else ''Unexpected EOF (truncated file)'')
     else read_loop env c1 (pos + length g) (remaining - of_nat (length g)) (out @ g))"
  by (subst read_loop.simps) (simp only: assms Let_def prod.case)

text \<open>
  What the loop has written is always the file's bytes from the start position on; success
  means that all of them arrived.
\<close>

lemma read_loop_bytes:
  assumes "read_loop env c pos remaining out = (ok, out', c', pos', err)"
  shows "\<exists>got. out' = out @ got \<and> got = take (length got) (drop pos (fe_contents env)) \<and>
    length got \<le> unat remaining \<and> (ok \<longrightarrow> length got = unat remaining)"
  using assms
proof (induction env c pos remaining out arbitrary: ok out' c' pos' err rule: read_loop.induct)
  case (1 env c pos remaining out)
  obtain cancelled c1 where po: "poll c = (cancelled, c1)" by (cases "poll c")
  define chunk where "chunk = (if remaining > CHUNK then CHUNK else remaining)"
  define g where "g = fread env pos (unat chunk)"
  note ex = remaining_exact [OF g_def [unfolded chunk_def]]
  note le = ex(1)
  show ?case
  proof (cases "remaining = 0 \<or> cancelled \<or> g = []")
    case True
    with "1.prems" show ?thesis
      unfolding read_loop_step [OF po g_def [unfolded chunk_def]] by (auto split: if_splits)
  next
    case False
    then have r: "read_loop env c1 (pos + length g) (remaining - of_nat (length g)) (out @ g)
        = (ok, out', c', pos', err)"
      using "1.prems" unfolding read_loop_step [OF po g_def [unfolded chunk_def]] by simp
    have "\<exists>got. out' = (out @ g) @ got \<and>
        got = take (length got) (drop (pos + length g) (fe_contents env)) \<and>
        length got \<le> unat (remaining - of_nat (length g)) \<and>
        (ok \<longrightarrow> length got = unat (remaining - of_nat (length g)))"
      using False po r by (intro "1.IH") (auto simp: g_def chunk_def)
    then obtain got where got: "out' = (out @ g) @ got"
      "got = take (length got) (drop (pos + length g) (fe_contents env))"
      "length got \<le> unat remaining - length g" "ok \<longrightarrow> length got = unat remaining - length g"
      unfolding ex(2) by blast
    have "g @ got = take (length g) (drop pos (fe_contents env)) @
        take (length got) (drop (length g) (drop pos (fe_contents env)))"
      using got(2) fread_prefix [of env pos "unat chunk"] by (simp add: g_def [symmetric] add.commute)
    then have eq: "g @ got = take (length (g @ got)) (drop pos (fe_contents env))"
      by (metis length_append take_add)
    show ?thesis
    proof (intro exI [of _ "g @ got"] conjI)
      show "g @ got = take (length (g @ got)) (drop pos (fe_contents env))" by (rule eq)
    qed (use got le in simp_all)
  qed
qed

text \<open>With a well-behaved system the loop delivers everything the file has.\<close>

definition fread_progress :: "FileEnv \<Rightarrow> bool" where
  "fread_progress env \<longleftrightarrow> (\<forall>pos chunk. 0 < chunk \<longrightarrow> 0 < fe_fread env pos chunk)"

lemma read_loop_succeeds:
  assumes "fread_progress env" "set c \<subseteq> {False}" "pos + unat remaining \<le> length (fe_contents env)"
  shows "fst (read_loop env c pos remaining out)"
  using assms
proof (induction env c pos remaining out rule: read_loop.induct)
  case (1 env c pos remaining out)
  obtain cancelled c1 where po: "poll c = (cancelled, c1)" by (cases "poll c")
  have c1: "\<not> cancelled" "set c1 \<subseteq> {False}" using poll_never [OF "1.prems"(2)] po by auto
  define chunk where "chunk = (if remaining > CHUNK then CHUNK else remaining)"
  define g where "g = fread env pos (unat chunk)"
  show ?case
  proof (cases "remaining = 0")
    case True
    then show ?thesis by (simp add: read_loop.simps)
  next
    case False
    then have "chunk \<noteq> 0" by (simp add: chunk_def CHUNK_def)
    then have ch: "0 < unat chunk" by (simp add: unat_gt_0)
    then have "0 < fe_fread env pos (unat chunk)" using "1.prems"(1) by (simp add: fread_progress_def)
    moreover have "unat remaining \<noteq> 0" using False by (simp add: unat_eq_zero)
    ultimately have ne: "g \<noteq> []" using ch "1.prems"(3) by (auto simp: g_def fread_def)
    note ex = remaining_exact [OF g_def [unfolded chunk_def]]
    note le = ex(1)
    have "fst (read_loop env c1 (pos + length g) (remaining - of_nat (length g)) (out @ g))"
      using False c1 ne po "1.prems" le
      by (intro "1.IH" [OF False po [symmetric] c1(1)]) (auto simp: g_def [unfolded chunk_def, symmetric] ex(2))
    then show ?thesis
      using False c1 ne unfolding read_loop_step [OF po g_def [unfolded chunk_def]] by simp
  qed
qed

lemma read_loop_err:
  "fst (read_loop env c pos remaining out) \<Longrightarrow>
   snd (snd (snd (snd (read_loop env c pos remaining out)))) = []"
proof (induction env c pos remaining out rule: read_loop.induct)
  case (1 env c pos remaining out)
  obtain cancelled c1 where po: "poll c = (cancelled, c1)" by (cases "poll c")
  note st = read_loop_step [OF po refl, of env pos remaining out]
  from "1.prems" "1.IH" po show ?case
    unfolding st by (auto split: if_splits)
qed

section \<open>The contract of the file source\<close>

definition file_inv :: "FileEnv \<Rightarrow> FileModelDataSource \<Rightarrow> bool" where
  "file_inv env d \<longleftrightarrow> (fd_file d \<noteq> None \<longrightarrow> unat (fd_size d) \<le> length (fe_contents env))"

lemma file_inv_source: "file_inv env (file_source path)"
  by (simp add: file_inv_def file_source_def)

lemma file_inv_open: "file_inv env d \<Longrightarrow> file_inv env (snd (file_open env d))"
  by (auto simp: file_inv_def file_open_def tell64_def Let_def unat_of_nat take_bit_nat_less_eq_self)

lemma file_inv_close: "file_inv env (file_close d)"
  by (simp add: file_inv_def file_close_def)

lemma bounds_exact:
  "\<not> (offset > sz \<or> nbytes > sz - offset) \<longleftrightarrow> unat offset + unat nbytes \<le> unat sz"
  for offset sz nbytes :: u64
  by (auto simp: word_less_nat_alt word_le_nat_alt not_less unat_sub_exact)

interpretation file_src: model_data_source "file_vtable env" "fe_contents env" "file_inv env"
proof
  fix d d' :: FileModelDataSource and off n :: u64 and dst dst' c c' ok
  assume "file_inv env d" "ds_read (file_vtable env) off dst n c d = (ok, dst', c', d')"
  then show "file_inv env d'"
    by (auto simp: file_vtable_def file_read_def file_inv_def split: if_splits prod.splits option.splits)
next
  fix d d' :: FileModelDataSource and off n :: u64 and buf dst' c c'
  assume inv: "file_inv env d" and buf: "length buf = unat n"
    and rd: "ds_read (file_vtable env) off (Some buf) n c d = (True, dst', c', d')"
  from rd have n: "\<not> (off > fd_size d \<or> n > fd_size d - off)" and op: "fd_file d \<noteq> None"
    by (auto simp: file_vtable_def file_read_def split: if_splits prod.splits)
  from n have bnd: "unat off + unat n \<le> unat (fd_size d)" by (simp only: bounds_exact)
  moreover have "unat (fd_size d) \<le> length (fe_contents env)" using inv op by (simp add: file_inv_def)
  ultimately have len: "unat off + unat n \<le> length (fe_contents env)" by simp
  from rd obtain c1 out pos' err where
    lp: "read_loop env c1 (unat off) n [] = (True, out, c', pos', err)"
    and dst: "dst' = Some (out @ drop (length out) buf)"
    by (auto simp: file_vtable_def file_read_def seek64_def split: if_splits prod.splits option.splits)
  from read_loop_bytes [OF lp] have "out = bytes_at (fe_contents env) off n" "length out = unat n"
    by (auto simp: bytes_at_def)
  with len dst buf show "unat off + unat n \<le> length (fe_contents env) \<and>
      dst' = Some (bytes_at (fe_contents env) off n)" by simp
qed

section \<open>Reading an open file\<close>

text \<open>
  C14: on an opened file whose system delivers at least one byte per \<open>fread\<close> and whose read is
  never cancelled, a read succeeds exactly when it is non-empty and inside the file; it then
  fills the buffer with the file's bytes at the offset, however the system splits the
  deliveries.
\<close>

theorem file_read_exact:
  assumes "file_open env (file_source path) = (True, d)" and "\<not> fe_tell_fails env"
    and "length (fe_contents env) < 2 ^ 64"
    and "fread_progress env" and "\<forall>p. fe_seek env p" and "set c \<subseteq> {False}"
    and "length buf = unat n"
    and "file_read env off (Some buf) n c d = (ok, dst, c', d')"
  shows "(ok \<longleftrightarrow> n \<noteq> 0 \<and> unat off + unat n \<le> length (fe_contents env)) \<and>
    (ok \<longrightarrow> dst = Some (bytes_at (fe_contents env) off n) \<and> fd_last_error d' = [])"
proof -
  have d: "fd_file d \<noteq> None" "unat (fd_size d) = length (fe_contents env)"
    using assms(1-3) by (auto simp: file_open_def file_source_def tell64_def Let_def unat_of_nat
      take_bit_nat_eq_self split: if_splits)
  then have inv: "file_inv env d" by (simp add: file_inv_def)
  obtain c1 where po: "poll c = (False, c1)" "set c1 \<subseteq> {False}"
    using poll_never [OF assms(6)] by (cases "poll c") auto
  show ?thesis
  proof (cases "n = 0 \<or> off > fd_size d \<or> n > fd_size d - off")
    case True
    then have "\<not> ok" using assms(8) po d
      by (auto simp: file_read_def split: if_splits prod.splits)
    moreover have "\<not> (n \<noteq> 0 \<and> unat off + unat n \<le> length (fe_contents env))"
      using True bounds_exact [of "fd_size d" off n, unfolded d(2)] by blast
    ultimately show ?thesis by simp
  next
    case False
    then have b: "unat off + unat n \<le> length (fe_contents env)"
      using bounds_exact [of "fd_size d" off n, unfolded d(2)] by blast
    obtain ok' out c2 pos err where
      lp: "read_loop env c1 (unat off) n [] = (ok', out, c2, pos, err)"
      by (metis prod_cases5)
    with read_loop_succeeds [OF assms(4) po(2) b, of "[]"] have ok': ok' by simp
    then have "err = []"
      using lp read_loop_err [of env c1 "unat off" n "[]"] by simp
    have ok: ok and "fd_last_error d' = err"
      using assms(5,8) False po d lp ok' by (auto simp: file_read_def seek64_def)
    moreover have "dst = Some (bytes_at (fe_contents env) off n)"
      using file_src.read_ok [OF inv _ assms(7), of off c dst c' d'] assms(8) ok
      by (simp add: file_vtable_def)
    ultimately show ?thesis using False b \<open>err = []\<close> by simp
  qed
qed

theorem file_read_exact_witness:
  "let env = \<lparr>fe_contents = [1, 2, 3, 4, 5], fe_fopen = True, fe_seek = (\<lambda>_. True), fe_seek_end = True,
         fe_tell_fails = False, fe_fread = (\<lambda>_ _. 2), fe_ferror = (\<lambda>_. False)\<rparr>;
       r = file_read env 1 (Some [0, 0, 0]) 3 [] (snd (file_open env (file_source ''m'')))
   in fst r \<and> fst (snd r) = Some [2, 3, 4]"
proof -
  define env where "env = \<lparr>fe_contents = [1, 2, 3, 4, 5], fe_fopen = True, fe_seek = (\<lambda>_. True),
    fe_seek_end = True, fe_tell_fails = False, fe_fread = (\<lambda>_ _. 2), fe_ferror = (\<lambda>_. False)\<rparr>"
  define d where "d = snd (file_open env (file_source ''m''))"
  obtain ok dst c' d' where r: "file_read env 1 (Some [0, 0, 0]) 3 [] d = (ok, dst, c', d')"
    by (metis prod_cases4)
  have op: "file_open env (file_source ''m'') = (True, d)"
    by (simp add: d_def env_def file_open_def file_source_def seek64_def Let_def)
  have "(ok \<longleftrightarrow> (3::u64) \<noteq> 0 \<and> unat (1::u64) + unat (3::u64) \<le> length (fe_contents env)) \<and>
    (ok \<longrightarrow> dst = Some (bytes_at (fe_contents env) 1 3) \<and> fd_last_error d' = [])"
    by (rule file_read_exact [OF op _ _ _ _ _ _ r]) (simp_all add: env_def fread_progress_def)
  moreover have "bytes_at (fe_contents env) 1 3 = [2, 3, 4]" "length (fe_contents env) = 5"
    by (simp_all add: env_def bytes_at_def)
  ultimately have "ok \<and> dst = Some [2, 3, 4]" by simp
  then show ?thesis using r by (simp add: env_def [symmetric] d_def [symmetric] Let_def)
qed

end
