(* ===== verification/ModelResidency.thy ===== *)
theory ModelResidency
  imports AcceleratorMemory DataSource
begin

text \<open>
  The model residency manager (\<open>src/model/ModelResidencyManager.cpp\<close>): regions of a model file
  move from the file to host RAM and on to accelerator memory, under a RAM budget, with
  least-recently-used eviction and pins. Every public operation takes the mutex, so each is one
  function on the manager's state; it also returns the rest of the cancel flag's history. The
  operations that make room on the accelerator run a loop that ends only because of the
  manager's invariant, so they return an option: \<open>None\<close> is a loop that never ends. The long
  dash in one message of the source is written with two hyphens.
\<close>

section \<open>State\<close>

record Record =
  rr_region :: ModelRegion
  rr_state :: ModelResidencyState
  rr_ram :: "u8 list option"
  rr_accel :: ptr
  rr_refs :: int
  rr_pins :: int
  rr_last_used :: time_point
  rr_transferring :: bool
  rr_prefetched :: bool

record ('d, 'a) ModelResidencyManager =
  rm_source :: 'd
  rm_budget :: ModelResidencyBudget
  rm_accelerator :: "'a option"
  rm_prefetch_enabled :: bool
  rm_records :: "(u64 \<times> Record) list"
  rm_telemetry :: StreamingTelemetry
  rm_last_error :: string

text \<open>
  The environment of one operation: the two interfaces' operations, which allocations of host
  memory succeed, the clock and the measured durations.
\<close>

record ('d, 'a) ResidencyEnv =
  re_src :: "'d IModelDataSource"
  re_acc :: "'a IAcceleratorMemory"
  re_newok :: "u64 \<Rightarrow> bool"
  re_now :: time_point
  re_read_ms :: rat
  re_upload_ms :: rat

type_synonym ('d, 'a) rm = "('d, 'a) ModelResidencyManager"

definition rm_init :: "'d \<Rightarrow> ModelResidencyBudget \<Rightarrow> 'a option \<Rightarrow> ('d, 'a) rm" where
  "rm_init source budget accelerator = \<lparr>rm_source = source, rm_budget = budget,
     rm_accelerator = accelerator, rm_prefetch_enabled = True, rm_records = [],
     rm_telemetry = telemetry_zero, rm_last_error = []\<rparr>"

definition new_record :: "ModelRegion \<Rightarrow> Record" where
  "new_record region = \<lparr>rr_region = region, rr_state = ModelResidencyState.NOT_RESIDENT,
     rr_ram = None, rr_accel = 0, rr_refs = 0, rr_pins = 0, rr_last_used = 0,
     rr_transferring = False, rr_prefetched = False\<rparr>"

abbreviation rec_at :: "('d, 'a) rm \<Rightarrow> u64 \<Rightarrow> Record option" where
  "rec_at s k \<equiv> map_of (rm_records s) k"

text \<open>A C++ reference to a record is its key; a write through it updates the entry.\<close>

definition put_rec :: "u64 \<Rightarrow> Record \<Rightarrow> ('d, 'a) rm \<Rightarrow> ('d, 'a) rm" where
  "put_rec k r s = s\<lparr>rm_records := AList.update k r (rm_records s)\<rparr>"

definition set_error :: "string \<Rightarrow> ('d, 'a) rm \<Rightarrow> ('d, 'a) rm" where
  "set_error msg s = s\<lparr>rm_last_error := msg\<rparr>"

definition count_failure :: "('d, 'a) rm \<Rightarrow> ('d, 'a) rm" where
  "count_failure s = s\<lparr>rm_telemetry := (rm_telemetry s)
     \<lparr>st_transfer_failures := st_transfer_failures (rm_telemetry s) + 1\<rparr>\<rparr>"

definition getOrCreate :: "ModelRegion \<Rightarrow> ('d, 'a) rm \<Rightarrow> ('d, 'a) rm" where
  "getOrCreate region s = (case rec_at s (rg_id region) of
     None \<Rightarrow> put_rec (rg_id region) (new_record region) s
   | Some _ \<Rightarrow> s)"

definition in_ram :: "ModelResidencyState \<Rightarrow> bool" where
  "in_ram st \<longleftrightarrow> st = ModelResidencyState.RESIDENT_IN_RAM \<or>
     st = ModelResidencyState.RESIDENT_IN_ACCELERATOR"

definition at_target :: "ModelResidencyTarget \<Rightarrow> ModelResidencyState \<Rightarrow> bool" where
  "at_target target st = (case target of
     ModelResidencyTarget.RAM \<Rightarrow> in_ram st
   | ModelResidencyTarget.ACCELERATOR \<Rightarrow> st = ModelResidencyState.RESIDENT_IN_ACCELERATOR)"

section \<open>Choosing and removing a victim\<close>

definition busy :: "Record \<Rightarrow> bool" where
  "busy r \<longleftrightarrow> rr_pins r > 0 \<or> rr_refs r > 0 \<or> rr_transferring r"

definition lru_step ::
    "ModelResidencyTarget \<Rightarrow> u64 \<Rightarrow> bool \<times> time_point \<times> u64 \<Rightarrow> u64 \<times> Record
     \<Rightarrow> bool \<times> time_point \<times> u64" where
  "lru_step target skip_id acc kv = (case (acc, kv) of ((found, oldest, victim), (k, r)) \<Rightarrow>
     if k = skip_id then acc
     else if busy r then acc
     else if \<not> at_target target (rr_state r) then acc
     else if \<not> found \<or> rr_last_used r < oldest then (True, rr_last_used r, k)
     else acc)"

definition pickLru ::
    "('d, 'a) ResidencyEnv \<Rightarrow> ModelResidencyTarget \<Rightarrow> u64 \<Rightarrow> ('d, 'a) rm \<Rightarrow> u64" where
  "pickLru env target skip_id s =
     (case foldl (lru_step target skip_id) (False, re_now env, 0) (rm_records s) of
        (found, oldest, victim_id) \<Rightarrow> victim_id)"

definition sub_clamped :: "u64 \<Rightarrow> u64 \<Rightarrow> u64" where
  "sub_clamped resident sz = (if resident \<ge> sz then resident - sz else 0)"

definition accel_release ::
    "('d, 'a) ResidencyEnv \<Rightarrow> u64 \<Rightarrow> Record \<Rightarrow> ('d, 'a) rm \<Rightarrow> ('d, 'a) rm" where
  "accel_release env k r s = s\<lparr>
     rm_telemetry := (rm_telemetry s)\<lparr>st_resident_accelerator_bytes :=
       sub_clamped (st_resident_accelerator_bytes (rm_telemetry s)) (rg_size (rr_region r))\<rparr>,
     rm_accelerator := map_option (am_release (re_acc env) (rr_accel r)) (rm_accelerator s)\<rparr>"

definition ram_release :: "Record \<Rightarrow> ('d, 'a) rm \<Rightarrow> ('d, 'a) rm" where
  "ram_release r s = s\<lparr>rm_telemetry := (rm_telemetry s)\<lparr>st_resident_ram_bytes :=
     sub_clamped (st_resident_ram_bytes (rm_telemetry s)) (rg_size (rr_region r))\<rparr>\<rparr>"

definition count_eviction :: "('d, 'a) rm \<Rightarrow> ('d, 'a) rm" where
  "count_eviction s = s\<lparr>rm_telemetry := (rm_telemetry s)
     \<lparr>st_eviction_count := st_eviction_count (rm_telemetry s) + 1\<rparr>\<rparr>"

definition evictLocked ::
    "('d, 'a) ResidencyEnv \<Rightarrow> u64 \<Rightarrow> ('d, 'a) rm \<Rightarrow> bool \<times> ('d, 'a) rm" where
  "evictLocked env k s = (case rec_at s k of
     None \<Rightarrow> (True, s)
   | Some r \<Rightarrow>
       if busy r then (False, s)
       else let
         s = (if rr_accel r \<noteq> 0 \<and> rm_accelerator s \<noteq> None then accel_release env k r s else s);
         s = (if rr_ram r \<noteq> None then ram_release r s else s);
         s = count_eviction s
       in (True, s\<lparr>rm_records := AList.delete k (rm_records s)\<rparr>))"

lemma lru_fold_mem:
  "foldl (lru_step target skip_id) (fo, old, v) xs = (fo', old', v') \<Longrightarrow>
   v' = v \<or> v' \<in> set (keys_of xs)"
proof (induction xs arbitrary: fo old v)
  case (Cons kv xs)
  obtain fo1 old1 v1 where st: "lru_step target skip_id (fo, old, v) kv = (fo1, old1, v1)"
    by (metis prod_cases3)
  then have "v1 = v \<or> v1 = fst kv" by (auto simp: lru_step_def split: prod.splits if_splits)
  with Cons st show ?case by (fastforce simp: keys_of_def)
qed simp

lemma pickLru_mem: "pickLru env target skip_id s \<noteq> 0 \<Longrightarrow> \<exists>r. rec_at s (pickLru env target skip_id s) = Some r"
  using lru_fold_mem [of target skip_id False "re_now env" 0 "rm_records s"]
  by (auto simp: pickLru_def split: prod.splits) (metis map_of_eq_None not_None_eq)

lemma length_delete_less: "map_of xs k = Some v \<Longrightarrow> length (AList.delete k xs) < length xs"
proof (induction xs)
  case (Cons p xs)
  have "length (AList.delete k xs) \<le> length xs" by (rule length_delete_le)
  with Cons show ?case by (cases p) (auto split: if_splits)
qed simp

lemma evictLocked_shrinks:
  assumes "rec_at s k = Some r" "evictLocked env k s = (True, s')"
  shows "length (rm_records s') < length (rm_records s)"
  using assms length_delete_less [of "rm_records s" k r]
  by (auto simp: evictLocked_def accel_release_def ram_release_def count_eviction_def Let_def
      split: if_splits)

section \<open>Making room\<close>

function makeRamRoom ::
    "('d, 'a) ResidencyEnv \<Rightarrow> u64 \<Rightarrow> u64 \<Rightarrow> ('d, 'a) rm \<Rightarrow> bool \<times> ('d, 'a) rm" where
  "makeRamRoom env needed skip_id s =
     (if st_resident_ram_bytes (rm_telemetry s) + needed > bd_ram_bytes (rm_budget s) then
        let victim = pickLru env ModelResidencyTarget.RAM skip_id s in
        if victim = 0 then
          (False, set_error ''RAM residency budget exhausted -- cannot evict further'' s)
        else case evictLocked env victim s of
          (False, s') \<Rightarrow> (False, set_error ''Cannot evict LRU region (pinned or transferring)'' s')
        | (True, s') \<Rightarrow> makeRamRoom env needed skip_id s'
      else (True, s))"
  by pat_completeness auto

termination
proof (relation "measure (\<lambda>(env, needed, skip_id, s). length (rm_records s))", goal_cases)
  case (2 env needed skip_id s victim ok s')
  then have "rec_at s victim \<noteq> None"
    using pickLru_mem [of env ModelResidencyTarget.RAM skip_id s] by auto
  moreover have "evictLocked env victim s = (True, s')" using 2 by simp
  ultimately show ?case using evictLocked_shrinks by fastforce
qed simp

declare makeRamRoom.simps [simp del]

definition accel_demote ::
    "('d, 'a) ResidencyEnv \<Rightarrow> u64 \<Rightarrow> Record \<Rightarrow> ('d, 'a) rm \<Rightarrow> ('d, 'a) rm" where
  "accel_demote env k r s = count_eviction (put_rec k
     (r\<lparr>rr_accel := 0, rr_state := ModelResidencyState.RESIDENT_IN_RAM\<rparr>) (accel_release env k r s))"

partial_function (option) makeAccelRoom ::
    "('d, 'a) ResidencyEnv \<Rightarrow> u64 \<Rightarrow> u64 \<Rightarrow> ('d, 'a) rm \<Rightarrow> (bool \<times> ('d, 'a) rm) option" where
  "makeAccelRoom env needed skip_id s = (case rm_accelerator s of
     None \<Rightarrow> Some (True, s)
   | Some acc \<Rightarrow>
       if am_available (re_acc env) acc < needed then
         let victim = pickLru env ModelResidencyTarget.ACCELERATOR skip_id s in
         if victim = 0 then
           Some (False, set_error ''Accelerator residency budget exhausted'' s)
         else case rec_at s victim of
           None \<Rightarrow> Some (True, s)
         | Some r \<Rightarrow>
             makeAccelRoom env needed skip_id
               (if rr_accel r \<noteq> 0 then accel_demote env victim r s else s)
       else Some (True, s))"

declare makeAccelRoom.simps [code]

section \<open>Transfers\<close>

definition fail_load :: "u64 \<Rightarrow> Record \<Rightarrow> string \<Rightarrow> ('d, 'a) rm \<Rightarrow> ('d, 'a) rm" where
  "fail_load k r msg s = count_failure (set_error msg (put_rec k
     (r\<lparr>rr_state := ModelResidencyState.ERROR, rr_transferring := False\<rparr>) s))"

definition load_telemetry :: "rat \<Rightarrow> u64 \<Rightarrow> StreamingTelemetry \<Rightarrow> StreamingTelemetry" where
  "load_telemetry ms sz t = (let resident = st_resident_ram_bytes t + sz in
     t\<lparr>st_bytes_read_from_disk := st_bytes_read_from_disk t + sz,
       st_bytes_to_ram := st_bytes_to_ram t + sz,
       st_read_ms := dbl (st_read_ms t + ms),
       st_resident_ram_bytes := resident,
       st_peak_ram_bytes := (if resident > st_peak_ram_bytes t then resident
         else st_peak_ram_bytes t)\<rparr>)"

definition loadToRam ::
    "('d, 'a) ResidencyEnv \<Rightarrow> u64 \<Rightarrow> cancel \<Rightarrow> ('d, 'a) rm \<Rightarrow> bool \<times> cancel \<times> ('d, 'a) rm" where
  "loadToRam env k c s = (case poll c of (cancelled, c) \<Rightarrow>
     if cancelled then (False, c, set_error ''Cancelled before RAM load'' s)
     else let reg = rr_region (the (rec_at s k)) in
     case makeRamRoom env (rg_size reg) (rg_id reg) s of
       (False, s) \<Rightarrow> (False, c, s)
     | (True, s) \<Rightarrow>
         let r = (the (rec_at s k))\<lparr>rr_state := ModelResidencyState.LOADING_TO_RAM,
                   rr_transferring := True\<rparr>;
             s = put_rec k r s in
         if \<not> re_newok env (rg_size reg) then
           (False, c, fail_load k r
              (''RAM allocation failed for region '' @ rg_identifier reg) s)
         else (case ds_read (re_src env) (rg_offset reg)
             (Some (replicate (unat (rg_size reg)) 0)) (rg_size reg) c (rm_source s) of
           (ok, buf, c, src) \<Rightarrow>
             let s = s\<lparr>rm_source := src\<rparr> in
             if \<not> ok then (False, c, fail_load k r (ds_lastError (re_src env) src) s)
             else (True, c, (put_rec k (r\<lparr>rr_ram := buf,
                    rr_state := ModelResidencyState.RESIDENT_IN_RAM,
                    rr_transferring := False\<rparr>) s)
                    \<lparr>rm_telemetry := load_telemetry (re_read_ms env) (rg_size reg)
                       (rm_telemetry s)\<rparr>)))"

definition fail_upload ::
    "('d, 'a) ResidencyEnv \<Rightarrow> u64 \<Rightarrow> Record \<Rightarrow> 'a \<Rightarrow> ('d, 'a) rm \<Rightarrow> ('d, 'a) rm" where
  "fail_upload env k r acc s = count_failure (set_error (am_lastError (re_acc env) acc) (put_rec k
     (r\<lparr>rr_state := ModelResidencyState.RESIDENT_IN_RAM, rr_transferring := False\<rparr>)
     (s\<lparr>rm_accelerator := Some acc\<rparr>)))"

definition upload_telemetry :: "rat \<Rightarrow> u64 \<Rightarrow> StreamingTelemetry \<Rightarrow> StreamingTelemetry" where
  "upload_telemetry ms sz t = (let resident = st_resident_accelerator_bytes t + sz in
     t\<lparr>st_bytes_to_accelerator := st_bytes_to_accelerator t + sz,
       st_upload_ms := dbl (st_upload_ms t + ms),
       st_resident_accelerator_bytes := resident,
       st_peak_accelerator_bytes := (if resident > st_peak_accelerator_bytes t then resident
         else st_peak_accelerator_bytes t)\<rparr>)"

definition upload_into ::
    "('d, 'a) ResidencyEnv \<Rightarrow> u64 \<Rightarrow> 'a \<Rightarrow> ('d, 'a) rm \<Rightarrow> bool \<times> ('d, 'a) rm" where
  "upload_into env k acc s = (
     let r = (the (rec_at s k))\<lparr>rr_state := ModelResidencyState.LOADING_TO_ACCELERATOR,
               rr_transferring := True\<rparr>;
         reg = rr_region r;
         s = put_rec k r s in
     case am_allocate (re_acc env) (rg_size reg) acc of (dst, acc) \<Rightarrow>
       if dst = 0 then (False, fail_upload env k r acc s)
       else (case am_upload (re_acc env) (rr_ram r) dst (rg_size reg) acc of (ok, acc) \<Rightarrow>
         if \<not> ok then (False, fail_upload env k r (am_release (re_acc env) dst acc) s)
         else (True, (put_rec k (r\<lparr>rr_accel := dst,
                rr_state := ModelResidencyState.RESIDENT_IN_ACCELERATOR,
                rr_transferring := False\<rparr>) s)
                \<lparr>rm_accelerator := Some acc,
                 rm_telemetry := upload_telemetry (re_upload_ms env) (rg_size reg)
                   (rm_telemetry s)\<rparr>)))"

definition uploadLocked ::
    "('d, 'a) ResidencyEnv \<Rightarrow> u64 \<Rightarrow> cancel \<Rightarrow> ('d, 'a) rm
     \<Rightarrow> (bool \<times> cancel \<times> ('d, 'a) rm) option" where
  "uploadLocked env k c s = (case rm_accelerator s of
     None \<Rightarrow> Some (False, c, count_failure (set_error ''Accelerator unavailable for upload'' s))
   | Some acc \<Rightarrow>
       if \<not> am_isAvailable (re_acc env) acc then
         Some (False, c, count_failure (set_error ''Accelerator unavailable for upload'' s))
       else if rr_ram (the (rec_at s k)) = None then
         Some (False, c, count_failure (set_error ''Cannot upload region without RAM buffer'' s))
       else case poll c of (cancelled, c) \<Rightarrow>
       if cancelled then Some (False, c, set_error ''Cancelled before accelerator upload'' s)
       else let reg = rr_region (the (rec_at s k)) in
       case makeAccelRoom env (rg_size reg) (rg_id reg) s of
         None \<Rightarrow> None
       | Some (False, s) \<Rightarrow> Some (False, c, s)
       | Some (True, s) \<Rightarrow>
           (case upload_into env k (the (rm_accelerator s)) s of (ok, s) \<Rightarrow> Some (ok, c, s)))"

section \<open>Public operations\<close>

text \<open>The two transfer steps \<open>ensureResident\<close> and \<open>prefetch\<close> share.\<close>

definition bring ::
    "('d, 'a) ResidencyEnv \<Rightarrow> ModelResidencyTarget \<Rightarrow> u64 \<Rightarrow> cancel \<Rightarrow> ('d, 'a) rm
     \<Rightarrow> (bool \<times> cancel \<times> ('d, 'a) rm) option" where
  "bring env target k c s = (
     case (if \<not> in_ram (rr_state (the (rec_at s k))) then loadToRam env k c s else (True, c, s)) of
       (False, c, s) \<Rightarrow> Some (False, c, s)
     | (True, c, s) \<Rightarrow>
         if target = ModelResidencyTarget.ACCELERATOR \<and>
            rr_state (the (rec_at s k)) \<noteq> ModelResidencyState.RESIDENT_IN_ACCELERATOR
         then uploadLocked env k c s
         else Some (True, c, s))"

definition touch_rec :: "time_point \<Rightarrow> u64 \<Rightarrow> ('d, 'a) rm \<Rightarrow> ('d, 'a) rm" where
  "touch_rec now k s = put_rec k ((the (rec_at s k))\<lparr>rr_last_used := now\<rparr>) s"

definition ensureResident ::
    "('d, 'a) ResidencyEnv \<Rightarrow> ModelRegion \<Rightarrow> ModelResidencyTarget \<Rightarrow> cancel \<Rightarrow> ('d, 'a) rm
     \<Rightarrow> (bool \<times> cancel \<times> ('d, 'a) rm) option" where
  "ensureResident env region target c s =
     (if \<not> rg_valid region then Some (False, c, set_error ''Invalid region (zero size)'' s)
      else let
        k = rg_id region;
        s = getOrCreate region s;
        r = the (rec_at s k)
      in if at_target target (rr_state r) then Some (True, c, touch_rec (re_now env) k s)
      else if rr_transferring r then
        Some (False, c, set_error ''Region is already being transferred'' s)
      else case bring env target k c s of
        None \<Rightarrow> None
      | Some (False, c, s) \<Rightarrow> Some (False, c, s)
      | Some (True, c, s) \<Rightarrow> Some (True, c, touch_rec (re_now env) k s))"

definition count_hit :: "('d, 'a) rm \<Rightarrow> ('d, 'a) rm" where
  "count_hit s = s\<lparr>rm_telemetry := (rm_telemetry s)
     \<lparr>st_prefetch_hits := st_prefetch_hits (rm_telemetry s) + 1\<rparr>\<rparr>"

definition count_miss :: "('d, 'a) rm \<Rightarrow> ('d, 'a) rm" where
  "count_miss s = s\<lparr>rm_telemetry := (rm_telemetry s)
     \<lparr>st_prefetch_misses := st_prefetch_misses (rm_telemetry s) + 1,
      st_prefetch_count := st_prefetch_count (rm_telemetry s) + 1\<rparr>\<rparr>"

definition prefetch ::
    "('d, 'a) ResidencyEnv \<Rightarrow> ModelRegion \<Rightarrow> ModelResidencyTarget \<Rightarrow> cancel \<Rightarrow> ('d, 'a) rm
     \<Rightarrow> (bool \<times> cancel \<times> ('d, 'a) rm) option" where
  "prefetch env region target c s =
     (if \<not> rm_prefetch_enabled s then Some (False, c, s)
      else if \<not> rg_valid region then Some (False, c, s)
      else let
        k = rg_id region;
        s = getOrCreate region s;
        r = the (rec_at s k)
      in if at_target target (rr_state r) then Some (True, c, count_hit s)
      else let s = count_miss s in
      if rr_transferring r then Some (False, c, s)
      else case bring env target k c s of
        None \<Rightarrow> None
      | Some (False, c, s) \<Rightarrow> Some (False, c, s)
      | Some (True, c, s) \<Rightarrow> Some (True, c, put_rec k ((the (rec_at s k))
          \<lparr>rr_prefetched := True, rr_last_used := re_now env\<rparr>) s))"

definition pin :: "u64 \<Rightarrow> ('d, 'a) rm \<Rightarrow> ('d, 'a) rm" where
  "pin k s = (case rec_at s k of None \<Rightarrow> s
   | Some r \<Rightarrow> put_rec k (r\<lparr>rr_pins := rr_pins r + 1\<rparr>) s)"

definition unpin :: "u64 \<Rightarrow> ('d, 'a) rm \<Rightarrow> ('d, 'a) rm" where
  "unpin k s = (case rec_at s k of None \<Rightarrow> s
   | Some r \<Rightarrow> if rr_pins r > 0 then put_rec k (r\<lparr>rr_pins := rr_pins r - 1\<rparr>) s else s)"

definition isResident :: "u64 \<Rightarrow> ModelResidencyTarget \<Rightarrow> ('d, 'a) rm \<Rightarrow> bool" where
  "isResident k target s = (case rec_at s k of None \<Rightarrow> False
   | Some r \<Rightarrow> at_target target (rr_state r))"

definition rm_state :: "u64 \<Rightarrow> ('d, 'a) rm \<Rightarrow> ModelResidencyState" where
  "rm_state k s = (case rec_at s k of None \<Rightarrow> ModelResidencyState.NOT_RESIDENT
   | Some r \<Rightarrow> rr_state r)"

definition ramPointer :: "u64 \<Rightarrow> ('d, 'a) rm \<Rightarrow> u8 list option" where
  "ramPointer k s = (case rec_at s k of None \<Rightarrow> None
   | Some r \<Rightarrow> if in_ram (rr_state r) then rr_ram r else None)"

definition evict :: "('d, 'a) ResidencyEnv \<Rightarrow> u64 \<Rightarrow> ('d, 'a) rm \<Rightarrow> bool \<times> ('d, 'a) rm" where
  "evict env k s = evictLocked env k s"

fun release_accels :: "'a IAcceleratorMemory \<Rightarrow> (u64 \<times> Record) list \<Rightarrow> 'a \<Rightarrow> 'a" where
  "release_accels ops [] acc = acc"
| "release_accels ops ((k, r) # xs) acc =
     release_accels ops xs (if rr_accel r \<noteq> 0 then am_release ops (rr_accel r) acc else acc)"

definition releaseAll :: "('d, 'a) ResidencyEnv \<Rightarrow> ('d, 'a) rm \<Rightarrow> ('d, 'a) rm" where
  "releaseAll env s = s\<lparr>
     rm_accelerator := map_option (release_accels (re_acc env) (rm_records s)) (rm_accelerator s),
     rm_records := [],
     rm_telemetry := (rm_telemetry s)\<lparr>st_resident_ram_bytes := 0,
       st_resident_accelerator_bytes := 0\<rparr>\<rparr>"

definition residentRamBytes :: "('d, 'a) rm \<Rightarrow> u64" where
  "residentRamBytes s = st_resident_ram_bytes (rm_telemetry s)"

definition residentAcceleratorBytes :: "('d, 'a) rm \<Rightarrow> u64" where
  "residentAcceleratorBytes s = st_resident_accelerator_bytes (rm_telemetry s)"

definition setPrefetchEnabled :: "bool \<Rightarrow> ('d, 'a) rm \<Rightarrow> ('d, 'a) rm" where
  "setPrefetchEnabled enabled s = s\<lparr>rm_prefetch_enabled := enabled\<rparr>"

end
