(* ===== verification/ResidencyContract.thy ===== *)
theory ResidencyContract
  imports ModelResidency
begin

text \<open>
  The residency manager over any data source and any accelerator that keep their contracts: the
  locale \<open>residency\<close> joins the two interfaces, states the manager's invariant and shows that
  every operation keeps it, that making room on the accelerator always ends, and that pinned
  regions stay where they are.
\<close>

definition ram_size :: "Record \<Rightarrow> nat" where
  "ram_size r = (if rr_ram r = None then 0 else unat (rg_size (rr_region r)))"

definition accel_size :: "Record \<Rightarrow> nat" where
  "accel_size r = (if rr_accel r = 0 then 0 else unat (rg_size (rr_region r)))"

text \<open>The telemetry agrees with the records and the RAM budget is respected.\<close>

definition tele_ok :: "ModelResidencyBudget \<Rightarrow> (u64 \<times> Record) list \<Rightarrow> StreamingTelemetry \<Rightarrow> bool" where
  "tele_ok b recs t \<longleftrightarrow>
     unat (st_resident_ram_bytes t) = asum ram_size recs \<and>
     unat (st_resident_accelerator_bytes t) = asum accel_size recs \<and>
     asum ram_size recs \<le> unat (bd_ram_bytes b) \<and>
     st_resident_ram_bytes t \<le> st_peak_ram_bytes t \<and>
     st_resident_accelerator_bytes t \<le> st_peak_accelerator_bytes t"

lemma rm_fields [simp]:
  "rm_records (accel_release env k r s) = rm_records s"
  "rm_budget (accel_release env k r s) = rm_budget s"
  "rm_source (accel_release env k r s) = rm_source s"
  "rm_prefetch_enabled (accel_release env k r s) = rm_prefetch_enabled s"
  "rm_accelerator (accel_release env k r s) =
     map_option (am_release (re_acc env) (rr_accel r)) (rm_accelerator s)"
  "rm_records (ram_release r s) = rm_records s"
  "rm_budget (ram_release r s) = rm_budget s"
  "rm_source (ram_release r s) = rm_source s"
  "rm_prefetch_enabled (ram_release r s) = rm_prefetch_enabled s"
  "rm_accelerator (ram_release r s) = rm_accelerator s"
  "rm_records (count_eviction s) = rm_records s"
  "rm_budget (count_eviction s) = rm_budget s"
  "rm_source (count_eviction s) = rm_source s"
  "rm_prefetch_enabled (count_eviction s) = rm_prefetch_enabled s"
  "rm_accelerator (count_eviction s) = rm_accelerator s"
  "rm_records (put_rec k r s) = AList.update k r (rm_records s)"
  "rm_budget (put_rec k r s) = rm_budget s"
  "rm_source (put_rec k r s) = rm_source s"
  "rm_prefetch_enabled (put_rec k r s) = rm_prefetch_enabled s"
  "rm_accelerator (put_rec k r s) = rm_accelerator s"
  "rm_telemetry (put_rec k r s) = rm_telemetry s"
  by (simp_all add: accel_release_def ram_release_def count_eviction_def put_rec_def)

lemma rm_fields_error [simp]:
  "rm_records (set_error msg s) = rm_records s" "rm_budget (set_error msg s) = rm_budget s"
  "rm_source (set_error msg s) = rm_source s" "rm_accelerator (set_error msg s) = rm_accelerator s"
  "rm_telemetry (set_error msg s) = rm_telemetry s"
  "rm_prefetch_enabled (set_error msg s) = rm_prefetch_enabled s"
  "rm_records (count_failure s) = rm_records s" "rm_budget (count_failure s) = rm_budget s"
  "rm_source (count_failure s) = rm_source s" "rm_accelerator (count_failure s) = rm_accelerator s"
  "rm_prefetch_enabled (count_failure s) = rm_prefetch_enabled s"
  by (simp_all add: set_error_def count_failure_def)

text \<open>What making room may do: everything pinned and the record it works for stay.\<close>

definition room_frame :: "u64 \<Rightarrow> ('d, 'a) rm \<Rightarrow> ('d, 'a) rm \<Rightarrow> bool" where
  "room_frame skip s s' \<longleftrightarrow>
     rm_budget s' = rm_budget s \<and> rm_source s' = rm_source s \<and>
     rm_prefetch_enabled s' = rm_prefetch_enabled s \<and>
     (rm_accelerator s' = None \<longleftrightarrow> rm_accelerator s = None) \<and>
     (\<forall>k r. rec_at s k = Some r \<and> (k = skip \<or> rr_pins r > 0) \<longrightarrow> rec_at s' k = Some r) \<and>
     (\<forall>k. rec_at s k = None \<longrightarrow> rec_at s' k = None)"

lemma room_frame_refl: "room_frame skip s s"
  by (simp add: room_frame_def)

lemma room_frame_trans: "room_frame skip s1 s2 \<Longrightarrow> room_frame skip s2 s3 \<Longrightarrow> room_frame skip s1 s3"
  unfolding room_frame_def by metis

lemma room_frame_error [simp]: "room_frame skip s (set_error msg s') = room_frame skip s s'"
  by (simp add: room_frame_def set_error_def)

lemma sub_clamped_exact:
  "unat resident = n + unat sz \<Longrightarrow> unat (sub_clamped resident sz) = n"
  by (simp add: sub_clamped_def word_le_nat_alt unat_sub_exact)

lemma sub_clamped_zero: "unat resident = n \<Longrightarrow> sub_clamped resident sz \<le> resident"
  by (auto simp: sub_clamped_def word_le_nat_alt unat_sub_exact)

lemma in_ram_simps [simp]:
  "in_ram ModelResidencyState.RESIDENT_IN_RAM" "in_ram ModelResidencyState.RESIDENT_IN_ACCELERATOR"
  "\<not> in_ram ModelResidencyState.ERROR" "\<not> in_ram ModelResidencyState.NOT_RESIDENT"
  by (simp_all add: in_ram_def)

locale residency = src: model_data_source srcops content dinv + acc: accelerator_memory accops mem ainv
  for srcops :: "'d IModelDataSource" and content :: "u8 list" and dinv :: "'d \<Rightarrow> bool"
    and accops :: "'a IAcceleratorMemory" and mem :: "'a \<Rightarrow> ptr \<Rightarrow> u8 list option"
    and ainv :: "'a \<Rightarrow> bool"
begin

definition env_ok :: "('d, 'a) ResidencyEnv \<Rightarrow> bool" where
  "env_ok env \<longleftrightarrow> re_src env = srcops \<and> re_acc env = accops"

abbreviation region_bytes :: "ModelRegion \<Rightarrow> u8 list" where
  "region_bytes g \<equiv> bytes_at content (rg_offset g) (rg_size g)"

text \<open>
  A record is idle; it holds nothing, or the file's bytes in RAM, or the file's bytes in RAM
  and in a live accelerator allocation, exactly as its state says.
\<close>

definition holds_bytes :: "'a option \<Rightarrow> Record \<Rightarrow> bool" where
  "holds_bytes ao r \<longleftrightarrow>
     rr_ram r = Some (region_bytes (rr_region r)) \<and>
     unat (rg_offset (rr_region r)) + unat (rg_size (rr_region r)) \<le> length content \<and>
     (if rr_state r = ModelResidencyState.RESIDENT_IN_ACCELERATOR
      then rr_accel r \<noteq> 0 \<and> (\<exists>a. ao = Some a \<and> mem a (rr_accel r) = Some (region_bytes (rr_region r)))
      else rr_accel r = 0)"

definition rec_ok :: "'a option \<Rightarrow> u64 \<Rightarrow> Record \<Rightarrow> bool" where
  "rec_ok ao k r \<longleftrightarrow> rg_id (rr_region r) = k \<and> rr_refs r = 0 \<and> \<not> rr_transferring r \<and> 0 \<le> rr_pins r \<and>
     (if in_ram (rr_state r) then holds_bytes ao r
      else rr_state r \<in> {ModelResidencyState.NOT_RESIDENT, ModelResidencyState.ERROR} \<and>
           rr_ram r = None \<and> rr_accel r = 0)"

definition recs_ok :: "'a option \<Rightarrow> (u64 \<times> Record) list \<Rightarrow> bool" where
  "recs_ok ao recs \<longleftrightarrow> distinct (keys_of recs) \<and>
     (\<forall>k r. map_of recs k = Some r \<longrightarrow> rec_ok ao k r) \<and>
     (\<forall>j k q r. map_of recs j = Some q \<and> map_of recs k = Some r \<and> rr_accel q = rr_accel r \<and>
        rr_accel q \<noteq> 0 \<longrightarrow> j = k)"

definition rm_ok :: "('d, 'a) rm \<Rightarrow> bool" where
  "rm_ok s \<longleftrightarrow> recs_ok (rm_accelerator s) (rm_records s) \<and>
     tele_ok (rm_budget s) (rm_records s) (rm_telemetry s) \<and> dinv (rm_source s) \<and>
     (\<forall>a. rm_accelerator s = Some a \<longrightarrow> ainv a)"

lemma rm_ok_init:
  "dinv d \<Longrightarrow> (\<And>a. ao = Some a \<Longrightarrow> ainv a) \<Longrightarrow> rm_ok (rm_init d b ao)"
  by (simp add: rm_ok_def rm_init_def recs_ok_def tele_ok_def telemetry_zero_def keys_of_def)

lemma rm_ok_rec: "rm_ok s \<Longrightarrow> rec_at s k = Some r \<Longrightarrow> rec_ok (rm_accelerator s) k r"
  by (auto simp: rm_ok_def recs_ok_def)

lemma rm_ok_error [simp]: "rm_ok (set_error msg s) = rm_ok s"
  by (simp add: rm_ok_def set_error_def)

lemma rec_ok_accel:
  "rec_ok ao k r \<Longrightarrow> rr_accel r \<noteq> 0 \<Longrightarrow>
   rr_state r = ModelResidencyState.RESIDENT_IN_ACCELERATOR \<and>
   (\<exists>a. ao = Some a \<and> mem a (rr_accel r) = Some (region_bytes (rr_region r)))"
  by (auto simp: rec_ok_def holds_bytes_def split: if_splits)

lemma rec_ok_agree:
  assumes "rec_ok ao k r" and "\<And>a. ao = Some a \<Longrightarrow> \<exists>a'. ao' = Some a' \<and> mem a' (rr_accel r) = mem a (rr_accel r)"
  shows "rec_ok ao' k r"
  using assms by (fastforce simp: rec_ok_def holds_bytes_def split: if_splits)

text \<open>Replacing one record, and deleting one, when the accelerator changes under it only.\<close>

definition agree_but :: "ptr \<Rightarrow> 'a option \<Rightarrow> 'a option \<Rightarrow> bool" where
  "agree_but p ao ao' \<longleftrightarrow> (\<forall>a. ao = Some a \<longrightarrow> (\<exists>a'. ao' = Some a' \<and> (\<forall>q. q \<noteq> p \<longrightarrow> mem a' q = mem a q)))"

lemma agree_but_refl [simp]: "agree_but p ao ao"
  by (simp add: agree_but_def)

lemma recs_ok_others:
  assumes ok: "recs_ok ao recs" and ag: "agree_but p ao ao'"
    and p: "\<And>j q. j \<noteq> k \<Longrightarrow> map_of recs j = Some q \<Longrightarrow> rr_accel q \<noteq> 0 \<Longrightarrow> rr_accel q \<noteq> p"
    and j: "j \<noteq> k" "map_of recs j = Some q"
  shows "rec_ok ao' j q"
proof -
  have q: "rec_ok ao j q" using ok j by (simp add: recs_ok_def)
  show ?thesis
  proof (cases "rr_accel q = 0")
    case True
    with q show ?thesis
      by (cases "rr_state q") (simp_all add: rec_ok_def holds_bytes_def in_ram_def)
  next
    case False
    have "rr_accel q \<noteq> p" by (rule p [OF j False])
    then show ?thesis using ag by (intro rec_ok_agree [OF q]) (auto simp: agree_but_def)
  qed
qed

lemma recs_ok_put:
  assumes ok: "recs_ok ao recs" and ag: "agree_but p ao ao'"
    and p: "\<And>j q. j \<noteq> k \<Longrightarrow> map_of recs j = Some q \<Longrightarrow> rr_accel q \<noteq> 0 \<Longrightarrow> rr_accel q \<noteq> p"
    and r: "rec_ok ao' k r" "rr_accel r \<noteq> 0 \<Longrightarrow> rr_accel r = p"
  shows "recs_ok ao' (AList.update k r recs)"
proof -
  have "rec_ok ao' j q" if "map_of (AList.update k r recs) j = Some q" for j q
    using that r(1) recs_ok_others [OF ok ag p] by (cases "j = k") auto
  moreover have "i = j" if "map_of (AList.update k r recs) i = Some q"
      "map_of (AList.update k r recs) j = Some q'" "rr_accel q = rr_accel q'" "rr_accel q \<noteq> 0" for i j q q'
    using that ok p r(2) by (cases "i = k"; cases "j = k") (force simp: recs_ok_def)+
  ultimately show ?thesis
    using ok unfolding recs_ok_def by (metis distinct_keys_update)
qed

lemma recs_ok_delete:
  assumes ok: "recs_ok ao recs" and ag: "agree_but p ao ao'"
    and p: "\<And>j q. j \<noteq> k \<Longrightarrow> map_of recs j = Some q \<Longrightarrow> rr_accel q \<noteq> 0 \<Longrightarrow> rr_accel q \<noteq> p"
  shows "recs_ok ao' (AList.delete k recs)"
proof -
  have "rec_ok ao' j q" if "map_of (AList.delete k recs) j = Some q" for j q
    using that recs_ok_others [OF ok ag p] by (cases "j = k") auto
  moreover have "i = j" if "map_of (AList.delete k recs) i = Some q"
      "map_of (AList.delete k recs) j = Some q'" "rr_accel q = rr_accel q'" "rr_accel q \<noteq> 0" for i j q q'
    using that ok by (cases "i = k"; cases "j = k") (force simp: recs_ok_def)+
  ultimately show ?thesis
    using ok unfolding recs_ok_def by (metis distinct_keys_delete)
qed

lemma recs_ok_distinct_ptr:
  assumes "recs_ok ao recs" "map_of recs k = Some r" "j \<noteq> k" "map_of recs j = Some q" "rr_accel q \<noteq> 0"
  shows "rr_accel q \<noteq> rr_accel r"
  using assms by (auto simp: recs_ok_def)

text \<open>Releasing the accelerator side of a record.\<close>

lemma release_agree:
  assumes ok: "rm_ok s" and r: "rec_at s k = Some r" and nz: "rr_accel r \<noteq> 0"
  obtains a where "rm_accelerator s = Some a" "ainv a" "ainv (am_release accops (rr_accel r) a)"
    "agree_but (rr_accel r) (rm_accelerator s) (Some (am_release accops (rr_accel r) a))"
proof -
  from rec_ok_accel [OF rm_ok_rec [OF ok r] nz] obtain a where
    a: "rm_accelerator s = Some a" "mem a (rr_accel r) \<noteq> None" by auto
  have i: "ainv a" using ok a(1) by (simp add: rm_ok_def)
  from acc.release_mem [OF i a(2)] a i show ?thesis
    by (intro that [of a]) (auto simp: agree_but_def)
qed

lemma asum_delete_le: "asum f (AList.delete k recs) \<le> (asum f recs :: nat)"
  by (induction recs) auto

lemma tele_ok_delete:
  assumes t: "tele_ok b recs t" and d: "distinct (keys_of recs)" and r: "map_of recs k = Some r"
    and t': "st_resident_ram_bytes t' = (if rr_ram r = None then st_resident_ram_bytes t
        else sub_clamped (st_resident_ram_bytes t) (rg_size (rr_region r)))"
      "st_resident_accelerator_bytes t' = (if rr_accel r = 0 then st_resident_accelerator_bytes t
        else sub_clamped (st_resident_accelerator_bytes t) (rg_size (rr_region r)))"
      "st_peak_ram_bytes t' = st_peak_ram_bytes t"
      "st_peak_accelerator_bytes t' = st_peak_accelerator_bytes t"
  shows "tele_ok b (AList.delete k recs) t'"
proof -
  note s1 = asum_delete [OF d r, of ram_size] and s2 = asum_delete [OF d r, of accel_size]
  have "unat (st_resident_ram_bytes t') = asum ram_size (AList.delete k recs)"
    using t t'(1) s1 by (auto simp: tele_ok_def ram_size_def intro!: sub_clamped_exact)
  moreover have "unat (st_resident_accelerator_bytes t') = asum accel_size (AList.delete k recs)"
    using t t'(2) s2 by (auto simp: tele_ok_def accel_size_def intro!: sub_clamped_exact)
  ultimately show ?thesis
    using t asum_delete_le [of ram_size k recs] asum_delete_le [of accel_size k recs] t'(3,4)
    by (simp add: tele_ok_def word_le_nat_alt)
qed

lemma evict_ok:
  assumes env: "env_ok env" and ok: "rm_ok s" and ev: "evictLocked env k s = (b, s')"
  shows "rm_ok s' \<and> (if b then rec_at s' = (rec_at s)(k := None) else s' = s) \<and>
    (\<forall>skip. k \<noteq> skip \<longrightarrow> room_frame skip s s')"
proof (cases "rec_at s k")
  case None
  then have "b \<and> s' = s" using ev by (simp add: evictLocked_def)
  with None ok show ?thesis by (auto simp: room_frame_refl)
next
  case (Some r)
  show ?thesis
  proof (cases "busy r")
    case True
    with Some ev ok show ?thesis by (simp add: evictLocked_def room_frame_refl)
  next
    case False
    have recs: "recs_ok (rm_accelerator s) (rm_records s)" using ok by (simp add: rm_ok_def)
    then have d: "distinct (keys_of (rm_records s))" by (simp add: recs_ok_def)
    have live: "rm_accelerator s \<noteq> None" if "rr_accel r \<noteq> 0"
      using rec_ok_accel [OF rm_ok_rec [OF ok Some] that] by auto
    define s0 where "s0 = (if rr_accel r \<noteq> 0 then accel_release env k r s else s)"
    define s1 where "s1 = (if rr_ram r \<noteq> None then ram_release r s0 else s0)"
    have cond: "(rr_accel r \<noteq> 0 \<and> rm_accelerator s \<noteq> None) = (rr_accel r \<noteq> 0)"
      using live by blast
    have "evictLocked env k s =
        (True, (count_eviction s1)\<lparr>rm_records := AList.delete k (rm_records (count_eviction s1))\<rparr>)"
      by (simp only: evictLocked_def Some option.case False if_False Let_def cond s1_def s0_def)
    then have "b = True" and e2: "s' = (count_eviction s1)
        \<lparr>rm_records := AList.delete k (rm_records (count_eviction s1))\<rparr>"
      unfolding ev by (simp_all only: prod.inject)
    note e = \<open>b = True\<close> e2
    have s': "rm_records s' = AList.delete k (rm_records s)"
      "rm_budget s' = rm_budget s" "rm_source s' = rm_source s"
      "rm_prefetch_enabled s' = rm_prefetch_enabled s"
      "rm_accelerator s' = (if rr_accel r = 0 then rm_accelerator s
         else map_option (am_release accops (rr_accel r)) (rm_accelerator s))"
      unfolding e(2) using env by (simp_all add: s1_def s0_def env_ok_def)
    have t': "st_resident_ram_bytes (rm_telemetry s') = (if rr_ram r = None
          then st_resident_ram_bytes (rm_telemetry s)
          else sub_clamped (st_resident_ram_bytes (rm_telemetry s)) (rg_size (rr_region r)))"
      "st_resident_accelerator_bytes (rm_telemetry s') = (if rr_accel r = 0
          then st_resident_accelerator_bytes (rm_telemetry s)
          else sub_clamped (st_resident_accelerator_bytes (rm_telemetry s)) (rg_size (rr_region r)))"
      "st_peak_ram_bytes (rm_telemetry s') = st_peak_ram_bytes (rm_telemetry s)"
      "st_peak_accelerator_bytes (rm_telemetry s') = st_peak_accelerator_bytes (rm_telemetry s)"
      unfolding e(2)
      by (simp_all add: s1_def s0_def accel_release_def ram_release_def count_eviction_def)
    have ag: "agree_but (rr_accel r) (rm_accelerator s) (rm_accelerator s') \<and>
        (\<forall>a. rm_accelerator s' = Some a \<longrightarrow> ainv a)"
    proof (cases "rr_accel r = 0")
      case True
      with s'(5) ok show ?thesis by (simp add: rm_ok_def)
    next
      case nz: False
      obtain a where a: "rm_accelerator s = Some a" "ainv (am_release accops (rr_accel r) a)"
        "agree_but (rr_accel r) (rm_accelerator s) (Some (am_release accops (rr_accel r) a))"
        by (rule release_agree [OF ok Some nz])
      then have "rm_accelerator s' = Some (am_release accops (rr_accel r) a)"
        using s'(5) nz by simp
      with a show ?thesis by simp
    qed
    have "recs_ok (rm_accelerator s') (rm_records s')"
      unfolding s'(1) using recs_ok_distinct_ptr [OF recs Some]
      by (intro recs_ok_delete [OF recs conjunct1 [OF ag]])
    moreover have "tele_ok (rm_budget s') (rm_records s') (rm_telemetry s')"
      unfolding s'(1,2) using ok d Some t' by (intro tele_ok_delete) (simp_all add: rm_ok_def)
    ultimately have "rm_ok s'" using ok ag s'(3) by (simp add: rm_ok_def)
    moreover have "\<forall>skip. k \<noteq> skip \<longrightarrow> room_frame skip s s'"
      using s' Some False by (auto simp: room_frame_def busy_def)
    ultimately show ?thesis using s'(1) e(1) by simp
  qed
qed

end

end
