(* ===== verification/ResidencyOps.thy ===== *)
theory ResidencyOps
  imports ResidencyContract
begin

text \<open>
  The residency manager's operations keep its invariant, over any source and accelerator that
  keep their contracts; making room on the accelerator ends.
\<close>

lemma room_frame_budget: "room_frame skip s s' \<Longrightarrow> rm_budget s' = rm_budget s"
  by (simp add: room_frame_def)

section \<open>The least recently used candidate\<close>

definition candidate :: "ModelResidencyTarget \<Rightarrow> u64 \<Rightarrow> u64 \<times> Record \<Rightarrow> bool" where
  "candidate target skip kv \<longleftrightarrow>
     fst kv \<noteq> skip \<and> \<not> busy (snd kv) \<and> at_target target (rr_state (snd kv))"

lemma lru_step_candidate:
  "lru_step target skip (found, oldest, v) kv =
     (if candidate target skip kv \<and> (\<not> found \<or> rr_last_used (snd kv) < oldest)
      then (True, rr_last_used (snd kv), fst kv) else (found, oldest, v))"
  by (cases kv) (auto simp: lru_step_def candidate_def)

lemma lru_fold:
  assumes "foldl (lru_step target skip) (False, t, 0) xs = (found, oldest, v)"
  shows "(found \<longleftrightarrow> (\<exists>kv\<in>set xs. candidate target skip kv)) \<and> (\<not> found \<longrightarrow> v = 0) \<and>
    (found \<longrightarrow> (\<exists>r. (v, r) \<in> set xs \<and> candidate target skip (v, r) \<and> oldest = rr_last_used r) \<and>
      (\<forall>kv\<in>set xs. candidate target skip kv \<longrightarrow> oldest \<le> rr_last_used (snd kv)))"
  using assms
proof (induction xs arbitrary: found oldest v rule: rev_induct)
  case (snoc kv xs)
  obtain f0 o0 v0 where fo: "foldl (lru_step target skip) (False, t, 0) xs = (f0, o0, v0)"
    by (metis prod_cases3)
  have st: "lru_step target skip (f0, o0, v0) kv = (found, oldest, v)"
    using snoc.prems fo by simp
  note IH = snoc.IH [OF fo]
  show ?case
  proof (cases "candidate target skip kv \<and> (\<not> f0 \<or> rr_last_used (snd kv) < o0)")
    case True
    then have v: "found" "oldest = rr_last_used (snd kv)" "v = fst kv"
      using st by (simp_all add: lru_step_candidate)
    have "\<forall>x\<in>set xs. candidate target skip x \<longrightarrow> oldest \<le> rr_last_used (snd x)"
      using IH True v(2) by (cases f0) fastforce+
    with True v show ?thesis by (auto intro!: exI [of _ "snd kv"])
  next
    case False
    then have v: "found = f0" "oldest = o0" "v = v0"
      using st by (simp_all add: lru_step_candidate del: not_less split: if_splits)
    with IH False show ?thesis by (auto simp: not_less)
  qed
qed simp

lemma pickLru_candidate:
  assumes "distinct (keys_of (rm_records s))" "pickLru env target skip s \<noteq> 0"
  shows "\<exists>r. rec_at s (pickLru env target skip s) = Some r \<and>
    candidate target skip (pickLru env target skip s, r) \<and>
    (\<forall>k q. rec_at s k = Some q \<and> candidate target skip (k, q) \<longrightarrow> rr_last_used r \<le> rr_last_used q)"
proof -
  obtain f old v where fo: "foldl (lru_step target skip) (False, re_now env, 0) (rm_records s) = (f, old, v)"
    by (metis prod_cases3)
  then have v: "pickLru env target skip s = v" by (simp add: pickLru_def)
  from lru_fold [OF fo] assms(2) v obtain r where
    r: "(v, r) \<in> set (rm_records s)" "candidate target skip (v, r)" "old = rr_last_used r"
      "\<forall>kv\<in>set (rm_records s). candidate target skip kv \<longrightarrow> old \<le> rr_last_used (snd kv)" by auto
  have "rec_at s v = Some r" by (rule map_of_in_set_distinct [OF assms(1) r(1)])
  moreover have "rr_last_used r \<le> rr_last_used q"
    if "rec_at s k = Some q" "candidate target skip (k, q)" for k q
    using that r(3,4) map_of_SomeD [OF that(1)] by fastforce
  ultimately show ?thesis using r(2) v by blast
qed

lemma pickLru_zero:
  assumes "pickLru env target skip s = 0" "rec_at s k = Some r" "candidate target skip (k, r)"
  shows "rec_at s 0 \<noteq> None"
proof -
  obtain f old v where fo: "foldl (lru_step target skip) (False, re_now env, 0) (rm_records s) = (f, old, v)"
    by (metis prod_cases3)
  then have "v = 0" using assms(1) by (simp add: pickLru_def)
  with lru_fold [OF fo] map_of_SomeD [OF assms(2)] assms(3) obtain q where "(0, q) \<in> set (rm_records s)"
    by blast
  then have "0 \<in> set (keys_of (rm_records s))" by (force simp: keys_of_def)
  then show ?thesis using map_of_eq_None [of "rm_records s" 0] by blast
qed

section \<open>Making room\<close>

text \<open>
  What every operation keeps besides the invariant: pinned regions stay where they are, and the
  record the operation works for stays a record of the same region.
\<close>

definition rec_kept :: "Record \<Rightarrow> Record \<Rightarrow> bool" where
  "rec_kept r r' \<longleftrightarrow> rr_region r' = rr_region r \<and> rr_pins r' = rr_pins r \<and>
     (in_ram (rr_state r) \<longrightarrow> in_ram (rr_state r') \<and> rr_ram r' = rr_ram r) \<and>
     (rr_state r = ModelResidencyState.RESIDENT_IN_ACCELERATOR \<longrightarrow>
        rr_state r' = ModelResidencyState.RESIDENT_IN_ACCELERATOR \<and> rr_accel r' = rr_accel r)"

definition pinned_kept :: "('d, 'a) rm \<Rightarrow> ('d, 'a) rm \<Rightarrow> bool" where
  "pinned_kept s s' \<longleftrightarrow> (\<forall>k r. rec_at s k = Some r \<and> rr_pins r > 0 \<longrightarrow>
     (\<exists>r'. rec_at s' k = Some r' \<and> rec_kept r r'))"

context residency
begin

lemma pick_rm_ok:
  assumes "rm_ok s" "pickLru env target skip s \<noteq> 0"
  shows "\<exists>r. rec_at s (pickLru env target skip s) = Some r \<and>
    candidate target skip (pickLru env target skip s, r)"
  using pickLru_candidate [OF _ assms(2)] assms(1) by (auto simp: rm_ok_def recs_ok_def)

lemma makeRamRoom_step:
  assumes "st_resident_ram_bytes (rm_telemetry s) + needed > bd_ram_bytes (rm_budget s)"
    and "pickLru env ModelResidencyTarget.RAM skip s = v" and "evictLocked env v s = (e, s1)"
  shows "makeRamRoom env needed skip s =
    (if v = 0 then (False, set_error ''RAM residency budget exhausted -- cannot evict further'' s)
     else if e then makeRamRoom env needed skip s1
     else (False, set_error ''Cannot evict LRU region (pinned or transferring)'' s1))"
  using assms by (subst makeRamRoom.simps) (auto simp: Let_def)

lemma makeRamRoom_ok:
  "\<lbrakk>env_ok env; rm_ok s; makeRamRoom env needed skip s = (b, s')\<rbrakk> \<Longrightarrow>
   rm_ok s' \<and> room_frame skip s s' \<and>
   (b \<longrightarrow> \<not> st_resident_ram_bytes (rm_telemetry s') + needed > bd_ram_bytes (rm_budget s'))"
proof (induction env needed skip s arbitrary: b s' rule: makeRamRoom.induct)
  case (1 env needed skip s)
  show ?case
  proof (cases "st_resident_ram_bytes (rm_telemetry s) + needed > bd_ram_bytes (rm_budget s)")
    case False
    then have "makeRamRoom env needed skip s = (True, s)" by (subst makeRamRoom.simps) simp
    with 1 False show ?thesis by (simp add: room_frame_refl)
  next
    case True
    define v where "v = pickLru env ModelResidencyTarget.RAM skip s"
    obtain e s1 where ev: "evictLocked env v s = (e, s1)" by fastforce
    note eq = makeRamRoom_step [OF True v_def [symmetric] ev]
    show ?thesis
    proof (cases "v = 0")
      case v0: True
      with "1.prems" eq show ?thesis by (auto simp: room_frame_refl)
    next
      case v0: False
      then obtain r where "candidate ModelResidencyTarget.RAM skip (v, r)"
        using pick_rm_ok [OF "1.prems"(2)] v_def by metis
      then have s1: "rm_ok s1" "room_frame skip s s1"
        using evict_ok [OF "1.prems"(1,2) ev] by (simp_all add: candidate_def)
      show ?thesis
      proof (cases e)
        case False
        with "1.prems"(3) eq v0 s1 show ?thesis by auto
      next
        case etrue: True
        then have e: "e = True" by simp
        with "1.prems"(3) eq v0 have m: "makeRamRoom env needed skip s1 = (b, s')" by simp
        from "1.IH" [OF True v_def v0 ev [symmetric] e "1.prems"(1) s1(1) m] s1(2)
        show ?thesis by (blast intro: room_frame_trans)
      qed
    qed
  qed
qed

text \<open>Demoting a record from the accelerator to RAM.\<close>

lemma tele_ok_demote:
  assumes t: "tele_ok b recs t" and r: "map_of recs k = Some r" and nz: "rr_accel r \<noteq> 0"
    and r': "rr_ram r' = rr_ram r" "rr_region r' = rr_region r" "rr_accel r' = 0"
    and t': "st_resident_ram_bytes t' = st_resident_ram_bytes t"
      "st_resident_accelerator_bytes t' =
         sub_clamped (st_resident_accelerator_bytes t) (rg_size (rr_region r))"
      "st_peak_ram_bytes t' = st_peak_ram_bytes t"
      "st_peak_accelerator_bytes t' = st_peak_accelerator_bytes t"
  shows "tele_ok b (AList.update k r' recs) t'"
proof -
  have "asum ram_size (AList.update k r' recs) = asum ram_size recs"
    by (rule asum_update_same [OF r]) (simp add: ram_size_def r')
  moreover have s2: "asum accel_size (AList.update k r' recs) + unat (rg_size (rr_region r)) =
      asum accel_size recs"
    using asum_update_old [OF r, of accel_size r'] by (simp add: accel_size_def r' nz)
  then have "unat (st_resident_accelerator_bytes t') = asum accel_size (AList.update k r' recs)"
    unfolding t'(2) using t by (intro sub_clamped_exact) (simp add: tele_ok_def)
  ultimately show ?thesis
    using t t' s2 by (simp add: tele_ok_def word_le_nat_alt)
qed

lemma accel_demote_ok:
  assumes env: "env_ok env" and ok: "rm_ok s" and r: "rec_at s k = Some r" and nz: "rr_accel r \<noteq> 0"
    and nb: "\<not> busy r" and k: "k \<noteq> skip"
  shows "rm_ok (accel_demote env k r s) \<and> room_frame skip s (accel_demote env k r s)"
proof -
  let ?r = "r\<lparr>rr_accel := 0, rr_state := ModelResidencyState.RESIDENT_IN_RAM\<rparr>"
  obtain a where a: "rm_accelerator s = Some a" "ainv (am_release accops (rr_accel r) a)"
    "agree_but (rr_accel r) (rm_accelerator s) (Some (am_release accops (rr_accel r) a))"
    by (rule release_agree [OF ok r nz])
  have acc': "rm_accelerator (accel_demote env k r s) = Some (am_release accops (rr_accel r) a)"
    using a(1) env by (simp add: accel_demote_def env_ok_def)
  have recs: "recs_ok (rm_accelerator s) (rm_records s)" using ok by (simp add: rm_ok_def)
  have rok: "rec_ok (Some (am_release accops (rr_accel r) a)) k ?r"
    using rm_ok_rec [OF ok r] rec_ok_accel [OF rm_ok_rec [OF ok r] nz]
    by (simp add: rec_ok_def holds_bytes_def)
  have "recs_ok (Some (am_release accops (rr_accel r) a)) (AList.update k ?r (rm_records s))"
    using recs_ok_distinct_ptr [OF recs r] rok by (intro recs_ok_put [OF recs a(3)]) simp_all
  moreover have "tele_ok (rm_budget s) (AList.update k ?r (rm_records s))
      (rm_telemetry (accel_demote env k r s))"
    using ok r nz by (intro tele_ok_demote [where r = r])
      (simp_all add: rm_ok_def accel_demote_def count_eviction_def put_rec_def accel_release_def)
  ultimately have "rm_ok (accel_demote env k r s)"
    using ok a(2) acc' by (simp add: rm_ok_def) (simp add: accel_demote_def)
  moreover have "room_frame skip s (accel_demote env k r s)"
    using r nb k a(1) by (auto simp: room_frame_def accel_demote_def busy_def)
  ultimately show ?thesis ..
qed

text \<open>
  Each round of the loop that makes room on the accelerator demotes one record, so it ends: the
  number of records in the accelerator state falls.
\<close>

definition on_accel :: "(u64 \<times> Record) list \<Rightarrow> nat" where
  "on_accel recs = asum (\<lambda>r. if rr_state r = ModelResidencyState.RESIDENT_IN_ACCELERATOR then 1 else 0) recs"

lemma on_accel_demote:
  assumes "rec_at s k = Some r" "rr_state r = ModelResidencyState.RESIDENT_IN_ACCELERATOR"
  shows "on_accel (rm_records (accel_demote env k r s)) < on_accel (rm_records s)"
  using asum_update_old [OF assms(1), of "\<lambda>r. if rr_state r = ModelResidencyState.RESIDENT_IN_ACCELERATOR
      then 1 else (0::nat)" "r\<lparr>rr_accel := 0, rr_state := ModelResidencyState.RESIDENT_IN_RAM\<rparr>"] assms(2)
  by (simp add: on_accel_def accel_demote_def)

lemma makeAccelRoom_ok:
  "\<lbrakk>env_ok env; rm_ok s\<rbrakk> \<Longrightarrow>
   \<exists>b s'. makeAccelRoom env needed skip s = Some (b, s') \<and> rm_ok s' \<and> room_frame skip s s' \<and>
     (\<forall>a. b \<and> rm_accelerator s' = Some a \<longrightarrow> \<not> am_available accops a < needed)"
proof (induction "on_accel (rm_records s)" arbitrary: s rule: less_induct)
  case less
  show ?case
  proof (cases "\<exists>a. rm_accelerator s = Some a \<and> am_available (re_acc env) a < needed")
    case False
    then have "makeAccelRoom env needed skip s = Some (True, s)"
      by (subst makeAccelRoom.simps) (auto split: option.splits)
    with False less.prems show ?thesis by (auto simp: room_frame_refl env_ok_def)
  next
    case True
    then obtain a where a: "rm_accelerator s = Some a" "am_available (re_acc env) a < needed" by blast
    define v where "v = pickLru env ModelResidencyTarget.ACCELERATOR skip s"
    show ?thesis
    proof (cases "v = 0")
      case v0: True
      with a have "makeAccelRoom env needed skip s =
          Some (False, set_error ''Accelerator residency budget exhausted'' s)"
        by (subst makeAccelRoom.simps) (simp add: v_def Let_def)
      with less.prems show ?thesis by (auto simp: room_frame_refl)
    next
      case v0: False
      then obtain r where r: "rec_at s v = Some r" "candidate ModelResidencyTarget.ACCELERATOR skip (v, r)"
        using pick_rm_ok [OF less.prems(2)] v_def by metis
      then have st: "rr_state r = ModelResidencyState.RESIDENT_IN_ACCELERATOR" "v \<noteq> skip" "\<not> busy r"
        by (simp_all add: candidate_def at_target_def)
      then have nz: "rr_accel r \<noteq> 0"
        using rm_ok_rec [OF less.prems(2) r(1)] by (simp add: rec_ok_def holds_bytes_def)
      have eq: "makeAccelRoom env needed skip s = makeAccelRoom env needed skip (accel_demote env v r s)"
        using a v0 r nz by (subst makeAccelRoom.simps) (simp add: v_def [symmetric] Let_def)
      note ok = accel_demote_ok [OF less.prems r(1) nz st(3,2)]
      from less.hyps [OF on_accel_demote [OF r(1) st(1)] less.prems(1) conjunct1 [OF ok]]
      show ?thesis unfolding eq using ok by (meson room_frame_trans)
    qed
  qed
qed

section \<open>Transfers\<close>

definition keeps :: "u64 \<Rightarrow> ('d, 'a) rm \<Rightarrow> ('d, 'a) rm \<Rightarrow> bool" where
  "keeps k s s' \<longleftrightarrow> rm_ok s' \<and> rm_budget s' = rm_budget s \<and>
     rm_prefetch_enabled s' = rm_prefetch_enabled s \<and> pinned_kept s s' \<and>
     (\<forall>r. rec_at s k = Some r \<longrightarrow> (\<exists>r'. rec_at s' k = Some r' \<and> rec_kept r r'))"

lemma rec_kept_refl [simp]: "rec_kept r r"
  by (simp add: rec_kept_def)

lemma rec_kept_trans: "rec_kept q r \<Longrightarrow> rec_kept r t \<Longrightarrow> rec_kept q t"
  by (simp add: rec_kept_def)

lemma pinned_kept_refl: "pinned_kept s s"
  by (simp add: pinned_kept_def)

lemma pinned_kept_trans:
  assumes a: "pinned_kept s1 s2" and b: "pinned_kept s2 s3"
  shows "pinned_kept s1 s3"
  unfolding pinned_kept_def
proof (intro allI impI)
  fix k r assume r: "rec_at s1 k = Some r \<and> rr_pins r > 0"
  with a obtain r2 where r2: "rec_at s2 k = Some r2" "rec_kept r r2"
    unfolding pinned_kept_def by blast
  then have "rr_pins r2 > 0" using r by (simp add: rec_kept_def)
  with b r2(1) obtain r3 where "rec_at s3 k = Some r3" "rec_kept r2 r3"
    unfolding pinned_kept_def by blast
  with r2(2) show "\<exists>r'. rec_at s3 k = Some r' \<and> rec_kept r r'"
    by (blast intro: rec_kept_trans)
qed

lemma keeps_refl: "rm_ok s \<Longrightarrow> keeps k s s"
  by (simp add: keeps_def pinned_kept_refl)

lemma keeps_ok: "keeps k s s' \<Longrightarrow> rm_ok s'"
  by (simp add: keeps_def)

lemma keeps_rec: "keeps k s s' \<Longrightarrow> rec_at s k = Some r \<Longrightarrow> \<exists>r'. rec_at s' k = Some r' \<and> rec_kept r r'"
  by (simp add: keeps_def)

lemma keeps_trans:
  assumes a: "keeps k s1 s2" and b: "keeps k s2 s3"
  shows "keeps k s1 s3"
proof -
  have "\<exists>r'. rec_at s3 k = Some r' \<and> rec_kept r r'" if r: "rec_at s1 k = Some r" for r
  proof -
    obtain r2 where r2: "rec_at s2 k = Some r2" "rec_kept r r2" using keeps_rec [OF a r] by blast
    with keeps_rec [OF b r2(1)] show ?thesis by (blast intro: rec_kept_trans)
  qed
  with a b pinned_kept_trans [of s1 s2 s3] show ?thesis by (simp add: keeps_def)
qed

lemma keeps_error [simp]: "keeps k s (set_error msg s') = keeps k s s'"
  by (simp add: keeps_def pinned_kept_def)

lemma keeps_failure [simp]: "keeps k s (count_failure s') = keeps k s s'"
  by (simp add: keeps_def pinned_kept_def rm_ok_def tele_ok_def) (simp add: count_failure_def)

lemma keeps_room:
  assumes ok: "rm_ok s'" and fr: "room_frame k s s'"
  shows "keeps k s s'"
proof -
  have same: "rec_at s' j = Some r" if "rec_at s j = Some r" "j = k \<or> rr_pins r > 0" for j r
    using fr that by (simp add: room_frame_def)
  have "pinned_kept s s'"
    unfolding pinned_kept_def using same by (meson rec_kept_refl)
  moreover have "rm_budget s' = rm_budget s" "rm_prefetch_enabled s' = rm_prefetch_enabled s"
    using fr by (simp_all add: room_frame_def)
  ultimately show ?thesis using ok same [of k] by (simp add: keeps_def)
qed

text \<open>Writing a record that occupies what the old one did, or just more RAM or accelerator.\<close>

lemma keeps_write:
  assumes ok: "rm_ok s" and r: "rec_at s k = Some r"
    and r': "rr_region r' = rr_region r" "rr_pins r' = rr_pins r"
      "in_ram (rr_state r) \<Longrightarrow> in_ram (rr_state r') \<and> rr_ram r' = rr_ram r"
      "rr_state r = ModelResidencyState.RESIDENT_IN_ACCELERATOR \<Longrightarrow>
         rr_state r' = ModelResidencyState.RESIDENT_IN_ACCELERATOR \<and> rr_accel r' = rr_accel r"
    and s': "rm_records s' = AList.update k r' (rm_records s)" "rm_budget s' = rm_budget s"
      "rm_prefetch_enabled s' = rm_prefetch_enabled s" "rm_ok s'"
  shows "keeps k s s'"
proof -
  have "pinned_kept s s'"
    unfolding pinned_kept_def
  proof (intro allI impI)
    fix j q assume q: "rec_at s j = Some q \<and> rr_pins q > 0"
    show "\<exists>r'. rec_at s' j = Some r' \<and> rec_kept q r'"
    proof (cases "j = k")
      case True
      with q r have "q = r" by simp
      with True r' s'(1) show ?thesis by (intro exI [of _ r']) (simp add: rec_kept_def)
    next
      case False
      with q s'(1) show ?thesis by (intro exI [of _ q]) simp
    qed
  qed
  moreover have "rec_kept r r'" using r' by (simp add: rec_kept_def)
  ultimately show ?thesis using r s' by (simp add: keeps_def)
qed

lemma rm_ok_put_same:
  assumes ok: "rm_ok s" and r: "rec_at s k = Some r" and rok: "rec_ok (rm_accelerator s) k r'"
    and same: "rr_accel r' = rr_accel r" "ram_size r' = ram_size r" "accel_size r' = accel_size r"
  shows "rm_ok (put_rec k r' s)"
proof -
  have recs: "recs_ok (rm_accelerator s) (rm_records s)" using ok by (simp add: rm_ok_def)
  have "recs_ok (rm_accelerator s) (AList.update k r' (rm_records s))"
    using recs_ok_distinct_ptr [OF recs r] same(1) rok
    by (intro recs_ok_put [OF recs, of "rr_accel r"]) simp_all
  then show ?thesis
    using ok same asum_update_same [OF r, of ram_size r'] asum_update_same [OF r, of accel_size r']
    by (simp add: rm_ok_def tele_ok_def)
qed

lemma fail_load_keeps:
  assumes ok: "rm_ok s" and r: "rec_at s k = Some r" and nr: "\<not> in_ram (rr_state r)"
    and s1: "rm_records s1 = AList.update k r1 (rm_records s)" "rm_budget s1 = rm_budget s"
      "rm_prefetch_enabled s1 = rm_prefetch_enabled s" "rm_accelerator s1 = rm_accelerator s"
      "rm_telemetry s1 = rm_telemetry s" "dinv (rm_source s1)"
    and r1: "r1 = r\<lparr>rr_state := st, rr_transferring := tr\<rparr>"
  shows "keeps k s (fail_load k r1 msg s1)"
proof -
  let ?r = "r1\<lparr>rr_state := ModelResidencyState.ERROR, rr_transferring := False\<rparr>"
  have rok: "rec_ok (rm_accelerator s) k ?r"
    using rm_ok_rec [OF ok r] nr by (simp add: rec_ok_def r1)
  have "rm_ok (put_rec k ?r s)"
    by (rule rm_ok_put_same [OF ok r rok]) (simp_all add: r1 ram_size_def accel_size_def)
  then have "rm_ok (put_rec k ?r s1)"
    using s1 by (simp add: rm_ok_def)
  then have "keeps k s (put_rec k ?r s1)"
    using s1 nr by (intro keeps_write [OF ok r]) (auto simp: r1)
  then show ?thesis by (simp add: fail_load_def)
qed

definition fits :: "('d, 'a) rm \<Rightarrow> bool" where
  "fits s \<longleftrightarrow> unat (bd_ram_bytes (rm_budget s)) + length content < 2 ^ 64"

lemma resident_add:
  assumes "rm_ok s" "fits s" and "unat sz \<le> length content"
    and "\<not> st_resident_ram_bytes (rm_telemetry s) + sz > bd_ram_bytes (rm_budget s)"
  shows "unat (st_resident_ram_bytes (rm_telemetry s) + sz) =
      unat (st_resident_ram_bytes (rm_telemetry s)) + unat sz \<and>
    unat (st_resident_ram_bytes (rm_telemetry s)) + unat sz \<le> unat (bd_ram_bytes (rm_budget s))"
proof -
  have "unat (st_resident_ram_bytes (rm_telemetry s)) \<le> unat (bd_ram_bytes (rm_budget s))"
    using assms(1) by (simp add: rm_ok_def tele_ok_def)
  then have "unat (st_resident_ram_bytes (rm_telemetry s) + sz) =
      unat (st_resident_ram_bytes (rm_telemetry s)) + unat sz"
    using assms(2,3) by (intro unat_add_exact) (simp add: fits_def)
  then show ?thesis using assms(4) by (simp add: word_less_nat_alt)
qed

lemma load_done_keeps:
  assumes ok: "rm_ok s" and ft: "fits s" and r: "rec_at s k = Some r" and nr: "\<not> in_ram (rr_state r)"
    and room: "\<not> st_resident_ram_bytes (rm_telemetry s) + rg_size (rr_region r) > bd_ram_bytes (rm_budget s)"
    and inr: "unat (rg_offset (rr_region r)) + unat (rg_size (rr_region r)) \<le> length content"
    and s1: "rm_records s1 = AList.update k r1 (rm_records s)" "rm_budget s1 = rm_budget s"
      "rm_prefetch_enabled s1 = rm_prefetch_enabled s" "rm_accelerator s1 = rm_accelerator s"
      "rm_telemetry s1 = load_telemetry ms (rg_size (rr_region r)) (rm_telemetry s)" "dinv (rm_source s1)"
    and r1: "r1 = r\<lparr>rr_ram := Some (region_bytes (rr_region r)),
      rr_state := ModelResidencyState.RESIDENT_IN_RAM, rr_transferring := False\<rparr>"
  shows "keeps k s s1"
proof -
  note r0 = rm_ok_rec [OF ok r]
  have e: "rr_ram r = None" "rr_accel r = 0" using r0 nr by (simp_all add: rec_ok_def)
  have recs: "recs_ok (rm_accelerator s) (rm_records s)" using ok by (simp add: rm_ok_def)
  have rok: "rec_ok (rm_accelerator s) k r1"
    using r0 nr inr by (simp add: rec_ok_def holds_bytes_def r1)
  have "recs_ok (rm_accelerator s) (AList.update k r1 (rm_records s))"
    using rok e by (intro recs_ok_put [OF recs, of 0]) (simp_all add: r1)
  moreover have "unat (rg_size (rr_region r)) \<le> length content" using inr by simp
  note add = resident_add [OF ok ft this room]
  have sums: "asum ram_size (AList.update k r1 (rm_records s)) =
      asum ram_size (rm_records s) + unat (rg_size (rr_region r))"
    "asum accel_size (AList.update k r1 (rm_records s)) = asum accel_size (rm_records s)"
    using asum_update_old [OF r, of ram_size r1] asum_update_old [OF r, of accel_size r1] e
    by (simp_all add: r1 ram_size_def accel_size_def)
  have "tele_ok (rm_budget s) (AList.update k r1 (rm_records s)) (rm_telemetry s1)"
    unfolding tele_ok_def sums s1(5) using add ok
    by (auto simp: rm_ok_def tele_ok_def load_telemetry_def Let_def)
  ultimately have "rm_ok s1" using s1 ok by (simp add: rm_ok_def)
  then show ?thesis using s1 nr by (intro keeps_write [OF ok r]) (auto simp: r1)
qed

text \<open>Loading a region into RAM.\<close>

lemma loadToRam_keeps:
  assumes env: "env_ok env" and ok: "rm_ok s" and ft: "fits s" and r: "rec_at s k = Some r"
    and nr: "\<not> in_ram (rr_state r)" and ld: "loadToRam env k c s = (b, c', s')"
  shows "keeps k s s' \<and> (b \<longrightarrow> isResident k ModelResidencyTarget.RAM s')"
proof -
  obtain cancelled c1 where po: "poll c = (cancelled, c1)" by (cases "poll c")
  have id: "rg_id (rr_region r) = k" using rm_ok_rec [OF ok r] by (simp add: rec_ok_def)
  obtain b1 s1 where rm: "makeRamRoom env (rg_size (rr_region r)) k s = (b1, s1)" by fastforce
  from makeRamRoom_ok [OF env ok rm] have s1: "rm_ok s1" "room_frame k s s1"
    and room: "b1 \<Longrightarrow> \<not> st_resident_ram_bytes (rm_telemetry s1) + rg_size (rr_region r)
      > bd_ram_bytes (rm_budget s1)" by simp_all
  have r1: "rec_at s1 k = Some r" using s1(2) r by (simp add: room_frame_def)
  have ft1: "fits s1" using ft s1(2) by (simp add: fits_def room_frame_def)
  have k1: "keeps k s s1" by (rule keeps_room [OF s1])
  define r2 where "r2 = r\<lparr>rr_state := ModelResidencyState.LOADING_TO_RAM, rr_transferring := True\<rparr>"
  obtain rok buf c2 d where rd: "ds_read srcops (rg_offset (rr_region r))
      (Some (replicate (unat (rg_size (rr_region r))) 0)) (rg_size (rr_region r)) c1 (rm_source s1)
      = (rok, buf, c2, d)" by (metis prod_cases4)
  have d: "dinv d" using src.read_inv [OF _ rd] s1(1) by (simp add: rm_ok_def)
  note unf = loadToRam_def po prod.case r option.sel id rm Let_def r1 r2_def [symmetric]
  consider "cancelled" | "\<not> cancelled" "\<not> b1" | "\<not> cancelled" "b1" "\<not> re_newok env (rg_size (rr_region r))"
    | "\<not> cancelled" "b1" "re_newok env (rg_size (rr_region r))" "\<not> rok"
    | "\<not> cancelled" "b1" "re_newok env (rg_size (rr_region r))" "rok" by blast
  then show ?thesis
  proof cases
    case 1
    with ld have "\<not> b \<and> s' = set_error ''Cancelled before RAM load'' s" by (simp add: unf)
    then show ?thesis by (simp add: keeps_refl [OF ok])
  next
    case 2
    with ld have "\<not> b \<and> s' = s1" by (simp add: unf)
    with k1 show ?thesis by simp
  next
    case 3
    with ld have "\<not> b \<and> s' = fail_load k r2
        (''RAM allocation failed for region '' @ rg_identifier (rr_region r)) (put_rec k r2 s1)"
      by (simp add: unf)
    moreover have "keeps k s1 (fail_load k r2 msg (put_rec k r2 s1))" for msg
      using s1(1) by (intro fail_load_keeps [OF s1(1) r1 nr _ _ _ _ _ _ r2_def]) (simp_all add: rm_ok_def)
    ultimately show ?thesis using k1 by (auto intro: keeps_trans)
  next
    case 4
    with ld rd env have "\<not> b \<and> s' = fail_load k r2 (ds_lastError srcops d)
        ((put_rec k r2 s1)\<lparr>rm_source := d\<rparr>)" by (simp add: unf env_ok_def)
    moreover have "keeps k s1 (fail_load k r2 msg ((put_rec k r2 s1)\<lparr>rm_source := d\<rparr>))" for msg
      using d by (intro fail_load_keeps [OF s1(1) r1 nr _ _ _ _ _ _ r2_def]) simp_all
    ultimately show ?thesis using k1 by (auto intro: keeps_trans)
  next
    case 5
    define r3 where "r3 = r\<lparr>rr_ram := Some (region_bytes (rr_region r)),
      rr_state := ModelResidencyState.RESIDENT_IN_RAM, rr_transferring := False\<rparr>"
    have r3: "r3 = r2\<lparr>rr_ram := Some (region_bytes (rr_region r)),
        rr_state := ModelResidencyState.RESIDENT_IN_RAM, rr_transferring := False\<rparr>"
      by (simp add: r3_def r2_def)
    from src.read_ok [OF _ rd [unfolded eqTrueI [OF 5(4)]]] s1(1)
    have inr: "unat (rg_offset (rr_region r)) + unat (rg_size (rr_region r)) \<le> length content"
      and buf: "buf = Some (region_bytes (rr_region r))" by (simp_all add: rm_ok_def)
    have s': "b" "s' = (put_rec k r3 ((put_rec k r2 s1)\<lparr>rm_source := d\<rparr>))\<lparr>rm_telemetry :=
        load_telemetry (re_read_ms env) (rg_size (rr_region r)) (rm_telemetry s1)\<rparr>"
      using ld rd env 5 buf by (auto simp add: unf env_ok_def r3)
    have "keeps k s1 s'"
      using d by (intro load_done_keeps [OF s1(1) ft1 r1 nr room [OF 5(2)] inr _ _ _ _ _ _ r3_def])
        (simp_all add: s'(2))
    moreover have "isResident k ModelResidencyTarget.RAM s'"
      by (simp add: s'(2) isResident_def at_target_def r3_def)
    ultimately show ?thesis using k1 s'(1) by (auto intro: keeps_trans)
  qed
qed

text \<open>Uploading a region that is in RAM.\<close>

lemma accel_le_ram: "recs_ok ao recs \<Longrightarrow> asum accel_size recs \<le> asum ram_size recs"
proof -
  assume ok: "recs_ok ao recs"
  have "accel_size (snd kv) \<le> ram_size (snd kv)" if "kv \<in> set recs" for kv
  proof -
    have "map_of recs (fst kv) = Some (snd kv)"
      using ok that map_of_in_set_distinct [of recs "fst kv" "snd kv"] by (simp add: recs_ok_def)
    with ok have "rec_ok ao (fst kv) (snd kv)" by (simp add: recs_ok_def)
    then show ?thesis by (auto simp: rec_ok_def holds_bytes_def accel_size_def ram_size_def split: if_splits)
  qed
  then show ?thesis unfolding asum_def by (intro sum_list_mono)
qed

lemma upload_done_keeps:
  assumes ok: "rm_ok s" and r: "rec_at s k = Some r" and st: "rr_state r = ModelResidencyState.RESIDENT_IN_RAM"
    and acc: "rm_accelerator s = Some a0" "ainv a" "mem a0 p = None" "p \<noteq> 0"
      "mem a = (mem a0)(p \<mapsto> region_bytes (rr_region r))"
    and s1: "rm_records s1 = AList.update k r1 (rm_records s)" "rm_budget s1 = rm_budget s"
      "rm_prefetch_enabled s1 = rm_prefetch_enabled s" "rm_accelerator s1 = Some a"
      "rm_telemetry s1 = upload_telemetry ms (rg_size (rr_region r)) (rm_telemetry s)"
      "rm_source s1 = rm_source s"
    and r1: "r1 = r\<lparr>rr_accel := p, rr_state := ModelResidencyState.RESIDENT_IN_ACCELERATOR,
      rr_transferring := False\<rparr>"
  shows "keeps k s s1"
proof -
  have r0: "rec_ok (rm_accelerator s) k r" by (rule rm_ok_rec [OF ok r])
  then have e: "rr_accel r = 0" "rr_ram r = Some (region_bytes (rr_region r))" using st by (simp_all add: rec_ok_def holds_bytes_def)
  have recs: "recs_ok (rm_accelerator s) (rm_records s)" using ok by (simp add: rm_ok_def)
  have other: "rr_accel q \<noteq> p" if "rec_at s j = Some q" "rr_accel q \<noteq> 0" for j q
  proof
    assume p: "rr_accel q = p"
    from rec_ok_accel [OF rm_ok_rec [OF ok that(1)] that(2)] acc(1) have "mem a0 (rr_accel q) \<noteq> None"
      by auto
    with p acc(3) show False by simp
  qed
  have ag: "agree_but p (rm_accelerator s) (Some a)" using acc by (simp add: agree_but_def)
  have rok: "rec_ok (Some a) k r1"
    using r0 st acc(4,5) by (simp add: rec_ok_def holds_bytes_def r1)
  have recs': "recs_ok (Some a) (AList.update k r1 (rm_records s))"
    using rok other by (intro recs_ok_put [OF recs ag]) (simp_all add: r1)
  have sums: "asum ram_size (AList.update k r1 (rm_records s)) = asum ram_size (rm_records s)"
    "asum accel_size (AList.update k r1 (rm_records s)) =
      asum accel_size (rm_records s) + unat (rg_size (rr_region r))"
    using asum_update_same [OF r, of ram_size r1] asum_update_old [OF r, of accel_size r1] e acc(4)
    by (simp_all add: r1 ram_size_def accel_size_def)
  have "asum accel_size (rm_records s) + unat (rg_size (rr_region r)) \<le> asum ram_size (rm_records s)"
    using accel_le_ram [OF recs'] by (simp add: sums)
  also have ram: "\<dots> = unat (st_resident_ram_bytes (rm_telemetry s))" using ok by (simp add: rm_ok_def tele_ok_def)
  finally have "unat (st_resident_accelerator_bytes (rm_telemetry s)) + unat (rg_size (rr_region r)) < 2 ^ LENGTH(64)"
    using ok unsigned_less [of "st_resident_ram_bytes (rm_telemetry s)", where 'a = nat]
    by (simp add: rm_ok_def tele_ok_def)
  note add = unat_add_exact [OF this]
  have "tele_ok (rm_budget s) (AList.update k r1 (rm_records s)) (rm_telemetry s1)"
    unfolding tele_ok_def sums s1(5) using add ok
    by (auto simp: rm_ok_def tele_ok_def upload_telemetry_def Let_def)
  then have "rm_ok s1" using s1 ok recs' acc(2) by (simp add: rm_ok_def)
  then show ?thesis using s1 st by (intro keeps_write [OF ok r]) (auto simp: r1)
qed

lemma fail_upload_keeps:
  assumes ok: "rm_ok s" and r: "rec_at s k = Some r" and st: "rr_state r = ModelResidencyState.RESIDENT_IN_RAM"
    and acc: "rm_accelerator s = Some a0" "ainv a" "mem a = mem a0"
    and r1: "r1 = r\<lparr>rr_state := st', rr_transferring := tr\<rparr>"
  shows "keeps k s (fail_upload env k r1 a (put_rec k r1 s))"
proof -
  let ?r = "r1\<lparr>rr_state := ModelResidencyState.RESIDENT_IN_RAM, rr_transferring := False\<rparr>"
  let ?s = "put_rec k ?r ((put_rec k r1 s)\<lparr>rm_accelerator := Some a\<rparr>)"
  have "?r = r" using rm_ok_rec [OF ok r] st by (simp add: r1 rec_ok_def)
  have rok: "rec_ok (Some a) k ?r"
    unfolding \<open>?r = r\<close> using acc by (intro rec_ok_agree [OF rm_ok_rec [OF ok r]]) simp
  have recs: "recs_ok (rm_accelerator s) (rm_records s)" using ok by (simp add: rm_ok_def)
  have "recs_ok (Some a) (AList.update k ?r (rm_records s))"
    using recs_ok_distinct_ptr [OF recs r] rok acc
    by (intro recs_ok_put [OF recs, of "rr_accel r"]) (auto simp: agree_but_def r1)
  then have "rm_ok ?s"
    using ok acc(2) asum_update_same [OF r, of ram_size r] asum_update_same [OF r, of accel_size r]
    unfolding \<open>?r = r\<close> by (simp add: rm_ok_def tele_ok_def)
  then have "keeps k s ?s" using st by (intro keeps_write [OF ok r]) (auto simp: r1)
  then show ?thesis by (simp add: fail_upload_def)
qed

lemma upload_into_keeps:
  assumes env: "env_ok env" and ok: "rm_ok s" and r: "rec_at s k = Some r"
    and st: "rr_state r = ModelResidencyState.RESIDENT_IN_RAM" and a0: "rm_accelerator s = Some a0"
    and up: "upload_into env k a0 s = (b, s')"
  shows "keeps k s s' \<and> (b \<longrightarrow> isResident k ModelResidencyTarget.ACCELERATOR s')"
proof -
  define r1 where "r1 = r\<lparr>rr_state := ModelResidencyState.LOADING_TO_ACCELERATOR, rr_transferring := True\<rparr>"
  have fld: "rr_region r1 = rr_region r" "rr_ram r1 = Some (region_bytes (rr_region r))"
    and len: "length (region_bytes (rr_region r)) = unat (rg_size (rr_region r))"
    using rm_ok_rec [OF ok r] st by (simp_all add: r1_def rec_ok_def holds_bytes_def length_bytes_at)
  have i0: "ainv a0" using ok a0 by (simp add: rm_ok_def)
  obtain p a1 where al: "am_allocate accops (rg_size (rr_region r)) a0 = (p, a1)" by fastforce
  obtain u a2 where ul: "am_upload accops (Some (region_bytes (rr_region r))) p
      (rg_size (rr_region r)) a1 = (u, a2)" by fastforce
  note unf = upload_into_def r option.sel r1_def [symmetric] Let_def fld
  consider "p = 0" | "p \<noteq> 0" "u = False" | "p \<noteq> 0" "u = True" by blast
  then show ?thesis
  proof cases
    case 1
    with up al env have "\<not> b \<and> s' = fail_upload env k r1 a1 (put_rec k r1 s)"
      by (simp add: unf env_ok_def)
    moreover from acc.alloc_null [OF i0 al [unfolded 1]]
    have "keeps k s (fail_upload env k r1 a1 (put_rec k r1 s))"
      by (intro fail_upload_keeps [OF ok r st a0 _ _ r1_def]) simp_all
    ultimately show ?thesis by simp
  next
    case 2
    with up al ul env have "\<not> b \<and> s' = fail_upload env k r1 (am_release accops p a2) (put_rec k r1 s)"
      by (simp add: unf env_ok_def)
    moreover from acc.alloc_upload_other [OF i0 al 2(1) ul [unfolded 2(2)]]
    have "keeps k s (fail_upload env k r1 (am_release accops p a2) (put_rec k r1 s))"
      by (intro fail_upload_keeps [OF ok r st a0 _ _ r1_def]) simp_all
    ultimately show ?thesis by simp
  next
    case 3
    define r2 where "r2 = r\<lparr>rr_accel := p, rr_state := ModelResidencyState.RESIDENT_IN_ACCELERATOR,
      rr_transferring := False\<rparr>"
    have r2: "r2 = r1\<lparr>rr_accel := p, rr_state := ModelResidencyState.RESIDENT_IN_ACCELERATOR,
      rr_transferring := False\<rparr>" by (simp add: r1_def r2_def)
    have s': "b" "s' = (put_rec k r2 (put_rec k r1 s))\<lparr>rm_accelerator := Some a2, rm_telemetry :=
        upload_telemetry (re_upload_ms env) (rg_size (rr_region r)) (rm_telemetry s)\<rparr>"
      using up al ul env 3 by (auto simp: unf env_ok_def r2)
    from acc.alloc_upload_ok [OF i0 al 3(1) ul [unfolded 3(2)] len]
    have "ainv a2" "mem a0 p = None" "mem a2 = (mem a0)(p \<mapsto> region_bytes (rr_region r))" by simp_all
    then have "keeps k s s'"
      by (intro upload_done_keeps [OF ok r st a0 _ _ 3(1) _ _ _ _ _ _ _ r2_def]) (simp_all add: s'(2))
    moreover have "isResident k ModelResidencyTarget.ACCELERATOR s'"
      by (simp add: s'(2) isResident_def at_target_def r2_def)
    ultimately show ?thesis by simp
  qed
qed

lemma uploadLocked_keeps:
  assumes env: "env_ok env" and ok: "rm_ok s" and r: "rec_at s k = Some r"
    and st: "rr_state r = ModelResidencyState.RESIDENT_IN_RAM"
  shows "\<exists>b c' s'. uploadLocked env k c s = Some (b, c', s') \<and> keeps k s s' \<and>
    (b \<longrightarrow> isResident k ModelResidencyTarget.ACCELERATOR s')"
proof -
  have id: "rg_id (rr_region r) = k" "rr_ram r \<noteq> None"
    using rm_ok_rec [OF ok r] st by (simp_all add: rec_ok_def holds_bytes_def)
  show ?thesis
  proof (cases "rm_accelerator s = None \<or> \<not> am_isAvailable accops (the (rm_accelerator s)) \<or> fst (poll c)")
    case True
    with r id env show ?thesis
      by (auto simp: uploadLocked_def env_ok_def keeps_refl [OF ok] split: option.splits prod.splits)
  next
    case False
    then obtain a c1 where a: "rm_accelerator s = Some a" "am_isAvailable accops a" and po: "poll c = (False, c1)"
      by (cases "poll c") auto
    obtain b1 s1 where rm: "makeAccelRoom env (rg_size (rr_region r)) k s = Some (b1, s1)"
      and s1: "rm_ok s1" "room_frame k s s1"
      using makeAccelRoom_ok [OF env ok, of "rg_size (rr_region r)" k] by blast
    have k1: "keeps k s s1" by (rule keeps_room [OF s1])
    obtain x where x: "rr_ram r = Some x" using id(2) by blast
    note unf = uploadLocked_def a(1) option.case r option.sel id(1) x po prod.case Let_def rm
    show ?thesis
    proof (cases b1)
      case False
      then have "uploadLocked env k c s = Some (False, c1, s1)"
        using a(2) env by (simp add: unf env_ok_def)
      with k1 show ?thesis by blast
    next
      case True
      have r1: "rec_at s1 k = Some r" using s1(2) r by (simp add: room_frame_def)
      obtain a1 where a1: "rm_accelerator s1 = Some a1" using s1(2) a(1) by (auto simp: room_frame_def)
      obtain b s' where up: "upload_into env k a1 s1 = (b, s')" by fastforce
      have "uploadLocked env k c s = Some (b, c1, s')"
        using True a(2) env a1 up by (simp add: unf env_ok_def)
      with upload_into_keeps [OF env s1(1) r1 st a1 up] k1 show ?thesis
        by (blast intro: keeps_trans)
    qed
  qed
qed

text \<open>The two steps together, and the public operations.\<close>

lemma resident_state:
  assumes "rm_ok s" "isResident k ModelResidencyTarget.RAM s"
  shows "\<exists>r. rec_at s k = Some r \<and> in_ram (rr_state r) \<and>
    ramPointer k s = Some (region_bytes (rr_region r))"
proof -
  obtain r where r: "rec_at s k = Some r" "in_ram (rr_state r)"
    using assms(2) by (auto simp: isResident_def at_target_def split: option.splits)
  with rm_ok_rec [OF assms(1) r(1)] show ?thesis
    by (simp add: ramPointer_def rec_ok_def holds_bytes_def)
qed

lemma isResident_accel_ram:
  "isResident k ModelResidencyTarget.ACCELERATOR s \<Longrightarrow> isResident k t s"
  by (cases t) (auto simp: isResident_def at_target_def split: option.splits)

lemma bring_keeps:
  assumes env: "env_ok env" and ok: "rm_ok s" and ft: "fits s" and r: "rec_at s k = Some r"
  shows "\<exists>b c' s'. bring env target k c s = Some (b, c', s') \<and> keeps k s s' \<and>
    (b \<longrightarrow> isResident k target s')"
proof -
  obtain b1 c1 s1 where ld: "(if \<not> in_ram (rr_state (the (rec_at s k))) then loadToRam env k c s
      else (True, c, s)) = (b1, c1, s1)" by (metis prod_cases3)
  have k1: "keeps k s s1 \<and> (b1 \<longrightarrow> isResident k ModelResidencyTarget.RAM s1)"
  proof (cases "in_ram (rr_state r)")
    case True
    with ld r have "b1 \<and> s1 = s" by simp
    with True r show ?thesis by (simp add: keeps_refl [OF ok] isResident_def at_target_def)
  next
    case False
    with ld r loadToRam_keeps [OF env ok ft r False] show ?thesis by simp
  qed
  show ?thesis
  proof (cases b1)
    case False
    then have "bring env target k c s = Some (False, c1, s1)" using ld by (simp add: bring_def)
    with k1 show ?thesis by blast
  next
    case True
    with k1 resident_state [OF keeps_ok, of k s s1 k] obtain r1 where
      r1: "rec_at s1 k = Some r1" "in_ram (rr_state r1)" by blast
    show ?thesis
    proof (cases "target = ModelResidencyTarget.ACCELERATOR \<and>
        rr_state r1 \<noteq> ModelResidencyState.RESIDENT_IN_ACCELERATOR")
      case up: True
      then have "rr_state r1 = ModelResidencyState.RESIDENT_IN_RAM" using r1(2) by (simp add: in_ram_def)
      from uploadLocked_keeps [OF env keeps_ok [OF conjunct1 [OF k1]] r1(1) this, of c1]
      obtain b c' s' where u: "uploadLocked env k c1 s1 = Some (b, c', s')" "keeps k s1 s'"
        "b \<longrightarrow> isResident k ModelResidencyTarget.ACCELERATOR s'" by blast
      have "bring env target k c s = Some (b, c', s')"
        using ld True up r1 u(1) by (simp add: bring_def)
      with u k1 up show ?thesis by (metis keeps_trans)
    next
      case no: False
      then have "bring env target k c s = Some (True, c1, s1)"
        using ld True r1 by (auto simp: bring_def)
      moreover have "isResident k target s1"
        using no r1 by (cases target) (simp_all add: isResident_def at_target_def)
      ultimately show ?thesis using k1 by blast
    qed
  qed
qed

end

end
