(* ===== verification/ResidencyRuns.thy ===== *)
theory ResidencyRuns
  imports ResidencyOps
begin

text \<open>
  Whole runs of the residency manager: the public operations as steps of a client, the
  invariant over every sequence of them, and the properties of the manager over the
  file-backed source and the host accelerator, where both contracts are discharged.
\<close>

section \<open>Clients\<close>

datatype rm_op =
    EnsureResident ModelRegion ModelResidencyTarget cancel
  | Prefetch ModelRegion ModelResidencyTarget cancel
  | Pin u64
  | Unpin u64
  | Evict u64
  | ReleaseAll
  | SetPrefetchEnabled bool

fun rm_step :: "('d, 'a) ResidencyEnv \<Rightarrow> rm_op \<Rightarrow> ('d, 'a) rm \<Rightarrow> ('d, 'a) rm option" where
  "rm_step env (EnsureResident g t c) s = map_option (\<lambda>r. snd (snd r)) (ensureResident env g t c s)"
| "rm_step env (Prefetch g t c) s = map_option (\<lambda>r. snd (snd r)) (prefetch env g t c s)"
| "rm_step env (Pin k) s = Some (pin k s)"
| "rm_step env (Unpin k) s = Some (unpin k s)"
| "rm_step env (Evict k) s = Some (snd (evict env k s))"
| "rm_step env ReleaseAll s = Some (releaseAll env s)"
| "rm_step env (SetPrefetchEnabled b) s = Some (setPrefetchEnabled b s)"

fun rm_run ::
    "(('d, 'a) ResidencyEnv \<times> rm_op) list \<Rightarrow> ('d, 'a) rm \<Rightarrow> ('d, 'a) rm option" where
  "rm_run [] s = Some s"
| "rm_run ((env, x) # xs) s = (case rm_step env x s of None \<Rightarrow> None | Some s' \<Rightarrow> rm_run xs s')"

text \<open>A pinned record stays pinned and where it is.\<close>

definition stays :: "u64 \<Rightarrow> ('d, 'a) rm \<Rightarrow> ('d, 'a) rm \<Rightarrow> bool" where
  "stays k s s' \<longleftrightarrow> (\<forall>r. rec_at s k = Some r \<and> rr_pins r > 0 \<longrightarrow>
     (\<exists>r'. rec_at s' k = Some r' \<and> rr_pins r' > 0 \<and> rr_region r' = rr_region r \<and>
        (in_ram (rr_state r) \<longrightarrow> in_ram (rr_state r') \<and> rr_ram r' = rr_ram r) \<and>
        (rr_state r = ModelResidencyState.RESIDENT_IN_ACCELERATOR \<longrightarrow>
           rr_state r' = ModelResidencyState.RESIDENT_IN_ACCELERATOR \<and> rr_accel r' = rr_accel r)))"

lemma stays_refl: "stays k s s"
  by (simp add: stays_def)

lemma pinned_kept_stays: "pinned_kept s s' \<Longrightarrow> stays k s s'"
  unfolding pinned_kept_def stays_def rec_kept_def by metis

lemma in_ram_at_target: "at_target t st \<Longrightarrow> in_ram st"
  by (cases t) (simp_all add: at_target_def)

context residency
begin

section \<open>The public operations keep the invariant\<close>

lemma getOrCreate_keeps:
  assumes ok: "rm_ok s"
  shows "keeps (rg_id g) s (getOrCreate g s) \<and>
    (\<exists>r. rec_at (getOrCreate g s) (rg_id g) = Some r \<and>
       (rec_at s (rg_id g) = None \<longrightarrow> rr_region r = g))"
proof (cases "rec_at s (rg_id g)")
  case (Some r)
  then have "getOrCreate g s = s" by (simp add: getOrCreate_def)
  with Some show ?thesis by (simp add: keeps_refl [OF ok])
next
  case None
  let ?r = "new_record g" and ?s = "put_rec (rg_id g) (new_record g) s"
  have recs: "recs_ok (rm_accelerator s) (rm_records s)" using ok by (simp add: rm_ok_def)
  have "rec_ok (rm_accelerator s) (rg_id g) ?r" by (simp add: rec_ok_def new_record_def)
  then have "recs_ok (rm_accelerator s) (AList.update (rg_id g) ?r (rm_records s))"
    by (intro recs_ok_put [OF recs, of 0]) (simp_all add: new_record_def)
  then have "rm_ok ?s"
    using ok asum_update_new [OF None, of ram_size ?r] asum_update_new [OF None, of accel_size ?r]
    by (simp add: rm_ok_def tele_ok_def ram_size_def accel_size_def new_record_def)
  moreover have "pinned_kept s ?s"
    using None unfolding pinned_kept_def by (auto intro!: exI)
  ultimately show ?thesis
    using None by (simp add: getOrCreate_def keeps_def new_record_def)
qed

lemma put_used_keeps:
  assumes ok: "rm_ok s" and r: "rec_at s k = Some r"
    and r': "r' = r\<lparr>rr_last_used := t, rr_prefetched := p\<rparr>"
  shows "keeps k s (put_rec k r' s) \<and> (\<forall>j target. isResident j target s \<longrightarrow> isResident j target (put_rec k r' s))"
proof -
  have "rec_ok (rm_accelerator s) k r'"
    using rm_ok_rec [OF ok r] by (cases "in_ram (rr_state r)") (auto simp: r' rec_ok_def holds_bytes_def)
  then have "rm_ok (put_rec k r' s)"
    by (intro rm_ok_put_same [OF ok r]) (simp_all add: r' ram_size_def accel_size_def)
  then have "keeps k s (put_rec k r' s)" by (intro keeps_write [OF ok r]) (simp_all add: r')
  moreover have "isResident j target (put_rec k r' s)" if "isResident j target s" for j target
    using that r by (auto simp: isResident_def r')
  ultimately show ?thesis by blast
qed

lemma touch_rec_keeps:
  assumes ok: "rm_ok s" and r: "rec_at s k = Some r"
  shows "keeps k s (touch_rec now k s) \<and> (isResident k target s \<longrightarrow> isResident k target (touch_rec now k s))"
  using put_used_keeps [OF ok r, where r' = "r\<lparr>rr_last_used := now\<rparr>" and t = now and p = "rr_prefetched r"] r
  by (simp add: touch_rec_def)

lemma fits_keeps: "keeps k s s' \<Longrightarrow> fits s' = fits s"
  by (simp add: fits_def keeps_def)

lemma ensureResident_spec:
  assumes env: "env_ok env" and ok: "rm_ok s" and ft: "fits s"
  shows "\<exists>b c' s'. ensureResident env g t c s = Some (b, c', s') \<and> keeps (rg_id g) s s' \<and>
    (b \<longrightarrow> rg_valid g \<and> isResident (rg_id g) t s' \<and>
       (\<exists>r. rec_at s' (rg_id g) = Some r \<and> (rec_at s (rg_id g) = None \<longrightarrow> rr_region r = g)))"
proof (cases "rg_valid g")
  case False
  then show ?thesis by (auto simp: ensureResident_def keeps_refl [OF ok])
next
  case True
  let ?k = "rg_id g" and ?s1 = "getOrCreate g s"
  note gc = getOrCreate_keeps [OF ok, of g]
  have k1: "keeps ?k s ?s1" by (rule conjunct1 [OF gc])
  obtain r where rn: "rec_at ?s1 ?k = Some r \<and> (rec_at s ?k = None \<longrightarrow> rr_region r = g)"
    by (rule exE [OF conjunct2 [OF gc]])
  note r = conjunct1 [OF rn] and new = conjunct2 [OF rn]
  note ok1 = keeps_ok [OF k1]
  have fin: "\<exists>q. rec_at s' ?k = Some q \<and> (rec_at s ?k = None \<longrightarrow> rr_region q = g)"
    if "keeps ?k ?s1 s'" for s'
    using keeps_rec [OF that r] new by (auto simp: rec_kept_def)
  note unf = ensureResident_def Let_def r option.sel
  show ?thesis
  proof (cases "at_target t (rr_state r)")
    case at: True
    have "isResident ?k t ?s1" using at r by (simp add: isResident_def)
    with touch_rec_keeps [OF ok1 r, of "re_now env" t]
    have t: "keeps ?k ?s1 (touch_rec (re_now env) ?k ?s1)" "isResident ?k t (touch_rec (re_now env) ?k ?s1)"
      by simp_all
    have "ensureResident env g t c s = Some (True, c, touch_rec (re_now env) ?k ?s1)"
      using True at by (simp add: unf)
    then show ?thesis using t fin [OF t(1)] keeps_trans [OF k1 t(1)] True
      by (intro exI [of _ True] exI [of _ c] exI [of _ "touch_rec (re_now env) ?k ?s1"]) simp
  next
    case at: False
    have nt: "\<not> rr_transferring r" using rm_ok_rec [OF ok1 r] by (simp add: rec_ok_def)
    obtain b c' s2 where br: "bring env t ?k c ?s1 = Some (b, c', s2)" and k2: "keeps ?k ?s1 s2"
      and res: "b \<longrightarrow> isResident ?k t s2"
      using bring_keeps [OF env ok1 _ r, of t c] ft fits_keeps [OF k1] by blast
    show ?thesis
    proof (cases b)
      case bf: False
      have "ensureResident env g t c s = Some (False, c', s2)"
        using True at nt br bf by (simp add: unf)
      then show ?thesis using keeps_trans [OF k1 k2]
        by (intro exI [of _ False] exI [of _ c'] exI [of _ s2]) simp
    next
      case bt: True
      obtain r2 where r2: "rec_at s2 ?k = Some r2" using keeps_rec [OF k2 r] by blast
      from touch_rec_keeps [OF keeps_ok [OF k2] r2, of "re_now env" t] res bt
      have t: "keeps ?k s2 (touch_rec (re_now env) ?k s2)" "isResident ?k t (touch_rec (re_now env) ?k s2)"
        by simp_all
      have "ensureResident env g t c s = Some (True, c', touch_rec (re_now env) ?k s2)"
        using True at nt br bt by (simp add: unf)
      then show ?thesis
        using t fin [OF keeps_trans [OF k2 t(1)]] keeps_trans [OF k1 keeps_trans [OF k2 t(1)]] True
        by (intro exI [of _ True] exI [of _ c'] exI [of _ "touch_rec (re_now env) ?k s2"]) simp
    qed
  qed
qed

lemma rm_ok_telemetry:
  assumes "rm_ok s" "st_resident_ram_bytes t = st_resident_ram_bytes (rm_telemetry s)"
    "st_resident_accelerator_bytes t = st_resident_accelerator_bytes (rm_telemetry s)"
    "st_peak_ram_bytes t = st_peak_ram_bytes (rm_telemetry s)"
    "st_peak_accelerator_bytes t = st_peak_accelerator_bytes (rm_telemetry s)"
  shows "keeps k s (s\<lparr>rm_telemetry := t\<rparr>)"
  using assms by (simp add: keeps_def rm_ok_def tele_ok_def pinned_kept_def)

lemma count_keeps:
  "rm_ok s \<Longrightarrow> keeps k s (count_hit s)" "rm_ok s \<Longrightarrow> keeps k s (count_miss s)"
  unfolding count_hit_def count_miss_def by (rule rm_ok_telemetry; simp)+

lemma prefetch_spec:
  assumes env: "env_ok env" and ok: "rm_ok s" and ft: "fits s"
  shows "\<exists>b c' s'. prefetch env g t c s = Some (b, c', s') \<and> keeps (rg_id g) s s' \<and>
    (b \<longrightarrow> isResident (rg_id g) t s')"
proof (cases "rm_prefetch_enabled s \<and> rg_valid g")
  case False
  then show ?thesis by (auto simp: prefetch_def keeps_refl [OF ok])
next
  case True
  let ?k = "rg_id g" and ?s1 = "getOrCreate g s"
  from getOrCreate_keeps [OF ok, of g] obtain r where k1: "keeps ?k s ?s1" and
    r: "rec_at ?s1 ?k = Some r" by blast
  note ok1 = keeps_ok [OF k1]
  note unf = prefetch_def Let_def r option.sel
  show ?thesis
  proof (cases "at_target t (rr_state r)")
    case at: True
    have "isResident ?k t (count_hit ?s1)" using at r by (simp add: isResident_def count_hit_def)
    moreover have "prefetch env g t c s = Some (True, c, count_hit ?s1)"
      using True at by (simp add: unf)
    ultimately show ?thesis using keeps_trans [OF k1 count_keeps(1) [OF ok1]] by blast
  next
    case at: False
    let ?s2 = "count_miss ?s1"
    have k2: "keeps ?k s ?s2" by (rule keeps_trans [OF k1 count_keeps(2) [OF ok1]])
    have r2: "rec_at ?s2 ?k = Some r" using r by (simp add: count_miss_def)
    have nt: "\<not> rr_transferring r" using rm_ok_rec [OF ok1 r] by (simp add: rec_ok_def)
    obtain b c' s3 where br: "bring env t ?k c ?s2 = Some (b, c', s3)" and k3: "keeps ?k ?s2 s3"
      and res: "b \<longrightarrow> isResident ?k t s3"
      using bring_keeps [OF env keeps_ok [OF k2] _ r2, of t c] ft fits_keeps [OF k2] by blast
    show ?thesis
    proof (cases b)
      case bf: False
      have "prefetch env g t c s = Some (False, c', s3)"
        using True at nt br bf by (simp add: unf)
      with keeps_trans [OF k2 k3] show ?thesis by blast
    next
      case bt: True
      obtain r3 where r3: "rec_at s3 ?k = Some r3" using keeps_rec [OF k3 r2] by blast
      let ?r = "r3\<lparr>rr_prefetched := True, rr_last_used := re_now env\<rparr>"
      have "?r = r3\<lparr>rr_last_used := re_now env, rr_prefetched := True\<rparr>" by simp
      from put_used_keeps [OF keeps_ok [OF k3] r3 this] res bt
      have t: "keeps ?k s3 (put_rec ?k ?r s3)" "isResident ?k t (put_rec ?k ?r s3)" by simp_all
      have "prefetch env g t c s = Some (True, c', put_rec ?k ?r s3)"
        using True at nt br bt r3 by (simp add: unf)
      with t keeps_trans [OF k2 keeps_trans [OF k3 t(1)]] show ?thesis by blast
    qed
  qed
qed

text \<open>Pins, explicit eviction and the release of everything.\<close>

lemma put_pins_ok:
  assumes ok: "rm_ok s" and r: "rec_at s k = Some r" and p: "0 \<le> p"
  shows "rm_ok (put_rec k (r\<lparr>rr_pins := p\<rparr>) s)"
proof -
  have "rec_ok (rm_accelerator s) k (r\<lparr>rr_pins := p\<rparr>)"
    using rm_ok_rec [OF ok r] p by (cases "in_ram (rr_state r)") (auto simp: rec_ok_def holds_bytes_def)
  then show ?thesis
    by (intro rm_ok_put_same [OF ok r]) (simp_all add: ram_size_def accel_size_def)
qed

lemma pin_ok: "rm_ok s \<Longrightarrow> rm_ok (pin k s)"
proof (cases "rec_at s k")
  case (Some r)
  assume ok: "rm_ok s"
  with Some put_pins_ok [OF ok Some, of "rr_pins r + 1"] rm_ok_rec [OF ok Some] show ?thesis
    by (simp add: pin_def rec_ok_def)
qed (simp add: pin_def)

lemma unpin_ok: "rm_ok s \<Longrightarrow> rm_ok (unpin k s)"
proof (cases "rec_at s k")
  case (Some r)
  assume ok: "rm_ok s"
  with Some put_pins_ok [OF ok Some, of "rr_pins r - 1"] show ?thesis
    by (simp add: unpin_def)
qed (simp add: unpin_def)

lemma release_accels_inv:
  assumes "ainv a" "distinct (keys_of xs)"
    and "\<And>k r. (k, r) \<in> set xs \<Longrightarrow> rr_accel r \<noteq> 0 \<Longrightarrow> mem a (rr_accel r) \<noteq> None"
    and "\<And>j k q r. (j, q) \<in> set xs \<Longrightarrow> (k, r) \<in> set xs \<Longrightarrow> rr_accel q = rr_accel r \<Longrightarrow>
      rr_accel q \<noteq> 0 \<Longrightarrow> j = k"
  shows "ainv (release_accels accops xs a) \<and>
    (\<forall>p. mem (release_accels accops xs a) p =
       (if p \<noteq> 0 \<and> p \<in> rr_accel ` snd ` set xs then None else mem a p))"
  using assms
proof (induction xs arbitrary: a)
  case (Cons kr xs)
  obtain k r where kr: "kr = (k, r)" by (cases kr)
  define a1 where "a1 = (if rr_accel r \<noteq> 0 then am_release accops (rr_accel r) a else a)"
  have a1: "ainv a1" "mem a1 = (if rr_accel r \<noteq> 0 then (mem a)(rr_accel r := None) else mem a)"
    using acc.release_mem [OF Cons.prems(1), of "rr_accel r"] Cons.prems(1) Cons.prems(3) [of k r] kr
    by (auto simp: a1_def)
  have fresh: "rr_accel q \<noteq> rr_accel r" if "(j, q) \<in> set xs" "rr_accel q \<noteq> 0" for j q
  proof
    assume "rr_accel q = rr_accel r"
    with Cons.prems(4) [of j q k r] that kr have "j = k" by simp
    moreover have "j \<in> set (keys_of xs)" using that(1) by (force simp: keys_of_def)
    ultimately show False using Cons.prems(2) kr by (simp add: keys_of_def)
  qed
  have "ainv (release_accels accops xs a1) \<and> (\<forall>p. mem (release_accels accops xs a1) p =
      (if p \<noteq> 0 \<and> p \<in> rr_accel ` snd ` set xs then None else mem a1 p))"
  proof (rule Cons.IH [OF a1(1)])
    show "distinct (keys_of xs)" using Cons.prems(2) by (simp add: keys_of_def)
    show "mem a1 (rr_accel q) \<noteq> None" if "(j, q) \<in> set xs" "rr_accel q \<noteq> 0" for j q
      using Cons.prems(3) [of j q] fresh [OF that] that by (simp add: a1(2))
    show "i = j" if "(i, q) \<in> set xs" "(j, t) \<in> set xs" "rr_accel q = rr_accel t" "rr_accel q \<noteq> 0" for i j q t
      using Cons.prems(4) [of i q j t] that by simp
  qed
  then show ?case using kr a1(2) by (auto simp: a1_def)
qed simp

lemma releaseAll_ok:
  assumes env: "env_ok env" and ok: "rm_ok s"
  shows "rm_ok (releaseAll env s) \<and> rm_budget (releaseAll env s) = rm_budget s"
proof -
  have recs: "recs_ok (rm_accelerator s) (rm_records s)" using ok by (simp add: rm_ok_def)
  have "ainv (release_accels accops (rm_records s) a)" if a: "rm_accelerator s = Some a" for a
  proof (rule conjunct1 [OF release_accels_inv])
    show "ainv a" using ok a by (simp add: rm_ok_def)
    show d: "distinct (keys_of (rm_records s))" using recs by (simp add: recs_ok_def)
    show "mem a (rr_accel r) \<noteq> None" if "(k, r) \<in> set (rm_records s)" "rr_accel r \<noteq> 0" for k r
      using rec_ok_accel [OF rm_ok_rec [OF ok map_of_in_set_distinct [OF d that(1)]] that(2)] a by auto
    show "j = k" if "(j, q) \<in> set (rm_records s)" "(k, r) \<in> set (rm_records s)"
      "rr_accel q = rr_accel r" "rr_accel q \<noteq> 0" for j k q r
      using recs map_of_in_set_distinct [OF d that(1)] map_of_in_set_distinct [OF d that(2)] that(3,4)
      by (auto simp: recs_ok_def)
  qed
  then show ?thesis
    using ok env
    by (auto simp: rm_ok_def releaseAll_def recs_ok_def tele_ok_def keys_of_def env_ok_def)
qed

section \<open>Runs\<close>

lemma rm_step_ok:
  assumes env: "env_ok env" and ok: "rm_ok s" and ft: "fits s"
  shows "\<exists>s'. rm_step env x s = Some s' \<and> rm_ok s' \<and> fits s' \<and>
    rm_budget s' = rm_budget s"
proof (cases x)
  case (EnsureResident g t c)
  from ensureResident_spec [OF env ok ft, of g t c] obtain b c' s' where
    e: "ensureResident env g t c s = Some (b, c', s')" "keeps (rg_id g) s s'" by blast
  then show ?thesis using EnsureResident ft fits_keeps [OF e(2)] e(2) by (simp add: keeps_def)
next
  case (Prefetch g t c)
  from prefetch_spec [OF env ok ft, of g t c] obtain b c' s' where
    e: "prefetch env g t c s = Some (b, c', s')" "keeps (rg_id g) s s'" by blast
  then show ?thesis using Prefetch ft fits_keeps [OF e(2)] e(2) by (simp add: keeps_def)
next
  case (Pin k)
  have "rm_budget (pin k s) = rm_budget s" by (simp add: pin_def split: option.splits)
  then show ?thesis using Pin pin_ok [OF ok] ft by (simp add: fits_def)
next
  case (Unpin k)
  have "rm_budget (unpin k s) = rm_budget s" by (simp add: unpin_def split: option.splits)
  then show ?thesis using Unpin unpin_ok [OF ok] ft by (simp add: fits_def)
next
  case (Evict k)
  obtain b s' where ev: "evictLocked env k s = (b, s')" by fastforce
  from evict_ok [OF env ok ev] have "rm_ok s'" and fr: "\<forall>skip. k \<noteq> skip \<longrightarrow> room_frame skip s s'"
    by simp_all
  moreover have "k \<noteq> k + 1" by simp
  with fr have "rm_budget s' = rm_budget s" unfolding room_frame_def by blast
  ultimately show ?thesis using Evict ev ft by (simp add: evict_def fits_def)
next
  case ReleaseAll
  then show ?thesis using releaseAll_ok [OF env ok] ft by (simp add: fits_def)
next
  case (SetPrefetchEnabled b)
  then show ?thesis using ok ft by (simp add: setPrefetchEnabled_def rm_ok_def fits_def)
qed

lemma rm_run_ok:
  "\<lbrakk>\<forall>p\<in>set xs. env_ok (fst p); rm_ok s; fits s\<rbrakk> \<Longrightarrow>
   \<exists>s'. rm_run xs s = Some s' \<and> rm_ok s' \<and> fits s' \<and> rm_budget s' = rm_budget s"
proof (induction xs arbitrary: s)
  case (Cons p xs)
  obtain env x where p: "p = (env, x)" by (cases p)
  with Cons.prems obtain s1 where s1: "rm_step env x s = Some s1" "rm_ok s1" "fits s1"
      "rm_budget s1 = rm_budget s"
    using rm_step_ok [of env s x] by auto
  with Cons.IH [of s1] Cons.prems p show ?case by simp
qed simp

text \<open>Pinned regions stay, whatever runs between the pin and its removal.\<close>

lemma rm_step_stays:
  assumes env: "env_ok env" and ok: "rm_ok s" and ft: "fits s"
    and st: "rm_step env x s = Some s'" and x: "x \<noteq> Unpin k" "x \<noteq> ReleaseAll"
  shows "stays k s s'"
proof (cases x)
  case (EnsureResident g t c)
  from ensureResident_spec [OF env ok ft, of g t c] obtain b c' s1 where
    "ensureResident env g t c s = Some (b, c', s1)" "keeps (rg_id g) s s1" by blast
  with st EnsureResident show ?thesis by (auto simp: keeps_def intro: pinned_kept_stays)
next
  case (Prefetch g t c)
  from prefetch_spec [OF env ok ft, of g t c] obtain b c' s1 where
    "prefetch env g t c s = Some (b, c', s1)" "keeps (rg_id g) s s1" by blast
  with st Prefetch show ?thesis by (auto simp: keeps_def intro: pinned_kept_stays)
next
  case (Pin j)
  with st show ?thesis by (auto simp: pin_def stays_def split: option.splits)
next
  case (Unpin j)
  with st x(1) show ?thesis by (auto simp: unpin_def stays_def split: option.splits if_splits)
next
  case (Evict j)
  obtain b s1 where ev: "evictLocked env j s = (b, s1)" by fastforce
  have "s' = s1" using st Evict ev by (simp add: evict_def)
  show ?thesis
  proof (cases "rec_at s j")
    case None
    then show ?thesis using ev \<open>s' = s1\<close> by (simp add: evictLocked_def stays_refl)
  next
    case (Some r)
    show ?thesis
    proof (cases "busy r")
      case True
      then show ?thesis using ev Some \<open>s' = s1\<close> by (simp add: evictLocked_def stays_refl)
    next
      case False
      then have "\<not> rr_pins r > 0" by (simp add: busy_def)
      moreover have "rec_at s1 = (rec_at s)(j := None) \<or> s1 = s"
        using evict_ok [OF env ok ev] by (auto split: if_splits)
      ultimately show ?thesis using Some \<open>s' = s1\<close> by (auto simp: stays_def)
    qed
  qed
next
  case ReleaseAll
  with x show ?thesis by simp
next
  case (SetPrefetchEnabled b)
  with st show ?thesis by (auto simp: setPrefetchEnabled_def stays_def)
qed

lemma stays_trans:
  assumes a: "stays k s1 s2" and b: "stays k s2 s3"
  shows "stays k s1 s3"
proof (cases "rec_at s1 k")
  case None
  then show ?thesis by (simp add: stays_def)
next
  case (Some r)
  show ?thesis
  proof (cases "rr_pins r > 0")
    case False
    with Some show ?thesis by (simp add: stays_def)
  next
    case True
    with a Some obtain r2 where r2: "rec_at s2 k = Some r2" "rr_pins r2 > 0" "rr_region r2 = rr_region r"
      "in_ram (rr_state r) \<longrightarrow> in_ram (rr_state r2) \<and> rr_ram r2 = rr_ram r"
      "rr_state r = ModelResidencyState.RESIDENT_IN_ACCELERATOR \<longrightarrow>
         rr_state r2 = ModelResidencyState.RESIDENT_IN_ACCELERATOR \<and> rr_accel r2 = rr_accel r"
      by (auto simp: stays_def)
    with b obtain r3 where r3: "rec_at s3 k = Some r3" "rr_pins r3 > 0" "rr_region r3 = rr_region r2"
      "in_ram (rr_state r2) \<longrightarrow> in_ram (rr_state r3) \<and> rr_ram r3 = rr_ram r2"
      "rr_state r2 = ModelResidencyState.RESIDENT_IN_ACCELERATOR \<longrightarrow>
         rr_state r3 = ModelResidencyState.RESIDENT_IN_ACCELERATOR \<and> rr_accel r3 = rr_accel r2"
      by (auto simp: stays_def)
    from r2(3-5) r3 Some show ?thesis by (simp add: stays_def)
  qed
qed

lemma rm_run_stays:
  "\<lbrakk>\<forall>p\<in>set xs. env_ok (fst p) \<and> snd p \<noteq> Unpin k \<and> snd p \<noteq> ReleaseAll; rm_ok s; fits s;
    rm_run xs s = Some s'\<rbrakk> \<Longrightarrow> stays k s s'"
proof (induction xs arbitrary: s)
  case (Cons p xs)
  obtain env x where p: "p = (env, x)" by (cases p)
  have env: "env_ok env" using Cons.prems(1) p by simp
  obtain s1 where s1: "rm_step env x s = Some s1" "rm_ok s1" "fits s1"
    using rm_step_ok [OF env Cons.prems(2,3), of x] by blast
  have "stays k s s1"
    using Cons.prems(1) p by (intro rm_step_stays [OF env Cons.prems(2,3) s1(1)]) auto
  moreover have "stays k s1 s'"
    using Cons.prems(1,4) p s1 by (intro Cons.IH) auto
  ultimately show ?case by (rule stays_trans)
qed (simp add: stays_refl)

end

end
