(* ===== verification/ResidencySystem.thy ===== *)
theory ResidencySystem
  imports ResidencyRuns
begin

text \<open>
  The residency manager over the file-backed data source and the host accelerator: both
  contracts are discharged here, and the manager's properties follow for every sequence of
  client operations on a fresh system.
\<close>

interpretation file_host: residency "file_vtable fenv" "fe_contents fenv" "file_inv fenv"
  "host_acc_vtable newok" host_mem host_acc_inv
  by (intro residency.intro file_src.model_data_source_axioms host_acc.accelerator_memory_axioms)

definition system_start ::
    "FileEnv \<Rightarrow> string \<Rightarrow> ModelResidencyBudget \<Rightarrow> u64
     \<Rightarrow> (FileModelDataSource, HostAcceleratorMemory) rm" where
  "system_start fenv path budget capacity =
     rm_init (snd (file_open fenv (file_source path))) budget (Some (host_acc_init capacity))"

text \<open>Every step of a run uses the same file and the same host heap; the clock may vary.\<close>

definition runs_over ::
    "FileEnv \<Rightarrow> (u64 \<Rightarrow> bool)
     \<Rightarrow> ((FileModelDataSource, HostAcceleratorMemory) ResidencyEnv \<times> rm_op) list \<Rightarrow> bool" where
  "runs_over fenv newok xs \<longleftrightarrow>
     (\<forall>p\<in>set xs. re_src (fst p) = file_vtable fenv \<and> re_acc (fst p) = host_acc_vtable newok)"

definition budget_fits :: "FileEnv \<Rightarrow> ModelResidencyBudget \<Rightarrow> bool" where
  "budget_fits fenv budget \<longleftrightarrow> unat (bd_ram_bytes budget) + length (fe_contents fenv) < 2 ^ 64"

lemma system_start_ok:
  "file_host.rm_ok fenv (system_start fenv path budget capacity)"
  unfolding system_start_def
  by (rule file_host.rm_ok_init) (auto intro: file_inv_open file_inv_source host_acc_inv_init)

lemma system_start_fits:
  "budget_fits fenv budget \<Longrightarrow> file_host.fits fenv (system_start fenv path budget capacity)"
  by (simp add: file_host.fits_def budget_fits_def system_start_def rm_init_def)

lemma system_run:
  assumes "runs_over fenv newok xs" "budget_fits fenv budget"
  shows "\<exists>s. rm_run xs (system_start fenv path budget capacity) = Some s \<and>
    file_host.rm_ok fenv s \<and> file_host.fits fenv s \<and> rm_budget s = budget"
proof -
  have "rm_budget (system_start fenv path budget capacity) = budget"
    by (simp add: system_start_def rm_init_def)
  moreover have "\<exists>s. rm_run xs (system_start fenv path budget capacity) = Some s \<and>
      file_host.rm_ok fenv s \<and> file_host.fits fenv s \<and>
      rm_budget s = rm_budget (system_start fenv path budget capacity)"
  using assms system_start_ok system_start_fits
  by (intro file_host.rm_run_ok [where newok = newok])
    (auto simp: runs_over_def file_host.env_ok_def)
  ultimately show ?thesis by simp
qed

section \<open>A small system for the worked examples\<close>

definition sample_file :: FileEnv where
  "sample_file = \<lparr>fe_contents = [10, 11, 12, 13, 14, 15, 16, 17], fe_fopen = True,
     fe_seek = (\<lambda>_. True), fe_seek_end = True, fe_tell_fails = False,
     fe_fread = (\<lambda>_ _. 3), fe_ferror = (\<lambda>_. False)\<rparr>"

definition sample_env :: "time_point \<Rightarrow> (FileModelDataSource, HostAcceleratorMemory) ResidencyEnv" where
  "sample_env now = \<lparr>re_src = file_vtable sample_file, re_acc = host_acc_vtable (\<lambda>_. True),
     re_newok = (\<lambda>_. True), re_now = now, re_read_ms = 1, re_upload_ms = 1\<rparr>"

definition sample_region :: "u64 \<Rightarrow> u64 \<Rightarrow> u64 \<Rightarrow> ModelRegion" where
  "sample_region k off sz = empty_region\<lparr>rg_id := k, rg_offset := off, rg_size := sz\<rparr>"

definition sample_budget :: ModelResidencyBudget where
  "sample_budget = \<lparr>bd_ram_bytes = 6, bd_accelerator_bytes = 6, bd_prefetch_bytes = 2\<rparr>"

definition sample_ops ::
    "((FileModelDataSource, HostAcceleratorMemory) ResidencyEnv \<times> rm_op) list" where
  "sample_ops =
     [(sample_env 1, EnsureResident (sample_region 1 0 3) ModelResidencyTarget.ACCELERATOR []),
      (sample_env 2, Pin 1),
      (sample_env 3, EnsureResident (sample_region 2 3 2) ModelResidencyTarget.RAM []),
      (sample_env 4, EnsureResident (sample_region 3 5 3) ModelResidencyTarget.RAM [])]"

lemma sample_runs: "runs_over sample_file (\<lambda>_. True) sample_ops"
  by (simp add: runs_over_def sample_ops_def sample_env_def)

lemma sample_fits: "budget_fits sample_file sample_budget"
  by (simp add: budget_fits_def sample_file_def sample_budget_def)

section \<open>Properties\<close>

text \<open>
  C1: every sequence of client operations on a fresh manager ends; afterwards the reported
  resident bytes are exactly the bytes of the records that hold a buffer, in RAM and on the
  accelerator, and the RAM bytes never exceed the budget.
\<close>

theorem residency_accounting:
  assumes "runs_over fenv newok xs" "budget_fits fenv budget"
  shows "\<exists>s. rm_run xs (system_start fenv path budget capacity) = Some s \<and>
    unat (residentRamBytes s) = asum ram_size (rm_records s) \<and>
    unat (residentAcceleratorBytes s) = asum accel_size (rm_records s) \<and>
    residentRamBytes s \<le> bd_ram_bytes budget"
proof -
  from system_run [OF assms] obtain s where s:
    "rm_run xs (system_start fenv path budget capacity) = Some s"
    "file_host.rm_ok fenv s" "rm_budget s = budget" by blast
  from s(2,3) have "unat (residentRamBytes s) = asum ram_size (rm_records s) \<and>
    unat (residentAcceleratorBytes s) = asum accel_size (rm_records s) \<and>
    residentRamBytes s \<le> bd_ram_bytes budget"
    by (simp add: file_host.rm_ok_def tele_ok_def residentRamBytes_def residentAcceleratorBytes_def
        word_le_nat_alt)
  with s(1) show ?thesis by blast
qed

theorem residency_accounting_witness:
  "\<exists>s. rm_run sample_ops (system_start sample_file ''m'' sample_budget 4) = Some s \<and>
    residentRamBytes s \<le> bd_ram_bytes sample_budget"
  using residency_accounting [OF sample_runs sample_fits, of "''m''" 4] by blast

text \<open>
  C3: after every sequence of client operations, a region that is resident in RAM has exactly
  the file's bytes at its offset behind the pointer clients get, and a region that is resident
  on the accelerator has the same bytes in a live accelerator allocation.
\<close>

theorem resident_bytes_exact:
  assumes "runs_over fenv newok xs" "budget_fits fenv budget"
    and "rm_run xs (system_start fenv path budget capacity) = Some s" and "rec_at s k = Some r"
  shows "(isResident k ModelResidencyTarget.RAM s \<longrightarrow> ramPointer k s =
        Some (bytes_at (fe_contents fenv) (rg_offset (rr_region r)) (rg_size (rr_region r)))) \<and>
    (isResident k ModelResidencyTarget.ACCELERATOR s \<longrightarrow> (\<exists>a. rm_accelerator s = Some a \<and>
        host_mem a (rr_accel r) =
          Some (bytes_at (fe_contents fenv) (rg_offset (rr_region r)) (rg_size (rr_region r)))))"
proof -
  from system_run [OF assms(1,2), of path capacity] assms(3) have ok: "file_host.rm_ok fenv s" by simp
  have rok: "file_host.rec_ok fenv (rm_accelerator s) k r"
    by (rule file_host.rm_ok_rec [OF ok assms(4)])
  show ?thesis
    using rok assms(4)
    by (auto simp: isResident_def at_target_def ramPointer_def file_host.rec_ok_def
        file_host.holds_bytes_def)
qed

theorem resident_bytes_exact_witness:
  "\<exists>s r. rm_run sample_ops (system_start sample_file ''m'' sample_budget 4) = Some s \<and>
    rec_at s 1 = Some r \<and> (isResident 1 ModelResidencyTarget.RAM s \<longrightarrow> ramPointer 1 s =
      Some (bytes_at (fe_contents sample_file) (rg_offset (rr_region r)) (rg_size (rr_region r))))"
proof -
  have "case rm_run sample_ops (system_start sample_file ''m'' sample_budget 4) of
      None \<Rightarrow> False | Some s \<Rightarrow> rec_at s 1 \<noteq> None" by code_simp
  then obtain s r where s: "rm_run sample_ops (system_start sample_file ''m'' sample_budget 4) = Some s"
    "rec_at s 1 = Some r" by (auto split: option.splits)
  with resident_bytes_exact [OF sample_runs sample_fits s] show ?thesis by blast
qed

text \<open>
  C7: on a reachable manager, a call of \<open>ensureResident\<close> returns; when it reports success for a
  region whose identifier was not known, the region is resident at the requested target and
  the pointer clients get holds the file's bytes of exactly that region.
\<close>

theorem ensureResident_delivers:
  assumes "runs_over fenv newok xs" "budget_fits fenv budget"
    and "rm_run xs (system_start fenv path budget capacity) = Some s"
    and "re_src env = file_vtable fenv" "re_acc env = host_acc_vtable newok"
  shows "\<exists>b c' s'. ensureResident env g target c s = Some (b, c', s') \<and>
    (b \<and> rec_at s (rg_id g) = None \<longrightarrow> isResident (rg_id g) target s' \<and>
       ramPointer (rg_id g) s' = Some (bytes_at (fe_contents fenv) (rg_offset g) (rg_size g)))"
proof -
  from system_run [OF assms(1,2), of path capacity] assms(3) have
    ok: "file_host.rm_ok fenv s" and ft: "file_host.fits fenv s" by simp_all
  have env: "file_host.env_ok fenv newok env" using assms(4,5) by (simp add: file_host.env_ok_def)
  obtain b c' s' where all: "ensureResident env g target c s = Some (b, c', s') \<and>
      file_host.keeps fenv (rg_id g) s s' \<and>
      (b \<longrightarrow> rg_valid g \<and> isResident (rg_id g) target s' \<and>
         (\<exists>r. rec_at s' (rg_id g) = Some r \<and> (rec_at s (rg_id g) = None \<longrightarrow> rr_region r = g)))"
    using file_host.ensureResident_spec [OF env ok ft, of g target c]
    by - ((erule exE)+, rule that)
  note e = conjunct1 [OF all] and k = conjunct1 [OF conjunct2 [OF all]]
    and b = conjunct2 [OF conjunct2 [OF all]]
  have "isResident (rg_id g) target s' \<and>
      ramPointer (rg_id g) s' = Some (bytes_at (fe_contents fenv) (rg_offset g) (rg_size g))"
    if b': "b \<and> rec_at s (rg_id g) = None"
  proof -
    from b b' have res: "isResident (rg_id g) target s'" by simp
    from b b' obtain r where r: "rec_at s' (rg_id g) = Some r" "rr_region r = g" by auto
    have "isResident (rg_id g) ModelResidencyTarget.RAM s'"
      using res by (cases target) (auto intro: file_host.isResident_accel_ram)
    from file_host.resident_state [OF file_host.keeps_ok [OF k] this] r res show ?thesis by auto
  qed
  with e show ?thesis
    by (intro exI [of _ b] exI [of _ c'] exI [of _ s'] conjI impI) simp_all
qed

theorem ensureResident_delivers_witness:
  "\<exists>s b c' s'. ensureResident (sample_env 9) (sample_region 7 1 2) ModelResidencyTarget.RAM [] s
     = Some (b, c', s') \<and> rm_run [] (system_start sample_file ''m'' sample_budget 4) = Some s \<and>
   (b \<and> rec_at s 7 = None \<longrightarrow> isResident 7 ModelResidencyTarget.RAM s')"
proof -
  have run: "rm_run [] (system_start sample_file ''m'' sample_budget 4) =
      Some (system_start sample_file ''m'' sample_budget 4)" by simp
  have ov: "runs_over sample_file (\<lambda>_. True) []" by (simp add: runs_over_def)
  have "re_src (sample_env 9) = file_vtable sample_file"
    "re_acc (sample_env 9) = host_acc_vtable (\<lambda>_. True)" by (simp_all add: sample_env_def)
  from ensureResident_delivers [OF ov sample_fits run this, of "sample_region 7 1 2"
      ModelResidencyTarget.RAM "[]"]
  show ?thesis by (auto simp: sample_region_def)
qed

text \<open>
  C2: a pinned region that is resident stays resident with the same bytes, on the accelerator
  if it was there, through every sequence of operations that neither unpins it nor releases
  everything, whatever else is loaded, prefetched, evicted or fails meanwhile.
\<close>

theorem pinned_region_survives:
  assumes "runs_over fenv newok (xs @ ys)" "budget_fits fenv budget"
    and "rm_run xs (system_start fenv path budget capacity) = Some s" "rm_run ys s = Some s'"
    and "\<forall>p\<in>set ys. snd p \<noteq> Unpin k \<and> snd p \<noteq> ReleaseAll"
    and "rec_at s k = Some r" "rr_pins r > 0" "isResident k target s"
  shows "isResident k target s' \<and> ramPointer k s' = ramPointer k s"
proof -
  have xs: "runs_over fenv newok xs" using assms(1) by (simp add: runs_over_def)
  from system_run [OF xs assms(2), of path capacity] assms(3) have
    ok: "file_host.rm_ok fenv s" and ft: "file_host.fits fenv s" by simp_all
  have "stays k s s'"
    using assms(1,4,5) by (intro file_host.rm_run_stays [OF _ ok ft, where newok = newok])
      (auto simp: runs_over_def file_host.env_ok_def)
  then obtain r' where r': "rec_at s' k = Some r'"
    "in_ram (rr_state r) \<longrightarrow> in_ram (rr_state r') \<and> rr_ram r' = rr_ram r"
    "rr_state r = ModelResidencyState.RESIDENT_IN_ACCELERATOR \<longrightarrow>
       rr_state r' = ModelResidencyState.RESIDENT_IN_ACCELERATOR"
    using assms(6,7) by (auto simp: stays_def)
  have at: "at_target target (rr_state r)" using assms(6,8) by (simp add: isResident_def)
  then show ?thesis
    using r' assms(6) in_ram_at_target [OF at]
    by (cases target) (simp_all add: isResident_def at_target_def ramPointer_def)
qed

theorem pinned_region_survives_witness:
  "\<exists>s s'. rm_run (take 2 sample_ops) (system_start sample_file ''m'' sample_budget 4) = Some s \<and>
    rm_run (drop 2 sample_ops) s = Some s' \<and> isResident 1 ModelResidencyTarget.ACCELERATOR s' \<and>
    ramPointer 1 s' = ramPointer 1 s"
proof -
  have "case rm_run (take 2 sample_ops) (system_start sample_file ''m'' sample_budget 4) of
      None \<Rightarrow> False | Some s \<Rightarrow> isResident 1 ModelResidencyTarget.ACCELERATOR s \<and>
        (case rec_at s 1 of None \<Rightarrow> False | Some r \<Rightarrow> rr_pins r > 0) \<and>
        rm_run (drop 2 sample_ops) s \<noteq> None" by code_simp
  then obtain s s' r where s: "rm_run (take 2 sample_ops) (system_start sample_file ''m'' sample_budget 4) = Some s"
    "rm_run (drop 2 sample_ops) s = Some s'" "rec_at s 1 = Some r" "rr_pins r > 0"
    "isResident 1 ModelResidencyTarget.ACCELERATOR s"
    by (auto split: option.splits)
  have ov: "runs_over sample_file (\<lambda>_. True) (take 2 sample_ops @ drop 2 sample_ops)"
    using sample_runs by simp
  have "\<forall>p\<in>set (drop 2 sample_ops). snd p \<noteq> Unpin 1 \<and> snd p \<noteq> ReleaseAll"
    by (simp add: sample_ops_def)
  from pinned_region_survives [OF ov sample_fits s(1,2) this s(3,4,5)] s(1,2) show ?thesis by blast
qed

text \<open>
  C33: the victim chosen for eviction is a region that is not the one being loaded, is neither
  pinned nor in use nor in transfer, is resident where room is needed, and was used no later
  than any other such region.
\<close>

theorem lru_victim:
  assumes "distinct (keys_of (rm_records s))" "pickLru env target skip s \<noteq> 0"
  shows "\<exists>r. rec_at s (pickLru env target skip s) = Some r \<and> pickLru env target skip s \<noteq> skip \<and>
    rr_pins r \<le> 0 \<and> rr_refs r \<le> 0 \<and> \<not> rr_transferring r \<and> at_target target (rr_state r) \<and>
    (\<forall>k q. rec_at s k = Some q \<and> k \<noteq> skip \<and> \<not> busy q \<and> at_target target (rr_state q) \<longrightarrow>
       rr_last_used r \<le> rr_last_used q)"
  using pickLru_candidate [OF assms] by (simp add: candidate_def busy_def not_less)

theorem lru_victim_witness:
  "\<exists>s. rm_run sample_ops (system_start sample_file ''m'' sample_budget 4) = Some s \<and>
     pickLru (sample_env 9) ModelResidencyTarget.RAM 8 s = 3 \<and> (\<exists>r. rec_at s 3 = Some r \<and> rr_pins r \<le> 0)"
proof -
  have "case rm_run sample_ops (system_start sample_file ''m'' sample_budget 4) of None \<Rightarrow> False
    | Some s \<Rightarrow> distinct (keys_of (rm_records s)) \<and>
        pickLru (sample_env 9) ModelResidencyTarget.RAM 8 s = 3" by code_simp
  then obtain s where s: "rm_run sample_ops (system_start sample_file ''m'' sample_budget 4) = Some s"
    "distinct (keys_of (rm_records s))" "pickLru (sample_env 9) ModelResidencyTarget.RAM 8 s = 3"
    by (auto split: option.splits)
  have "pickLru (sample_env 9) ModelResidencyTarget.RAM 8 s \<noteq> 0" using s(3) by simp
  from lru_victim [OF s(2) this] s(1,3) show ?thesis by auto
qed

text \<open>
  A region whose identifier is 0 blocks eviction: 0 is also the answer for "no victim", so
  when that region is the least recently used candidate, making room for another region fails
  with the exhausted-budget error, although the region (and perhaps others) could be evicted.
\<close>

lemma region_zero_blocks_eviction:
  assumes "distinct (keys_of (rm_records s))" "rec_at s 0 = Some r"
    and "candidate ModelResidencyTarget.RAM skip (0, r)"
    and "\<forall>k q. k \<noteq> 0 \<and> rec_at s k = Some q \<longrightarrow> rr_last_used r < rr_last_used q"
    and "st_resident_ram_bytes (rm_telemetry s) + needed > bd_ram_bytes (rm_budget s)"
  shows "makeRamRoom env needed skip s =
    (False, set_error ''RAM residency budget exhausted -- cannot evict further'' s)"
proof -
  have "pickLru env ModelResidencyTarget.RAM skip s = 0"
  proof (rule ccontr)
    assume nz: "pickLru env ModelResidencyTarget.RAM skip s \<noteq> 0"
    from pickLru_candidate [OF assms(1) nz] obtain q where
      q: "rec_at s (pickLru env ModelResidencyTarget.RAM skip s) = Some q"
      "rr_last_used q \<le> rr_last_used r" using assms(2,3) by blast
    with assms(4) nz show False by (meson leD)
  qed
  with assms(5) show ?thesis by (subst makeRamRoom.simps) (simp add: Let_def)
qed

definition zero_ops ::
    "((FileModelDataSource, HostAcceleratorMemory) ResidencyEnv \<times> rm_op) list" where
  "zero_ops =
     [(sample_env 1, EnsureResident (sample_region 0 0 3) ModelResidencyTarget.RAM []),
      (sample_env 2, EnsureResident (sample_region 5 3 3) ModelResidencyTarget.RAM [])]"

lemma region_zero_blocks_eviction_instance:
  "\<exists>s. rm_run zero_ops (system_start sample_file ''m'' sample_budget 4) = Some s \<and>
    fst (makeRamRoom (sample_env 3) 2 7 s) = False"
proof -
  have "case rm_run zero_ops (system_start sample_file ''m'' sample_budget 4) of None \<Rightarrow> False
    | Some s \<Rightarrow> distinct (keys_of (rm_records s)) \<and>
        (case rec_at s 0 of None \<Rightarrow> False | Some r \<Rightarrow> candidate ModelResidencyTarget.RAM 7 (0, r) \<and>
          list_all (\<lambda>(k, q). k \<noteq> 0 \<longrightarrow> rr_last_used r < rr_last_used q) (rm_records s)) \<and>
        st_resident_ram_bytes (rm_telemetry s) + 2 > bd_ram_bytes (rm_budget s)" by code_simp
  then obtain s r where s: "rm_run zero_ops (system_start sample_file ''m'' sample_budget 4) = Some s"
    "distinct (keys_of (rm_records s))" "rec_at s 0 = Some r"
    "candidate ModelResidencyTarget.RAM 7 (0, r)"
    "list_all (\<lambda>(k, q). k \<noteq> 0 \<longrightarrow> rr_last_used r < rr_last_used q) (rm_records s)"
    "st_resident_ram_bytes (rm_telemetry s) + 2 > bd_ram_bytes (rm_budget s)"
    by (auto split: option.splits)
  have "\<forall>k q. k \<noteq> 0 \<and> rec_at s k = Some q \<longrightarrow> rr_last_used r < rr_last_used q"
    using s(5) map_of_SomeD by (fastforce simp: list_all_iff)
  from region_zero_blocks_eviction [OF s(2-4) this s(6), of "sample_env 3"] s(1) show ?thesis by auto
qed

text \<open>
  C32: on a reachable manager, an explicit eviction of a known region succeeds exactly when it is
  not pinned; then the record is gone, the resident RAM bytes fall by exactly its bytes and its
  accelerator allocation is released.
\<close>

theorem evict_exact:
  assumes "runs_over fenv newok xs" "budget_fits fenv budget"
    and "rm_run xs (system_start fenv path budget capacity) = Some s"
    and "re_src env = file_vtable fenv" "re_acc env = host_acc_vtable newok"
    and "rec_at s k = Some r" "evict env k s = (b, s')"
  shows "(b \<longleftrightarrow> rr_pins r \<le> 0) \<and> (b \<longrightarrow> rec_at s' k = None \<and>
     unat (residentRamBytes s') + ram_size r = unat (residentRamBytes s) \<and>
     (rr_accel r \<noteq> 0 \<longrightarrow> (\<exists>a. rm_accelerator s' = Some a \<and> host_mem a (rr_accel r) = None)))"
proof -
  from system_run [OF assms(1,2), of path capacity] assms(3) have ok: "file_host.rm_ok fenv s" by simp
  have env: "file_host.env_ok fenv newok env" using assms(4,5) by (simp add: file_host.env_ok_def)
  have rok: "file_host.rec_ok fenv (rm_accelerator s) k r" by (rule file_host.rm_ok_rec [OF ok assms(6)])
  have busy: "busy r \<longleftrightarrow> rr_pins r > 0" using rok by (simp add: busy_def file_host.rec_ok_def)
  have ev: "evictLocked env k s = (b, s')" using assms(7) by (simp add: evict_def)
  have b: "b \<longleftrightarrow> rr_pins r \<le> 0"
    using ev assms(6) busy by (auto simp: evictLocked_def Let_def split: if_splits)
  note ev_ok = file_host.evict_ok [OF env ok ev]
  have recs: "rm_records s' = AList.delete k (rm_records s)" if b
    using ev assms(6) busy b that by (auto simp: evictLocked_def Let_def)
  have d: "distinct (keys_of (rm_records s))"
    using ok by (simp add: file_host.rm_ok_def file_host.recs_ok_def)
  have ram: "unat (residentRamBytes t) = asum ram_size (rm_records t)" if "file_host.rm_ok fenv t" for t
    using that by (simp add: file_host.rm_ok_def tele_ok_def residentRamBytes_def)
  have "unat (residentRamBytes s') + ram_size r = unat (residentRamBytes s)" if b
    using ram [OF ok] ram [OF conjunct1 [OF ev_ok]] asum_delete [OF d assms(6), of ram_size] recs [OF that]
    by simp
  moreover have "\<exists>a. rm_accelerator s' = Some a \<and> host_mem a (rr_accel r) = None"
    if b' : b and nz: "rr_accel r \<noteq> 0"
  proof -
    obtain a where a: "rm_accelerator s = Some a"
      using file_host.rec_ok_accel [OF rok nz] by blast
    then have "rm_accelerator s' = Some (host_acc_release (rr_accel r) a)"
      using ev assms(5,6) busy b b' nz by (auto simp: evictLocked_def Let_def host_acc_vtable_def)
    moreover have "host_acc_inv a" using ok a by (simp add: file_host.rm_ok_def)
    ultimately show ?thesis using host_acc_inv_release by simp
  qed
  ultimately show ?thesis using b recs by simp
qed

theorem evict_exact_witness:
  "\<exists>s r. rm_run sample_ops (system_start sample_file ''m'' sample_budget 4) = Some s \<and>
    rec_at s 1 = Some r \<and> (fst (evict (sample_env 8) 1 s) \<longleftrightarrow> rr_pins r \<le> 0)"
proof -
  have "case rm_run sample_ops (system_start sample_file ''m'' sample_budget 4) of
      None \<Rightarrow> False | Some s \<Rightarrow> rec_at s 1 \<noteq> None" by code_simp
  then obtain s r where s: "rm_run sample_ops (system_start sample_file ''m'' sample_budget 4) = Some s"
    "rec_at s 1 = Some r" by (auto split: option.splits)
  obtain b s' where ev: "evict (sample_env 8) 1 s = (b, s')" by fastforce
  have "b \<longleftrightarrow> rr_pins r \<le> 0"
    using evict_exact [OF sample_runs sample_fits s(1) _ _ s(2) ev] by (simp add: sample_env_def)
  with s ev show ?thesis by auto
qed

end
