(* ===== verification/ExecGraph.thy ===== *)
theory ExecGraph
  imports ModelTypes
begin

text \<open>
  The execution graph (\<open>src/execution/ExecutionTypes.h\<close>, \<open>src/execution/IExecutionNode.h\<close>,
  \<open>src/execution/ExecutionGraph.cpp\<close>): node and resource enumerations, the node interface, the
  graph with its two adjacency tables, and the depth-first search for cycles. The search is
  recursive in the code; here the loop over successors with the recursive call inlined is one
  partial function (\<open>None\<close> is a search that never ends), shown to end on every graph and to find
  a cycle exactly when there is one.
\<close>

section \<open>Enumerations\<close>

datatype ExecutionNodeType =
    COMPUTE | DATA_READ | DATA_WRITE | TRANSFER | RESIDENCY | PREFETCH | EVICTION
    | SYNCHRONIZATION | BARRIER | CUSTOM

fun toString_ExecutionNodeType :: "ExecutionNodeType \<Rightarrow> string" where
  "toString_ExecutionNodeType ExecutionNodeType.COMPUTE = ''COMPUTE''"
| "toString_ExecutionNodeType ExecutionNodeType.DATA_READ = ''DATA_READ''"
| "toString_ExecutionNodeType ExecutionNodeType.DATA_WRITE = ''DATA_WRITE''"
| "toString_ExecutionNodeType ExecutionNodeType.TRANSFER = ''TRANSFER''"
| "toString_ExecutionNodeType ExecutionNodeType.RESIDENCY = ''RESIDENCY''"
| "toString_ExecutionNodeType ExecutionNodeType.PREFETCH = ''PREFETCH''"
| "toString_ExecutionNodeType ExecutionNodeType.EVICTION = ''EVICTION''"
| "toString_ExecutionNodeType ExecutionNodeType.SYNCHRONIZATION = ''SYNCHRONIZATION''"
| "toString_ExecutionNodeType ExecutionNodeType.BARRIER = ''BARRIER''"
| "toString_ExecutionNodeType ExecutionNodeType.CUSTOM = ''CUSTOM''"

datatype ExecutionResource =
    CPU | VULKAN | CUDA | NPU | RAM | SSD | NONE

fun toString_ExecutionResource :: "ExecutionResource \<Rightarrow> string" where
  "toString_ExecutionResource ExecutionResource.CPU = ''CPU''"
| "toString_ExecutionResource ExecutionResource.VULKAN = ''VULKAN''"
| "toString_ExecutionResource ExecutionResource.CUDA = ''CUDA''"
| "toString_ExecutionResource ExecutionResource.NPU = ''NPU''"
| "toString_ExecutionResource ExecutionResource.RAM = ''RAM''"
| "toString_ExecutionResource ExecutionResource.SSD = ''SSD''"
| "toString_ExecutionResource ExecutionResource.NONE = ''NONE''"

datatype GraphNodeState =
    CREATED | READY | RUNNING | COMPLETED | FAILED | CANCELLED | BLOCKED | SKIPPED

fun toString_GraphNodeState :: "GraphNodeState \<Rightarrow> string" where
  "toString_GraphNodeState GraphNodeState.CREATED = ''CREATED''"
| "toString_GraphNodeState GraphNodeState.READY = ''READY''"
| "toString_GraphNodeState GraphNodeState.RUNNING = ''RUNNING''"
| "toString_GraphNodeState GraphNodeState.COMPLETED = ''COMPLETED''"
| "toString_GraphNodeState GraphNodeState.FAILED = ''FAILED''"
| "toString_GraphNodeState GraphNodeState.CANCELLED = ''CANCELLED''"
| "toString_GraphNodeState GraphNodeState.BLOCKED = ''BLOCKED''"
| "toString_GraphNodeState GraphNodeState.SKIPPED = ''SKIPPED''"

section \<open>Nodes\<close>

record GraphNodeResult =
  nr_success :: bool
  nr_error_message :: string

text \<open>
  A node is the record of its virtual functions; \<open>execute\<close> runs on a context and returns its
  result and the changed context, or nothing when it never returns.
\<close>

record 'c IExecutionNode =
  en_id :: u64
  en_name :: string
  en_type :: ExecutionNodeType
  en_resource :: ExecutionResource
  en_execute :: "'c \<Rightarrow> (GraphNodeResult \<times> 'c) option"

section \<open>The graph\<close>

record 'n ExecutionGraph =
  eg_nodes :: "(u64 \<times> 'n) list"
  eg_adj :: "(u64 \<times> u64 list) list"
  eg_rev_adj :: "(u64 \<times> u64 list) list"

definition empty_graph :: "'n ExecutionGraph" where
  "empty_graph = \<lparr>eg_nodes = [], eg_adj = [], eg_rev_adj = []\<rparr>"

definition lookup_list :: "(u64 \<times> u64 list) list \<Rightarrow> u64 \<Rightarrow> u64 list" where
  "lookup_list xs k = (case map_of xs k of None \<Rightarrow> [] | Some ys \<Rightarrow> ys)"

definition ensure_entry :: "u64 \<Rightarrow> (u64 \<times> u64 list) list \<Rightarrow> (u64 \<times> u64 list) list" where
  "ensure_entry k xs = (if map_of xs k = None then AList.update k [] xs else xs)"

definition addNode ::
    "'c IExecutionNode option \<Rightarrow> 'c IExecutionNode ExecutionGraph
     \<Rightarrow> u64 \<times> 'c IExecutionNode ExecutionGraph" where
  "addNode node g = (case node of
     None \<Rightarrow> (0, g)
   | Some n \<Rightarrow> let k = en_id n in
       (k, g\<lparr>eg_nodes := AList.update k n (eg_nodes g),
             eg_adj := ensure_entry k (eg_adj g),
             eg_rev_adj := ensure_entry k (eg_rev_adj g)\<rparr>))"

definition push_unique :: "u64 \<Rightarrow> u64 list \<Rightarrow> u64 list" where
  "push_unique x xs = (if x \<in> set xs then xs else xs @ [x])"

definition addDependency :: "u64 \<Rightarrow> u64 \<Rightarrow> 'n ExecutionGraph \<Rightarrow> bool \<times> 'n ExecutionGraph" where
  "addDependency predecessor successor g =
     (if map_of (eg_nodes g) predecessor = None \<or> map_of (eg_nodes g) successor = None
      then (False, g)
      else (True, g\<lparr>
        eg_adj := AList.update predecessor
          (push_unique successor (lookup_list (eg_adj g) predecessor)) (eg_adj g),
        eg_rev_adj := AList.update successor
          (push_unique predecessor (lookup_list (eg_rev_adj g) successor)) (eg_rev_adj g)\<rparr>))"

definition getAllNodeIds :: "'n ExecutionGraph \<Rightarrow> u64 list" where
  "getAllNodeIds g = sort (keys_of (eg_nodes g))"

definition getPredecessors :: "'n ExecutionGraph \<Rightarrow> u64 \<Rightarrow> u64 list" where
  "getPredecessors g k = lookup_list (eg_rev_adj g) k"

definition getSuccessors :: "'n ExecutionGraph \<Rightarrow> u64 \<Rightarrow> u64 list" where
  "getSuccessors g k = lookup_list (eg_adj g) k"

definition getNode :: "'n ExecutionGraph \<Rightarrow> u64 \<Rightarrow> 'n option" where
  "getNode g k = map_of (eg_nodes g) k"

section \<open>Searching for cycles\<close>

text \<open>
  \<open>state\<close> maps a node to 0 (unvisited), 1 (visiting) or 2 (visited); the C++ map gives 0 for a
  key it does not hold. \<open>dfs_loop\<close> is the loop over the successors of a node.
\<close>

partial_function (option) dfs_loop ::
    "'n ExecutionGraph \<Rightarrow> u64 list \<Rightarrow> (u64 \<Rightarrow> int) \<Rightarrow> (bool \<times> (u64 \<Rightarrow> int)) option" where
  "dfs_loop g nexts state = (case nexts of
     [] \<Rightarrow> Some (False, state)
   | next_id # rest \<Rightarrow>
       if state next_id = 1 then Some (True, state)
       else if state next_id = 0 then
         Option.bind (dfs_loop g (getSuccessors g next_id) (state(next_id := 1)))
           (\<lambda>(found, state).
              if found then Some (True, state)
              else dfs_loop g rest (state(next_id := 2)))
       else dfs_loop g rest state)"

declare dfs_loop.simps [code]

definition dfs ::
    "'n ExecutionGraph \<Rightarrow> u64 \<Rightarrow> (u64 \<Rightarrow> int) \<Rightarrow> (bool \<times> (u64 \<Rightarrow> int)) option" where
  "dfs g node_id state =
     (case dfs_loop g (getSuccessors g node_id) (state(node_id := 1)) of
        None \<Rightarrow> None
      | Some (found, state) \<Rightarrow>
          if found then Some (True, state) else Some (False, state(node_id := 2)))"

fun detect_from ::
    "'n ExecutionGraph \<Rightarrow> u64 list \<Rightarrow> (u64 \<Rightarrow> int) \<Rightarrow> bool option" where
  "detect_from g [] state = Some False"
| "detect_from g (k # ks) state =
     (if state k = 0 then
        (case dfs g k state of
           None \<Rightarrow> None
         | Some (found, state) \<Rightarrow> if found then Some True else detect_from g ks state)
      else detect_from g ks state)"

definition detectCycle :: "'n ExecutionGraph \<Rightarrow> bool option" where
  "detectCycle g = detect_from g (keys_of (eg_nodes g)) (\<lambda>_. 0)"

definition validate :: "'n ExecutionGraph \<Rightarrow> (bool \<times> string) option" where
  "validate g =
     (if eg_nodes g = [] then Some (True, ''Graph is empty.'')
      else case detectCycle g of
        None \<Rightarrow> None
      | Some found \<Rightarrow>
          if found then Some (False, ''Cycle detected in execution graph dependencies.'')
          else Some (True, []))"

section \<open>Edges and the search invariant\<close>

definition edges :: "'n ExecutionGraph \<Rightarrow> (u64 \<times> u64) set" where
  "edges g = {(n, m). m \<in> set (getSuccessors g n)}"

lemma edges_iff [simp]: "(n, m) \<in> edges g \<longleftrightarrow> m \<in> set (getSuccessors g n)"
  by (simp add: edges_def)

text \<open>Visited nodes only lead to visited nodes, and none of them lies on a cycle.\<close>

definition visited_ok :: "'n ExecutionGraph \<Rightarrow> (u64 \<Rightarrow> int) \<Rightarrow> bool" where
  "visited_ok g st \<longleftrightarrow> (\<forall>x. st x \<in> {0, 1, 2}) \<and>
     (\<forall>x. st x = 2 \<longrightarrow> (\<forall>m\<in>set (getSuccessors g x). st m = 2) \<and> (x, x) \<notin> (edges g)\<^sup>+)"

text \<open>The nodes being visited are unchanged by a search that found nothing.\<close>

definition advances :: "(u64 \<Rightarrow> int) \<Rightarrow> (u64 \<Rightarrow> int) \<Rightarrow> bool" where
  "advances st st' \<longleftrightarrow> (\<forall>x. (st' x = 1 \<longleftrightarrow> st x = 1) \<and> (st x = 2 \<longrightarrow> st' x = 2))"

lemma advances_refl: "advances st st"
  by (simp add: advances_def)

lemma advances_trans: "advances a b \<Longrightarrow> advances b c \<Longrightarrow> advances a c"
  by (simp add: advances_def)

lemma visited_reach:
  assumes "visited_ok g st" "st x = 2" "(x, y) \<in> (edges g)\<^sup>*"
  shows "st y = 2"
  using assms(3,2) by (induction rule: rtrancl_induct) (use assms(1) in \<open>auto simp: visited_ok_def\<close>)

lemma visited_ok_finish:
  assumes ok: "visited_ok g st" and n: "st n = 1"
    and succ: "\<forall>m\<in>set (getSuccessors g n). st m = 2"
  shows "visited_ok g (st(n := 2))"
proof -
  have "(n, n) \<notin> (edges g)\<^sup>+"
  proof
    assume "(n, n) \<in> (edges g)\<^sup>+"
    then obtain m where m: "(n, m) \<in> edges g" "(m, n) \<in> (edges g)\<^sup>*" by (meson tranclD)
    then have "st m = 2" using succ by simp
    with visited_reach [OF ok this m(2)] n show False by simp
  qed
  with ok succ show ?thesis by (simp add: visited_ok_def)
qed

definition unvisited :: "u64 set \<Rightarrow> (u64 \<Rightarrow> int) \<Rightarrow> nat" where
  "unvisited U st = card {x \<in> U. st x = 0}"

lemma unvisited_less:
  assumes "finite U" "x \<in> U" "st x = 0" "\<And>y. st' y = 0 \<Longrightarrow> st y = 0" "st' x \<noteq> 0"
  shows "unvisited U st' < unvisited U st"
  unfolding unvisited_def using assms by (intro psubset_card_mono) auto

lemma unvisited_le:
  "finite U \<Longrightarrow> (\<And>y. st' y = 0 \<Longrightarrow> st y = 0) \<Longrightarrow> unvisited U st' \<le> unvisited U st"
  unfolding unvisited_def by (intro card_mono) auto

text \<open>
  One search ends; when it finds nothing all the listed nodes are visited, and when it finds
  something there is a cycle, provided the nodes being visited lead to the node \<open>p\<close> whose
  successors are listed.
\<close>

definition search_post ::
    "'n ExecutionGraph \<Rightarrow> u64 list \<Rightarrow> (u64 \<Rightarrow> int) \<Rightarrow> bool \<times> (u64 \<Rightarrow> int) \<Rightarrow> bool" where
  "search_post g ns st r \<longleftrightarrow> (case r of (found, st') \<Rightarrow>
     if found then (\<exists>x. (x, x) \<in> (edges g)\<^sup>+)
     else visited_ok g st' \<and> advances st st' \<and> (\<forall>m\<in>set ns. st' m = 2))"

lemma advances_zero: "visited_ok g st \<Longrightarrow> advances st st' \<Longrightarrow> st' x = 0 \<Longrightarrow> st x = 0"
proof -
  assume ok: "visited_ok g st" and adv: "advances st st'" and z: "st' x = 0"
  have "st x \<in> {0, 1, 2}" using ok by (simp add: visited_ok_def)
  moreover have "(st' x = 1) = (st x = 1)" "st x = 2 \<longrightarrow> st' x = 2" using adv by (simp_all add: advances_def)
  ultimately show "st x = 0" using z by auto
qed

lemma dfs_loop_correct:
  assumes fin: "finite U" and U: "\<And>n. set (getSuccessors g n) \<subseteq> U"
  shows "\<lbrakk>visited_ok g st; set ns \<subseteq> set (getSuccessors g p);
      \<forall>x. st x = 1 \<longrightarrow> (x, p) \<in> (edges g)\<^sup>*\<rbrakk>
    \<Longrightarrow> \<exists>r. dfs_loop g ns st = Some r \<and> search_post g ns st r"
proof (induction "unvisited U st" arbitrary: st ns p rule: less_induct)
  case less
  from less.prems(2) show ?case
  proof (induction ns)
    case Nil
    have "dfs_loop g [] st = Some (False, st)" by (subst dfs_loop.simps) simp
    with less.prems show ?case by (simp add: search_post_def advances_refl)
  next
    case (Cons n ns)
    note ok = less.prems(1) and grey = less.prems(3)
    have edge: "(p, n) \<in> edges g" using Cons.prems by simp
    have val: "st n \<in> {0, 1, 2}" using ok by (simp add: visited_ok_def)
    have nU: "n \<in> U" using Cons.prems U by auto
    consider (cyclic) "st n = 1" | (new) "st n = 0" | (seen) "st n = 2" using val by auto
    then show ?case
    proof cases
      case cyclic
      then have "(n, n) \<in> (edges g)\<^sup>+" using grey rtrancl_into_trancl1 [OF _ edge] by simp
      moreover have "dfs_loop g (n # ns) st = Some (True, st)"
        using cyclic by (subst dfs_loop.simps) simp
      ultimately show ?thesis by (auto simp: search_post_def)
    next
      case seen
      then have "dfs_loop g (n # ns) st = dfs_loop g ns st" by (subst dfs_loop.simps) simp
      moreover obtain r where "dfs_loop g ns st = Some r" "search_post g ns st r"
        using Cons by auto
      ultimately show ?thesis
        using seen by (auto simp: search_post_def advances_def split: prod.splits)
    next
      case new
      let ?st1 = "st(n := 1)"
      have ok1: "visited_ok g ?st1" using ok new by (auto simp: visited_ok_def)
      have grey1: "\<forall>x. ?st1 x = 1 \<longrightarrow> (x, n) \<in> (edges g)\<^sup>*"
        using grey edge by (auto intro: rtrancl_into_rtrancl)
      have "unvisited U ?st1 < unvisited U st"
        using fin nU new by (intro unvisited_less [where x = n]) (auto split: if_splits)
      from less.hyps [OF this ok1 subset_refl grey1] obtain r where
        r: "dfs_loop g (getSuccessors g n) ?st1 = Some r \<and> search_post g (getSuccessors g n) ?st1 r"
        by (rule exE)
      obtain f1 st2 where "r = (f1, st2)" by fastforce
      note r1 = conjunct1 [OF r, unfolded this] conjunct2 [OF r, unfolded this]
      show ?thesis
      proof (cases f1)
        case True
        then have "dfs_loop g (n # ns) st = Some (True, st2)"
          using new r1(1) by (subst dfs_loop.simps) simp
        then show ?thesis using r1(2) True by (simp add: search_post_def)
      next
        case False
        let ?st3 = "st2(n := 2)"
        have p2: "visited_ok g st2" "advances ?st1 st2" "\<forall>m\<in>set (getSuccessors g n). st2 m = 2"
          using r1(2) False by (simp_all add: search_post_def)
        have "st2 n = 1" using p2(2) by (simp add: advances_def)
        have ok3: "visited_ok g ?st3" by (rule visited_ok_finish [OF p2(1) \<open>st2 n = 1\<close> p2(3)])
        have adv: "advances st ?st3"
          using p2(2) new by (auto simp: advances_def split: if_splits)
        have "unvisited U ?st3 < unvisited U st"
          using fin nU new advances_zero [OF ok adv] by (intro unvisited_less [where x = n]) auto
        moreover have "\<forall>x. ?st3 x = 1 \<longrightarrow> (x, p) \<in> (edges g)\<^sup>*"
          using grey adv by (simp add: advances_def)
        moreover have "set ns \<subseteq> set (getSuccessors g p)" using Cons.prems by simp
        ultimately obtain f4 st4 where r4: "dfs_loop g ns ?st3 = Some (f4, st4)"
          "search_post g ns ?st3 (f4, st4)" using less.hyps [OF _ ok3] by (metis surj_pair)
        have "dfs_loop g (n # ns) st = dfs_loop g ns ?st3"
          using new r1(1) False by (subst dfs_loop.simps) simp
        moreover have "search_post g (n # ns) st (f4, st4)"
        proof (cases f4)
          case True
          with r4(2) show ?thesis by (simp add: search_post_def)
        next
          case False
          then have p4: "visited_ok g st4" "advances ?st3 st4" "\<forall>m\<in>set ns. st4 m = 2"
            using r4(2) by (simp_all add: search_post_def)
          have "?st3 n = 2" by simp
          then have "st4 n = 2" using p4(2) unfolding advances_def by blast
          with p4 False advances_trans [OF adv p4(2)] show ?thesis by (simp add: search_post_def)
        qed
        ultimately show ?thesis using r4(1) by simp
      qed
    qed
  qed
qed

lemma finite_successors:
  "\<exists>U. finite U \<and> (\<forall>n. set (getSuccessors g n) \<subseteq> U)"
proof (intro exI conjI allI)
  show "finite (\<Union>p\<in>set (eg_adj g). set (snd p))" by simp
  show "set (getSuccessors g n) \<subseteq> (\<Union>p\<in>set (eg_adj g). set (snd p))" for n
  proof (cases "map_of (eg_adj g) n")
    case (Some ys)
    from map_of_SomeD [OF this] Some show ?thesis
      by (force simp: getSuccessors_def lookup_list_def)
  qed (simp add: getSuccessors_def lookup_list_def)
qed

lemma dfs_correct:
  assumes ok: "visited_ok g st" and new: "st n = 0" and idle: "\<forall>x. st x \<noteq> 1"
  shows "\<exists>found st'. dfs g n st = Some (found, st') \<and>
    (if found then \<exists>x. (x, x) \<in> (edges g)\<^sup>+
     else visited_ok g st' \<and> (\<forall>x. st' x \<noteq> 1) \<and> st' n = 2 \<and> (\<forall>x. st x = 2 \<longrightarrow> st' x = 2))"
proof -
  obtain U where U: "finite U" "\<And>m. set (getSuccessors g m) \<subseteq> U"
    using finite_successors [of g] by blast
  let ?st1 = "st(n := 1)"
  have ok1: "visited_ok g ?st1" using ok new by (auto simp: visited_ok_def)
  have "\<forall>x. ?st1 x = 1 \<longrightarrow> (x, n) \<in> (edges g)\<^sup>*" using idle by auto
  from dfs_loop_correct [OF U ok1 subset_refl this] obtain r1 where
    r1: "dfs_loop g (getSuccessors g n) ?st1 = Some r1 \<and> search_post g (getSuccessors g n) ?st1 r1"
    by (rule exE)
  obtain f1 st2 where "r1 = (f1, st2)" by fastforce
  note r = conjunct1 [OF r1, unfolded this] conjunct2 [OF r1, unfolded this]
  show ?thesis
  proof (cases f1)
    case True
    with r have "dfs g n st = Some (True, st2)" by (simp add: dfs_def)
    with r True show ?thesis by (auto simp: search_post_def)
  next
    case False
    have p2: "visited_ok g st2" "advances ?st1 st2" "\<forall>m\<in>set (getSuccessors g n). st2 m = 2"
      using r(2) False by (simp_all add: search_post_def)
    have "st2 n = 1" using p2(2) by (simp add: advances_def)
    have "visited_ok g (st2(n := 2))" by (rule visited_ok_finish [OF p2(1) \<open>st2 n = 1\<close> p2(3)])
    moreover have "\<forall>x. (st2(n := 2)) x \<noteq> 1" using p2(2) idle by (auto simp: advances_def)
    moreover have "\<forall>x. st x = 2 \<longrightarrow> (st2(n := 2)) x = 2" using p2(2) new by (auto simp: advances_def)
    moreover have "dfs g n st = Some (False, st2(n := 2))" using r(1) False by (simp add: dfs_def)
    ultimately show ?thesis by auto
  qed
qed

definition detect_post :: "'n ExecutionGraph \<Rightarrow> u64 list \<Rightarrow> bool \<Rightarrow> bool" where
  "detect_post g ks b \<longleftrightarrow>
     (if b then \<exists>x. (x, x) \<in> (edges g)\<^sup>+ else \<forall>k\<in>set ks. (k, k) \<notin> (edges g)\<^sup>+)"

lemma detect_from_correct:
  "\<lbrakk>visited_ok g st; \<forall>x. st x \<noteq> 1\<rbrakk> \<Longrightarrow> \<exists>b. detect_from g ks st = Some b \<and> detect_post g ks b"
proof (induction ks arbitrary: st)
  case Nil
  then show ?case by (intro exI [of _ False]) (simp add: detect_post_def)
next
  case (Cons k ks)
  have vis: "(x, x) \<notin> (edges g)\<^sup>+" if "visited_ok g t" "t x = 2" for t x
    using that by (simp add: visited_ok_def)
  show ?case
  proof (cases "st k = 0")
    case True
    from dfs_correct [OF Cons.prems(1) True Cons.prems(2)] obtain f st' where
      d: "dfs g k st = Some (f, st')" and
      p: "if f then \<exists>x. (x, x) \<in> (edges g)\<^sup>+
        else visited_ok g st' \<and> (\<forall>x. st' x \<noteq> 1) \<and> st' k = 2 \<and> (\<forall>x. st x = 2 \<longrightarrow> st' x = 2)"
      by - ((erule exE)+, erule conjE, rule that)
    show ?thesis
    proof (cases f)
      case f: True
      then have "detect_from g (k # ks) st = Some True" using True d by simp
      moreover have "detect_post g (k # ks) True" using p f by (simp add: detect_post_def)
      ultimately show ?thesis by blast
    next
      case f: False
      have e: "detect_from g (k # ks) st = detect_from g ks st'" using f True d by simp
      have p': "visited_ok g st'" "\<forall>x. st' x \<noteq> 1" "st' k = 2" using p f by simp_all
      obtain b where b: "detect_from g ks st' = Some b" "detect_post g ks b"
        using Cons.IH [OF p'(1,2)] by blast
      have "detect_post g (k # ks) b"
        using b(2) vis [OF p'(1,3)] by (simp add: detect_post_def split: if_splits)
      with b(1) e show ?thesis by simp
    qed
  next
    case False
    moreover have "st k \<in> {0, 1, 2}" "st k \<noteq> 1" using Cons.prems by (simp_all add: visited_ok_def)
    ultimately have "st k = 2" by auto
    then have e: "detect_from g (k # ks) st = detect_from g ks st" by simp
    obtain b where b: "detect_from g ks st = Some b" "detect_post g ks b"
      using Cons.IH [OF Cons.prems] by blast
    have "detect_post g (k # ks) b"
      using b(2) vis [OF Cons.prems(1) \<open>st k = 2\<close>] by (simp add: detect_post_def split: if_splits)
    with b(1) e show ?thesis by simp
  qed
qed

section \<open>Well-formed graphs\<close>

text \<open>
  The two adjacency tables mirror each other, lists have no duplicates and every identifier in
  them is a node whose key is its own identifier.
\<close>

definition graph_ok :: "'c IExecutionNode ExecutionGraph \<Rightarrow> bool" where
  "graph_ok g \<longleftrightarrow> distinct (keys_of (eg_nodes g)) \<and>
     (\<forall>k n. getNode g k = Some n \<longrightarrow> en_id n = k) \<and>
     (\<forall>n m. m \<in> set (getSuccessors g n) \<longleftrightarrow> n \<in> set (getPredecessors g m)) \<and>
     (\<forall>n. distinct (getSuccessors g n) \<and> distinct (getPredecessors g n)) \<and>
     (\<forall>n m. m \<in> set (getSuccessors g n) \<longrightarrow> getNode g n \<noteq> None \<and> getNode g m \<noteq> None)"

lemma graph_ok_empty: "graph_ok empty_graph"
  by (simp add: graph_ok_def empty_graph_def getNode_def getSuccessors_def getPredecessors_def
      lookup_list_def keys_of_def)

lemma lookup_ensure [simp]: "lookup_list (ensure_entry k xs) j = lookup_list xs j"
  by (simp add: lookup_list_def ensure_entry_def)

lemma lookup_update [simp]:
  "lookup_list (AList.update k ys xs) j = (if j = k then ys else lookup_list xs j)"
  by (simp add: lookup_list_def)

lemma set_push_unique [simp]: "set (push_unique x xs) = insert x (set xs)"
  by (auto simp: push_unique_def)

lemma distinct_push_unique [simp]: "distinct (push_unique x xs) = distinct xs"
  by (simp add: push_unique_def)

lemma addNode_fields:
  "getSuccessors (snd (addNode n g)) = getSuccessors g"
  "getPredecessors (snd (addNode n g)) = getPredecessors g"
  by (auto simp: addNode_def getSuccessors_def getPredecessors_def Let_def split: option.splits)

lemma getNode_addNode:
  "getNode (snd (addNode (Some n) g)) k = (if k = en_id n then Some n else getNode g k)"
  by (simp add: addNode_def getNode_def Let_def)

lemma graph_ok_addNode: "graph_ok g \<Longrightarrow> graph_ok (snd (addNode n g))"
proof (cases n)
  case (Some x)
  assume ok: "graph_ok g"
  have "distinct (keys_of (eg_nodes (snd (addNode n g))))"
    using ok Some by (auto simp: graph_ok_def addNode_def Let_def)
  then show ?thesis
    using ok unfolding graph_ok_def addNode_fields Some getNode_addNode by auto
qed (simp add: addNode_def)

lemma addDependency_fields:
  assumes "addDependency p s g = (True, g')"
  shows "getSuccessors g' = (getSuccessors g)(p := push_unique s (getSuccessors g p))"
    "getPredecessors g' = (getPredecessors g)(s := push_unique p (getPredecessors g s))"
    "getNode g' = getNode g" "eg_nodes g' = eg_nodes g" "getNode g p \<noteq> None" "getNode g s \<noteq> None"
  using assms
  by (auto simp: addDependency_def getSuccessors_def getPredecessors_def getNode_def fun_eq_iff
      split: if_splits)

lemma graph_ok_addDependency: "graph_ok g \<Longrightarrow> graph_ok (snd (addDependency p s g))"
proof -
  assume ok: "graph_ok g"
  obtain b g' where ad: "addDependency p s g = (b, g')" by fastforce
  show ?thesis
  proof (cases b)
    case False
    with ad have "g' = g" by (auto simp: addDependency_def split: if_splits)
    with ad ok show ?thesis by simp
  next
    case True
    note f = addDependency_fields [OF ad [unfolded eqTrueI [OF True]]]
    have "graph_ok g'"
      using ok f(5,6) unfolding graph_ok_def f(1-4) by auto
    with ad show ?thesis by simp
  qed
qed

text \<open>Graphs a client builds: any sequence of added nodes and dependencies.\<close>

datatype 'c graph_op = AddNode "'c IExecutionNode option" | AddDependency u64 u64

fun build_graph :: "'c graph_op list \<Rightarrow> 'c IExecutionNode ExecutionGraph \<Rightarrow> 'c IExecutionNode ExecutionGraph" where
  "build_graph [] g = g"
| "build_graph (AddNode n # xs) g = build_graph xs (snd (addNode n g))"
| "build_graph (AddDependency p s # xs) g = build_graph xs (snd (addDependency p s g))"

lemma graph_ok_build: "graph_ok g \<Longrightarrow> graph_ok (build_graph xs g)"
  by (induction xs g rule: build_graph.induct) (auto intro: graph_ok_addNode graph_ok_addDependency)

lemma trancl_edge_node:
  assumes "graph_ok g" "(x, y) \<in> (edges g)\<^sup>+"
  shows "x \<in> set (keys_of (eg_nodes g))"
proof -
  obtain m where "(x, m) \<in> edges g" using assms(2) by (meson tranclD)
  then have "getNode g x \<noteq> None" using assms(1) by (auto simp: graph_ok_def)
  then show ?thesis by (auto simp: getNode_def intro: map_of_mem_keys)
qed

section \<open>Validation\<close>

lemma validate_build:
  "\<exists>msg. validate (build_graph ops empty_graph) =
     Some (\<not> (\<exists>x. (x, x) \<in> (edges (build_graph ops empty_graph))\<^sup>+), msg)"
proof -
  define g where "g = build_graph ops empty_graph"
  have ok: "graph_ok g" unfolding g_def by (intro graph_ok_build graph_ok_empty)
  have "visited_ok g (\<lambda>_. 0)" by (simp add: visited_ok_def)
  from detect_from_correct [OF this, of "keys_of (eg_nodes g)"] obtain b where
    b: "detectCycle g = Some b" and c: "detect_post g (keys_of (eg_nodes g)) b"
    by (auto simp: detectCycle_def)
  have "\<exists>msg. validate g = Some (\<not> (\<exists>x. (x, x) \<in> (edges g)\<^sup>+), msg)"
  proof (cases "eg_nodes g = []")
    case True
    then have "\<not> (\<exists>x. (x, x) \<in> (edges g)\<^sup>+)" using trancl_edge_node [OF ok] by (force simp: keys_of_def)
    with True show ?thesis by (simp add: validate_def)
  next
    case False
    have "b \<longleftrightarrow> (\<exists>x. (x, x) \<in> (edges g)\<^sup>+)"
      using c trancl_edge_node [OF ok] unfolding detect_post_def by (meson)
    with False b show ?thesis by (auto simp: validate_def)
  qed
  then show ?thesis unfolding g_def .
qed

text \<open>
  C13: for every graph a client builds, validation ends, and accepts the graph exactly when no
  node depends on itself through any chain of dependencies.
\<close>

theorem validate_acyclic:
  "\<exists>msg. validate (build_graph ops empty_graph) =
     Some (\<not> (\<exists>x. (x, x) \<in> (edges (build_graph ops empty_graph))\<^sup>+), msg)"
  by (rule validate_build)

end
