(* ===== verification/GraphScheduler.thy ===== *)
theory GraphScheduler
  imports ExecGraph
begin

text \<open>
  The execution-graph scheduler (\<open>src/execution/ExecutionGraphScheduler.cpp\<close>). Nodes run on
  threads of their own; the scheduler only sees which futures are ready and what they returned,
  so one iteration of its loop takes a \<open>RoundIn\<close>: the futures found ready in the polling pass
  that ends the wait (at least one of the active ones), their results and the clock. The
  cancel flag is \<open>None\<close> when it is never set, otherwise the number of loads after which it
  reads true. The tracker map has the graph's nodes as its keys, so it is a function read at
  \<open>getAllNodeIds\<close>.
\<close>

section \<open>State\<close>

record NodeStateTracker =
  tk_state :: GraphNodeState
  tk_in_degree :: int
  tk_fail_reason :: string
  tk_start_ms :: rat
  tk_end_ms :: rat

definition tracker_default :: NodeStateTracker where
  "tracker_default = \<lparr>tk_state = GraphNodeState.CREATED, tk_in_degree = 0, tk_fail_reason = [],
     tk_start_ms = 0, tk_end_ms = 0\<rparr>"

record SchedState =
  ss_tracker :: "u64 \<Rightarrow> NodeStateTracker"
  ss_active_resources :: "ExecutionResource \<Rightarrow> int"
  ss_active_tasks :: "u64 list"
  ss_overall_success :: bool
  ss_error_message :: string
  ss_polls :: nat

record RoundIn =
  ri_ready :: "u64 \<Rightarrow> bool"
  ri_first :: nat
  ri_result :: "u64 \<Rightarrow> GraphNodeResult"
  ri_start :: "u64 \<Rightarrow> rat"
  ri_end :: "u64 \<Rightarrow> rat"

record NodeTelemetry =
  nt_node_id :: u64
  nt_type :: ExecutionNodeType
  nt_resource :: ExecutionResource
  nt_start_time_ms :: rat
  nt_end_time_ms :: rat
  nt_duration_ms :: rat
  nt_final_state :: GraphNodeState
  nt_success :: bool
  nt_failure_reason :: string

record ExecutionGraphResult =
  gr_success :: bool
  gr_error_message :: string
  gr_telemetry :: "NodeTelemetry list"

abbreviation node_state :: "SchedState \<Rightarrow> u64 \<Rightarrow> GraphNodeState" where
  "node_state s k \<equiv> tk_state (ss_tracker s k)"

definition set_tracker :: "u64 \<Rightarrow> (NodeStateTracker \<Rightarrow> NodeStateTracker) \<Rightarrow> SchedState \<Rightarrow> SchedState" where
  "set_tracker k f s = s\<lparr>ss_tracker := (ss_tracker s)(k := f (ss_tracker s k))\<rparr>"

definition isCancelled :: "nat option \<Rightarrow> SchedState \<Rightarrow> bool" where
  "isCancelled cancel s = (case cancel of None \<Rightarrow> False | Some n \<Rightarrow> n \<le> ss_polls s)"

definition count_poll :: "SchedState \<Rightarrow> SchedState" where
  "count_poll s = s\<lparr>ss_polls := ss_polls s + 1\<rparr>"

section \<open>Operations\<close>

definition checkResourceAvailable :: "ExecutionResource \<Rightarrow> (ExecutionResource \<Rightarrow> int) \<Rightarrow> bool" where
  "checkResourceAvailable res active =
     (if res = ExecutionResource.NONE then True
      else if res = ExecutionResource.CPU then True
      else if active res > 0 then False
      else True)"

definition pending :: "GraphNodeState \<Rightarrow> bool" where
  "pending st \<longleftrightarrow> st = GraphNodeState.CREATED \<or> st = GraphNodeState.READY"

definition block_node :: "string \<Rightarrow> NodeStateTracker \<Rightarrow> NodeStateTracker" where
  "block_node reason t = t\<lparr>tk_state := GraphNodeState.BLOCKED,
     tk_fail_reason := ''Blocked by failure of predecessor: '' @ reason\<rparr>"

text \<open>The breadth-first walk of \<open>failDependentNodes\<close>; each node is blocked at most once.\<close>

function block_loop ::
    "'n ExecutionGraph \<Rightarrow> string \<Rightarrow> u64 list \<Rightarrow> (u64 \<Rightarrow> NodeStateTracker) \<Rightarrow> (u64 \<Rightarrow> NodeStateTracker)" where
  "block_loop g reason [] tracker = tracker"
| "block_loop g reason (cur # q) tracker =
     (if pending (tk_state (tracker cur)) then
        block_loop g reason (q @ getSuccessors g cur)
          (tracker(cur := block_node reason (tracker cur)))
      else block_loop g reason q tracker)"
  by pat_completeness auto

termination
proof (relation "inv_image (less_than <*lex*> less_than)
    (\<lambda>(g, reason, q, tracker). (card {k. pending (tk_state (tracker k))}, length q))", goal_cases)
  case (2 g reason cur q tracker)
  have "{k. pending (tk_state ((tracker(cur := block_node reason (tracker cur))) k))}
      \<subset> {k. pending (tk_state (tracker k))}"
    using 2 by (auto simp: block_node_def pending_def)
  then have "card {k. pending (tk_state ((tracker(cur := block_node reason (tracker cur))) k))}
      < card {k. pending (tk_state (tracker k))}"
    by (intro psubset_card_mono) simp_all
  then show ?case by simp
qed auto

definition failDependentNodes ::
    "'n ExecutionGraph \<Rightarrow> u64 \<Rightarrow> string \<Rightarrow> (u64 \<Rightarrow> NodeStateTracker) \<Rightarrow> (u64 \<Rightarrow> NodeStateTracker)" where
  "failDependentNodes g failed_id reason tracker =
     block_loop g reason (getSuccessors g failed_id) tracker"

definition init_tracker :: "'n ExecutionGraph \<Rightarrow> u64 \<Rightarrow> NodeStateTracker" where
  "init_tracker g k = (let d = int (length (getPredecessors g k)) in
     tracker_default\<lparr>tk_in_degree := d,
       tk_state := (if d = 0 then GraphNodeState.READY else GraphNodeState.CREATED)\<rparr>)"

definition sched_init :: "'n ExecutionGraph \<Rightarrow> SchedState" where
  "sched_init g = \<lparr>ss_tracker = (\<lambda>k. if k \<in> set (getAllNodeIds g) then init_tracker g k
       else tracker_default),
     ss_active_resources = (\<lambda>_. 0), ss_active_tasks = [], ss_overall_success = True,
     ss_error_message = [], ss_polls = 0\<rparr>"

definition check_cancel :: "'n ExecutionGraph \<Rightarrow> nat option \<Rightarrow> SchedState \<Rightarrow> SchedState" where
  "check_cancel g cancel s =
     (if isCancelled cancel s then
        count_poll (s\<lparr>ss_overall_success := False,
          ss_error_message := ''Execution cancelled.'',
          ss_tracker := (\<lambda>k. if k \<in> set (getAllNodeIds g) \<and> pending (node_state s k)
            then (ss_tracker s k)\<lparr>tk_state := GraphNodeState.CANCELLED\<rparr> else ss_tracker s k)\<rparr>)
      else count_poll s)"

definition dispatch_one ::
    "'c IExecutionNode ExecutionGraph \<Rightarrow> nat option \<Rightarrow> rat \<Rightarrow> u64 \<Rightarrow> SchedState \<Rightarrow> SchedState" where
  "dispatch_one g cancel now k s =
     (if node_state s k = GraphNodeState.READY then
        if isCancelled cancel s then count_poll s
        else case getNode g k of
          None \<Rightarrow> count_poll s
        | Some node \<Rightarrow> let res = en_resource node in
            if checkResourceAvailable res (ss_active_resources s) then
              count_poll ((set_tracker k
                (\<lambda>t. t\<lparr>tk_state := GraphNodeState.RUNNING, tk_start_ms := now\<rparr>) s)
                \<lparr>ss_active_resources := (ss_active_resources s)
                   (res := ss_active_resources s res + 1),
                 ss_active_tasks := insort k (ss_active_tasks s)\<rparr>)
            else count_poll s
      else s)"

definition dispatch_all ::
    "'c IExecutionNode ExecutionGraph \<Rightarrow> nat option \<Rightarrow> (u64 \<Rightarrow> rat) \<Rightarrow> SchedState \<Rightarrow> SchedState" where
  "dispatch_all g cancel now s =
     fold (\<lambda>k. dispatch_one g cancel (now k) k) (getAllNodeIds g) s"

definition release_succ :: "NodeStateTracker \<Rightarrow> NodeStateTracker" where
  "release_succ t = (let d = tk_in_degree t - 1 in
     t\<lparr>tk_in_degree := d,
       tk_state := (if d = 0 \<and> tk_state t = GraphNodeState.CREATED then GraphNodeState.READY
         else tk_state t)\<rparr>)"

definition finish_one ::
    "'c IExecutionNode ExecutionGraph \<Rightarrow> rat \<Rightarrow> GraphNodeResult \<Rightarrow> u64 \<Rightarrow> SchedState \<Rightarrow> SchedState" where
  "finish_one g now r k s = (case getNode g k of
     None \<Rightarrow> s
   | Some node \<Rightarrow> let
       res = en_resource node;
       s = s\<lparr>ss_active_resources := (ss_active_resources s)(res := ss_active_resources s res - 1)\<rparr>;
       s = set_tracker k (\<lambda>t. t\<lparr>tk_end_ms := now\<rparr>) s;
       s = (if nr_success r then
              fold (\<lambda>succ. set_tracker succ release_succ) (getSuccessors g k)
                (set_tracker k (\<lambda>t. t\<lparr>tk_state := GraphNodeState.COMPLETED\<rparr>) s)
            else let
              s = set_tracker k (\<lambda>t. t\<lparr>tk_state := GraphNodeState.FAILED,
                    tk_fail_reason := nr_error_message r\<rparr>) s
              in s\<lparr>ss_overall_success := False,
                   ss_tracker := failDependentNodes g k (nr_error_message r) (ss_tracker s)\<rparr>)
     in s\<lparr>ss_active_tasks := removeAll k (ss_active_tasks s)\<rparr>)"

text \<open>The tasks whose futures are ready in the pass that ends the wait.\<close>

definition ready_tasks :: "RoundIn \<Rightarrow> u64 list \<Rightarrow> u64 list" where
  "ready_tasks ri tasks =
     filter (\<lambda>k. ri_ready ri k \<or> k = tasks ! (ri_first ri mod length tasks)) tasks"

definition finish_all ::
    "'c IExecutionNode ExecutionGraph \<Rightarrow> RoundIn \<Rightarrow> SchedState \<Rightarrow> SchedState" where
  "finish_all g ri s = fold (\<lambda>k. finish_one g (ri_end ri k) (ri_result ri k) k)
     (ready_tasks ri (ss_active_tasks s)) s"

definition sched_round ::
    "'c IExecutionNode ExecutionGraph \<Rightarrow> nat option \<Rightarrow> RoundIn \<Rightarrow> SchedState \<Rightarrow> bool \<times> SchedState" where
  "sched_round g cancel ri s = (let
     s = check_cancel g cancel s;
     s = dispatch_all g cancel (ri_start ri) s;
     active = (ss_active_tasks s \<noteq> []);
     s = finish_all g ri s
   in (active \<or> list_ex (\<lambda>k. node_state s k = GraphNodeState.READY \<or>
          node_state s k = GraphNodeState.RUNNING) (getAllNodeIds g), s))"

fun sched_loop ::
    "'c IExecutionNode ExecutionGraph \<Rightarrow> nat option \<Rightarrow> RoundIn list \<Rightarrow> SchedState \<Rightarrow> SchedState option" where
  "sched_loop g cancel [] s = None"
| "sched_loop g cancel (ri # ris) s = (case sched_round g cancel ri s of
     (active, s) \<Rightarrow> if active then sched_loop g cancel ris s else Some s)"

definition node_telemetry :: "'c IExecutionNode ExecutionGraph \<Rightarrow> SchedState \<Rightarrow> u64 \<Rightarrow> NodeTelemetry" where
  "node_telemetry g s k = (let
     node = the (getNode g k); t = ss_tracker s k in
     \<lparr>nt_node_id = k, nt_type = en_type node, nt_resource = en_resource node,
      nt_start_time_ms = tk_start_ms t, nt_end_time_ms = tk_end_ms t,
      nt_duration_ms = (if tk_end_ms t \<ge> tk_start_ms t \<and> tk_start_ms t > 0
        then dbl (tk_end_ms t - tk_start_ms t) else 0),
      nt_final_state = tk_state t,
      nt_success = (tk_state t = GraphNodeState.COMPLETED),
      nt_failure_reason = tk_fail_reason t\<rparr>)"

definition ended_well :: "GraphNodeState \<Rightarrow> bool" where
  "ended_well st \<longleftrightarrow> st = GraphNodeState.COMPLETED \<or> st = GraphNodeState.SKIPPED \<or>
     st = GraphNodeState.CANCELLED"

definition collect :: "'c IExecutionNode ExecutionGraph \<Rightarrow> SchedState \<Rightarrow> ExecutionGraphResult" where
  "collect g s = (let
     all_ids = getAllNodeIds g;
     unfinished = list_ex (\<lambda>k. \<not> ended_well (node_state s k)) all_ids
   in \<lparr>gr_success = (ss_overall_success s \<and> \<not> unfinished),
       gr_error_message = (if unfinished \<and> ss_error_message s = []
         then ''Not all nodes completed successfully.'' else ss_error_message s),
       gr_telemetry = map (node_telemetry g s) all_ids\<rparr>)"

definition execute_graph ::
    "'c IExecutionNode ExecutionGraph \<Rightarrow> nat option \<Rightarrow> RoundIn list \<Rightarrow> ExecutionGraphResult option" where
  "execute_graph g cancel ris = (case validate g of
     None \<Rightarrow> None
   | Some (valid, err) \<Rightarrow>
       if \<not> valid then Some \<lparr>gr_success = False, gr_error_message = err, gr_telemetry = []\<rparr>
       else map_option (collect g) (sched_loop g cancel ris (sched_init g)))"

end
