(* ===== verification/SchedulerInvariant.thy ===== *)
theory SchedulerInvariant
  imports GraphScheduler
begin

text \<open>
  The scheduler's invariant on well-formed graphs: which tasks run, how many users each
  resource has, in-degrees count the unfinished predecessors, and the node states respect the
  dependencies. Every operation of the scheduler's loop keeps it.
\<close>

section \<open>The invariant\<close>

abbreviation node_ids :: "'n ExecutionGraph \<Rightarrow> u64 set" where
  "node_ids g \<equiv> set (getAllNodeIds g)"

lemma node_ids_iff: "k \<in> node_ids g \<longleftrightarrow> getNode g k \<noteq> None"
  by (auto simp: getAllNodeIds_def getNode_def keys_of_def map_of_eq_None_iff)

definition resource_of :: "'c IExecutionNode ExecutionGraph \<Rightarrow> u64 \<Rightarrow> ExecutionResource" where
  "resource_of g k = en_resource (the (getNode g k))"

definition shared_resource :: "ExecutionResource \<Rightarrow> bool" where
  "shared_resource r \<longleftrightarrow> r = ExecutionResource.CPU \<or> r = ExecutionResource.NONE"

definition tasks_ok :: "'c IExecutionNode ExecutionGraph \<Rightarrow> SchedState \<Rightarrow> bool" where
  "tasks_ok g s \<longleftrightarrow> distinct (ss_active_tasks s) \<and>
     (\<forall>k. k \<in> set (ss_active_tasks s) \<longleftrightarrow> k \<in> node_ids g \<and> node_state s k = GraphNodeState.RUNNING) \<and>
     (\<forall>r. ss_active_resources s r =
        int (length (filter (\<lambda>k. resource_of g k = r) (ss_active_tasks s)))) \<and>
     (\<forall>r. \<not> shared_resource r \<longrightarrow> ss_active_resources s r \<le> 1)"

definition open_preds :: "'n ExecutionGraph \<Rightarrow> (u64 \<Rightarrow> NodeStateTracker) \<Rightarrow> u64 \<Rightarrow> u64 set" where
  "open_preds g t k = {p \<in> set (getPredecessors g k). tk_state (t p) \<noteq> GraphNodeState.COMPLETED}"

definition degrees_ok :: "'n ExecutionGraph \<Rightarrow> (u64 \<Rightarrow> NodeStateTracker) \<Rightarrow> bool" where
  "degrees_ok g t \<longleftrightarrow> (\<forall>k\<in>node_ids g. tk_in_degree (t k) = int (card (open_preds g t k)))"

definition started :: "GraphNodeState \<Rightarrow> bool" where
  "started st \<longleftrightarrow> st \<in> {GraphNodeState.READY, GraphNodeState.RUNNING, GraphNodeState.COMPLETED,
     GraphNodeState.FAILED}"

definition broken :: "GraphNodeState \<Rightarrow> bool" where
  "broken st \<longleftrightarrow> st = GraphNodeState.FAILED \<or> st = GraphNodeState.BLOCKED"

definition order_ok :: "'n ExecutionGraph \<Rightarrow> (u64 \<Rightarrow> NodeStateTracker) \<Rightarrow> bool" where
  "order_ok g t \<longleftrightarrow> (\<forall>k\<in>node_ids g.
     tk_state (t k) \<noteq> GraphNodeState.SKIPPED \<and>
     (started (tk_state (t k)) \<longrightarrow> open_preds g t k = {}) \<and>
     (tk_state (t k) = GraphNodeState.CREATED \<longrightarrow> open_preds g t k \<noteq> {} \<and>
        (\<forall>p\<in>set (getPredecessors g k). \<not> broken (tk_state (t p)) \<and>
           tk_state (t p) \<noteq> GraphNodeState.CANCELLED)) \<and>
     (tk_state (t k) = GraphNodeState.BLOCKED \<longrightarrow>
        (\<exists>p\<in>set (getPredecessors g k). broken (tk_state (t p)))))"

definition verdict_ok :: "'n ExecutionGraph \<Rightarrow> SchedState \<Rightarrow> bool" where
  "verdict_ok g s \<longleftrightarrow> (ss_overall_success s \<longrightarrow> (\<forall>k\<in>node_ids g.
     \<not> broken (node_state s k) \<and> node_state s k \<noteq> GraphNodeState.CANCELLED))"

definition sched_inv :: "'c IExecutionNode ExecutionGraph \<Rightarrow> SchedState \<Rightarrow> bool" where
  "sched_inv g s \<longleftrightarrow> tasks_ok g s \<and> degrees_ok g (ss_tracker s) \<and> order_ok g (ss_tracker s) \<and>
     verdict_ok g s"

lemmas sched_inv_defs = sched_inv_def tasks_ok_def degrees_ok_def order_ok_def verdict_ok_def

lemma graph_preds:
  assumes "graph_ok g" "p \<in> set (getPredecessors g k)"
  shows "p \<in> node_ids g" "k \<in> node_ids g" "k \<in> set (getSuccessors g p)"
  using assms by (auto simp: graph_ok_def node_ids_iff)

lemma graph_succs:
  assumes "graph_ok g" "k \<in> set (getSuccessors g p)"
  shows "p \<in> node_ids g" "k \<in> node_ids g" "p \<in> set (getPredecessors g k)"
  using assms by (auto simp: graph_ok_def node_ids_iff)

lemma open_preds_cong:
  "(\<And>p. p \<in> set (getPredecessors g k) \<Longrightarrow> (tk_state (t' p) = GraphNodeState.COMPLETED) =
     (tk_state (t p) = GraphNodeState.COMPLETED)) \<Longrightarrow> open_preds g t' k = open_preds g t k"
  unfolding open_preds_def by auto

lemma open_preds_same:
  "(\<And>p. (tk_state (t' p) = GraphNodeState.COMPLETED) = (tk_state (t p) = GraphNodeState.COMPLETED)) \<Longrightarrow>
   open_preds g t' = open_preds g t"
  by (intro ext open_preds_cong) simp

section \<open>The initial state\<close>

lemma sched_inv_init:
  assumes ok: "graph_ok g"
  shows "sched_inv g (sched_init g)"
proof -
  let ?t = "ss_tracker (sched_init g)"
  have st: "tk_state (?t k) = (if k \<in> node_ids g \<and> getPredecessors g k = [] then GraphNodeState.READY
      else GraphNodeState.CREATED)" for k
    by (simp add: sched_init_def init_tracker_def tracker_default_def Let_def)
  have op: "open_preds g ?t k = set (getPredecessors g k)" for k
    by (auto simp: open_preds_def st)
  have "degrees_ok g ?t"
    using ok unfolding degrees_ok_def op
    by (auto simp: sched_init_def init_tracker_def Let_def graph_ok_def distinct_card)
  moreover have "order_ok g ?t"
    unfolding order_ok_def op st by (auto simp: started_def broken_def)
  moreover have "tasks_ok g (sched_init g)"
    unfolding tasks_ok_def st by (auto simp: sched_init_def)
  ultimately show ?thesis
    unfolding sched_inv_def verdict_ok_def st by (auto simp: broken_def)
qed

section \<open>Cancellation and dispatch\<close>

lemma inv_count_poll [simp]: "sched_inv g (count_poll s) = sched_inv g s"
  by (simp add: sched_inv_defs count_poll_def)

lemma inv_check_cancel:
  assumes inv: "sched_inv g s"
  shows "sched_inv g (check_cancel g cancel s)"
proof (cases "isCancelled cancel s")
  case False
  with inv show ?thesis by (simp add: check_cancel_def)
next
  case True
  define t' where "t' = (\<lambda>k. if k \<in> node_ids g \<and> pending (node_state s k)
    then (ss_tracker s k)\<lparr>tk_state := GraphNodeState.CANCELLED\<rparr> else ss_tracker s k)"
  let ?s = "s\<lparr>ss_overall_success := False, ss_error_message := ''Execution cancelled.'', ss_tracker := t'\<rparr>"
  have st: "tk_state (t' k) = (if k \<in> node_ids g \<and> pending (node_state s k)
      then GraphNodeState.CANCELLED else node_state s k)" for k
    by (simp add: t'_def)
  have op: "open_preds g t' = open_preds g (ss_tracker s)"
    by (rule open_preds_same) (auto simp: st pending_def)
  have deg: "tk_in_degree (t' k) = tk_in_degree (ss_tracker s k)" for k by (simp add: t'_def)
  have "tasks_ok g ?s"
    using inv by (auto simp: sched_inv_def tasks_ok_def st pending_def)
  moreover have "degrees_ok g t'"
    using inv unfolding degrees_ok_def op deg by (simp add: sched_inv_def degrees_ok_def)
  moreover have "order_ok g t'"
    unfolding order_ok_def op
  proof (intro ballI)
    fix k assume k: "k \<in> node_ids g"
    have o: "node_state s k \<noteq> GraphNodeState.SKIPPED"
      "started (node_state s k) \<longrightarrow> open_preds g (ss_tracker s) k = {}"
      "node_state s k = GraphNodeState.BLOCKED \<longrightarrow>
        (\<exists>p\<in>set (getPredecessors g k). broken (node_state s p))"
      using inv k by (simp_all add: sched_inv_def order_ok_def)
    have br: "broken (tk_state (t' p)) = broken (node_state s p)" for p
      by (auto simp: st broken_def pending_def)
    show "tk_state (t' k) \<noteq> GraphNodeState.SKIPPED \<and>
       (started (tk_state (t' k)) \<longrightarrow> open_preds g (ss_tracker s) k = {}) \<and>
       (tk_state (t' k) = GraphNodeState.CREATED \<longrightarrow> open_preds g (ss_tracker s) k \<noteq> {} \<and>
        (\<forall>p\<in>set (getPredecessors g k). \<not> broken (tk_state (t' p)) \<and>
           tk_state (t' p) \<noteq> GraphNodeState.CANCELLED)) \<and>
       (tk_state (t' k) = GraphNodeState.BLOCKED \<longrightarrow>
        (\<exists>p\<in>set (getPredecessors g k). broken (tk_state (t' p))))"
      unfolding br using o k by (simp add: st [of k] started_def pending_def)
  qed
  ultimately have "sched_inv g ?s" by (simp add: sched_inv_def verdict_ok_def)
  then show ?thesis using True by (simp add: check_cancel_def t'_def)
qed

lemma length_filter_insort: "length (filter P (insort x xs)) = length (filter P (x # xs))"
  by (induction xs) auto

lemma inv_dispatch_one:
  assumes inv: "sched_inv g s"
  shows "sched_inv g (dispatch_one g cancel now k s)"
proof (cases "node_state s k = GraphNodeState.READY \<and> \<not> isCancelled cancel s \<and> getNode g k \<noteq> None \<and>
    checkResourceAvailable (resource_of g k) (ss_active_resources s)")
  case False
  then have "dispatch_one g cancel now k s = s \<or> dispatch_one g cancel now k s = count_poll s"
    by (auto simp: dispatch_one_def resource_of_def Let_def split: option.splits)
  with inv show ?thesis by auto
next
  case True
  define t' where "t' = (ss_tracker s)(k := (ss_tracker s k)\<lparr>tk_state := GraphNodeState.RUNNING, tk_start_ms := now\<rparr>)"
  let ?r = "resource_of g k"
  let ?s = "s\<lparr>ss_tracker := t', ss_active_resources := (ss_active_resources s)(?r := ss_active_resources s ?r + 1),
      ss_active_tasks := insort k (ss_active_tasks s)\<rparr>"
  have k: "k \<in> node_ids g" using True by (simp add: node_ids_iff)
  have eq: "dispatch_one g cancel now k s = count_poll ?s"
    using True by (auto simp: dispatch_one_def resource_of_def Let_def t'_def set_tracker_def)
  have st: "tk_state (t' j) = (if j = k then GraphNodeState.RUNNING else node_state s j)" for j
    by (simp add: t'_def)
  have op: "open_preds g t' = open_preds g (ss_tracker s)"
    using True by (intro open_preds_same) (simp add: st)
  have nt: "k \<notin> set (ss_active_tasks s)" using inv True by (simp add: sched_inv_def tasks_ok_def)
  have "tasks_ok g ?s"
    unfolding tasks_ok_def
  proof (intro conjI allI impI)
    show "distinct (ss_active_tasks ?s)"
      using inv nt by (simp add: sched_inv_def tasks_ok_def distinct_insort)
    show "j \<in> set (ss_active_tasks ?s) \<longleftrightarrow> j \<in> node_ids g \<and> node_state ?s j = GraphNodeState.RUNNING" for j
      using inv k by (simp add: sched_inv_def tasks_ok_def set_insort_key st)
    show "ss_active_resources ?s r = int (length (filter (\<lambda>j. resource_of g j = r) (ss_active_tasks ?s)))" for r
      using inv by (simp add: sched_inv_def tasks_ok_def length_filter_insort)
    show "ss_active_resources ?s r \<le> 1" if "\<not> shared_resource r" for r
    proof (cases "r = ?r")
      case rk: True
      have "\<not> ss_active_resources s ?r > 0"
        using True that rk by (auto simp: checkResourceAvailable_def shared_resource_def split: if_splits)
      then show ?thesis using rk by simp
    next
      case False
      moreover have "ss_active_resources s r \<le> 1"
        using inv that unfolding sched_inv_def tasks_ok_def by blast
      ultimately show ?thesis by simp
    qed
  qed
  moreover have "degrees_ok g t'"
    using inv unfolding degrees_ok_def op by (simp add: sched_inv_def degrees_ok_def t'_def)
  moreover have "order_ok g t'"
  proof -
    have old: "order_ok g (ss_tracker s)" using inv by (simp add: sched_inv_def)
    have "broken (tk_state (t' j)) = broken (node_state s j)"
      "(tk_state (t' j) = GraphNodeState.CANCELLED) = (node_state s j = GraphNodeState.CANCELLED)"
      "(tk_state (t' j) = GraphNodeState.CREATED) = (node_state s j = GraphNodeState.CREATED)"
      "(tk_state (t' j) = GraphNodeState.SKIPPED) = (node_state s j = GraphNodeState.SKIPPED)"
      "(tk_state (t' j) = GraphNodeState.BLOCKED) = (node_state s j = GraphNodeState.BLOCKED)"
      "started (tk_state (t' j)) = started (node_state s j)" for j
      using True by (simp_all add: st broken_def started_def)
    then show ?thesis using old unfolding order_ok_def op by simp
  qed
  moreover have "verdict_ok g ?s"
    using inv by (simp add: sched_inv_def verdict_ok_def st broken_def)
  ultimately show ?thesis unfolding eq inv_count_poll by (simp add: sched_inv_def)
qed

section \<open>Completed tasks\<close>

lemma fold_release:
  assumes "distinct xs"
  shows "fold (\<lambda>m. set_tracker m release_succ) xs s =
    s\<lparr>ss_tracker := (\<lambda>j. if j \<in> set xs then release_succ (ss_tracker s j) else ss_tracker s j)\<rparr>"
  using assms
proof (induction xs arbitrary: s)
  case (Cons m xs)
  have "fold (\<lambda>m. set_tracker m release_succ) xs (set_tracker m release_succ s) =
    (set_tracker m release_succ s)\<lparr>ss_tracker := (\<lambda>j. if j \<in> set xs
       then release_succ (ss_tracker (set_tracker m release_succ s) j)
       else ss_tracker (set_tracker m release_succ s) j)\<rparr>"
    using Cons by simp
  also have "\<dots> = s\<lparr>ss_tracker := (\<lambda>j. if j \<in> set (m # xs) then release_succ (ss_tracker s j)
      else ss_tracker s j)\<rparr>"
    using Cons.prems by (auto simp: set_tracker_def fun_eq_iff)
  finally show ?case by simp
qed simp

text \<open>What the walk over dependents does: it only blocks pending nodes, each with a broken
  predecessor, and leaves no pending node behind a broken one.\<close>

definition exposed :: "'n ExecutionGraph \<Rightarrow> (u64 \<Rightarrow> NodeStateTracker) \<Rightarrow> u64 \<Rightarrow> bool" where
  "exposed g t y \<longleftrightarrow> (\<exists>x. y \<in> set (getSuccessors g x) \<and> broken (tk_state (t x)))"

lemma block_loop_post:
  assumes "\<And>y. exposed g t y \<Longrightarrow> pending (tk_state (t y)) \<Longrightarrow> y \<in> set q"
    and "\<And>y. y \<in> set q \<Longrightarrow> exposed g t y"
  shows "(\<forall>j. block_loop g reason q t j = t j \<or>
      pending (tk_state (t j)) \<and> block_loop g reason q t j = block_node reason (t j) \<and>
      exposed g (block_loop g reason q t) j) \<and>
    (\<forall>y. exposed g (block_loop g reason q t) y \<longrightarrow> \<not> pending (tk_state (block_loop g reason q t y)))"
  using assms
proof (induction g reason q t rule: block_loop.induct)
  case (1 g reason t)
  then show ?case by auto
next
  case (2 g reason c q t)
  show ?case
  proof (cases "pending (tk_state (t c))")
    case False
    have a: "exposed g t y \<Longrightarrow> pending (tk_state (t y)) \<Longrightarrow> y \<in> set q" for y
      using "2.prems"(1) [of y] False by auto
    have b: "y \<in> set q \<Longrightarrow> exposed g t y" for y using "2.prems"(2) [of y] by simp
    have eq: "block_loop g reason (c # q) t = block_loop g reason q t" using False by simp
    show ?thesis unfolding eq by (rule "2.IH"(2) [OF False a b])
  next
    case True
    define t1 where "t1 = t(c := block_node reason (t c))"
    let ?r = "block_loop g reason (q @ getSuccessors g c) t1"
    have st1: "tk_state (t1 x) = (if x = c then GraphNodeState.BLOCKED else tk_state (t x))" for x
      by (simp add: t1_def block_node_def)
    have ex1: "exposed g t1 y \<longleftrightarrow> exposed g t y \<or> y \<in> set (getSuccessors g c)" for y
      using True by (auto simp: exposed_def st1 broken_def pending_def)
    have a: "exposed g t1 y \<Longrightarrow> pending (tk_state (t1 y)) \<Longrightarrow> y \<in> set (q @ getSuccessors g c)" for y
      using "2.prems"(1) [of y] unfolding ex1 st1 by (auto simp: pending_def split: if_splits)
    have b: "y \<in> set (q @ getSuccessors g c) \<Longrightarrow> exposed g t1 y" for y
      using "2.prems"(2) [of y] unfolding ex1 by auto
    note IH = "2.IH"(1) [OF True, folded t1_def, OF a b]
    have keep: "broken (tk_state (t1 x)) \<Longrightarrow> broken (tk_state (?r x))" for x
    proof -
      assume b: "broken (tk_state (t1 x))"
      then have "\<not> pending (tk_state (t1 x))" by (auto simp: broken_def pending_def)
      with IH have "?r x = t1 x" by blast
      with b show ?thesis by simp
    qed
    then have mono: "exposed g t1 y \<Longrightarrow> exposed g ?r y" for y unfolding exposed_def by blast
    have c: "?r c = block_node reason (t c) \<and> exposed g ?r c"
    proof -
      have "\<not> pending (tk_state (t1 c))" by (simp add: st1 pending_def)
      then have "?r c = t1 c" using IH by blast
      moreover have "exposed g t1 c" using "2.prems"(2) [of c] ex1 by simp
      ultimately show ?thesis using mono by (simp add: t1_def)
    qed
    have all: "?r j = t j \<or> pending (tk_state (t j)) \<and> ?r j = block_node reason (t j) \<and> exposed g ?r j" for j
    proof (cases "j = c")
      case jc: True
      show ?thesis unfolding jc using c True by (intro disjI2 conjI) simp_all
    next
      case False
      then have "t1 j = t j" by (simp add: t1_def)
      with spec [OF conjunct1 [OF IH], of j] show ?thesis by (simp only:)
    qed
    have eq: "block_loop g reason (c # q) t = ?r" using True by (simp add: t1_def)
    show ?thesis unfolding eq using all conjunct2 [OF IH] by (intro conjI allI) simp_all
  qed
qed

lemma removeAll_filter_length:
  assumes "distinct xs" "k \<in> set xs"
  shows "length (filter P (removeAll k xs)) = length (filter P xs) - (if P k then 1 else 0)"
proof -
  have "filter P (removeAll k xs) = removeAll k (filter P xs)"
    by (induction xs) auto
  also have "length \<dots> = length (filter P xs) - (if P k then 1 else 0)"
    using assms by (simp add: distinct_remove1_removeAll [symmetric] length_remove1)
  finally show ?thesis .
qed

text \<open>The task list and the resource counters after a task ends.\<close>

lemma tasks_ok_finish:
  assumes ok: "tasks_ok g s" and k: "k \<in> set (ss_active_tasks s)"
    and st: "\<And>j. (tk_state (t' j) = GraphNodeState.RUNNING) =
      (j \<noteq> k \<and> node_state s j = GraphNodeState.RUNNING)"
    and s': "ss_tracker s' = t'" "ss_active_tasks s' = removeAll k (ss_active_tasks s)"
      "ss_active_resources s' = (ss_active_resources s)
         (resource_of g k := ss_active_resources s (resource_of g k) - 1)"
  shows "tasks_ok g s'"
proof -
  have d: "distinct (ss_active_tasks s)" using ok by (simp add: tasks_ok_def)
  have cnt: "ss_active_resources s r =
      int (length (filter (\<lambda>k. resource_of g k = r) (ss_active_tasks s)))" for r
    using ok by (simp add: tasks_ok_def)
  have "0 < length (filter (\<lambda>j. resource_of g j = resource_of g k) (ss_active_tasks s))"
    using k by (auto simp: filter_empty_conv)
  then have pos: "int (length (filter (\<lambda>j. resource_of g j = resource_of g k) (ss_active_tasks s)) - 1) =
      int (length (filter (\<lambda>j. resource_of g j = resource_of g k) (ss_active_tasks s))) - 1"
    by (simp only: of_nat_diff Suc_leI One_nat_def of_nat_1)
  show ?thesis
    unfolding tasks_ok_def s'
  proof (intro conjI allI impI)
    show "distinct (removeAll k (ss_active_tasks s))" using d by (simp add: distinct_removeAll)
    show "j \<in> set (removeAll k (ss_active_tasks s)) \<longleftrightarrow> j \<in> node_ids g \<and> tk_state (t' j) = GraphNodeState.RUNNING" for j
      using ok st [of j] by (auto simp: tasks_ok_def)
    show "((ss_active_resources s)(resource_of g k := ss_active_resources s (resource_of g k) - 1)) r =
        int (length (filter (\<lambda>k. resource_of g k = r) (removeAll k (ss_active_tasks s))))" for r
      unfolding removeAll_filter_length [OF d k] using cnt [of r] pos by auto
    show "((ss_active_resources s)(resource_of g k := ss_active_resources s (resource_of g k) - 1)) r \<le> 1"
      if "\<not> shared_resource r" for r
    proof -
      have "ss_active_resources s r \<le> 1" using ok that unfolding tasks_ok_def by blast
      then show ?thesis by (cases "r = resource_of g k") simp_all
    qed
  qed
qed

text \<open>A task that succeeded: its successors lose one open predecessor.\<close>

lemma release_state:
  "tk_state (release_succ t) = (if tk_in_degree t = 1 \<and> tk_state t = GraphNodeState.CREATED
     then GraphNodeState.READY else tk_state t)"
  by (simp add: release_succ_def Let_def)

lemma release_degree: "tk_in_degree (release_succ t) = tk_in_degree t - 1"
  by (simp add: release_succ_def Let_def)

text \<open>The state after a task that succeeded, and after one that failed.\<close>

definition completed_tracker ::
    "'n ExecutionGraph \<Rightarrow> rat \<Rightarrow> u64 \<Rightarrow> (u64 \<Rightarrow> NodeStateTracker) \<Rightarrow> (u64 \<Rightarrow> NodeStateTracker)" where
  "completed_tracker g now k t = (let
     t1 = t(k := (t k)\<lparr>tk_end_ms := now, tk_state := GraphNodeState.COMPLETED\<rparr>)
   in (\<lambda>j. if j \<in> set (getSuccessors g k) then release_succ (t1 j) else t1 j))"

definition failed_tracker ::
    "'n ExecutionGraph \<Rightarrow> rat \<Rightarrow> string \<Rightarrow> u64 \<Rightarrow> (u64 \<Rightarrow> NodeStateTracker) \<Rightarrow> (u64 \<Rightarrow> NodeStateTracker)" where
  "failed_tracker g now m k t = block_loop g m (getSuccessors g k)
     (t(k := (t k)\<lparr>tk_end_ms := now, tk_state := GraphNodeState.FAILED, tk_fail_reason := m\<rparr>))"

definition task_gone :: "'c IExecutionNode ExecutionGraph \<Rightarrow> u64 \<Rightarrow> SchedState \<Rightarrow> SchedState" where
  "task_gone g k s = s\<lparr>ss_active_resources := (ss_active_resources s)
      (resource_of g k := ss_active_resources s (resource_of g k) - 1),
    ss_active_tasks := removeAll k (ss_active_tasks s)\<rparr>"

lemma task_gone_simps [simp]:
  "ss_tracker (task_gone g k s) = ss_tracker s"
  "ss_overall_success (task_gone g k s) = ss_overall_success s"
  "ss_polls (task_gone g k s) = ss_polls s"
  "ss_active_tasks (task_gone g k s) = removeAll k (ss_active_tasks s)"
  by (simp_all add: task_gone_def)

lemma finish_success_eq:
  assumes "getNode g k = Some node" "nr_success r" "distinct (getSuccessors g k)"
  shows "finish_one g now r k s =
    (task_gone g k s)\<lparr>ss_tracker := completed_tracker g now k (ss_tracker s)\<rparr>"
  using assms
  by (cases s) (simp add: finish_one_def Let_def fold_release resource_of_def set_tracker_def
      completed_tracker_def task_gone_def cong: if_cong)

lemma finish_failure_eq:
  assumes "getNode g k = Some node" "\<not> nr_success r"
  shows "finish_one g now r k s = (task_gone g k s)
    \<lparr>ss_tracker := failed_tracker g now (nr_error_message r) k (ss_tracker s), ss_overall_success := False\<rparr>"
  using assms
  by (cases s) (simp add: finish_one_def Let_def resource_of_def set_tracker_def
      failed_tracker_def task_gone_def failDependentNodes_def)

lemma inv_finish_success:
  assumes g: "graph_ok g" and inv: "sched_inv g s" and k: "k \<in> set (ss_active_tasks s)" and r: "nr_success r"
  shows "sched_inv g (finish_one g now r k s)"
proof -
  have kn: "k \<in> node_ids g" "node_state s k = GraphNodeState.RUNNING"
    using inv k by (simp_all add: sched_inv_def tasks_ok_def)
  obtain node where node: "getNode g k = Some node" using kn(1) by (auto simp: node_ids_iff)
  define t where "t = ss_tracker s"
  define t1 where "t1 = t(k := (t k)\<lparr>tk_end_ms := now, tk_state := GraphNodeState.COMPLETED\<rparr>)"
  define S where "S = set (getSuccessors g k)"
  define t' where "t' = (\<lambda>j. if j \<in> S then release_succ (t1 j) else t1 j)"
  have dist: "distinct (getSuccessors g k)" using g by (simp add: graph_ok_def)
  let ?s = "(task_gone g k s)\<lparr>ss_tracker := t'\<rparr>"
  have eq: "finish_one g now r k s = ?s"
    unfolding finish_success_eq [OF node r dist] completed_tracker_def
    by (simp add: t'_def t1_def t_def S_def Let_def cong: if_cong)
  have ord: "order_ok g t" and deg: "degrees_ok g t" using inv by (simp_all add: sched_inv_def t_def)
  have "open_preds g t k = {}" using ord kn by (simp add: order_ok_def started_def t_def)
  then have kS: "k \<notin> S"
    using graph_succs(3) [OF g, of k k] kn(2) by (auto simp: S_def open_preds_def t_def)
  have st: "tk_state (t' j) = (if j = k then GraphNodeState.COMPLETED
      else if j \<in> S \<and> tk_in_degree (t j) = 1 \<and> tk_state (t j) = GraphNodeState.CREATED
      then GraphNodeState.READY else tk_state (t j))" for j
    using kS by (simp add: t'_def t1_def release_state)
  have compl: "tk_state (t' j) = GraphNodeState.COMPLETED \<longleftrightarrow> j = k \<or> tk_state (t j) = GraphNodeState.COMPLETED" for j
    by (simp add: st)
  have op: "open_preds g t' j = open_preds g t j - {k}" for j
    unfolding open_preds_def compl by auto
  have kop: "k \<in> open_preds g t j \<longleftrightarrow> j \<in> S" for j
    using graph_preds(3) [OF g, of k j] graph_succs(3) [OF g, of j k] kn(2)
    by (auto simp: open_preds_def S_def t_def)
  have fin: "finite (open_preds g t j)" for j by (simp add: open_preds_def)
  have dg: "tk_in_degree (t' j) = (if j \<in> S then tk_in_degree (t j) - 1 else tk_in_degree (t j))" for j
    using kS by (simp add: t'_def t1_def release_degree)
  have d': "tk_in_degree (t' j) = int (card (open_preds g t' j))" if "j \<in> node_ids g" for j
  proof -
    have d: "tk_in_degree (t j) = int (card (open_preds g t j))" using deg that by (simp add: degrees_ok_def)
    show ?thesis
    proof (cases "j \<in> S")
      case True
      then have "card (open_preds g t j) = Suc (card (open_preds g t j - {k}))"
        using card.remove [OF fin, of k j] kop by simp
      with d True show ?thesis by (simp add: op dg)
    next
      case False
      with d kop [of j] show ?thesis by (simp add: op dg)
    qed
  qed
  have "order_ok g t'"
    unfolding order_ok_def
  proof (intro ballI)
    fix j assume j: "j \<in> node_ids g"
    have o: "tk_state (t j) \<noteq> GraphNodeState.SKIPPED"
      "started (tk_state (t j)) \<longrightarrow> open_preds g t j = {}"
      "tk_state (t j) = GraphNodeState.CREATED \<longrightarrow> open_preds g t j \<noteq> {} \<and>
        (\<forall>p\<in>set (getPredecessors g j). \<not> broken (tk_state (t p)) \<and> tk_state (t p) \<noteq> GraphNodeState.CANCELLED)"
      "tk_state (t j) = GraphNodeState.BLOCKED \<longrightarrow> (\<exists>p\<in>set (getPredecessors g j). broken (tk_state (t p)))"
      using ord j by (simp_all add: order_ok_def)
    have br: "broken (tk_state (t' p)) = broken (tk_state (t p))" for p
      using kn(2) by (auto simp: st broken_def t_def)
    have ca: "(tk_state (t' p) = GraphNodeState.CANCELLED) = (tk_state (t p) = GraphNodeState.CANCELLED)" for p
      using kn(2) by (auto simp: st t_def)
    have ready: "open_preds g t' j = {}"
      if "j \<noteq> k" "j \<in> S" "tk_in_degree (t j) = 1" "tk_state (t j) = GraphNodeState.CREATED"
    proof -
      have "tk_in_degree (t' j) = 0" using that by (simp add: dg)
      with d' [OF j] fin [of j] op [of j] show ?thesis by simp
    qed
    have still: "open_preds g t' j \<noteq> {}"
      if "j \<noteq> k" "\<not> (j \<in> S \<and> tk_in_degree (t j) = 1)" "tk_state (t j) = GraphNodeState.CREATED"
    proof (cases "j \<in> S")
      case True
      then have "tk_in_degree (t' j) \<noteq> 0" using that by (simp add: dg)
      with d' [OF j] show ?thesis by auto
    next
      case False
      with kop [of j] o(3) that(3) show ?thesis unfolding op by auto
    qed
    show "tk_state (t' j) \<noteq> GraphNodeState.SKIPPED \<and>
       (started (tk_state (t' j)) \<longrightarrow> open_preds g t' j = {}) \<and>
       (tk_state (t' j) = GraphNodeState.CREATED \<longrightarrow> open_preds g t' j \<noteq> {} \<and>
        (\<forall>p\<in>set (getPredecessors g j). \<not> broken (tk_state (t' p)) \<and>
           tk_state (t' p) \<noteq> GraphNodeState.CANCELLED)) \<and>
       (tk_state (t' j) = GraphNodeState.BLOCKED \<longrightarrow>
        (\<exists>p\<in>set (getPredecessors g j). broken (tk_state (t' p))))"
      unfolding br ca
    proof (intro conjI impI)
      show "tk_state (t' j) \<noteq> GraphNodeState.SKIPPED" using o(1) by (simp add: st)
      show "open_preds g t' j = {}" if "started (tk_state (t' j))"
      proof (cases "j = k \<or> started (tk_state (t j))")
        case True
        then have "open_preds g t j = {}" using o(2) kn(2) by (auto simp: started_def t_def)
        then show ?thesis unfolding op by simp
      next
        case False
        with that ready show ?thesis by (auto simp: st split: if_splits)
      qed
      assume "tk_state (t' j) = GraphNodeState.CREATED"
      then have c: "j \<noteq> k" "\<not> (j \<in> S \<and> tk_in_degree (t j) = 1)" "tk_state (t j) = GraphNodeState.CREATED"
        by (auto simp: st split: if_splits)
      from still [OF c] show "open_preds g t' j \<noteq> {}" .
      from o(3) c(3) show "\<forall>p\<in>set (getPredecessors g j). \<not> broken (tk_state (t p)) \<and>
          tk_state (t p) \<noteq> GraphNodeState.CANCELLED" by simp
    next
      assume "tk_state (t' j) = GraphNodeState.BLOCKED"
      then have "tk_state (t j) = GraphNodeState.BLOCKED" by (simp add: st split: if_splits)
      with o(4) show "\<exists>p\<in>set (getPredecessors g j). broken (tk_state (t p))" by simp
    qed
  qed
  moreover have "tasks_ok g ?s"
  proof (rule tasks_ok_finish [where s = s and k = k and t' = t'])
    show "(tk_state (t' j) = GraphNodeState.RUNNING) = (j \<noteq> k \<and> node_state s j = GraphNodeState.RUNNING)" for j
      by (simp add: st t_def)
  qed (use inv k in \<open>simp_all add: sched_inv_def task_gone_def\<close>)
  moreover have "verdict_ok g ?s"
    using inv kn(2) by (auto simp: sched_inv_def verdict_ok_def st broken_def t_def)
  moreover have "degrees_ok g t'" using d' by (simp add: degrees_ok_def)
  ultimately show ?thesis unfolding eq by (simp add: sched_inv_def)
qed

text \<open>A task that failed: everything that waits for it is blocked.\<close>

lemma inv_finish_failure:
  assumes g: "graph_ok g" and inv: "sched_inv g s" and k: "k \<in> set (ss_active_tasks s)" and r: "\<not> nr_success r"
  shows "sched_inv g (finish_one g now r k s)"
proof -
  have kn: "k \<in> node_ids g" "node_state s k = GraphNodeState.RUNNING"
    using inv k by (simp_all add: sched_inv_def tasks_ok_def)
  obtain node where node: "getNode g k = Some node" using kn(1) by (auto simp: node_ids_iff)
  let ?m = "nr_error_message r"
  define t where "t = ss_tracker s"
  define t1 where "t1 = t(k := (t k)\<lparr>tk_end_ms := now, tk_state := GraphNodeState.FAILED, tk_fail_reason := ?m\<rparr>)"
  define t' where "t' = block_loop g ?m (getSuccessors g k) t1"
  let ?s = "(task_gone g k s)\<lparr>ss_tracker := t', ss_overall_success := False\<rparr>"
  have eq: "finish_one g now r k s = ?s"
    unfolding finish_failure_eq [OF node r] failed_tracker_def by (simp add: t'_def t1_def t_def)
  have ord: "order_ok g t" and deg: "degrees_ok g t" using inv by (simp_all add: sched_inv_def t_def)
  have st1: "tk_state (t1 j) = (if j = k then GraphNodeState.FAILED else tk_state (t j))" for j
    by (simp add: t1_def)
  have exp: "y \<in> set (getSuccessors g k)" if "exposed g t1 y" "pending (tk_state (t1 y))" for y
  proof (rule ccontr)
    assume no: "y \<notin> set (getSuccessors g k)"
    from that(1) obtain x where x: "y \<in> set (getSuccessors g x)" "broken (tk_state (t1 x))"
      by (auto simp: exposed_def)
    with no have b: "broken (tk_state (t x))" by (auto simp: st1 split: if_splits)
    have y: "y \<in> node_ids g" "x \<in> set (getPredecessors g y)" using graph_succs [OF g x(1)] by simp_all
    have "pending (tk_state (t y))" using that(2) kn(2) by (auto simp: st1 pending_def split: if_splits)
    then consider "tk_state (t y) = GraphNodeState.CREATED" | "tk_state (t y) = GraphNodeState.READY"
      by (auto simp: pending_def)
    then show False
    proof cases
      case 1
      with ord y have "\<not> broken (tk_state (t x))" by (simp add: order_ok_def)
      with b show False by simp
    next
      case 2
      then have "open_preds g t y = {}" using ord y(1) by (simp add: order_ok_def started_def)
      with y(2) have "tk_state (t x) = GraphNodeState.COMPLETED" by (auto simp: open_preds_def)
      with b show False by (simp add: broken_def)
    qed
  qed
  have exq: "exposed g t1 y" if "y \<in> set (getSuccessors g k)" for y
    using that by (auto simp: exposed_def st1 broken_def intro!: exI [of _ k])
  note post = block_loop_post [of g t1 "getSuccessors g k" ?m, OF exp exq, folded t'_def]
  have cases': "t' j = t1 j \<or> pending (tk_state (t1 j)) \<and> t' j = block_node ?m (t1 j) \<and> exposed g t' j" for j
    using post by blast
  have nopend: "exposed g t' y \<Longrightarrow> \<not> pending (tk_state (t' y))" for y using post by blast
  have st: "tk_state (t' j) = tk_state (t1 j) \<or> pending (tk_state (t1 j)) \<and>
      tk_state (t' j) = GraphNodeState.BLOCKED \<and> exposed g t' j" for j
    using cases' [of j] by (auto simp: block_node_def)
  have compl: "tk_state (t' j) = GraphNodeState.COMPLETED \<longleftrightarrow> tk_state (t j) = GraphNodeState.COMPLETED" for j
    using st [of j] kn(2) by (auto simp: st1 pending_def t_def split: if_splits)
  have op: "open_preds g t' = open_preds g t" by (rule open_preds_same) (rule compl)
  have dg: "tk_in_degree (t' j) = tk_in_degree (t j)" for j
    using cases' [of j] by (auto simp: t1_def block_node_def)
  have exposed_pred: "\<exists>p\<in>set (getPredecessors g j). broken (tk_state (t' p))" if "exposed g t' j" for j
    using that graph_succs(3) [OF g] by (auto simp: exposed_def)
  have kpre: "open_preds g t k = {}" using ord kn by (simp add: order_ok_def started_def t_def)
  have brk: "broken (tk_state (t' p))" if "broken (tk_state (t p))" for p
    using that st [of p] by (auto simp: st1 broken_def split: if_splits)
  have "order_ok g t'"
    unfolding order_ok_def op
  proof (intro ballI)
    fix j assume j: "j \<in> node_ids g"
    have o: "tk_state (t j) \<noteq> GraphNodeState.SKIPPED"
      "started (tk_state (t j)) \<longrightarrow> open_preds g t j = {}"
      "tk_state (t j) = GraphNodeState.CREATED \<longrightarrow> open_preds g t j \<noteq> {} \<and>
        (\<forall>p\<in>set (getPredecessors g j). \<not> broken (tk_state (t p)) \<and> tk_state (t p) \<noteq> GraphNodeState.CANCELLED)"
      "tk_state (t j) = GraphNodeState.BLOCKED \<longrightarrow> (\<exists>p\<in>set (getPredecessors g j). broken (tk_state (t p)))"
      using ord j by (simp_all add: order_ok_def)
    show "tk_state (t' j) \<noteq> GraphNodeState.SKIPPED \<and>
       (started (tk_state (t' j)) \<longrightarrow> open_preds g t j = {}) \<and>
       (tk_state (t' j) = GraphNodeState.CREATED \<longrightarrow> open_preds g t j \<noteq> {} \<and>
        (\<forall>p\<in>set (getPredecessors g j). \<not> broken (tk_state (t' p)) \<and>
           tk_state (t' p) \<noteq> GraphNodeState.CANCELLED)) \<and>
       (tk_state (t' j) = GraphNodeState.BLOCKED \<longrightarrow>
        (\<exists>p\<in>set (getPredecessors g j). broken (tk_state (t' p))))"
    proof (intro conjI impI ballI)
      show "tk_state (t' j) \<noteq> GraphNodeState.SKIPPED" using o(1) st [of j] by (auto simp: st1 split: if_splits)
      show "open_preds g t j = {}" if "started (tk_state (t' j))"
        using that o(2) st [of j] kpre by (auto simp: st1 started_def split: if_splits)
      assume c: "tk_state (t' j) = GraphNodeState.CREATED"
      then have c0: "tk_state (t j) = GraphNodeState.CREATED" using st [of j] by (auto simp: st1 split: if_splits)
      then show "open_preds g t j \<noteq> {}" using o(3) by simp
      fix p assume p: "p \<in> set (getPredecessors g j)"
      have "\<not> exposed g t' j" using nopend [of j] c by (auto simp: pending_def)
      then show "\<not> broken (tk_state (t' p))"
        using graph_preds(3) [OF g p] by (auto simp: exposed_def)
      show "tk_state (t' p) \<noteq> GraphNodeState.CANCELLED"
        using o(3) c0 p st [of p] by (auto simp: st1 split: if_splits)
    next
      assume b: "tk_state (t' j) = GraphNodeState.BLOCKED"
      show "\<exists>p\<in>set (getPredecessors g j). broken (tk_state (t' p))"
      proof (cases "tk_state (t j) = GraphNodeState.BLOCKED")
        case True
        with o(4) brk show ?thesis by blast
      next
        case False
        with b st [of j] have "exposed g t' j" by (auto simp: st1 split: if_splits)
        then show ?thesis by (rule exposed_pred)
      qed
    qed
  qed
  moreover have "tasks_ok g ?s"
  proof (rule tasks_ok_finish [where s = s and k = k and t' = t'])
    show "(tk_state (t' j) = GraphNodeState.RUNNING) = (j \<noteq> k \<and> node_state s j = GraphNodeState.RUNNING)" for j
      using st [of j] by (auto simp: st1 pending_def t_def split: if_splits)
  qed (use inv k in \<open>simp_all add: sched_inv_def task_gone_def\<close>)
  moreover have "degrees_ok g t'" using deg unfolding degrees_ok_def op dg .
  ultimately show ?thesis unfolding eq by (simp add: sched_inv_def verdict_ok_def)
qed

lemma inv_finish_one:
  "\<lbrakk>graph_ok g; sched_inv g s; k \<in> set (ss_active_tasks s)\<rbrakk> \<Longrightarrow> sched_inv g (finish_one g now r k s)"
  using inv_finish_success inv_finish_failure by blast

end
