(* ===== verification/SchedulerRuns.thy ===== *)
theory SchedulerRuns
  imports SchedulerInvariant
begin

text \<open>
  Runs of the graph scheduler: the states its loop goes through, as a step relation over the
  scheduler's operations; that the loop ends, within two rounds more than there are nodes; and
  what the result says about the nodes.
\<close>

section \<open>Reachable states\<close>

inductive sched_reach ::
    "'c IExecutionNode ExecutionGraph \<Rightarrow> nat option \<Rightarrow> SchedState \<Rightarrow> bool"
  for g :: "'c IExecutionNode ExecutionGraph" and cancel :: "nat option" where
  start: "sched_reach g cancel (sched_init g)"
| cancelled: "sched_reach g cancel s \<Longrightarrow> sched_reach g cancel (check_cancel g cancel s)"
| dispatched: "sched_reach g cancel s \<Longrightarrow> sched_reach g cancel (dispatch_one g cancel now k s)"
| finished: "sched_reach g cancel s \<Longrightarrow> k \<in> set (ss_active_tasks s) \<Longrightarrow>
    sched_reach g cancel (finish_one g now r k s)"

lemma reach_inv: "sched_reach g cancel s \<Longrightarrow> graph_ok g \<Longrightarrow> sched_inv g s"
  by (induction rule: sched_reach.induct)
    (auto intro: sched_inv_init inv_check_cancel inv_dispatch_one inv_finish_one)

lemma reach_dispatch_fold:
  "sched_reach g cancel s \<Longrightarrow>
   sched_reach g cancel (fold (\<lambda>k. dispatch_one g cancel (now k) k) ks s)"
  by (induction ks arbitrary: s) (auto intro: sched_reach.dispatched)

lemma finish_active:
  assumes "graph_ok g" "sched_inv g s" "k \<in> set (ss_active_tasks s)"
  shows "ss_active_tasks (finish_one g now r k s) = removeAll k (ss_active_tasks s)"
proof -
  have "k \<in> node_ids g" using assms by (simp add: sched_inv_def tasks_ok_def)
  then obtain node where n: "getNode g k = Some node" by (auto simp: node_ids_iff)
  have d: "distinct (getSuccessors g k)" using assms by (simp add: graph_ok_def)
  show ?thesis
    using finish_success_eq [OF n _ d] finish_failure_eq [OF n] by (cases "nr_success r") (simp_all add: task_gone_def)
qed

lemma finish_fold:
  assumes g: "graph_ok g"
  shows "\<lbrakk>sched_reach g cancel s; distinct ks; set ks \<subseteq> set (ss_active_tasks s)\<rbrakk> \<Longrightarrow>
    sched_reach g cancel (fold (\<lambda>k. finish_one g (now k) (r k) k) ks s) \<and>
    set (ss_active_tasks (fold (\<lambda>k. finish_one g (now k) (r k) k) ks s)) = set (ss_active_tasks s) - set ks"
proof (induction ks arbitrary: s)
  case (Cons k ks)
  let ?s = "finish_one g (now k) (r k) k s"
  have k: "k \<in> set (ss_active_tasks s)" using Cons.prems by simp
  have act: "ss_active_tasks ?s = removeAll k (ss_active_tasks s)"
    by (rule finish_active [OF g reach_inv [OF Cons.prems(1) g] k])
  have "sched_reach g cancel ?s" by (rule sched_reach.finished [OF Cons.prems(1) k])
  moreover have "set ks \<subseteq> set (ss_active_tasks ?s)" using Cons.prems act by auto
  ultimately have "sched_reach g cancel (fold (\<lambda>k. finish_one g (now k) (r k) k) ks ?s) \<and>
    set (ss_active_tasks (fold (\<lambda>k. finish_one g (now k) (r k) k) ks ?s)) = set (ss_active_tasks ?s) - set ks"
    using Cons.prems(2) by (intro Cons.IH) simp_all
  then show ?case unfolding act by auto
qed simp

lemma ready_tasks_props:
  "distinct xs \<Longrightarrow> distinct (ready_tasks ri xs)" "set (ready_tasks ri xs) \<subseteq> set xs"
  "xs \<noteq> [] \<Longrightarrow> ready_tasks ri xs \<noteq> []"
proof -
  show "distinct xs \<Longrightarrow> distinct (ready_tasks ri xs)" by (simp add: ready_tasks_def)
  show "set (ready_tasks ri xs) \<subseteq> set xs" by (auto simp: ready_tasks_def)
  assume "xs \<noteq> []"
  then have "xs ! (ri_first ri mod length xs) \<in> set (ready_tasks ri xs)"
    by (simp add: ready_tasks_def)
  then show "ready_tasks ri xs \<noteq> []" by auto
qed

definition after_dispatch ::
    "'c IExecutionNode ExecutionGraph \<Rightarrow> nat option \<Rightarrow> RoundIn \<Rightarrow> SchedState \<Rightarrow> SchedState" where
  "after_dispatch g cancel ri s = dispatch_all g cancel (ri_start ri) (check_cancel g cancel s)"

lemma sched_round_eq:
  "sched_round g cancel ri s = (let s1 = after_dispatch g cancel ri s; s2 = finish_all g ri s1 in
     (ss_active_tasks s1 \<noteq> [] \<or> (\<exists>k\<in>node_ids g. node_state s2 k = GraphNodeState.READY \<or>
        node_state s2 k = GraphNodeState.RUNNING), s2))"
  by (auto simp: sched_round_def after_dispatch_def Let_def list_ex_iff)

lemma reach_after_dispatch:
  "sched_reach g cancel s \<Longrightarrow> sched_reach g cancel (after_dispatch g cancel ri s)"
  unfolding after_dispatch_def dispatch_all_def
  by (intro reach_dispatch_fold sched_reach.cancelled)

lemma reach_finish_all:
  assumes g: "graph_ok g" and s: "sched_reach g cancel s"
  shows "sched_reach g cancel (finish_all g ri s)"
    "set (ss_active_tasks (finish_all g ri s)) =
      set (ss_active_tasks s) - set (ready_tasks ri (ss_active_tasks s))"
proof -
  have "distinct (ss_active_tasks s)" using reach_inv [OF s g] by (simp add: sched_inv_def tasks_ok_def)
  then have "distinct (ready_tasks ri (ss_active_tasks s))" by (rule ready_tasks_props)
  from finish_fold [OF g s this ready_tasks_props(2), of "ri_end ri" "ri_result ri"]
  show "sched_reach g cancel (finish_all g ri s)"
    "set (ss_active_tasks (finish_all g ri s)) =
      set (ss_active_tasks s) - set (ready_tasks ri (ss_active_tasks s))"
    by (simp_all add: finish_all_def)
qed

lemma reach_round:
  "graph_ok g \<Longrightarrow> sched_reach g cancel s \<Longrightarrow> sched_round g cancel ri s = (b, s') \<Longrightarrow> sched_reach g cancel s'"
  using reach_finish_all(1) [OF _ reach_after_dispatch, of g cancel s ri ri] by (auto simp: sched_round_eq Let_def)

lemma reach_loop:
  "\<lbrakk>graph_ok g; sched_reach g cancel s; sched_loop g cancel ris s = Some s'\<rbrakk> \<Longrightarrow> sched_reach g cancel s'"
  by (induction ris arbitrary: s) (auto split: prod.splits if_splits dest: reach_round)

section \<open>The loop ends\<close>

definition live :: "GraphNodeState \<Rightarrow> bool" where
  "live st \<longleftrightarrow> st = GraphNodeState.CREATED \<or> st = GraphNodeState.READY \<or> st = GraphNodeState.RUNNING"

definition live_nodes :: "'c IExecutionNode ExecutionGraph \<Rightarrow> SchedState \<Rightarrow> u64 set" where
  "live_nodes g s = {k \<in> node_ids g. live (node_state s k)}"

lemma finite_live [simp]: "finite (live_nodes g s)"
  by (simp add: live_nodes_def)

lemma live_check_cancel: "live_nodes g (check_cancel g cancel s) \<subseteq> live_nodes g s"
  by (auto simp: live_nodes_def check_cancel_def count_poll_def live_def)

lemma live_dispatch_one: "live_nodes g (dispatch_one g cancel now k s) \<subseteq> live_nodes g s"
  by (auto simp: live_nodes_def dispatch_one_def count_poll_def set_tracker_def live_def Let_def
      split: option.splits if_splits)

lemma live_dispatch_fold:
  "live_nodes g (fold (\<lambda>k. dispatch_one g cancel (now k) k) ks s) \<subseteq> live_nodes g s"
  by (induction ks arbitrary: s) (auto dest: subsetD [OF live_dispatch_one])

lemma live_after_dispatch: "live_nodes g (after_dispatch g cancel ri s) \<subseteq> live_nodes g s"
  unfolding after_dispatch_def dispatch_all_def
  using live_dispatch_fold live_check_cancel by (rule subset_trans)

lemma block_node_state: "tk_state (block_node m t) = GraphNodeState.BLOCKED"
  by (simp add: block_node_def)

lemma block_loop_states:
  "tk_state (block_loop g m q t j) = tk_state (t j) \<or>
   tk_state (block_loop g m q t j) = GraphNodeState.BLOCKED"
proof (induction g m q t rule: block_loop.induct)
  case (2 g m c q t)
  show ?case
  proof (cases "pending (tk_state (t c))")
    case True
    from "2.IH"(1) [OF True] True show ?thesis 
      by (cases "c = j") (simp_all add: block_node_state fun_upd_same fun_upd_other del: fun_upd_apply)
  next
    case False
    from "2.IH"(2) [OF False] False show ?thesis by simp
  qed
qed simp

lemma block_loop_frame: "\<not> pending (tk_state (t j)) \<Longrightarrow> block_loop g m q t j = t j"
proof (induction g m q t rule: block_loop.induct)
  case (2 g m c q t)
  show ?case
  proof (cases "pending (tk_state (t c))")
    case True
    with "2.prems" have "j \<noteq> c" by auto
    with "2.IH"(1) [OF True] "2.prems" True show ?thesis by (simp del: fun_upd_apply add: fun_upd_other)
  next
    case False
    with "2.IH"(2) "2.prems" show ?thesis by simp
  qed
qed simp

lemma live_finish_one:
  assumes g: "graph_ok g" and inv: "sched_inv g s" and k: "k \<in> set (ss_active_tasks s)"
  shows "live_nodes g (finish_one g now r k s) \<subseteq> live_nodes g s - {k}"
proof -
  have kn: "k \<in> node_ids g" "node_state s k = GraphNodeState.RUNNING"
    using inv k by (simp_all add: sched_inv_def tasks_ok_def)
  then obtain node where n: "getNode g k = Some node" by (auto simp: node_ids_iff)
  have d: "distinct (getSuccessors g k)" using g by (simp add: graph_ok_def)
  show ?thesis
  proof (cases "nr_success r")
    case True
    then show ?thesis
      unfolding finish_success_eq [OF n True d]
      by (auto simp: live_nodes_def completed_tracker_def Let_def release_state live_def split: if_splits)
  next
    case False
    let ?t = "(ss_tracker s)(k := (ss_tracker s k)
      \<lparr>tk_end_ms := now, tk_state := GraphNodeState.FAILED, tk_fail_reason := nr_error_message r\<rparr>)"
    have "tk_state (block_loop g (nr_error_message r) (getSuccessors g k) ?t k) = GraphNodeState.FAILED"
      by (subst block_loop_frame) (simp_all add: pending_def)
    moreover have "live (tk_state (block_loop g (nr_error_message r) (getSuccessors g k) ?t j)) \<Longrightarrow>
        live (node_state s j)" for j
      using block_loop_states [of g "nr_error_message r" "getSuccessors g k" ?t j]
      by (auto simp: live_def split: if_splits)
    ultimately show ?thesis
      unfolding finish_failure_eq [OF n False] by (auto simp: live_nodes_def failed_tracker_def live_def)
  qed
qed

lemma live_finish_fold:
  assumes g: "graph_ok g"
  shows "\<lbrakk>sched_reach g cancel s; distinct ks; set ks \<subseteq> set (ss_active_tasks s)\<rbrakk> \<Longrightarrow>
    live_nodes g (fold (\<lambda>k. finish_one g (now k) (r k) k) ks s) \<subseteq> live_nodes g s - set ks"
proof (induction ks arbitrary: s)
  case (Cons k ks)
  let ?s = "finish_one g (now k) (r k) k s"
  have k: "k \<in> set (ss_active_tasks s)" using Cons.prems by simp
  have inv: "sched_inv g s" by (rule reach_inv [OF Cons.prems(1) g])
  have "set ks \<subseteq> set (ss_active_tasks ?s)" using Cons.prems finish_active [OF g inv k] by auto
  then have "live_nodes g (fold (\<lambda>k. finish_one g (now k) (r k) k) ks ?s) \<subseteq> live_nodes g ?s - set ks"
    using Cons.prems sched_reach.finished [OF Cons.prems(1) k] by (intro Cons.IH) simp_all
  then show ?case using live_finish_one [OF g inv k, of "now k" "r k"] by auto
qed simp

lemma live_finish_all:
  assumes g: "graph_ok g" and s: "sched_reach g cancel s"
  shows "live_nodes g (finish_all g ri s) \<subseteq> live_nodes g s - set (ready_tasks ri (ss_active_tasks s))"
proof -
  have "distinct (ss_active_tasks s)" using reach_inv [OF s g] by (simp add: sched_inv_def tasks_ok_def)
  then have "distinct (ready_tasks ri (ss_active_tasks s))" by (rule ready_tasks_props)
  from live_finish_fold [OF g s this ready_tasks_props(2), of "ri_end ri" "ri_result ri"]
  show ?thesis by (simp add: finish_all_def)
qed

text \<open>Once set, the cancel flag stays set; a READY node left alone by a dispatch pass that
  started nothing means that the flag was seen.\<close>

lemma polls_mono:
  "ss_polls s \<le> ss_polls (dispatch_one g cancel now k s)"
  by (auto simp: dispatch_one_def count_poll_def set_tracker_def Let_def split: option.splits)

lemma isCancelled_mono:
  "isCancelled cancel s \<Longrightarrow> ss_polls s \<le> ss_polls s' \<Longrightarrow> isCancelled cancel s'"
  by (auto simp: isCancelled_def split: option.splits)

lemma dispatch_idle:
  assumes "graph_ok g" "sched_inv g s" "ss_active_tasks (dispatch_one g cancel now k s) = []"
    "k \<in> node_ids g" "node_state s k = GraphNodeState.READY"
  shows "isCancelled cancel s"
proof (rule ccontr)
  assume nc: "\<not> isCancelled cancel s"
  obtain node where n: "getNode g k = Some node" using assms(4) by (auto simp: node_ids_iff)
  have "ss_active_tasks s = []"
    using assms(3,5) n nc by (auto simp: dispatch_one_def Let_def count_poll_def set_tracker_def split: if_splits)
  then have "ss_active_resources s r = 0" for r using assms(2) by (simp add: sched_inv_def tasks_ok_def)
  then have "checkResourceAvailable (en_resource node) (ss_active_resources s)"
    by (simp add: checkResourceAvailable_def)
  with assms(3,5) n nc show False
    by (simp add: dispatch_one_def Let_def count_poll_def set_tracker_def)
qed

lemma dispatch_active_mono: "set (ss_active_tasks s) \<subseteq> set (ss_active_tasks (dispatch_one g cancel now k s))"
  by (auto simp: dispatch_one_def Let_def count_poll_def set_tracker_def set_insort_key split: option.splits)

lemma dispatch_fold_active_mono:
  "set (ss_active_tasks s) \<subseteq> set (ss_active_tasks (fold (\<lambda>k. dispatch_one g cancel (now k) k) ks s))"
  by (induction ks arbitrary: s) (auto dest: subsetD [OF dispatch_active_mono])

lemma dispatch_fold_polls_mono:
  "ss_polls s \<le> ss_polls (fold (\<lambda>k. dispatch_one g cancel (now k) k) ks s)"
proof (induction ks arbitrary: s)
  case (Cons k ks)
  show ?case using polls_mono [of s g cancel "now k" k] Cons [of "dispatch_one g cancel (now k) k s"] by simp
qed simp

lemma dispatch_keeps_ready:
  "node_state (dispatch_one g cancel now k s) j = GraphNodeState.READY \<Longrightarrow> node_state s j = GraphNodeState.READY"
  by (auto simp: dispatch_one_def Let_def count_poll_def set_tracker_def split: option.splits if_splits)

lemma dispatch_fold_keeps_ready:
  "node_state (fold (\<lambda>k. dispatch_one g cancel (now k) k) ks s) j = GraphNodeState.READY \<Longrightarrow>
   node_state s j = GraphNodeState.READY"
  by (induction ks arbitrary: s) (auto dest: dispatch_keeps_ready)

lemma dispatch_fold_idle:
  assumes g: "graph_ok g"
  shows "\<lbrakk>sched_reach g cancel s; ss_active_tasks (fold (\<lambda>k. dispatch_one g cancel (now k) k) ks s) = [];
     j \<in> set ks; j \<in> node_ids g;
     node_state (fold (\<lambda>k. dispatch_one g cancel (now k) k) ks s) j = GraphNodeState.READY\<rbrakk> \<Longrightarrow>
   isCancelled cancel (fold (\<lambda>k. dispatch_one g cancel (now k) k) ks s)"
proof (induction ks arbitrary: s)
  case (Cons k ks)
  let ?s = "dispatch_one g cancel (now k) k s"
  have r: "sched_reach g cancel ?s" by (rule sched_reach.dispatched [OF Cons.prems(1)])
  show ?case
  proof (cases "j = k")
    case True
    have "ss_active_tasks ?s = []"
      using dispatch_fold_active_mono [of ?s g cancel now ks] Cons.prems(2) by simp
    moreover have "node_state ?s j = GraphNodeState.READY"
      using dispatch_fold_keeps_ready [of g cancel now ks ?s j] Cons.prems(5) by simp
    then have "node_state s k = GraphNodeState.READY" using True dispatch_keeps_ready by metis
    ultimately have "isCancelled cancel s"
      using dispatch_idle [OF g reach_inv [OF Cons.prems(1) g]] Cons.prems(4) True by blast
    then show ?thesis
      using isCancelled_mono dispatch_fold_polls_mono [of s g cancel now "k # ks"] by blast
  next
    case False
    with Cons.prems r show ?thesis by (simp add: Cons.IH)
  qed
qed simp

lemma check_cancel_idle:
  "isCancelled cancel s \<Longrightarrow> k \<in> node_ids g \<Longrightarrow> \<not> pending (node_state (check_cancel g cancel s) k)"
  by (auto simp: check_cancel_def count_poll_def pending_def)

lemma dispatch_fold_not_ready:
  "(\<And>k. k \<in> set ks \<Longrightarrow> node_state s k \<noteq> GraphNodeState.READY) \<Longrightarrow>
   fold (\<lambda>k. dispatch_one g cancel (now k) k) ks s = s"
  by (induction ks) (simp_all add: dispatch_one_def)

lemma tasks_empty_no_running:
  "sched_inv g s \<Longrightarrow> ss_active_tasks s = [] \<Longrightarrow> k \<in> node_ids g \<Longrightarrow> node_state s k \<noteq> GraphNodeState.RUNNING"
  by (auto simp: sched_inv_def tasks_ok_def)

lemma finish_all_idle: "ss_active_tasks s = [] \<Longrightarrow> finish_all g ri s = s"
  by (simp add: finish_all_def ready_tasks_def)

text \<open>A round that sees the flag with nothing running is the last one.\<close>

lemma round_cancelled:
  assumes g: "graph_ok g" and s: "sched_reach g cancel s"
    and idle: "ss_active_tasks s = []" and c: "isCancelled cancel s"
  shows "\<exists>s'. sched_round g cancel ri s = (False, s')"
proof -
  let ?s = "check_cancel g cancel s"
  have "after_dispatch g cancel ri s = ?s"
    unfolding after_dispatch_def dispatch_all_def
    using check_cancel_idle [OF c] by (intro dispatch_fold_not_ready) (auto simp: pending_def)
  moreover have "ss_active_tasks ?s = []" using idle by (simp add: check_cancel_def count_poll_def)
  moreover have "sched_inv g ?s" by (rule reach_inv [OF sched_reach.cancelled [OF s] g])
  moreover have "node_state ?s k \<noteq> GraphNodeState.READY" if "k \<in> node_ids g" for k
    using check_cancel_idle [OF c that] by (auto simp: pending_def)
  ultimately show ?thesis
    using tasks_empty_no_running by (auto simp: sched_round_eq Let_def finish_all_idle)
qed

text \<open>Any other round that asks for one more has finished a task, or has seen the flag.\<close>

lemma round_progress:
  assumes g: "graph_ok g" and s: "sched_reach g cancel s"
    and rd: "sched_round g cancel ri s = (True, s')"
  shows "card (live_nodes g s') < card (live_nodes g s) \<or> ss_active_tasks s' = [] \<and> isCancelled cancel s'"
proof -
  let ?s1 = "after_dispatch g cancel ri s"
  have s1: "sched_reach g cancel ?s1" by (rule reach_after_dispatch [OF s])
  have inv1: "sched_inv g ?s1" by (rule reach_inv [OF s1 g])
  have s': "s' = finish_all g ri ?s1" using rd by (simp add: sched_round_eq Let_def)
  show ?thesis
  proof (cases "ss_active_tasks ?s1 = []")
    case True
    then have eq: "s' = ?s1" using s' finish_all_idle by simp
    have "\<exists>k\<in>node_ids g. node_state s' k = GraphNodeState.READY \<or> node_state s' k = GraphNodeState.RUNNING"
      using rd True by (auto simp: sched_round_eq Let_def)
    then obtain k where k: "k \<in> node_ids g" "node_state ?s1 k = GraphNodeState.READY"
      using tasks_empty_no_running [OF inv1 True] eq by auto
    have "isCancelled cancel ?s1"
      using dispatch_fold_idle [OF g sched_reach.cancelled [OF s], of "ri_start ri" "getAllNodeIds g" k]
        True k by (simp add: after_dispatch_def dispatch_all_def)
    with True eq show ?thesis by simp
  next
    case False
    obtain j where j: "j \<in> set (ready_tasks ri (ss_active_tasks ?s1))"
      using ready_tasks_props(3) [OF False] by (meson list.set_sel(1))
    then have "j \<in> set (ss_active_tasks ?s1)" using ready_tasks_props(2) by blast
    then have jl: "j \<in> live_nodes g ?s1"
      using inv1 by (auto simp: sched_inv_def tasks_ok_def live_nodes_def live_def)
    have "live_nodes g s' \<subseteq> live_nodes g ?s1 - set (ready_tasks ri (ss_active_tasks ?s1))"
      unfolding s' by (rule live_finish_all [OF g s1])
    then have "live_nodes g s' \<subset> live_nodes g s"
      using j jl live_after_dispatch [of g cancel ri s] by auto
    then show ?thesis by (simp add: psubset_card_mono)
  qed
qed

lemma loop_ends:
  assumes g: "graph_ok g"
  shows "\<lbrakk>sched_reach g cancel s; length ris \<ge> card (live_nodes g s) + 2\<rbrakk> \<Longrightarrow>
    \<exists>s'. sched_loop g cancel ris s = Some s'"
proof (induction ris arbitrary: s)
  case (Cons ri ris)
  obtain b s1 where rd: "sched_round g cancel ri s = (b, s1)" by (cases "sched_round g cancel ri s")
  show ?case
  proof (cases b)
    case False
    with rd show ?thesis by simp
  next
    case True
    have s1: "sched_reach g cancel s1" by (rule reach_round [OF g Cons.prems(1) rd])
    from round_progress [OF g Cons.prems(1), of ri s1] rd True
    have "card (live_nodes g s1) < card (live_nodes g s) \<or> ss_active_tasks s1 = [] \<and> isCancelled cancel s1"
      by simp
    then show ?thesis
    proof
      assume "card (live_nodes g s1) < card (live_nodes g s)"
      then show ?thesis using Cons.IH [OF s1] Cons.prems(2) rd True by simp
    next
      assume idle: "ss_active_tasks s1 = [] \<and> isCancelled cancel s1"
      obtain ri' ris' where ris: "ris = ri' # ris'" using Cons.prems(2) by (cases ris) auto
      obtain s2 where "sched_round g cancel ri' s1 = (False, s2)"
        using round_cancelled [OF g s1] idle by blast
      then show ?thesis using rd True ris by simp
    qed
  qed
qed simp

section \<open>The states at the end\<close>

lemma loop_final:
  "sched_loop g cancel ris s = Some s' \<Longrightarrow> k \<in> node_ids g \<Longrightarrow>
   node_state s' k \<noteq> GraphNodeState.READY \<and> node_state s' k \<noteq> GraphNodeState.RUNNING"
  by (induction ris arbitrary: s) (auto simp: sched_round_eq Let_def split: if_splits)

lemma wf_edges:
  assumes g: "graph_ok g" and ac: "\<not> (\<exists>x. (x, x) \<in> (edges g)\<^sup>+)"
  shows "wf (edges g)"
proof (rule finite_acyclic_wf)
  have "edges g \<subseteq> node_ids g \<times> node_ids g" using graph_succs [OF g] by (auto simp: edges_def)
  then show "finite (edges g)" by (rule finite_subset) simp
  show "acyclic (edges g)" using ac by (simp add: acyclic_def)
qed

lemma pred_edge: "graph_ok g \<Longrightarrow> p \<in> set (getPredecessors g k) \<Longrightarrow> (p, k) \<in> edges g"
  using graph_preds(3) by simp

text \<open>No node waits for ever, and a blocked node has a failed node before it.\<close>

lemma none_waiting:
  assumes g: "graph_ok g" and wf: "wf (edges g)" and ord: "order_ok g t"
    and fin: "\<And>k. k \<in> node_ids g \<Longrightarrow>
      tk_state (t k) \<noteq> GraphNodeState.READY \<and> tk_state (t k) \<noteq> GraphNodeState.RUNNING"
  shows "k \<in> node_ids g \<Longrightarrow> tk_state (t k) \<noteq> GraphNodeState.CREATED"
  using wf
proof (induction k rule: wf_induct_rule)
  case (less k)
  show ?case
  proof
    assume c: "tk_state (t k) = GraphNodeState.CREATED"
    then obtain p where p: "p \<in> set (getPredecessors g k)" "tk_state (t p) \<noteq> GraphNodeState.COMPLETED"
      using ord less.prems by (auto simp: order_ok_def open_preds_def)
    have pn: "p \<in> node_ids g" by (rule graph_preds(1) [OF g p(1)])
    have "\<not> broken (tk_state (t p))" "tk_state (t p) \<noteq> GraphNodeState.CANCELLED"
      using ord less.prems c p(1) by (simp_all add: order_ok_def)
    moreover have "tk_state (t p) \<noteq> GraphNodeState.SKIPPED" using ord pn by (simp add: order_ok_def)
    moreover have "tk_state (t p) \<noteq> GraphNodeState.CREATED"
      by (rule less.IH [OF pred_edge [OF g p(1)] pn])
    ultimately show False using p(2) fin [OF pn] by (cases "tk_state (t p)") (auto simp: broken_def)
  qed
qed

lemma blocked_origin:
  assumes g: "graph_ok g" and wf: "wf (edges g)" and ord: "order_ok g t"
  shows "k \<in> node_ids g \<Longrightarrow> tk_state (t k) = GraphNodeState.BLOCKED \<Longrightarrow>
    \<exists>x. (x, k) \<in> (edges g)\<^sup>+ \<and> tk_state (t x) = GraphNodeState.FAILED"
  using wf
proof (induction k rule: wf_induct_rule)
  case (less k)
  obtain p where p: "p \<in> set (getPredecessors g k)" "broken (tk_state (t p))"
    using ord less.prems by (auto simp: order_ok_def)
  note e = pred_edge [OF g p(1)]
  show ?case
  proof (cases "tk_state (t p) = GraphNodeState.FAILED")
    case True
    with e show ?thesis by blast
  next
    case False
    then have b: "tk_state (t p) = GraphNodeState.BLOCKED" using p(2) by (simp add: broken_def)
    then obtain x where x: "(x, p) \<in> (edges g)\<^sup>+" "tk_state (t x) = GraphNodeState.FAILED"
      using less.IH [OF e graph_preds(1) [OF g p(1)] b] by auto
    show ?thesis
      by (rule exI [of _ x], intro conjI, rule trancl_into_trancl [OF x(1) e], rule x(2))
  qed
qed

text \<open>What lies behind an unfinished node has not started.\<close>

lemma behind_open:
  assumes g: "graph_ok g" and ord: "order_ok g t"
    and path: "(x, y) \<in> (edges g)\<^sup>+" and x: "tk_state (t x) \<noteq> GraphNodeState.COMPLETED"
  shows "\<not> started (tk_state (t y))"
  using path
proof (induction rule: trancl_induct)
  case (base y)
  then have "y \<in> node_ids g" "x \<in> open_preds g t y"
    using graph_succs [OF g, of y x] x by (auto simp: open_preds_def)
  then show ?case using ord by (auto simp: order_ok_def)
next
  case (step y z)
  then have "z \<in> node_ids g" "y \<in> open_preds g t z"
    using graph_succs [OF g, of z y] by (auto simp: open_preds_def started_def)
  then show ?case using ord by (auto simp: order_ok_def)
qed

definition given_up :: "GraphNodeState \<Rightarrow> bool" where
  "given_up st \<longleftrightarrow> st = GraphNodeState.BLOCKED \<or> st = GraphNodeState.CANCELLED"

lemma given_up_succ:
  assumes g: "graph_ok g" and ord: "order_ok g t" and e: "(x, y) \<in> edges g"
    and x: "broken (tk_state (t x)) \<or> given_up (tk_state (t x))"
  shows "given_up (tk_state (t y))"
proof -
  have y: "y \<in> node_ids g" "x \<in> set (getPredecessors g y)" using graph_succs [OF g, of y x] e by simp_all
  have "x \<in> open_preds g t y" using y(2) x by (auto simp: open_preds_def broken_def given_up_def)
  then have "\<not> started (tk_state (t y))" using ord y(1) by (auto simp: order_ok_def)
  moreover have "tk_state (t y) \<noteq> GraphNodeState.SKIPPED" using ord y(1) by (simp add: order_ok_def)
  moreover have "tk_state (t y) \<noteq> GraphNodeState.CREATED"
    using ord y x by (auto simp: order_ok_def broken_def given_up_def)
  ultimately show ?thesis by (cases "tk_state (t y)") (simp_all add: started_def given_up_def)
qed

lemma behind_failed:
  assumes g: "graph_ok g" and ord: "order_ok g t"
    and path: "(x, y) \<in> (edges g)\<^sup>+" and x: "tk_state (t x) = GraphNodeState.FAILED"
  shows "given_up (tk_state (t y))"
  using path
proof (induction rule: trancl_induct)
  case (base y)
  show ?case by (rule given_up_succ [OF g ord base]) (simp add: x broken_def)
next
  case (step y z)
  show ?case by (rule given_up_succ [OF g ord step(2)]) (simp add: step)
qed

abbreviation built :: "'c graph_op list \<Rightarrow> 'c IExecutionNode ExecutionGraph" where
  "built ops \<equiv> build_graph ops empty_graph"

lemma built_ok: "graph_ok (built ops)"
  by (intro graph_ok_build graph_ok_empty)

lemma built_wf: "validate (built ops) = Some (True, e) \<Longrightarrow> wf (edges (built ops))"
  using validate_build [of ops] by (intro wf_edges built_ok) simp

lemma safety_parts:
  assumes "sched_reach (built ops) cancel s"
  shows "\<lbrakk>k \<in> node_ids (built ops); started (node_state s k); p \<in> set (getPredecessors (built ops) k)\<rbrakk>
      \<Longrightarrow> node_state s p = GraphNodeState.COMPLETED"
    and "\<lbrakk>j \<in> node_ids (built ops); k \<in> node_ids (built ops);
        node_state s j = GraphNodeState.RUNNING; node_state s k = GraphNodeState.RUNNING;
        resource_of (built ops) j = resource_of (built ops) k;
        \<not> shared_resource (resource_of (built ops) k)\<rbrakk> \<Longrightarrow> j = k"
proof -
  let ?g = "built ops"
  note inv = reach_inv [OF assms built_ok]
  show "node_state s p = GraphNodeState.COMPLETED"
    if "k \<in> node_ids ?g" "started (node_state s k)" "p \<in> set (getPredecessors ?g k)"
    using inv that by (auto simp: sched_inv_def order_ok_def open_preds_def)
  assume j: "j \<in> node_ids ?g" "node_state s j = GraphNodeState.RUNNING"
    and k: "k \<in> node_ids ?g" "node_state s k = GraphNodeState.RUNNING"
    and res: "resource_of ?g j = resource_of ?g k" "\<not> shared_resource (resource_of ?g k)"
  let ?u = "filter (\<lambda>i. resource_of ?g i = resource_of ?g k) (ss_active_tasks s)"
  have t: "tasks_ok ?g s" using inv by (simp add: sched_inv_def)
  have "ss_active_resources s (resource_of ?g k) \<le> 1" using t res(2) unfolding tasks_ok_def by blast
  moreover have "ss_active_resources s (resource_of ?g k) = int (length ?u)" using t by (simp add: tasks_ok_def)
  ultimately have "length ?u \<le> 1" by simp
  moreover have "j \<in> set ?u" "k \<in> set ?u" using t j k res(1) by (simp_all add: tasks_ok_def)
  ultimately show "j = k" by (cases ?u; cases "tl ?u") auto
qed

lemma isolation_parts:
  assumes reach: "sched_reach (built ops) cancel s" and valid: "validate (built ops) = Some (True, e)"
    and k: "k \<in> node_ids (built ops)"
  shows "(\<exists>x. (x, k) \<in> (edges (built ops))\<^sup>+ \<and> node_state s x = GraphNodeState.FAILED) \<Longrightarrow>
      node_state s k = GraphNodeState.BLOCKED \<or> node_state s k = GraphNodeState.CANCELLED"
    and "node_state s k = GraphNodeState.BLOCKED \<Longrightarrow>
      \<exists>x. (x, k) \<in> (edges (built ops))\<^sup>+ \<and> node_state s x = GraphNodeState.FAILED"
proof -
  have ord: "order_ok (built ops) (ss_tracker s)"
    using reach_inv [OF reach built_ok] by (simp add: sched_inv_def)
  show "\<exists>x. (x, k) \<in> (edges (built ops))\<^sup>+ \<and> node_state s x = GraphNodeState.FAILED"
    if "node_state s k = GraphNodeState.BLOCKED"
    by (rule blocked_origin [OF built_ok built_wf [OF valid] ord k that])
  assume "\<exists>x. (x, k) \<in> (edges (built ops))\<^sup>+ \<and> node_state s x = GraphNodeState.FAILED"
  then obtain x where "(x, k) \<in> (edges (built ops))\<^sup>+" "node_state s x = GraphNodeState.FAILED" by blast
  then have "given_up (node_state s k)" by (rule behind_failed [OF built_ok ord])
  then show "node_state s k = GraphNodeState.BLOCKED \<or> node_state s k = GraphNodeState.CANCELLED"
    by (simp add: given_up_def)
qed

lemma execute_ends:
  assumes "length ris \<ge> length (getAllNodeIds (built ops)) + 2"
  shows "\<exists>r. execute_graph (built ops) cancel ris = Some r"
proof -
  have "card (live_nodes (built ops) (sched_init (built ops))) \<le> card (node_ids (built ops))"
    by (intro card_mono) (auto simp: live_nodes_def)
  also have "\<dots> \<le> length (getAllNodeIds (built ops))" by (rule card_length)
  finally obtain s' where "sched_loop (built ops) cancel ris (sched_init (built ops)) = Some s'"
    using loop_ends [OF built_ok [of ops] sched_reach.start, where ris = ris and cancel = cancel] assms by fastforce
  moreover obtain b e where "validate (built ops) = Some (b, e)" using validate_build [of ops] by auto
  ultimately show ?thesis by (simp add: execute_graph_def)
qed

lemma execute_graph_final:
  assumes "execute_graph (built ops) cancel ris = Some r" "validate (built ops) = Some (True, e)"
  obtains s where "sched_loop (built ops) cancel ris (sched_init (built ops)) = Some s"
    "sched_inv (built ops) s" "r = collect (built ops) s"
    "\<And>k. k \<in> node_ids (built ops) \<Longrightarrow> node_state s k \<in>
      {GraphNodeState.COMPLETED, GraphNodeState.FAILED, GraphNodeState.BLOCKED, GraphNodeState.CANCELLED}"
proof -
  let ?g = "built ops"
  obtain s where s: "sched_loop ?g cancel ris (sched_init ?g) = Some s" "r = collect ?g s"
    using assms by (auto simp: execute_graph_def)
  have inv: "sched_inv ?g s" by (rule reach_inv [OF reach_loop [OF built_ok sched_reach.start s(1)] built_ok])
  then have ord: "order_ok ?g (ss_tracker s)" by (simp add: sched_inv_def)
  have states: "node_state s k \<in> {GraphNodeState.COMPLETED, GraphNodeState.FAILED, GraphNodeState.BLOCKED, GraphNodeState.CANCELLED}"
    if k: "k \<in> node_ids ?g" for k
  proof -
    have "node_state s k \<noteq> GraphNodeState.READY \<and> node_state s k \<noteq> GraphNodeState.RUNNING"
      by (rule loop_final [OF s(1) k])
    moreover have "node_state s k \<noteq> GraphNodeState.CREATED"
      by (rule none_waiting [OF built_ok built_wf [OF assms(2)] ord loop_final [OF s(1)] k])
    moreover have "node_state s k \<noteq> GraphNodeState.SKIPPED" using ord k by (simp add: order_ok_def)
    ultimately show ?thesis by (cases "node_state s k") simp_all
  qed
  show ?thesis by (rule that [OF s(1) inv s(2) states])
qed

lemma verdict_parts:
  assumes "execute_graph (built ops) cancel ris = Some r" "validate (built ops) = Some (True, e)"
  shows "map nt_node_id (gr_telemetry r) = getAllNodeIds (built ops)"
    and "t \<in> set (gr_telemetry r) \<Longrightarrow> nt_final_state t \<in>
      {GraphNodeState.COMPLETED, GraphNodeState.FAILED, GraphNodeState.BLOCKED, GraphNodeState.CANCELLED}"
    and "gr_success r \<Longrightarrow> t \<in> set (gr_telemetry r) \<Longrightarrow> nt_final_state t = GraphNodeState.COMPLETED"
proof -
  let ?g = "built ops"
  obtain s where s: "sched_inv ?g s" "r = collect ?g s"
    and f: "\<And>k. k \<in> node_ids ?g \<Longrightarrow> node_state s k \<in>
      {GraphNodeState.COMPLETED, GraphNodeState.FAILED, GraphNodeState.BLOCKED, GraphNodeState.CANCELLED}"
    using execute_graph_final [OF assms] by metis
  show "map nt_node_id (gr_telemetry r) = getAllNodeIds ?g"
    by (simp add: s(2) collect_def Let_def node_telemetry_def comp_def)
  have tele: "\<exists>k\<in>node_ids ?g. nt_final_state t = node_state s k" if "t \<in> set (gr_telemetry r)"
    using that by (auto simp: s(2) collect_def Let_def node_telemetry_def)
  then show "nt_final_state t \<in>
      {GraphNodeState.COMPLETED, GraphNodeState.FAILED, GraphNodeState.BLOCKED, GraphNodeState.CANCELLED}"
    if "t \<in> set (gr_telemetry r)" using that f by metis
  assume succ: "gr_success r" and t: "t \<in> set (gr_telemetry r)"
  then obtain k where k: "k \<in> node_ids ?g" "nt_final_state t = node_state s k" using tele by blast
  have "ss_overall_success s" using succ by (simp add: s(2) collect_def Let_def)
  then have "\<not> broken (node_state s k)" "node_state s k \<noteq> GraphNodeState.CANCELLED"
    using s(1) k(1) by (simp_all add: sched_inv_def verdict_ok_def)
  with f [OF k(1)] k(2) show "nt_final_state t = GraphNodeState.COMPLETED" by (auto simp: broken_def)
qed

section \<open>Undisturbed runs\<close>

definition undisturbed :: "SchedState \<Rightarrow> bool" where
  "undisturbed s \<longleftrightarrow> ss_overall_success s \<and> ss_error_message s = []"

lemma undisturbed_dispatch: "undisturbed (fold (\<lambda>k. dispatch_one g c (now k) k) ks s) = undisturbed s"
proof (induction ks arbitrary: s)
  case (Cons k ks)
  have "undisturbed (dispatch_one g c (now k) k s) = undisturbed s"
    by (auto simp: undisturbed_def dispatch_one_def count_poll_def set_tracker_def Let_def split: option.splits)
  with Cons show ?case by simp
qed simp

lemma undisturbed_finish:
  assumes g: "graph_ok g" and r: "\<And>k. nr_success (r k)"
  shows "undisturbed s \<Longrightarrow> undisturbed (fold (\<lambda>k. finish_one g (now k) (r k) k) ks s)"
proof (induction ks arbitrary: s)
  case (Cons k ks)
  have "undisturbed (finish_one g (now k) (r k) k s)"
  proof (cases "getNode g k")
    case None
    with Cons.prems show ?thesis by (simp add: finish_one_def)
  next
    case (Some n)
    have "distinct (getSuccessors g k)" using g by (simp add: graph_ok_def)
    with Cons.prems show ?thesis
      by (simp add: finish_success_eq [OF Some r] undisturbed_def task_gone_def)
  qed
  with Cons.IH show ?case by simp
qed simp

lemma undisturbed_loop:
  assumes g: "graph_ok g"
  shows "\<lbrakk>undisturbed s; sched_loop g None ris s = Some s';
     \<forall>ri\<in>set ris. \<forall>k. nr_success (ri_result ri k)\<rbrakk> \<Longrightarrow> undisturbed s'"
proof (induction ris arbitrary: s)
  case (Cons ri ris)
  obtain b s1 where rd: "sched_round g None ri s = (b, s1)" by (cases "sched_round g None ri s")
  have "undisturbed (check_cancel g None s)"
    using Cons.prems(1) by (simp add: check_cancel_def isCancelled_def count_poll_def undisturbed_def)
  then have "undisturbed (after_dispatch g None ri s)"
    by (simp add: after_dispatch_def dispatch_all_def undisturbed_dispatch)
  then have "undisturbed s1"
    using rd Cons.prems(3) undisturbed_finish [OF g, of "ri_result ri"]
    by (auto simp: sched_round_eq Let_def finish_all_def)
  with Cons rd show ?case by (auto split: if_splits)
qed simp

section \<open>Properties\<close>

text \<open>
  C4: on every reachable state, under any cancellation and any interleaving of completions, a
  node has started only if everything it depends on has completed, and two running nodes share
  no resource other than the CPU.
\<close>

theorem scheduler_safety:
  assumes "sched_reach (built ops) cancel s"
  shows "(\<forall>k\<in>node_ids (built ops). started (node_state s k) \<longrightarrow>
      (\<forall>p\<in>set (getPredecessors (built ops) k). node_state s p = GraphNodeState.COMPLETED)) \<and>
    (\<forall>j\<in>node_ids (built ops). \<forall>k\<in>node_ids (built ops).
      node_state s j = GraphNodeState.RUNNING \<and> node_state s k = GraphNodeState.RUNNING \<and>
      resource_of (built ops) j = resource_of (built ops) k \<and>
      \<not> shared_resource (resource_of (built ops) k) \<longrightarrow> j = k)"
  using safety_parts [OF assms] by blast

text \<open>
  C5: a failure stays where it belongs. Whatever depends on a failed node, through any chain, is
  not started and will not be; and a node is only blocked when some node before it failed.
\<close>

theorem failure_isolation:
  assumes "sched_reach (built ops) cancel s" "validate (built ops) = Some (True, e)"
    "k \<in> node_ids (built ops)"
  shows "((\<exists>x. (x, k) \<in> (edges (built ops))\<^sup>+ \<and> node_state s x = GraphNodeState.FAILED) \<longrightarrow>
      node_state s k = GraphNodeState.BLOCKED \<or> node_state s k = GraphNodeState.CANCELLED) \<and>
    (node_state s k = GraphNodeState.BLOCKED \<longrightarrow>
      (\<exists>x. (x, k) \<in> (edges (built ops))\<^sup>+ \<and> node_state s x = GraphNodeState.FAILED))"
  using isolation_parts [OF assms] by blast

text \<open>
  C15: the scheduler ends on every graph a client builds: two rounds more than there are nodes are
  enough, whatever the tasks return, in whatever order they finish and whenever the flag is set.
\<close>

theorem scheduler_terminates:
  assumes "length ris \<ge> length (getAllNodeIds (built ops)) + 2"
  shows "\<exists>r. execute_graph (built ops) cancel ris = Some r"
  by (rule execute_ends [OF assms])

text \<open>
  C20: the report of a valid graph accounts for every node, each in a terminal state, and success
  is claimed only if every node completed.
\<close>

theorem scheduler_verdict:
  assumes "execute_graph (built ops) cancel ris = Some r" "validate (built ops) = Some (True, e)"
  shows "map nt_node_id (gr_telemetry r) = getAllNodeIds (built ops) \<and>
    (\<forall>t\<in>set (gr_telemetry r). nt_final_state t \<in>
      {GraphNodeState.COMPLETED, GraphNodeState.FAILED, GraphNodeState.BLOCKED, GraphNodeState.CANCELLED}) \<and>
    (gr_success r \<longrightarrow> (\<forall>t\<in>set (gr_telemetry r). nt_final_state t = GraphNodeState.COMPLETED))"
  using verdict_parts [OF assms] by blast

text \<open>
  C6: on a valid graph whose tasks all succeed and that nobody cancels, the scheduler ends, reports
  success without an error and has completed every node.
\<close>

theorem scheduler_completes:
  assumes valid: "validate (built ops) = Some (True, e)"
    and fuel: "length ris \<ge> length (getAllNodeIds (built ops)) + 2"
    and good: "\<forall>ri\<in>set ris. \<forall>k. nr_success (ri_result ri k)"
  shows "\<exists>r. execute_graph (built ops) None ris = Some r \<and> gr_success r \<and> gr_error_message r = [] \<and>
    map nt_node_id (gr_telemetry r) = getAllNodeIds (built ops) \<and>
    (\<forall>t\<in>set (gr_telemetry r). nt_final_state t = GraphNodeState.COMPLETED)"
proof -
  let ?g = "built ops"
  have "card (live_nodes ?g (sched_init ?g)) \<le> card (node_ids ?g)"
    by (intro card_mono) (auto simp: live_nodes_def)
  also have "\<dots> \<le> length (getAllNodeIds ?g)" by (rule card_length)
  finally obtain s where s: "sched_loop ?g None ris (sched_init ?g) = Some s"
    using loop_ends [OF built_ok [of ops] sched_reach.start, where ris = ris and cancel = None] fuel by fastforce
  then have ex: "execute_graph ?g None ris = Some (collect ?g s)"
    using valid by (simp add: execute_graph_def)
  have "undisturbed (sched_init ?g)" by (simp add: undisturbed_def sched_init_def)
  from undisturbed_loop [OF built_ok this s good] have u: "undisturbed s" .
  obtain s2 where s2: "sched_loop ?g None ris (sched_init ?g) = Some s2" "sched_inv ?g s2"
    and f: "\<And>k. k \<in> node_ids ?g \<Longrightarrow> node_state s2 k \<in>
      {GraphNodeState.COMPLETED, GraphNodeState.FAILED, GraphNodeState.BLOCKED, GraphNodeState.CANCELLED}"
    using execute_graph_final [OF ex valid] by metis
  have eq: "s2 = s" using s s2(1) by simp
  have all: "node_state s k = GraphNodeState.COMPLETED" if "k \<in> node_ids ?g" for k
  proof -
    have "\<not> broken (node_state s k)" "node_state s k \<noteq> GraphNodeState.CANCELLED"
      using s2(2) u that unfolding eq by (simp_all add: sched_inv_def verdict_ok_def undisturbed_def)
    with f [OF that] show ?thesis unfolding eq by (auto simp: broken_def)
  qed
  then have "\<not> list_ex (\<lambda>k. \<not> ended_well (node_state s k)) (getAllNodeIds ?g)"
    by (auto simp: list_ex_iff ended_well_def)
  then have "gr_success (collect ?g s)" "gr_error_message (collect ?g s) = []"
    using u by (simp_all add: collect_def Let_def undisturbed_def)
  moreover have "map nt_node_id (gr_telemetry (collect ?g s)) = getAllNodeIds ?g"
    by (simp add: collect_def Let_def node_telemetry_def comp_def)
  moreover have "\<forall>t\<in>set (gr_telemetry (collect ?g s)). nt_final_state t = GraphNodeState.COMPLETED"
    using all by (auto simp: collect_def Let_def node_telemetry_def)
  ultimately show ?thesis using ex by blast
qed

section \<open>A run\<close>

definition example_node :: "u64 \<Rightarrow> ExecutionResource \<Rightarrow> unit IExecutionNode" where
  "example_node k r = \<lparr>en_id = k, en_name = ''node'', en_type = ExecutionNodeType.COMPUTE,
     en_resource = r, en_execute = (\<lambda>c. Some (\<lparr>nr_success = True, nr_error_message = []\<rparr>, c))\<rparr>"

definition example_ops :: "unit graph_op list" where
  "example_ops = [AddNode (Some (example_node 1 ExecutionResource.VULKAN)),
     AddNode (Some (example_node 2 ExecutionResource.VULKAN)),
     AddNode (Some (example_node 3 ExecutionResource.VULKAN)), AddDependency 1 2]"

definition example_round :: "bool \<Rightarrow> RoundIn" where
  "example_round b = \<lparr>ri_ready = (\<lambda>_. False), ri_first = 0,
     ri_result = (\<lambda>_. \<lparr>nr_success = b, nr_error_message = ''lost''\<rparr>),
     ri_start = (\<lambda>_. 1), ri_end = (\<lambda>_. 2)\<rparr>"

definition example_failed :: SchedState where
  "example_failed = finish_one (built example_ops) 2 \<lparr>nr_success = False, nr_error_message = ''lost''\<rparr> 1
     (dispatch_one (built example_ops) None 1 3 (dispatch_one (built example_ops) None 1 1
       (sched_init (built example_ops))))"

lemma example_ids: "getAllNodeIds (built example_ops) = [1, 2, 3]"
  by code_simp

lemma example_valid: "validate (built example_ops) = Some (True, [])"
  by code_simp

lemma example_reach: "sched_reach (built example_ops) None example_failed"
proof -
  have "1 \<in> set (ss_active_tasks (dispatch_one (built example_ops) None 1 3
      (dispatch_one (built example_ops) None 1 1 (sched_init (built example_ops)))))"
    by code_simp
  then show ?thesis
    unfolding example_failed_def
    by (intro sched_reach.finished sched_reach.dispatched sched_reach.start)
qed

lemma example_states:
  "node_state example_failed 1 = GraphNodeState.FAILED"
  "node_state example_failed 2 = GraphNodeState.BLOCKED"
  "node_state example_failed 3 = GraphNodeState.READY"
  by code_simp+

lemma example_runs:
  "\<exists>r. execute_graph (built example_ops) None (replicate 5 (example_round False)) = Some r"
  by (rule execute_ends) (simp add: example_ids)

definition example_done :: SchedState where
  "example_done = finish_one (built example_ops) 2 \<lparr>nr_success = True, nr_error_message = []\<rparr> 1
     (dispatch_one (built example_ops) None 1 1 (sched_init (built example_ops)))"

lemma example_done_reach: "sched_reach (built example_ops) None example_done"
proof -
  have "1 \<in> set (ss_active_tasks (dispatch_one (built example_ops) None 1 1
      (sched_init (built example_ops))))"
    by code_simp
  then show ?thesis
    unfolding example_done_def by (intro sched_reach.finished sched_reach.dispatched sched_reach.start)
qed

theorem scheduler_safety_witness:
  "started (node_state example_done 2) \<and> node_state example_done 1 = GraphNodeState.COMPLETED"
proof -
  have "started (node_state example_done 2)" by code_simp
  moreover have "2 \<in> node_ids (built example_ops)" by (simp add: example_ids)
  moreover have "1 \<in> set (getPredecessors (built example_ops) 2)" by code_simp
  ultimately show ?thesis using conjunct1 [OF scheduler_safety [OF example_done_reach]] by blast
qed

theorem failure_isolation_witness:
  "\<exists>x. (x, 2) \<in> (edges (built example_ops))\<^sup>+ \<and> node_state example_failed x = GraphNodeState.FAILED"
  using failure_isolation [OF example_reach example_valid, of 2] by (simp add: example_ids example_states)

theorem scheduler_terminates_witness:
  "\<exists>r. execute_graph (built example_ops) (Some 3) (replicate 5 (example_round False)) = Some r"
  by (rule scheduler_terminates) (simp add: example_ids)

theorem scheduler_completes_witness:
  "\<exists>r. execute_graph (built example_ops) None (replicate 5 (example_round True)) = Some r \<and> gr_success r"
proof -
  have "length (getAllNodeIds (built example_ops)) + 2 \<le> length (replicate 5 (example_round True))"
    by (simp add: example_ids)
  moreover have "\<forall>ri\<in>set (replicate 5 (example_round True)). \<forall>k. nr_success (ri_result ri k)"
    by (simp add: example_round_def)
  ultimately show ?thesis
    using scheduler_completes [OF example_valid] by metis
qed

theorem scheduler_verdict_witness:
  "map nt_node_id (gr_telemetry (the (execute_graph (built example_ops) None (replicate 5 (example_round False)))))
     = [1, 2, 3]"
proof -
  have "execute_graph (built example_ops) None (replicate 5 (example_round False)) =
      Some (the (execute_graph (built example_ops) None (replicate 5 (example_round False))))"
    using example_runs by (elim exE) simp
  from scheduler_verdict [OF this example_valid] show ?thesis by (simp add: example_ids)
qed

end
