(* ===== verification/Engine.thy ===== *)
theory Engine
  imports ModelTypes
begin

text \<open>
  The engine layer: capabilities and sets of them as a bit mask
  (\<open>src/engine/EngineCapability.h\<close>, \<open>.cpp\<close>), errors (\<open>src/engine/EngineError.h\<close>), engine
  identities and model descriptors (\<open>src/engine/EngineIdentity.h\<close>,
  \<open>src/engine/ModelDescriptor.h\<close>, \<open>.cpp\<close>), the part of the engine interface the planner uses
  and the registry of engine factories (\<open>src/engine/ExecutionEngineRegistry.cpp\<close>). Also the
  printing of unsigned numbers that the formatters of the development share.
\<close>

section \<open>Printing numbers\<close>

fun digits_of :: "nat \<Rightarrow> string" where
  "digits_of n = (if n < 10 then [char_of (48 + n)] else digits_of (n div 10) @ [char_of (48 + n mod 10)])"

declare digits_of.simps [simp del]

definition word_str :: "'a::len word \<Rightarrow> string" where
  "word_str w = digits_of (unat w)"

abbreviation emdash :: string where
  "emdash \<equiv> map char_of [226::nat, 128, 148]"

abbreviation nl :: string where
  "nl \<equiv> [char_of (10::nat)]"

text \<open>Reading a number back; \<open>digits_of\<close> and \<open>read_nat\<close> are inverse.\<close>

definition read_nat :: "string \<Rightarrow> nat" where
  "read_nat s = fold (\<lambda>c n. n * 10 + (of_char c - 48)) s 0"

lemma of_char_digit: "n < 10 \<Longrightarrow> of_char (char_of (48 + n :: nat)) = (48 + n :: nat)"
  by (simp add: of_char_mod_256)

lemma read_digits: "read_nat (digits_of n) = n"
proof (induction n rule: digits_of.induct)
  case (1 n)
  show ?case
  proof (cases "n < 10")
    case True
    then show ?thesis by (simp add: digits_of.simps [of n] read_nat_def of_char_digit)
  next
    case False
    then have "fold (\<lambda>c n. n * 10 + (of_char c - 48)) (digits_of (n div 10)) 0 = n div 10"
      using 1 by (simp add: read_nat_def)
    then have "read_nat (digits_of n) = n div 10 * 10 + (of_char (char_of (48 + n mod 10)) - 48)"
      using False by (simp add: digits_of.simps [of n] read_nat_def)
    also have "\<dots> = n" by (subst of_char_digit) simp_all
    finally show ?thesis .
  qed
qed

section \<open>Capabilities\<close>

datatype EngineCapability =
    TEXT_GENERATION | EMBEDDINGS | VISION | AUDIO | MULTIMODAL | BACKEND_CPU
    | BACKEND_VULKAN | BACKEND_CUDA | BACKEND_NPU | STREAMING | BATCHING | CANCELLATION
    | DYNAMIC_LOADING

fun cap_bit :: "EngineCapability \<Rightarrow> u32" where
  "cap_bit EngineCapability.TEXT_GENERATION = 0x0001"
| "cap_bit EngineCapability.EMBEDDINGS = 0x0002"
| "cap_bit EngineCapability.VISION = 0x0004"
| "cap_bit EngineCapability.AUDIO = 0x0008"
| "cap_bit EngineCapability.MULTIMODAL = 0x0010"
| "cap_bit EngineCapability.BACKEND_CPU = 0x0100"
| "cap_bit EngineCapability.BACKEND_VULKAN = 0x0200"
| "cap_bit EngineCapability.BACKEND_CUDA = 0x0400"
| "cap_bit EngineCapability.BACKEND_NPU = 0x0800"
| "cap_bit EngineCapability.STREAMING = 0x1000"
| "cap_bit EngineCapability.BATCHING = 0x2000"
| "cap_bit EngineCapability.CANCELLATION = 0x4000"
| "cap_bit EngineCapability.DYNAMIC_LOADING = 0x8000"

record EngineCapabilitySet =
  cs_mask :: u32

definition cap_empty :: EngineCapabilitySet where
  "cap_empty = \<lparr>cs_mask = 0\<rparr>"

unbundle bit_operations_syntax

definition cap_add :: "EngineCapability \<Rightarrow> EngineCapabilitySet \<Rightarrow> EngineCapabilitySet" where
  "cap_add cap s = s\<lparr>cs_mask := cs_mask s OR cap_bit cap\<rparr>"

definition cap_has :: "EngineCapabilitySet \<Rightarrow> EngineCapability \<Rightarrow> bool" where
  "cap_has s cap \<longleftrightarrow> (cs_mask s AND cap_bit cap) \<noteq> 0"

definition cap_is_empty :: "EngineCapabilitySet \<Rightarrow> bool" where
  "cap_is_empty s \<longleftrightarrow> cs_mask s = 0"

definition cap_of_list :: "EngineCapability list \<Rightarrow> EngineCapabilitySet" where
  "cap_of_list caps = fold cap_add caps cap_empty"

definition cap_check :: "EngineCapabilitySet \<Rightarrow> EngineCapability \<times> string \<Rightarrow> string \<Rightarrow> string" where
  "cap_check s = (\<lambda>(c, name) out. if cap_has s c then (if out = [] then out else out @ ''|'') @ name else out)"

definition cap_names :: "(EngineCapability \<times> string) list" where
  "cap_names = [(EngineCapability.TEXT_GENERATION, ''TEXT_GENERATION''),
     (EngineCapability.EMBEDDINGS, ''EMBEDDINGS''),
     (EngineCapability.VISION, ''VISION''),
     (EngineCapability.AUDIO, ''AUDIO''),
     (EngineCapability.MULTIMODAL, ''MULTIMODAL''),
     (EngineCapability.BACKEND_CPU, ''BACKEND_CPU''),
     (EngineCapability.BACKEND_VULKAN, ''BACKEND_VULKAN''),
     (EngineCapability.BACKEND_CUDA, ''BACKEND_CUDA''),
     (EngineCapability.BACKEND_NPU, ''BACKEND_NPU''),
     (EngineCapability.STREAMING, ''STREAMING''),
     (EngineCapability.BATCHING, ''BATCHING''),
     (EngineCapability.CANCELLATION, ''CANCELLATION''),
     (EngineCapability.DYNAMIC_LOADING, ''DYNAMIC_LOADING'')]"

definition cap_toString :: "EngineCapabilitySet \<Rightarrow> string" where
  "cap_toString s = (let out = fold (cap_check s) cap_names [] in if out = [] then ''(none)'' else out)"

text \<open>A capability is one bit, so the mask is a set.\<close>

lemma cap_bit_disjoint: "(cap_bit c AND cap_bit d) \<noteq> 0 \<longleftrightarrow> c = d"
  by (cases c; cases d) simp_all

lemma cap_has_add: "cap_has (cap_add c s) d \<longleftrightarrow> d = c \<or> cap_has s d"
proof -
  have "(cs_mask s OR cap_bit c) AND cap_bit d = (cs_mask s AND cap_bit d) OR (cap_bit c AND cap_bit d)"
    by (rule bit_word_eqI) (auto simp: bit_or_iff bit_and_iff)
  then have "((cs_mask s OR cap_bit c) AND cap_bit d) \<noteq> 0 \<longleftrightarrow>
      (cs_mask s AND cap_bit d) \<noteq> 0 \<or> (cap_bit c AND cap_bit d) \<noteq> 0"
    by (simp add: or_eq_0_iff)
  then show ?thesis using cap_bit_disjoint [of c d] by (auto simp: cap_has_def cap_add_def)
qed

lemma cap_has_empty [simp]: "\<not> cap_has cap_empty c"
  by (simp add: cap_has_def cap_empty_def)

lemma cap_has_of_list: "cap_has (cap_of_list cs) c \<longleftrightarrow> c \<in> set cs"
proof -
  have "cap_has (fold cap_add cs s) c \<longleftrightarrow> c \<in> set cs \<or> cap_has s c" for s
    by (induction cs arbitrary: s) (auto simp: cap_has_add)
  then show ?thesis by (simp add: cap_of_list_def)
qed

section \<open>Errors\<close>

datatype EngineErrorKind =
    NONE | ENGINE_UNAVAILABLE | MODEL_NOT_FOUND | MODEL_LOAD_FAILED | MODEL_NOT_LOADED
    | UNSUPPORTED_MODEL | UNSUPPORTED_OPERATION | UNSUPPORTED_DEVICE
    | RESOURCE_UNAVAILABLE | EXECUTION_FAILED | CANCELLED | INVALID_REQUEST | INTERNAL

fun toString_EngineErrorKind :: "EngineErrorKind \<Rightarrow> string" where
  "toString_EngineErrorKind EngineErrorKind.NONE = ''None''"
| "toString_EngineErrorKind EngineErrorKind.ENGINE_UNAVAILABLE = ''EngineUnavailable''"
| "toString_EngineErrorKind EngineErrorKind.MODEL_NOT_FOUND = ''ModelNotFound''"
| "toString_EngineErrorKind EngineErrorKind.MODEL_LOAD_FAILED = ''ModelLoadFailed''"
| "toString_EngineErrorKind EngineErrorKind.MODEL_NOT_LOADED = ''ModelNotLoaded''"
| "toString_EngineErrorKind EngineErrorKind.UNSUPPORTED_MODEL = ''UnsupportedModel''"
| "toString_EngineErrorKind EngineErrorKind.UNSUPPORTED_OPERATION = ''UnsupportedOperation''"
| "toString_EngineErrorKind EngineErrorKind.UNSUPPORTED_DEVICE = ''UnsupportedDevice''"
| "toString_EngineErrorKind EngineErrorKind.RESOURCE_UNAVAILABLE = ''ResourceUnavailable''"
| "toString_EngineErrorKind EngineErrorKind.EXECUTION_FAILED = ''ExecutionFailed''"
| "toString_EngineErrorKind EngineErrorKind.CANCELLED = ''Cancelled''"
| "toString_EngineErrorKind EngineErrorKind.INVALID_REQUEST = ''InvalidRequest''"
| "toString_EngineErrorKind EngineErrorKind.INTERNAL = ''Internal''"

record EngineError =
  ee_kind :: EngineErrorKind
  ee_message :: string

definition ee_ok :: "EngineError \<Rightarrow> bool" where
  "ee_ok e \<longleftrightarrow> ee_kind e = EngineErrorKind.NONE"

definition ee_success :: EngineError where
  "ee_success = \<lparr>ee_kind = EngineErrorKind.NONE, ee_message = []\<rparr>"

definition ee_make :: "EngineErrorKind \<Rightarrow> string \<Rightarrow> EngineError" where
  "ee_make k msg = \<lparr>ee_kind = k, ee_message = msg\<rparr>"

section \<open>Model descriptors\<close>

datatype ModelFormat =
    UNKNOWN | GGUF | SAFETENSORS | ONNX | PYTORCH | NATIVE_AGR | OTHER

fun toString_ModelFormat :: "ModelFormat \<Rightarrow> string" where
  "toString_ModelFormat ModelFormat.UNKNOWN = ''Unknown''"
| "toString_ModelFormat ModelFormat.GGUF = ''GGUF''"
| "toString_ModelFormat ModelFormat.SAFETENSORS = ''SafeTensors''"
| "toString_ModelFormat ModelFormat.ONNX = ''ONNX''"
| "toString_ModelFormat ModelFormat.PYTORCH = ''PyTorch''"
| "toString_ModelFormat ModelFormat.NATIVE_AGR = ''NativeAGR''"
| "toString_ModelFormat ModelFormat.OTHER = ''Other''"

datatype ModelModality =
    UNKNOWN | TEXT | VISION | AUDIO | MULTIMODAL

fun toString_ModelModality :: "ModelModality \<Rightarrow> string" where
  "toString_ModelModality ModelModality.UNKNOWN = ''Unknown''"
| "toString_ModelModality ModelModality.TEXT = ''Text''"
| "toString_ModelModality ModelModality.VISION = ''Vision''"
| "toString_ModelModality ModelModality.AUDIO = ''Audio''"
| "toString_ModelModality ModelModality.MULTIMODAL = ''Multimodal''"

record ModelDescriptor =
  md_model_id :: string
  md_source_path :: string
  md_format :: ModelFormat
  md_modality :: ModelModality
  md_architecture :: string
  md_quantization :: string
  md_description :: string
  md_param_count :: "int option"
  md_n_layers :: "int option"
  md_n_ctx_max :: "int option"
  md_size_bytes :: "u64 option"
  md_metadata :: "(string \<times> string) list"

definition md_isValid :: "ModelDescriptor \<Rightarrow> bool" where
  "md_isValid d \<longleftrightarrow> md_model_id d \<noteq> [] \<and> md_source_path d \<noteq> []"

definition md_summary :: "ModelDescriptor \<Rightarrow> string" where
  "md_summary d = ''['' @ md_model_id d @ ''] '' @ toString_ModelFormat (md_format d) @
     (if md_architecture d = [] then [] else '' '' @ md_architecture d) @
     (if md_quantization d = [] then [] else ''/'' @ md_quantization d) @
     (case md_size_bytes d of None \<Rightarrow> [] | Some b \<Rightarrow> '' '' @ word_str (b div (1024 * 1024)) @ '' MiB'')"

section \<open>Engines and their registry\<close>

record EngineIdentity =
  ei_name :: string
  ei_version :: string
  ei_type :: string
  ei_author :: string
  ei_registry_key :: string

text \<open>What the registry's clients ask of an engine; the rest of the interface runs models.\<close>

record IExecutionEngine =
  ie_identity :: EngineIdentity
  ie_capabilities :: EngineCapabilitySet

record EngineRegistration =
  er_key :: string
  er_description :: string
  er_factory :: "IExecutionEngine option"

type_synonym ExecutionEngineRegistry = "(string \<times> EngineRegistration) list"

definition registerFactory ::
    "string \<Rightarrow> string \<Rightarrow> IExecutionEngine option \<Rightarrow> ExecutionEngineRegistry \<Rightarrow> ExecutionEngineRegistry" where
  "registerFactory key description factory reg =
     AList.update key \<lparr>er_key = key, er_description = description, er_factory = factory\<rparr> reg"

definition registry_init :: "IExecutionEngine option \<Rightarrow> ExecutionEngineRegistry" where
  "registry_init llama = registerFactory ''llama.cpp'' ''llama.cpp LLM backend'' llama []"

definition create_engine :: "ExecutionEngineRegistry \<Rightarrow> string \<Rightarrow> IExecutionEngine option" where
  "create_engine reg key = (case map_of reg key of None \<Rightarrow> None | Some r \<Rightarrow> er_factory r)"

definition isRegistered :: "ExecutionEngineRegistry \<Rightarrow> string \<Rightarrow> bool" where
  "isRegistered reg key \<longleftrightarrow> map_of reg key \<noteq> None"

definition registeredKeys :: "ExecutionEngineRegistry \<Rightarrow> string list" where
  "registeredKeys reg = keys_of reg"

definition registration :: "ExecutionEngineRegistry \<Rightarrow> string \<Rightarrow> EngineRegistration option" where
  "registration reg key = map_of reg key"

definition clear_registry :: "ExecutionEngineRegistry \<Rightarrow> ExecutionEngineRegistry" where
  "clear_registry reg = []"

lemma create_after_register:
  "create_engine (registerFactory key d f reg) k = (if k = key then f else create_engine reg k)"
  by (simp add: create_engine_def registerFactory_def)

lemma set_registeredKeys: "k \<in> set (registeredKeys reg) \<longleftrightarrow> isRegistered reg k"
  by (auto simp: registeredKeys_def isRegistered_def map_of_eq_None)

section \<open>Properties\<close>

text \<open>
  The bit mask represents exactly the set of capabilities that were added: a set built from a
  list has a capability exactly when the list holds it, and adding one changes nothing else.
\<close>

lemma capability_mask_is_set:
  "{c. cap_has (cap_of_list cs) c} = set cs \<and>
   {c. cap_has (cap_add d s) c} = insert d {c. cap_has s c}"
  by (auto simp: cap_has_of_list cap_has_add)

end
