(* ===== verification/Backend.thy ===== *)
theory Backend
  imports Engine Double
begin

text \<open>
  Hardware and compute devices: the detected hardware (\<open>src/core/HardwareInfo.h\<close>,
  \<open>src/hardware/HardwareDetector.cpp\<close>), the device model (\<open>src/backend/ComputeDevice.h\<close>), the
  manager that discovers and ranks the devices (\<open>src/backend/BackendManager.cpp\<close>) and the selector
  that chooses one for a workload (\<open>src/backend/DeviceSelector.cpp\<close>). What the detectors and the
  Vulkan driver report is an input.
\<close>

section \<open>Hardware\<close>

record CPUInfo =
  ci_vendor :: string
  ci_model_name :: string
  ci_logical_processors :: u32
  ci_physical_cores :: u32
  ci_architecture :: string

record MemoryInfo =
  mi_total_physical_mb :: u64
  mi_available_physical_mb :: u64

datatype GPUVendor =
    Unknown | Intel | AMD | NVIDIA

fun toString_GPUVendor :: "GPUVendor \<Rightarrow> string" where
  "toString_GPUVendor GPUVendor.Unknown = ''Unknown''"
| "toString_GPUVendor GPUVendor.Intel = ''Intel''"
| "toString_GPUVendor GPUVendor.AMD = ''AMD''"
| "toString_GPUVendor GPUVendor.NVIDIA = ''NVIDIA''"

datatype GPUKind =
    Unknown | Integrated | Dedicated

fun toString_GPUKind :: "GPUKind \<Rightarrow> string" where
  "toString_GPUKind GPUKind.Unknown = ''Unknown''"
| "toString_GPUKind GPUKind.Integrated = ''Integrated''"
| "toString_GPUKind GPUKind.Dedicated = ''Dedicated''"

record GPUInfo =
  gi_name :: string
  gi_vendor :: GPUVendor
  gi_kind :: GPUKind
  gi_dedicated_vram_mb :: u64
  gi_shared_system_memory_mb :: u64
  gi_total_accessible_memory_mb :: u64
  gi_detected_via_native_api :: bool

record VulkanQueueFamilyInfo =
  vq_index :: u32
  vq_queue_count :: u32
  vq_supports_graphics :: bool
  vq_supports_compute :: bool
  vq_supports_transfer :: bool

record VulkanDeviceInfo =
  vd_name :: string
  vd_vendor_id :: u32
  vd_device_id :: u32
  vd_device_type :: string
  vd_api_version_major :: u32
  vd_api_version_minor :: u32
  vd_api_version_patch :: u32
  vd_driver_version_raw :: u32
  vd_device_local_memory_mb :: u64
  vd_host_visible_memory_mb :: u64
  vd_queue_families :: "VulkanQueueFamilyInfo list"
  vd_has_compute_capable_queue :: bool

record VulkanInfo =
  vi_available :: bool
  vi_unavailable_reason :: string
  vi_instance_api_version_major :: u32
  vi_instance_api_version_minor :: u32
  vi_instance_api_version_patch :: u32
  vi_devices :: "VulkanDeviceInfo list"

record CUDADeviceInfo =
  cd_index :: int
  cd_name :: string

record CUDAInfo =
  cu_available :: bool
  cu_unavailable_reason :: string
  cu_driver_version :: int
  cu_devices :: "CUDADeviceInfo list"

record HardwareInfo =
  hw_cpu :: CPUInfo
  hw_memory :: MemoryInfo
  hw_gpus :: "GPUInfo list"
  hw_vulkan :: VulkanInfo
  hw_cuda :: CUDAInfo

definition cpu_info_default :: CPUInfo where
  "cpu_info_default = \<lparr>ci_vendor = [], ci_model_name = [], ci_logical_processors = 0,
     ci_physical_cores = 0, ci_architecture = []\<rparr>"

definition memory_info_default :: MemoryInfo where
  "memory_info_default = \<lparr>mi_total_physical_mb = 0, mi_available_physical_mb = 0\<rparr>"

definition vulkan_info_default :: VulkanInfo where
  "vulkan_info_default = \<lparr>vi_available = False, vi_unavailable_reason = [],
     vi_instance_api_version_major = 0, vi_instance_api_version_minor = 0,
     vi_instance_api_version_patch = 0, vi_devices = []\<rparr>"

definition cuda_info_default :: CUDAInfo where
  "cuda_info_default = \<lparr>cu_available = False, cu_unavailable_reason = [], cu_driver_version = 0,
     cu_devices = []\<rparr>"

text \<open>Each detector returns its part or throws (\<open>None\<close>); no exception leaves \<open>detectAll\<close>.\<close>

record Detectors =
  dt_cpu :: "CPUInfo option"
  dt_memory :: "MemoryInfo option"
  dt_gpus :: "GPUInfo list option"
  dt_vulkan :: "VulkanInfo option"
  dt_cuda :: "CUDAInfo option"

definition detectAll :: "Detectors \<Rightarrow> HardwareInfo" where
  "detectAll d = \<lparr>
     hw_cpu = (case dt_cpu d of None \<Rightarrow> cpu_info_default | Some c \<Rightarrow> c),
     hw_memory = (case dt_memory d of None \<Rightarrow> memory_info_default | Some m \<Rightarrow> m),
     hw_gpus = (case dt_gpus d of None \<Rightarrow> [] | Some g \<Rightarrow> g),
     hw_vulkan = (case dt_vulkan d of None \<Rightarrow>
         vulkan_info_default\<lparr>vi_unavailable_reason := ''Vulkan detection threw an exception''\<rparr>
       | Some v \<Rightarrow> v),
     hw_cuda = (case dt_cuda d of None \<Rightarrow>
         cuda_info_default\<lparr>cu_unavailable_reason := ''CUDA detection threw an exception''\<rparr>
       | Some c \<Rightarrow> c)\<rparr>"

section \<open>Compute devices\<close>

datatype ComputeBackend =
    CPU | VULKAN | CUDA

fun toString_ComputeBackend :: "ComputeBackend \<Rightarrow> string" where
  "toString_ComputeBackend ComputeBackend.CPU = ''CPU''"
| "toString_ComputeBackend ComputeBackend.VULKAN = ''Vulkan''"
| "toString_ComputeBackend ComputeBackend.CUDA = ''CUDA''"

record ComputeDevice =
  dv_backend :: ComputeBackend
  dv_is_available :: bool
  dv_name :: string
  dv_vendor :: string
  dv_unavailable_reason :: string
  dv_memory_capacity :: u64
  dv_memory_available :: u64
  dv_supports_compute :: bool
  dv_compute_units :: int
  dv_compute_score :: rat
  dv_api_version :: string
  dv_driver_version :: int

definition device_default :: ComputeDevice where
  "device_default = \<lparr>dv_backend = ComputeBackend.CPU, dv_is_available = False, dv_name = [],
     dv_vendor = [], dv_unavailable_reason = [], dv_memory_capacity = 0, dv_memory_available = 0,
     dv_supports_compute = False, dv_compute_units = 0, dv_compute_score = 0, dv_api_version = [],
     dv_driver_version = 0\<rparr>"

definition dv_isValid :: "ComputeDevice \<Rightarrow> bool" where
  "dv_isValid d = dv_is_available d"

record WorkloadHint =
  wh_required_memory :: u64
  wh_prefer_gpu :: bool
  wh_allow_cpu_fallback :: bool
  wh_compute_intensive :: bool

definition hint_default :: WorkloadHint where
  "hint_default = \<lparr>wh_required_memory = 0, wh_prefer_gpu = True, wh_allow_cpu_fallback = True,
     wh_compute_intensive = True\<rparr>"

section \<open>Discovery\<close>

text \<open>
  What the Vulkan backend answers: whether it is or can be initialised, and for a physical device
  its memory heaps (device-local flag and size) and properties.
\<close>

record VulkanPhysical =
  vp_heaps :: "(bool \<times> u64) list"
  vp_api_major :: u32
  vp_api_minor :: u32
  vp_driver_version :: int

record VulkanProbe =
  vb_isAvailable :: bool
  vb_initialize :: bool
  vb_lastError :: string
  vb_deviceName :: string
  vb_physicalDevice :: "VulkanPhysical option"

record BackendManager =
  bm_devices :: "ComputeDevice list"
  bm_discovered :: bool

definition backend_manager_init :: BackendManager where
  "backend_manager_init = \<lparr>bm_devices = [], bm_discovered = False\<rparr>"

definition CPU_SCORE_BASE :: rat where "CPU_SCORE_BASE = 100"
definition VULKAN_SCORE_BASE :: rat where "VULKAN_SCORE_BASE = 300"
definition CUDA_SCORE_BASE :: rat where "CUDA_SCORE_BASE = 500"

definition dbl_of_u32 :: "u32 \<Rightarrow> rat" where
  "dbl_of_u32 n = dbl (of_int (uint n))"

definition int_of_u32 :: "u32 \<Rightarrow> int" where
  "int_of_u32 n = sint n"

definition discoverCPU :: "HardwareInfo \<Rightarrow> ComputeDevice" where
  "discoverCPU info = device_default\<lparr>
     dv_backend := ComputeBackend.CPU, dv_is_available := True, dv_supports_compute := True,
     dv_name := (if ci_model_name (hw_cpu info) = [] then ''CPU'' else ci_model_name (hw_cpu info)),
     dv_vendor := ci_vendor (hw_cpu info),
     dv_compute_units := int_of_u32 (ci_physical_cores (hw_cpu info)),
     dv_memory_capacity := mi_total_physical_mb (hw_memory info) * 1024 * 1024,
     dv_memory_available := mi_available_physical_mb (hw_memory info) * 1024 * 1024,
     dv_compute_score := dbl (CPU_SCORE_BASE + dbl (dbl_of_u32 (ci_physical_cores (hw_cpu info)) * 2))\<rparr>"

definition local_heap_bytes :: "(bool \<times> u64) list \<Rightarrow> u64" where
  "local_heap_bytes heaps = fold (\<lambda>(is_local, sz) b. if is_local then b + sz else b) heaps 0"

definition discoverVulkan :: "VulkanProbe \<Rightarrow> ComputeDevice" where
  "discoverVulkan vk =
     (if \<not> vb_isAvailable vk \<and> \<not> vb_initialize vk then
        device_default\<lparr>dv_backend := ComputeBackend.VULKAN, dv_is_available := False,
          dv_name := ''Vulkan'', dv_unavailable_reason := vb_lastError vk, dv_compute_score := 0\<rparr>
      else let
        dev = device_default\<lparr>dv_backend := ComputeBackend.VULKAN, dv_is_available := True,
          dv_supports_compute := True, dv_name := vb_deviceName vk, dv_vendor := ''Vulkan'',
          dv_compute_score := VULKAN_SCORE_BASE\<rparr>
      in case vb_physicalDevice vk of
        None \<Rightarrow> dev
      | Some pd \<Rightarrow> let cap = local_heap_bytes (vp_heaps pd) in
          dev\<lparr>dv_memory_capacity := cap, dv_memory_available := cap,
            dv_api_version := word_str (vp_api_major pd) @ ''.'' @ word_str (vp_api_minor pd),
            dv_driver_version := vp_driver_version pd,
            dv_compute_score := dbl (VULKAN_SCORE_BASE +
              dbl (dbl (dbl_of_u64 cap / (1024 * 1024 * 1024)) * 10))\<rparr>)"

definition discoverCUDA :: "HardwareInfo \<Rightarrow> ComputeDevice" where
  "discoverCUDA info =
     (if \<not> cu_available (hw_cuda info) then
        device_default\<lparr>dv_backend := ComputeBackend.CUDA, dv_is_available := False, dv_name := ''CUDA'',
          dv_unavailable_reason := (if cu_unavailable_reason (hw_cuda info) = []
            then ''No NVIDIA driver or GPU found'' else cu_unavailable_reason (hw_cuda info)),
          dv_compute_score := 0\<rparr>
      else device_default\<lparr>dv_backend := ComputeBackend.CUDA, dv_is_available := True,
          dv_supports_compute := True, dv_vendor := ''NVIDIA'',
          dv_driver_version := cu_driver_version (hw_cuda info), dv_compute_score := CUDA_SCORE_BASE,
          dv_name := (case cu_devices (hw_cuda info) of [] \<Rightarrow> ''CUDA GPU'' | d # ds \<Rightarrow> cd_name d)\<rparr>)"

text \<open>The comparison of \<open>std::stable_sort\<close>, and a stable insertion sort by it.\<close>

definition device_before :: "ComputeDevice \<Rightarrow> ComputeDevice \<Rightarrow> bool" where
  "device_before a b = (if dv_is_available a \<noteq> dv_is_available b then dv_is_available a
     else dv_compute_score a > dv_compute_score b)"

fun insert_device :: "ComputeDevice \<Rightarrow> ComputeDevice list \<Rightarrow> ComputeDevice list" where
  "insert_device d [] = [d]"
| "insert_device d (e # es) = (if device_before e d then e # insert_device d es else d # e # es)"

definition stable_sort :: "ComputeDevice list \<Rightarrow> ComputeDevice list" where
  "stable_sort ds = foldr insert_device ds []"

definition discover :: "HardwareInfo \<Rightarrow> VulkanProbe \<Rightarrow> BackendManager \<Rightarrow> BackendManager" where
  "discover info vk bm = bm\<lparr>
     bm_devices := stable_sort [discoverCPU info, discoverVulkan vk, discoverCUDA info],
     bm_discovered := True\<rparr>"

definition availableDevices :: "BackendManager \<Rightarrow> ComputeDevice list" where
  "availableDevices bm = filter dv_is_available (bm_devices bm)"

definition getDevice :: "BackendManager \<Rightarrow> ComputeBackend \<Rightarrow> ComputeDevice option" where
  "getDevice bm b = find (\<lambda>d. dv_backend d = b) (bm_devices bm)"

definition isBackendAvailable :: "BackendManager \<Rightarrow> ComputeBackend \<Rightarrow> bool" where
  "isBackendAvailable bm b = (case getDevice bm b of None \<Rightarrow> False | Some d \<Rightarrow> dv_is_available d)"

section \<open>Selection\<close>

definition memory_term :: "ComputeDevice \<Rightarrow> WorkloadHint \<Rightarrow> rat \<Rightarrow> rat" where
  "memory_term d h score =
     (if wh_required_memory h > 0 \<and> dv_memory_available d > 0 then
        (if dv_memory_available d < wh_required_memory h then dbl (score - 10000)
         else let headroom = dbl (dbl_of_u64 (dv_memory_available d - wh_required_memory h) /
                dbl_of_u64 (dv_memory_available d))
              in dbl (score + dbl (headroom * 50)))
      else score)"

definition scoreDevice :: "ComputeDevice \<Rightarrow> WorkloadHint \<Rightarrow> rat" where
  "scoreDevice d h = (if \<not> dv_is_available d then - 1 else let
     score = memory_term d h (dv_compute_score d);
     score = (if wh_prefer_gpu h \<and> dv_backend d = ComputeBackend.CUDA then dbl (score + 200) else score);
     score = (if wh_prefer_gpu h \<and> dv_backend d = ComputeBackend.VULKAN then dbl (score + 150) else score)
   in if wh_compute_intensive h \<and> dv_backend d = ComputeBackend.CPU then dbl (score - 50) else score)"

text \<open>\<open>numeric_limits::lowest\<close> is below every score, so the first device is always taken.\<close>

definition select_step :: "WorkloadHint \<Rightarrow> ComputeDevice \<Rightarrow> (ComputeDevice \<times> rat) option \<Rightarrow> (ComputeDevice \<times> rat) option" where
  "select_step h d best = (let s = scoreDevice d h in case best of
     None \<Rightarrow> Some (d, s)
   | Some (b, bs) \<Rightarrow> if s > bs then Some (d, s) else best)"

definition fallback_device :: ComputeDevice where
  "fallback_device = device_default\<lparr>dv_backend := ComputeBackend.CPU, dv_is_available := True,
     dv_name := ''CPU (fallback)'', dv_supports_compute := True\<rparr>"

definition cpu_fallback :: "BackendManager \<Rightarrow> ComputeDevice" where
  "cpu_fallback bm = (case getDevice bm ComputeBackend.CPU of Some cpu \<Rightarrow> cpu | None \<Rightarrow> fallback_device)"

definition selectDevice :: "BackendManager \<Rightarrow> WorkloadHint \<Rightarrow> ComputeDevice" where
  "selectDevice bm h = (case fold (select_step h) (bm_devices bm) None of
     None \<Rightarrow> cpu_fallback bm
   | Some (best, s) \<Rightarrow> if dv_is_available best then best else cpu_fallback bm)"

section \<open>The ranking\<close>

lemma set_insert_device: "set (insert_device d es) = insert d (set es)"
  by (induction es) auto

lemma set_stable_sort: "set (stable_sort ds) = set ds"
  by (induction ds) (auto simp: stable_sort_def set_insert_device)

lemma device_before_trans:
  "\<not> device_before b a \<Longrightarrow> \<not> device_before c b \<Longrightarrow> \<not> device_before c a"
  by (auto simp: device_before_def split: if_splits)

lemma device_before_asym: "device_before a b \<Longrightarrow> \<not> device_before b a"
  by (auto simp: device_before_def split: if_splits)

definition ranked :: "ComputeDevice list \<Rightarrow> bool" where
  "ranked = sorted_wrt (\<lambda>a b. \<not> device_before b a)"

lemma ranked_insert: "ranked es \<Longrightarrow> ranked (insert_device d es)"
proof (induction es)
  case (Cons e es)
  show ?case
  proof (cases "device_before e d")
    case True
    with Cons device_before_asym [OF True] show ?thesis
      by (auto simp: ranked_def set_insert_device)
  next
    case False
    have "\<not> device_before x d" if "x \<in> set es" for x
      using that Cons.prems device_before_trans [OF False, of x] by (simp add: ranked_def)
    with Cons.prems False show ?thesis by (simp add: ranked_def)
  qed
qed (simp add: ranked_def)

lemma ranked_stable_sort: "ranked (stable_sort ds)"
proof (induction ds)
  case (Cons d ds)
  then show ?case using ranked_insert [of "stable_sort ds" d] by (simp add: stable_sort_def)
qed (simp add: stable_sort_def ranked_def)

lemma discovered_backends:
  "dv_backend (discoverCPU i) = ComputeBackend.CPU" "dv_backend (discoverVulkan v) = ComputeBackend.VULKAN"
  "dv_backend (discoverCUDA i) = ComputeBackend.CUDA"
  by (simp_all add: discoverCPU_def discoverVulkan_def discoverCUDA_def device_default_def Let_def
      split: option.split)

lemma getDevice_discover:
  "getDevice (discover i v bm) ComputeBackend.CPU = Some (discoverCPU i)"
  "getDevice (discover i v bm) ComputeBackend.VULKAN = Some (discoverVulkan v)"
  "getDevice (discover i v bm) ComputeBackend.CUDA = Some (discoverCUDA i)"
  by (simp_all add: getDevice_def discover_def stable_sort_def discovered_backends)

section \<open>The selector\<close>

definition best_scored :: "WorkloadHint \<Rightarrow> ComputeDevice list \<Rightarrow> ComputeDevice \<Rightarrow> bool" where
  "best_scored h ds d \<longleftrightarrow> list_all (\<lambda>e. scoreDevice e h \<le> scoreDevice d h) ds"

lemma select_fold:
  "fold (select_step h) ds (Some (b, scoreDevice b h)) =
     map_option (\<lambda>d. (d, scoreDevice d h)) (find (best_scored h (b # ds)) (b # ds))"
proof (induction ds arbitrary: b)
  case Nil
  then show ?case by (simp add: best_scored_def)
next
  case (Cons d ds)
  show ?case
  proof (cases "scoreDevice d h > scoreDevice b h")
    case True
    then have eq: "best_scored h (b # d # ds) = best_scored h (d # ds)"
      by (auto simp: best_scored_def fun_eq_iff)
    have "\<not> best_scored h (d # ds) b" using True by (simp add: best_scored_def)
    then have "find (best_scored h (b # d # ds)) (b # d # ds) = find (best_scored h (d # ds)) (d # ds)"
      by (simp add: eq)
    then show ?thesis using True Cons.IH [of d] by (simp add: select_step_def Let_def)
  next
    case False
    have eq: "best_scored h (b # d # ds) = best_scored h (b # ds)"
      using False by (auto simp: best_scored_def fun_eq_iff)
    have "find (best_scored h (b # d # ds)) (b # d # ds) = find (best_scored h (b # ds)) (b # ds)"
    proof (cases "best_scored h (b # ds) b")
      case True
      then show ?thesis by (simp add: eq)
    next
      case nb: False
      have "\<not> best_scored h (b # ds) d" using nb False by (auto simp: best_scored_def list_all_iff)
      then show ?thesis using nb by (simp add: eq)
    qed
    then show ?thesis using False Cons.IH [of b] by (simp add: select_step_def Let_def)
  qed
qed

lemma select_first:
  "fold (select_step h) ds None = map_option (\<lambda>d. (d, scoreDevice d h)) (find (best_scored h ds) ds)"
proof (cases ds)
  case (Cons d es)
  then show ?thesis using select_fold [of h es d] by (simp add: select_step_def Let_def)
qed simp

text \<open>In a ranked list the available devices come first, so the first of the best is available when any is.\<close>

lemma ranked_find:
  assumes "ranked ds"
  shows "find (\<lambda>d. dv_is_available d \<and> P d) ds =
    (case find P ds of None \<Rightarrow> None | Some d \<Rightarrow> if dv_is_available d then Some d else None)"
  using assms
proof (induction ds)
  case (Cons d ds)
  have "ranked ds" using Cons.prems by (simp add: ranked_def)
  note ih = Cons.IH [OF this]
  have off: "\<not> dv_is_available e" if "\<not> dv_is_available d" "e \<in> set ds" for e
    using Cons.prems that by (auto simp: ranked_def device_before_def split: if_splits)
  show ?case
  proof (cases "P d \<and> \<not> dv_is_available d")
    case True
    then have "find (\<lambda>d. dv_is_available d \<and> P d) ds = None" using off by (auto simp: find_None_iff)
    with True show ?thesis by simp
  next
    case False
    with ih show ?thesis by auto
  qed
qed simp

lemma discover_ranks: "ranked (bm_devices (discover i v bm))"
  by (simp add: discover_def ranked_stable_sort)

section \<open>Properties\<close>

text \<open>
  C38: after discovery the selector returns the first device in the ranking that is available and that no
  device outscores, unavailable ones included, at their score of -1. Only when there is none, that is
  when every available device scores below an unavailable one, it returns the CPU. The
  result is always available and one of the three discovered.\<close>

theorem selectDevice_sound:
  "(let ds = bm_devices (discover i v bm); r = selectDevice (discover i v bm) h in
     r = (case find (\<lambda>d. dv_is_available d \<and> list_all (\<lambda>e. scoreDevice e h \<le> scoreDevice d h) ds) ds of
            Some d \<Rightarrow> d | None \<Rightarrow> discoverCPU i) \<and>
     dv_is_available r \<and> r \<in> {discoverCPU i, discoverVulkan v, discoverCUDA i} \<and>
     set ds = {discoverCPU i, discoverVulkan v, discoverCUDA i})"
proof -
  let ?bm = "discover i v bm"
  let ?ds = "bm_devices ?bm"
  have cpu: "cpu_fallback ?bm = discoverCPU i" by (simp add: cpu_fallback_def getDevice_discover)
  have ds: "set ?ds = {discoverCPU i, discoverVulkan v, discoverCUDA i}"
    by (simp add: discover_def set_stable_sort)
  have r: "selectDevice ?bm h = (case find (\<lambda>d. dv_is_available d \<and> best_scored h ?ds d) ?ds of
      Some d \<Rightarrow> d | None \<Rightarrow> discoverCPU i)"
    unfolding ranked_find [OF discover_ranks] selectDevice_def select_first cpu
    by (simp split: option.split)
  have "dv_is_available (selectDevice ?bm h) \<and> selectDevice ?bm h \<in> set ?ds"
  proof (cases "find (\<lambda>d. dv_is_available d \<and> best_scored h ?ds d) ?ds")
    case None
    then show ?thesis using r ds by (simp add: discoverCPU_def)
  next
    case (Some d)
    then have "dv_is_available d \<and> d \<in> set ?ds" by (auto simp: find_Some_iff)
    then show ?thesis using r Some by simp
  qed
  then show ?thesis using r ds unfolding Let_def best_scored_def by simp
qed

definition example_hardware :: HardwareInfo where
  "example_hardware = \<lparr>hw_cpu = cpu_info_default\<lparr>ci_physical_cores := 4\<rparr>,
     hw_memory = memory_info_default\<lparr>mi_available_physical_mb := 1\<rparr>, hw_gpus = [],
     hw_vulkan = vulkan_info_default, hw_cuda = cuda_info_default\<lparr>cu_available := False\<rparr>\<rparr>"

definition example_vulkan :: VulkanProbe where
  "example_vulkan = \<lparr>vb_isAvailable = True, vb_initialize = True, vb_lastError = [], vb_deviceName = ''GPU'',
     vb_physicalDevice = Some \<lparr>vp_heaps = [(True, 4096)], vp_api_major = 1, vp_api_minor = 3, vp_driver_version = 1\<rparr>\<rparr>"

text \<open>An ordinary task goes to the graphics card. A task that fits into no device makes both available
  devices score below the missing CUDA device, and the CPU is returned.\<close>

theorem selectDevice_sound_witness:
  "selectDevice (discover example_hardware example_vulkan backend_manager_init) hint_default = discoverVulkan example_vulkan \<and>
   selectDevice (discover example_hardware example_vulkan backend_manager_init) (hint_default\<lparr>wh_required_memory := 5000000\<rparr>) =
     discoverCPU example_hardware"
proof -
  let ?c = "discoverCPU example_hardware" and ?v = "discoverVulkan example_vulkan" and ?n = "discoverCUDA example_hardware"
  let ?big = "hint_default\<lparr>wh_required_memory := 5000000\<rparr>"
  have av: "dv_is_available ?v" "dv_is_available ?c" "\<not> dv_is_available ?n" by code_simp+
  have "dv_compute_score ?c < dv_compute_score ?v" by code_simp
  then have ds: "bm_devices (discover example_hardware example_vulkan backend_manager_init) = [?v, ?c, ?n]"
    using av by (simp add: discover_def stable_sort_def device_before_def)
  have "scoreDevice ?v hint_default > scoreDevice ?c hint_default" "scoreDevice ?v hint_default > - 1"
    "scoreDevice ?v ?big < - 1" "scoreDevice ?c ?big < - 1" by code_simp+
  then show ?thesis
    using selectDevice_sound [of example_hardware example_vulkan backend_manager_init hint_default]
      selectDevice_sound [of example_hardware example_vulkan backend_manager_init ?big] av
    by (simp add: Let_def ds scoreDevice_def [of ?n])
qed

text \<open>
  discovery keeps exactly the three backends and ranks them: available devices first, then by
  falling score.
\<close>

lemma discover_ranked:
  "set (bm_devices (discover i v bm)) = {discoverCPU i, discoverVulkan v, discoverCUDA i} \<and>
   sorted_wrt (\<lambda>a b. (dv_is_available b \<and> \<not> dv_is_available a \<or>
      dv_is_available a = dv_is_available b \<and> dv_compute_score b > dv_compute_score a) = False)
     (bm_devices (discover i v bm))"
proof -
  have eq: "(\<lambda>a b. (dv_is_available b \<and> \<not> dv_is_available a \<or>
      dv_is_available a = dv_is_available b \<and> dv_compute_score b > dv_compute_score a) = False) =
      (\<lambda>a b. \<not> device_before b a)"
    by (auto simp: fun_eq_iff device_before_def)
  have "ranked (bm_devices (discover i v bm))" by (simp add: discover_def ranked_stable_sort)
  then show ?thesis unfolding eq ranked_def by (simp add: discover_def set_stable_sort)
qed

end
