(* ===== verification/Analysis.thy ===== *)
theory Analysis
  imports Backend
begin

text \<open>
  Model analysis: requirements of a model and how the inspector estimates them
  (\<open>src/analysis/ModelRequirements.h\<close>, \<open>src/analysis/GGUFInspector.cpp\<close>), the capability report
  and its text (\<open>src/analysis/CapabilityReport.h\<close>, \<open>.cpp\<close>) and the analyzer that fills it from the
  engine registry and the discovered devices (\<open>src/analysis/CapabilityAnalyzer.cpp\<close>). What
  llama.cpp and the file system answer about a model file is an input.
\<close>

section \<open>Requirements\<close>

datatype QuantizationType =
    F32 | F16 | BF16 | Q8 | Q6 | Q5 | Q4 | Q3 | Q2 | UNKNOWN

fun toString_QuantizationType :: "QuantizationType \<Rightarrow> string" where
  "toString_QuantizationType QuantizationType.F32 = ''F32''"
| "toString_QuantizationType QuantizationType.F16 = ''F16''"
| "toString_QuantizationType QuantizationType.BF16 = ''BF16''"
| "toString_QuantizationType QuantizationType.Q8 = ''Q8''"
| "toString_QuantizationType QuantizationType.Q6 = ''Q6''"
| "toString_QuantizationType QuantizationType.Q5 = ''Q5''"
| "toString_QuantizationType QuantizationType.Q4 = ''Q4''"
| "toString_QuantizationType QuantizationType.Q3 = ''Q3''"
| "toString_QuantizationType QuantizationType.Q2 = ''Q2''"
| "toString_QuantizationType QuantizationType.UNKNOWN = ''UNKNOWN''"

record ModelRequirements =
  rq_source_path :: string
  rq_format :: ModelFormat
  rq_architecture :: "string option"
  rq_parameter_count :: "u64 option"
  rq_file_size_bytes :: "u64 option"
  rq_estimated_memory_bytes :: "u64 option"
  rq_layer_count :: "u32 option"
  rq_context_length :: "u32 option"
  rq_quantization :: QuantizationType
  rq_modality :: ModelModality
  rq_required_capabilities :: EngineCapabilitySet

definition requirements_default :: ModelRequirements where
  "requirements_default = \<lparr>rq_source_path = [], rq_format = ModelFormat.UNKNOWN,
     rq_architecture = None, rq_parameter_count = None, rq_file_size_bytes = None,
     rq_estimated_memory_bytes = None, rq_layer_count = None, rq_context_length = None,
     rq_quantization = QuantizationType.UNKNOWN, rq_modality = ModelModality.UNKNOWN,
     rq_required_capabilities = cap_empty\<rparr>"

section \<open>Inspection\<close>

definition toupper :: "char \<Rightarrow> char" where
  "toupper c = (let n = of_char c :: nat in if 97 \<le> n \<and> n \<le> 122 then char_of (n - 32) else c)"

fun contains :: "string \<Rightarrow> string \<Rightarrow> bool" where
  "contains pat [] = (pat = [])"
| "contains pat (c # s) = (take (length pat) (c # s) = pat \<or> contains pat s)"

definition contains_any :: "string list \<Rightarrow> string \<Rightarrow> bool" where
  "contains_any pats s = list_ex (\<lambda>p. contains p s) pats"

definition inferQuantization :: "string \<Rightarrow> QuantizationType" where
  "inferQuantization path = (let upper_path = map toupper path in
     if contains_any [''Q4_K_M'', ''Q4_K_S'', ''Q4_0'', ''Q4_1'', ''Q4''] upper_path then QuantizationType.Q4
     else if contains_any [''Q8_0'', ''Q8''] upper_path then QuantizationType.Q8
     else if contains_any [''Q6_K'', ''Q6''] upper_path then QuantizationType.Q6
     else if contains_any [''Q5_K'', ''Q5''] upper_path then QuantizationType.Q5
     else if contains_any [''Q3_K'', ''Q3''] upper_path then QuantizationType.Q3
     else if contains_any [''Q2_K'', ''Q2''] upper_path then QuantizationType.Q2
     else if contains_any [''F16'', ''FP16''] upper_path then QuantizationType.F16
     else if contains_any [''F32'', ''FP32''] upper_path then QuantizationType.F32
     else if contains_any [''BF16''] upper_path then QuantizationType.BF16
     else QuantizationType.UNKNOWN)"

text \<open>What llama.cpp reports of a model it could load.\<close>

record LlamaMeta =
  lm_n_params :: u64
  lm_n_layer :: u32
  lm_n_ctx_train :: u32
  lm_architecture :: "string option"

definition inspect_meta :: "LlamaMeta \<Rightarrow> ModelRequirements \<Rightarrow> ModelRequirements" where
  "inspect_meta m req = (let
     req = (if lm_n_params m > 0 then req\<lparr>rq_parameter_count := Some (lm_n_params m)\<rparr> else req);
     req = (if lm_n_layer m > 0 then req\<lparr>rq_layer_count := Some (lm_n_layer m)\<rparr> else req);
     req = (if lm_n_ctx_train m > 0 then req\<lparr>rq_context_length := Some (lm_n_ctx_train m)\<rparr> else req)
   in case lm_architecture m of
     None \<Rightarrow> req
   | Some arch \<Rightarrow> let req = req\<lparr>rq_architecture := Some arch\<rparr> in
       if arch = ''llava'' \<or> arch = ''clip'' then
         req\<lparr>rq_modality := ModelModality.VISION,
           rq_required_capabilities := cap_add EngineCapability.VISION (rq_required_capabilities req)\<rparr>
       else req)"

definition u64_of_dbl :: "rat \<Rightarrow> u64" where
  "u64_of_dbl x = of_int \<lfloor>x\<rfloor>"

definition kv_cache_estimate :: "u64 \<Rightarrow> u64 option \<Rightarrow> u32 option \<Rightarrow> u64" where
  "kv_cache_estimate base_mem params ctx = (case (params, ctx) of
     (Some p, Some c) \<Rightarrow> let
       billions = dbl (dbl_of_u64 p / 1000000000);
       context_k = dbl (dbl_of_u32 c / 1024)
     in u64_of_dbl (dbl (dbl (dbl (dbl (billions * context_k) * 150) * 1024) * 1024))
   | _ \<Rightarrow> u64_of_dbl (dbl (dbl_of_u64 base_mem * dbl (1 / 5))))"

definition inspect :: "string \<Rightarrow> u64 option \<Rightarrow> LlamaMeta option \<Rightarrow> ModelRequirements" where
  "inspect model_path file_size meta = (let
     req = requirements_default\<lparr>rq_source_path := model_path, rq_format := ModelFormat.GGUF,
       rq_modality := ModelModality.TEXT,
       rq_required_capabilities := cap_add EngineCapability.TEXT_GENERATION cap_empty,
       rq_file_size_bytes := file_size, rq_quantization := inferQuantization model_path\<rparr>;
     req = (case meta of None \<Rightarrow> req | Some m \<Rightarrow> inspect_meta m req)
   in case rq_file_size_bytes req of
     None \<Rightarrow> req
   | Some base_mem \<Rightarrow> let
       workspace = 256 * 1024 * 1024;
       kv = kv_cache_estimate base_mem (rq_parameter_count req) (rq_context_length req)
     in req\<lparr>rq_estimated_memory_bytes := Some (base_mem + workspace + kv)\<rparr>)"

section \<open>The capability report\<close>

record EngineCompatibility =
  ec_engine_name :: string
  ec_supported :: bool
  ec_reason :: string

record DeviceCompatibility =
  dc_device_name :: string
  dc_backend_type :: string
  dc_available :: bool
  dc_supported :: bool
  dc_memory_capacity :: u64
  dc_reason :: string

record ResourceFeasibility =
  rf_full_residency_feasible :: bool
  rf_streaming_potentially_feasible :: bool
  rf_memory_bottleneck_reason :: string

record CapabilityReport =
  cr_model :: ModelRequirements
  cr_engines :: "EngineCompatibility list"
  cr_devices :: "DeviceCompatibility list"
  cr_resources :: ResourceFeasibility
  cr_warnings :: "string list"
  cr_historical_observations_available :: bool

definition dc_default :: DeviceCompatibility where
  "dc_default = \<lparr>dc_device_name = [], dc_backend_type = [], dc_available = False,
     dc_supported = False, dc_memory_capacity = 0, dc_reason = []\<rparr>"

definition fixed2 :: "rat \<Rightarrow> string" where
  "fixed2 x = (let n = nat (rne (x * 100)) in
     digits_of (n div 100) @ ''.'' @ digits_of (n mod 100 div 10) @ digits_of (n mod 10))"

definition engine_line :: "EngineCompatibility \<Rightarrow> string" where
  "engine_line e = ''  '' @ ec_engine_name e @ '': '' @
     (if ec_supported e then ''COMPATIBLE'' else ''INCOMPATIBLE'') @ nl @
     (if \<not> ec_supported e \<and> ec_reason e \<noteq> [] then ''    Reason: '' @ ec_reason e @ nl else [])"

definition device_line :: "DeviceCompatibility \<Rightarrow> string" where
  "device_line d = ''  '' @ dc_backend_type d @ '' ('' @ dc_device_name d @ ''): '' @
     (if \<not> dc_available d then ''UNAVAILABLE'' @ nl @
        (if dc_reason d \<noteq> [] then ''    Reason: '' @ dc_reason d @ nl else [])
      else (if dc_supported d then ''FEASIBLE'' else ''INFEASIBLE'') @ nl @
        (if \<not> dc_supported d \<and> dc_reason d \<noteq> [] then ''    Reason: '' @ dc_reason d @ nl else []))"

definition report_model :: "ModelRequirements \<Rightarrow> string" where
  "report_model m = ''Model:'' @ nl @
     ''  Format: '' @ toString_ModelFormat (rq_format m) @ nl @
     ''  Architecture: '' @ (case rq_architecture m of None \<Rightarrow> ''unknown'' | Some a \<Rightarrow> a) @ nl @
     (case rq_parameter_count m of
        Some p \<Rightarrow> ''  Parameters: '' @ fixed2 (dbl (dbl_of_u64 p / 1000000000)) @ ''B'' @ nl
      | None \<Rightarrow> ''  Parameters: unknown'' @ nl) @
     ''  Quantization: '' @ toString_QuantizationType (rq_quantization m) @ nl @
     ''  Modality: '' @ toString_ModelModality (rq_modality m) @ nl @
     (case rq_context_length m of
        Some c \<Rightarrow> ''  Context Length: '' @ word_str c @ nl | None \<Rightarrow> []) @
     nl @ ''Memory:'' @ nl @
     (case rq_file_size_bytes m of
        Some b \<Rightarrow> ''  File size: '' @ word_str (b div (1024 * 1024)) @ '' MB'' @ nl | None \<Rightarrow> []) @
     (case rq_estimated_memory_bytes m of
        Some b \<Rightarrow> ''  Estimated required memory: '' @ word_str (b div (1024 * 1024)) @ '' MB'' @ nl
      | None \<Rightarrow> ''  Estimated required memory: unknown'' @ nl)"

definition report_formatToString :: "CapabilityReport \<Rightarrow> string" where
  "report_formatToString r = ''Model Analysis'' @ nl @ ''=============='' @ nl @ nl @
     report_model (cr_model r) @
     nl @ ''Engines:'' @ nl @ (if cr_engines r = [] then ''  None registered.'' @ nl else []) @
     concat (map engine_line (cr_engines r)) @
     nl @ ''Devices:'' @ nl @ concat (map device_line (cr_devices r)) @
     nl @ ''Resource Feasibility:'' @ nl @
     (if rf_full_residency_feasible (cr_resources r) then ''  Full Residency: FEASIBLE'' @ nl
      else ''  Full Residency: INFEASIBLE'' @ nl @
        (if rf_memory_bottleneck_reason (cr_resources r) = [] then []
         else ''    Reason: '' @ rf_memory_bottleneck_reason (cr_resources r) @ nl)) @
     ''  Streaming: '' @ (if rf_streaming_potentially_feasible (cr_resources r)
       then ''POTENTIALLY FEASIBLE'' else ''INFEASIBLE'') @ nl @
     (if cr_warnings r = [] then [] else nl @ ''Warnings / Limitations:'' @ nl @
        concat (map (\<lambda>w. ''  * '' @ w @ nl) (cr_warnings r))) @
     (if cr_historical_observations_available r
      then nl @ ''[Historical observations available for this model]'' @ nl else []) @
     nl @ ''Execution planning:'' @ nl @ ''  NOT PERFORMED'' @ nl"

section \<open>The analyzer\<close>

definition engine_compat ::
    "ModelRequirements \<Rightarrow> ExecutionEngineRegistry \<Rightarrow> string \<Rightarrow> EngineCompatibility" where
  "engine_compat req reg key = (case create_engine reg key of
     None \<Rightarrow> \<lparr>ec_engine_name = key, ec_supported = False,
       ec_reason = ''Failed to instantiate engine for capability check.''\<rparr>
   | Some engine \<Rightarrow> let
       supports_format = (key = ''llama.cpp'' \<and> rq_format req = ModelFormat.GGUF);
       ecaps = ie_capabilities engine;
       capabilities_match = True;
       capabilities_match = (if cap_has (rq_required_capabilities req) EngineCapability.TEXT_GENERATION \<and>
         \<not> cap_has ecaps EngineCapability.TEXT_GENERATION then False else capabilities_match);
       capabilities_match = (if cap_has (rq_required_capabilities req) EngineCapability.VISION \<and>
         \<not> cap_has ecaps EngineCapability.VISION then False else capabilities_match)
     in if \<not> supports_format then \<lparr>ec_engine_name = key, ec_supported = False,
            ec_reason = ''Engine does not support the model format.''\<rparr>
        else if \<not> capabilities_match then \<lparr>ec_engine_name = key, ec_supported = False,
            ec_reason = ''Engine lacks required capabilities for this model.''\<rparr>
        else \<lparr>ec_engine_name = key, ec_supported = True, ec_reason = []\<rparr>)"

definition cpu_compat :: "BackendManager \<Rightarrow> HardwareInfo \<Rightarrow> DeviceCompatibility" where
  "cpu_compat bm hw = (let
     dev = dc_default\<lparr>dc_backend_type := ''CPU'', dc_device_name := ci_model_name (hw_cpu hw)\<rparr>
   in case getDevice bm ComputeBackend.CPU of
     Some b \<Rightarrow> if dv_is_available b then dev\<lparr>dc_available := True, dc_supported := True,
         dc_memory_capacity := mi_available_physical_mb (hw_memory hw) * 1024 * 1024\<rparr>
       else dev\<lparr>dc_reason := ''CPU backend not initialized.''\<rparr>
   | None \<Rightarrow> dev\<lparr>dc_reason := ''CPU backend not initialized.''\<rparr>)"

definition accel_compat ::
    "ComputeBackend \<Rightarrow> string \<Rightarrow> string \<Rightarrow> BackendManager \<Rightarrow> DeviceCompatibility" where
  "accel_compat b ty reason bm = (let
     dev = dc_default\<lparr>dc_backend_type := ty\<rparr>;
     missing = dev\<lparr>dc_device_name := ''Unknown'', dc_reason := reason\<rparr>
   in case getDevice bm b of
     Some d \<Rightarrow> if dv_is_available d then dev\<lparr>dc_device_name := dv_name d, dc_available := True,
         dc_supported := True, dc_memory_capacity := dv_memory_capacity d\<rparr>
       else missing
   | None \<Rightarrow> missing)"

definition device_compats :: "BackendManager option \<Rightarrow> HardwareInfo \<Rightarrow> DeviceCompatibility list" where
  "device_compats backend_mgr hw = (case backend_mgr of
     None \<Rightarrow> []
   | Some bm \<Rightarrow> [cpu_compat bm hw,
       accel_compat ComputeBackend.VULKAN ''Vulkan'' ''Vulkan backend is unavailable on this machine.'' bm,
       accel_compat ComputeBackend.CUDA ''CUDA'' ''CUDA backend is unavailable on this machine.'' bm])"

definition max_device_mem :: "DeviceCompatibility list \<Rightarrow> u64" where
  "max_device_mem ds = fold (\<lambda>d m. if dc_available d \<and> dc_supported d \<and> dc_memory_capacity d > m
     then dc_memory_capacity d else m) ds 0"

definition feasibility :: "ModelRequirements \<Rightarrow> DeviceCompatibility list \<Rightarrow> ResourceFeasibility" where
  "feasibility req ds = (case rq_estimated_memory_bytes req of
     None \<Rightarrow> \<lparr>rf_full_residency_feasible = False, rf_streaming_potentially_feasible = False,
       rf_memory_bottleneck_reason =
         ''Cannot determine feasibility because model memory requirement is unknown.''\<rparr>
   | Some req_mem \<Rightarrow> let
       m = max_device_mem ds;
       full = (m \<ge> req_mem);
       reason = (if full then [] else ''Estimated required memory exceeds maximum available device memory.'');
       streaming = (m \<ge> 1024 * 1024 * 1024);
       reason = (if streaming then reason else ''Insufficient memory for even streaming configuration.'')
     in \<lparr>rf_full_residency_feasible = full, rf_streaming_potentially_feasible = streaming,
         rf_memory_bottleneck_reason = reason\<rparr>)"

definition analyze ::
    "ModelRequirements \<Rightarrow> ExecutionEngineRegistry \<Rightarrow> BackendManager option \<Rightarrow> HardwareInfo \<Rightarrow> CapabilityReport" where
  "analyze req reg backend_mgr hw = (let devices = device_compats backend_mgr hw in
     \<lparr>cr_model = req, cr_engines = map (engine_compat req reg) (registeredKeys reg),
      cr_devices = devices, cr_resources = feasibility req devices, cr_warnings = [],
      cr_historical_observations_available = False\<rparr>)"

section \<open>Lemmas\<close>

lemma contains_suffix: "contains (c # pat) s \<Longrightarrow> contains pat s"
proof (induction s)
  case (Cons d s)
  show ?case
  proof (cases "contains (c # pat) s")
    case True
    with Cons.IH show ?thesis by simp
  next
    case False
    with Cons.prems have "take (length pat) s = pat" by simp
    then have "contains pat s" by (cases s) auto
    then show ?thesis by simp
  qed
qed simp

lemma max_device_mem_fold:
  "fold (\<lambda>d m. if dc_available d \<and> dc_supported d \<and> dc_memory_capacity d > m
     then dc_memory_capacity d else m) ds m0 \<ge> b \<longleftrightarrow>
   m0 \<ge> b \<or> (\<exists>d\<in>set ds. dc_available d \<and> dc_supported d \<and> dc_memory_capacity d \<ge> b)"
  by (induction ds arbitrary: m0) auto

lemma max_device_mem_ge:
  "b \<noteq> 0 \<Longrightarrow> max_device_mem ds \<ge> b \<longleftrightarrow>
   (\<exists>d\<in>set ds. dc_available d \<and> dc_supported d \<and> dc_memory_capacity d \<ge> b)"
  unfolding max_device_mem_def max_device_mem_fold by simp

section \<open>Properties\<close>

text \<open>
  No path is ever classified as BF16: the test for F16 comes first and every path that names
  BF16 also contains F16.
\<close>

lemma bf16_never_inferred: "inferQuantization path \<noteq> QuantizationType.BF16"
proof
  let ?u = "map toupper path"
  assume bf: "inferQuantization path = QuantizationType.BF16"
  then have "contains ''BF16'' ?u" "\<not> contains ''F16'' ?u"
    by (simp_all add: inferQuantization_def contains_any_def Let_def split: if_splits)
  then show False using contains_suffix by blast
qed

text \<open>
  C40: the report calls full residency feasible exactly when some usable device holds the model,
  lists every registered engine once, and calls an engine compatible exactly when it is
  llama.cpp, can be created, reads GGUF and has the text and vision capabilities asked for.
\<close>

theorem analyze_sound:
  assumes "rq_estimated_memory_bytes req = Some bytes" "bytes \<noteq> 0"
  shows "rf_full_residency_feasible (cr_resources (analyze req reg bm hw)) =
      list_ex (\<lambda>d. dc_available d \<and> dc_supported d \<and> dc_memory_capacity d \<ge> bytes)
        (cr_devices (analyze req reg bm hw)) \<and>
    map ec_engine_name (cr_engines (analyze req reg bm hw)) = registeredKeys reg \<and>
    map ec_engine_name (filter ec_supported (cr_engines (analyze req reg bm hw))) =
      filter (\<lambda>k. k = ''llama.cpp'' \<and> rq_format req = ModelFormat.GGUF \<and>
        (case create_engine reg k of None \<Rightarrow> False | Some e \<Rightarrow>
          list_all (\<lambda>c. cap_has (ie_capabilities e) c \<or> \<not> cap_has (rq_required_capabilities req) c)
            [EngineCapability.TEXT_GENERATION, EngineCapability.VISION])) (registeredKeys reg)"
proof -
  have f: "filter P (map f xs) = map f (filter (\<lambda>x. P (f x)) xs)" for P f and xs :: "string list"
    by (induction xs) auto
  have name: "ec_engine_name (engine_compat req reg k) = k" for k
    by (simp add: engine_compat_def Let_def split: option.split)
  have sup: "ec_supported (engine_compat req reg k) \<longleftrightarrow> k = ''llama.cpp'' \<and> rq_format req = ModelFormat.GGUF \<and>
        (case create_engine reg k of None \<Rightarrow> False | Some e \<Rightarrow>
          list_all (\<lambda>c. cap_has (ie_capabilities e) c \<or> \<not> cap_has (rq_required_capabilities req) c)
            [EngineCapability.TEXT_GENERATION, EngineCapability.VISION])" for k
    by (auto simp: engine_compat_def Let_def split: option.split)
  show ?thesis
    using max_device_mem_ge [OF assms(2)] assms(1)
    by (simp add: analyze_def feasibility_def Let_def f name sup comp_def list_ex_iff)
qed

theorem analyze_sound_witness:
  "map ec_engine_name (filter ec_supported (cr_engines (analyze
     (requirements_default\<lparr>rq_estimated_memory_bytes := Some 1, rq_format := ModelFormat.GGUF\<rparr>)
     (registry_init (Some \<lparr>ie_identity = \<lparr>ei_name = [], ei_version = [], ei_type = [],
        ei_author = [], ei_registry_key = []\<rparr>, ie_capabilities = cap_empty\<rparr>)) None
     (detectAll \<lparr>dt_cpu = None, dt_memory = None, dt_gpus = None, dt_vulkan = None, dt_cuda = None\<rparr>))))
   = [''llama.cpp'']"
  by (subst analyze_sound [where bytes = 1, THEN conjunct2, THEN conjunct2])
    (simp_all add: requirements_default_def registry_init_def registerFactory_def registeredKeys_def
      keys_of_def create_engine_def cap_has_def cap_empty_def)

end
