(* ===== verification/Planner.thy ===== *)
theory Planner
  imports Analysis "HOL-Library.List_Lexorder" "HOL-Library.Char_ord"
begin

text \<open>
  The execution planner (\<open>src/planner/ExecutionPlan.h\<close>, \<open>src/planner/ExecutionPlanner.cpp\<close>): it
  turns a model's requirements, a capability report and the engine registry into a placement
  decision. A pointer to a device of the report is the device's position in it, so that
  comparing pointers compares positions; strings are ordered as \<open>std::string\<close> orders them.
\<close>

abbreviation quote :: string where
  "quote \<equiv> [char_of (39::nat)]"

section \<open>Plans\<close>

datatype ExecutionMode =
    CPU | VULKAN | CUDA | HYBRID | UNSUPPORTED

fun toString_ExecutionMode :: "ExecutionMode \<Rightarrow> string" where
  "toString_ExecutionMode ExecutionMode.CPU = ''CPU''"
| "toString_ExecutionMode ExecutionMode.VULKAN = ''Vulkan''"
| "toString_ExecutionMode ExecutionMode.CUDA = ''CUDA''"
| "toString_ExecutionMode ExecutionMode.HYBRID = ''HYBRID''"
| "toString_ExecutionMode ExecutionMode.UNSUPPORTED = ''UNSUPPORTED''"

datatype PlanReason =
    VULKAN_FEASIBLE | CUDA_FEASIBLE | ACCELERATOR_MEMORY_SUFFICIENT
    | ACCELERATOR_MEMORY_INSUFFICIENT | ENGINE_UNAVAILABLE | ENGINE_REJECTED
    | CPU_FALLBACK | STREAMING_REQUIRED | UNSUPPORTED_MODEL | UNKNOWN_MEMORY
    | INSUFFICIENT_RAM | NO_REGISTERED_ENGINES | INVALID_CONFIGURATION
    | CONTRADICTORY_CAPABILITY | FUTURE_CAPABILITY | PARTIAL_RESIDENCY
    | QUANTIZATION_UNKNOWN

fun toString_PlanReason :: "PlanReason \<Rightarrow> string" where
  "toString_PlanReason PlanReason.VULKAN_FEASIBLE = ''PLAN_REASON_VULKAN_FEASIBLE''"
| "toString_PlanReason PlanReason.CUDA_FEASIBLE = ''PLAN_REASON_CUDA_FEASIBLE''"
| "toString_PlanReason PlanReason.ACCELERATOR_MEMORY_SUFFICIENT = ''PLAN_REASON_ACCELERATOR_MEMORY_SUFFICIENT''"
| "toString_PlanReason PlanReason.ACCELERATOR_MEMORY_INSUFFICIENT = ''PLAN_REASON_ACCELERATOR_MEMORY_INSUFFICIENT''"
| "toString_PlanReason PlanReason.ENGINE_UNAVAILABLE = ''PLAN_REASON_ENGINE_UNAVAILABLE''"
| "toString_PlanReason PlanReason.ENGINE_REJECTED = ''PLAN_REASON_ENGINE_REJECTED''"
| "toString_PlanReason PlanReason.CPU_FALLBACK = ''PLAN_REASON_CPU_FALLBACK''"
| "toString_PlanReason PlanReason.STREAMING_REQUIRED = ''PLAN_REASON_STREAMING_REQUIRED''"
| "toString_PlanReason PlanReason.UNSUPPORTED_MODEL = ''PLAN_REASON_UNSUPPORTED_MODEL''"
| "toString_PlanReason PlanReason.UNKNOWN_MEMORY = ''PLAN_REASON_UNKNOWN_MEMORY''"
| "toString_PlanReason PlanReason.INSUFFICIENT_RAM = ''PLAN_REASON_INSUFFICIENT_RAM''"
| "toString_PlanReason PlanReason.NO_REGISTERED_ENGINES = ''PLAN_REASON_NO_REGISTERED_ENGINES''"
| "toString_PlanReason PlanReason.INVALID_CONFIGURATION = ''PLAN_REASON_INVALID_CONFIGURATION''"
| "toString_PlanReason PlanReason.CONTRADICTORY_CAPABILITY = ''PLAN_REASON_CONTRADICTORY_CAPABILITY''"
| "toString_PlanReason PlanReason.FUTURE_CAPABILITY = ''PLAN_REASON_FUTURE_CAPABILITY''"
| "toString_PlanReason PlanReason.PARTIAL_RESIDENCY = ''PLAN_REASON_PARTIAL_RESIDENCY''"
| "toString_PlanReason PlanReason.QUANTIZATION_UNKNOWN = ''PLAN_REASON_QUANTIZATION_UNKNOWN''"

record ModelExecutionPlan =
  pl_viable :: bool
  pl_executable :: bool
  pl_engine_key :: string
  pl_mode :: ExecutionMode
  pl_residency :: ExecutionStrategy
  pl_fallback :: ExecutionStrategy
  pl_streaming_required :: bool
  pl_memory_budget_bytes :: u64
  pl_estimated_model_memory_bytes :: u64
  pl_gpu_layer_budget :: "u32 option"
  pl_context_limit :: "u32 option"
  pl_confidence :: int
  pl_reasons :: "PlanReason list"
  pl_explanation :: string
  pl_warnings :: "string list"
  pl_rejected_engines :: "string list"

definition plan_default :: ModelExecutionPlan where
  "plan_default = \<lparr>pl_viable = False, pl_executable = False, pl_engine_key = [],
     pl_mode = ExecutionMode.UNSUPPORTED, pl_residency = ExecutionStrategy.AUTO,
     pl_fallback = ExecutionStrategy.AUTO, pl_streaming_required = False,
     pl_memory_budget_bytes = 0, pl_estimated_model_memory_bytes = 0, pl_gpu_layer_budget = None,
     pl_context_limit = None, pl_confidence = 0, pl_reasons = [], pl_explanation = [],
     pl_warnings = [], pl_rejected_engines = []\<rparr>"

record PlannerConfig =
  pc_allow_accelerator :: bool
  pc_allow_partial_residency :: bool
  pc_allow_streaming_plan :: bool
  pc_allow_cpu_fallback :: bool
  pc_context_ceiling :: u32

definition config_default :: PlannerConfig where
  "config_default = \<lparr>pc_allow_accelerator = True, pc_allow_partial_residency = True,
     pc_allow_streaming_plan = True, pc_allow_cpu_fallback = True, pc_context_ceiling = 0\<rparr>"

definition hasReason :: "ModelExecutionPlan \<Rightarrow> PlanReason \<Rightarrow> bool" where
  "hasReason plan reason \<longleftrightarrow> reason \<in> set (pl_reasons plan)"

definition addReason :: "PlanReason \<Rightarrow> ModelExecutionPlan \<Rightarrow> ModelExecutionPlan" where
  "addReason reason plan = (if \<not> hasReason plan reason
     then plan\<lparr>pl_reasons := pl_reasons plan @ [reason]\<rparr> else plan)"

definition add_warning :: "string \<Rightarrow> ModelExecutionPlan \<Rightarrow> ModelExecutionPlan" where
  "add_warning w plan = plan\<lparr>pl_warnings := pl_warnings plan @ [w]\<rparr>"

definition plan_formatToString :: "ModelExecutionPlan \<Rightarrow> string" where
  "plan_formatToString p = ''Execution Plan'' @ nl @ ''=============='' @ nl @ nl @
     ''Engine:     '' @ (if pl_engine_key p = [] then ''(none)'' else pl_engine_key p) @ nl @
     ''Mode:       '' @ toString_ExecutionMode (pl_mode p) @ nl @
     ''Residency:  '' @ toString_ExecutionStrategy (pl_residency p) @ nl @
     ''Viable:     '' @ (if pl_viable p then ''yes'' else ''no'') @ nl @
     ''Executable: '' @ (if pl_executable p then ''yes'' else ''no'') @ nl @
     ''Memory budget: '' @ word_str (pl_memory_budget_bytes p div (1024 * 1024)) @ '' MB'' @ nl @
     ''Model memory:  '' @ word_str (pl_estimated_model_memory_bytes p div (1024 * 1024)) @ '' MB'' @ nl @
     (case pl_gpu_layer_budget p of None \<Rightarrow> [] | Some n \<Rightarrow> ''GPU layers: '' @ word_str n @ nl) @
     (case pl_context_limit p of None \<Rightarrow> [] | Some n \<Rightarrow> ''Context limit: '' @ word_str n @ nl) @
     ''Fallback:   '' @ (if pl_fallback p = ExecutionStrategy.AUTO then ''none''
       else toString_ExecutionStrategy (pl_fallback p)) @ nl @
     ''Streaming required: '' @ (if pl_streaming_required p then ''yes'' else ''no'') @ nl @
     ''Confidence: '' @ digits_of (nat (pl_confidence p)) @ nl @
     nl @ ''Reasons:'' @ nl @
     (if pl_reasons p = [] then ''  (none)'' @ nl
      else concat (map (\<lambda>r. ''  '' @ toString_PlanReason r @ nl) (pl_reasons p))) @
     nl @ ''Explanation:'' @ nl @ ''  '' @ pl_explanation p @ nl @
     nl @ ''Warnings:'' @ nl @
     (if pl_warnings p = [] then ''  (none)'' @ nl
      else concat (map (\<lambda>w. ''  '' @ w @ nl) (pl_warnings p))) @
     (if pl_rejected_engines p = [] then []
      else nl @ ''Rejected engines:'' @ nl @ concat (map (\<lambda>w. ''  '' @ w @ nl) (pl_rejected_engines p)))"

section \<open>Helpers\<close>

definition kPartialResidentPercent :: u64 where
  "kPartialResidentPercent = 15"

type_synonym device_ref = "nat option"

fun find_index :: "('a \<Rightarrow> bool) \<Rightarrow> 'a list \<Rightarrow> nat option" where
  "find_index P [] = None"
| "find_index P (x # xs) = (if P x then Some 0 else map_option Suc (find_index P xs))"

definition findDevice :: "CapabilityReport \<Rightarrow> string \<Rightarrow> device_ref" where
  "findDevice report backend_type = find_index (\<lambda>d. dc_backend_type d = backend_type) (cr_devices report)"

definition device_at :: "CapabilityReport \<Rightarrow> nat \<Rightarrow> DeviceCompatibility" where
  "device_at report i = cr_devices report ! i"

definition capacity_of :: "CapabilityReport \<Rightarrow> nat \<Rightarrow> u64" where
  "capacity_of report i = dc_memory_capacity (device_at report i)"

definition deviceUsable :: "CapabilityReport \<Rightarrow> device_ref \<Rightarrow> bool" where
  "deviceUsable report d = (case d of None \<Rightarrow> False
   | Some i \<Rightarrow> dc_available (device_at report i) \<and> dc_supported (device_at report i))"

definition coversRequired :: "EngineCapabilitySet \<Rightarrow> ModelRequirements \<Rightarrow> bool" where
  "coversRequired caps req = list_all
     (\<lambda>b. \<not> (cap_has (rq_required_capabilities req) b \<and> \<not> cap_has caps b))
     [EngineCapability.TEXT_GENERATION, EngineCapability.EMBEDDINGS, EngineCapability.VISION,
      EngineCapability.AUDIO, EngineCapability.MULTIMODAL]"

fun hasBackend :: "EngineCapabilitySet \<Rightarrow> ExecutionMode \<Rightarrow> bool" where
  "hasBackend caps ExecutionMode.CPU = cap_has caps EngineCapability.BACKEND_CPU"
| "hasBackend caps ExecutionMode.VULKAN = cap_has caps EngineCapability.BACKEND_VULKAN"
| "hasBackend caps ExecutionMode.CUDA = cap_has caps EngineCapability.BACKEND_CUDA"
| "hasBackend caps ExecutionMode.HYBRID = (cap_has caps EngineCapability.BACKEND_CPU \<and>
     (cap_has caps EngineCapability.BACKEND_VULKAN \<or> cap_has caps EngineCapability.BACKEND_CUDA))"
| "hasBackend caps ExecutionMode.UNSUPPORTED = False"

record Candidate =
  cand_key :: string
  cand_caps :: EngineCapabilitySet
  cand_eligible :: bool
  cand_rejection :: string

definition unsupportedPlan :: "PlanReason \<Rightarrow> string \<Rightarrow> ModelExecutionPlan" where
  "unsupportedPlan reason explanation =
     plan_default\<lparr>pl_reasons := [reason], pl_explanation := explanation\<rparr>"

definition select_engine_step ::
    "ExecutionMode \<Rightarrow> Candidate \<Rightarrow> Candidate option \<Rightarrow> Candidate option" where
  "select_engine_step mode c best =
     (if \<not> cand_eligible c then best
      else if \<not> hasBackend (cand_caps c) mode then best
      else case best of None \<Rightarrow> Some c
        | Some b \<Rightarrow> if cand_key c < cand_key b then Some c else best)"

definition selectEngine :: "Candidate list \<Rightarrow> ExecutionMode \<Rightarrow> Candidate option" where
  "selectEngine candidates mode = fold (select_engine_step mode) candidates None"

definition partialLayers :: "ModelRequirements \<Rightarrow> u64 \<Rightarrow> u64 \<Rightarrow> u32" where
  "partialLayers req accelerator_bytes model_bytes = (case rq_layer_count req of
     None \<Rightarrow> 0
   | Some lc \<Rightarrow>
       if lc = 0 \<or> model_bytes = 0 then 0
       else let
         layers = (ucast lc :: u64) * accelerator_bytes div model_bytes;
         layers = (if layers = 0 then 1 else layers);
         layers = (if layers \<ge> ucast lc then ucast lc - 1 else layers);
         layers = (if layers = 0 then 1 else layers)
       in ucast layers)"

section \<open>Candidates\<close>

definition find_listed :: "CapabilityReport \<Rightarrow> string \<Rightarrow> EngineCompatibility option" where
  "find_listed report key = find (\<lambda>e. ec_engine_name e = key) (cr_engines report)"

definition candidate_of ::
    "ModelRequirements \<Rightarrow> CapabilityReport \<Rightarrow> ExecutionEngineRegistry \<Rightarrow> string \<Rightarrow> Candidate" where
  "candidate_of req report reg key = (case create_engine reg key of
     None \<Rightarrow> \<lparr>cand_key = key, cand_caps = cap_empty, cand_eligible = False,
       cand_rejection = key @ '': factory returned no engine''\<rparr>
   | Some engine \<Rightarrow> let
       caps = ie_capabilities engine;
       rejected = (\<lambda>msg. \<lparr>cand_key = key, cand_caps = caps, cand_eligible = False,
         cand_rejection = key @ msg\<rparr>);
       otherwise = (if \<not> coversRequired caps req then rejected '': missing a required engine capability''
         else \<lparr>cand_key = key, cand_caps = caps, cand_eligible = True, cand_rejection = []\<rparr>)
     in case find_listed report key of
       None \<Rightarrow> if cr_engines report \<noteq> [] then rejected '': absent from capability report''
         else otherwise
     | Some listed \<Rightarrow> if \<not> ec_supported listed then rejected ('': '' @
           (if ec_reason listed = [] then ''capability report rejected the engine'' else ec_reason listed))
         else otherwise)"

definition sorted_keys :: "ExecutionEngineRegistry \<Rightarrow> string list" where
  "sorted_keys reg = sort (registeredKeys reg)"

definition candidates_of ::
    "ModelRequirements \<Rightarrow> CapabilityReport \<Rightarrow> ExecutionEngineRegistry \<Rightarrow> Candidate list" where
  "candidates_of req report reg = map (candidate_of req report reg) (sorted_keys reg)"

definition rejections :: "Candidate list \<Rightarrow> string list" where
  "rejections cs = map cand_rejection (filter (\<lambda>c. \<not> cand_eligible c) cs)"

definition failWithRejections ::
    "u64 \<Rightarrow> Candidate list \<Rightarrow> PlanReason \<Rightarrow> string \<Rightarrow> ModelExecutionPlan" where
  "failWithRejections model_bytes cs reason explanation = (let
     plan = (unsupportedPlan reason explanation)\<lparr>pl_estimated_model_memory_bytes := model_bytes,
       pl_rejected_engines := rejections cs\<rparr>
   in if pl_rejected_engines plan \<noteq> [] then addReason PlanReason.ENGINE_REJECTED plan else plan)"

section \<open>Feasibility tests\<close>

definition memory_known :: "ModelRequirements \<Rightarrow> bool" where
  "memory_known req = (case rq_estimated_memory_bytes req of None \<Rightarrow> False | Some b \<Rightarrow> b > 0)"

definition model_bytes_of :: "ModelRequirements \<Rightarrow> u64" where
  "model_bytes_of req = (if memory_known req then the (rq_estimated_memory_bytes req) else 0)"

definition fits :: "ModelRequirements \<Rightarrow> CapabilityReport \<Rightarrow> device_ref \<Rightarrow> bool" where
  "fits req report d = (memory_known req \<and> deviceUsable report d \<and>
     (case d of None \<Rightarrow> False | Some i \<Rightarrow> capacity_of report i \<ge> model_bytes_of req))"

definition partial_fits ::
    "ModelRequirements \<Rightarrow> CapabilityReport \<Rightarrow> PlannerConfig \<Rightarrow> device_ref \<Rightarrow> bool" where
  "partial_fits req report config d =
     (if \<not> pc_allow_partial_residency config \<or> \<not> memory_known req \<or> \<not> deviceUsable report d then False
      else case d of None \<Rightarrow> False | Some i \<Rightarrow>
        if capacity_of report i = 0 \<or> capacity_of report i \<ge> model_bytes_of req then False
        else capacity_of report i * 100 \<ge> model_bytes_of req * kPartialResidentPercent)"

definition cpuFallbackAvailable ::
    "ModelRequirements \<Rightarrow> CapabilityReport \<Rightarrow> PlannerConfig \<Rightarrow> Candidate list \<Rightarrow> bool" where
  "cpuFallbackAvailable req report config cs = (pc_allow_cpu_fallback config \<and>
     fits req report (findDevice report ''CPU'') \<and> selectEngine cs ExecutionMode.CPU \<noteq> None)"

definition finishContext ::
    "ModelRequirements \<Rightarrow> PlannerConfig \<Rightarrow> ModelExecutionPlan \<Rightarrow> ModelExecutionPlan" where
  "finishContext req config plan = (let
     plan = (case rq_context_length req of None \<Rightarrow> plan
       | Some c \<Rightarrow> plan\<lparr>pl_context_limit := Some c\<rparr>)
   in if pc_context_ceiling config > 0 \<and> (case pl_context_limit plan of None \<Rightarrow> True
           | Some c \<Rightarrow> c > pc_context_ceiling config)
      then add_warning ''Context length was clamped to the planner configuration ceiling.''
        (plan\<lparr>pl_context_limit := Some (pc_context_ceiling config)\<rparr>)
      else plan)"

definition noteRejections :: "Candidate list \<Rightarrow> ModelExecutionPlan \<Rightarrow> ModelExecutionPlan" where
  "noteRejections cs plan = plan\<lparr>pl_rejected_engines := pl_rejected_engines plan @ rejections cs\<rparr>"

section \<open>Choosing a placement\<close>

record Choice =
  ch_mode :: ExecutionMode
  ch_residency :: ExecutionStrategy
  ch_device :: device_ref
  ch_executable :: bool
  ch_confidence :: int

definition tryFull ::
    "ModelRequirements \<Rightarrow> CapabilityReport \<Rightarrow> PlannerConfig \<Rightarrow> Candidate list \<Rightarrow>
     ExecutionMode \<Rightarrow> device_ref \<Rightarrow> Choice option \<Rightarrow> Choice option" where
  "tryFull req report config cs mode d chosen =
     (if chosen \<noteq> None \<or> \<not> pc_allow_accelerator config \<or> \<not> fits req report d then chosen
      else if selectEngine cs mode = None then chosen
      else Some \<lparr>ch_mode = mode, ch_residency = ExecutionStrategy.FULL_RESIDENT, ch_device = d,
        ch_executable = True, ch_confidence = 90\<rparr>)"

definition tryPartial ::
    "ModelRequirements \<Rightarrow> CapabilityReport \<Rightarrow> PlannerConfig \<Rightarrow> Candidate list \<Rightarrow>
     ExecutionMode \<Rightarrow> device_ref \<Rightarrow> Choice option \<Rightarrow> Choice option" where
  "tryPartial req report config cs accel_mode d chosen =
     (if chosen \<noteq> None \<or> \<not> pc_allow_accelerator config \<or> \<not> partial_fits req report config d then chosen
      else if selectEngine cs accel_mode = None then chosen
      else Some \<lparr>ch_mode = ExecutionMode.HYBRID, ch_residency = ExecutionStrategy.PARTIAL_RESIDENT,
        ch_device = d, ch_executable = True, ch_confidence = 70\<rparr>)"

definition streaming_engine :: "Candidate list \<Rightarrow> Candidate option" where
  "streaming_engine cs = (case selectEngine cs ExecutionMode.HYBRID of
     Some e \<Rightarrow> Some e
   | None \<Rightarrow> (case selectEngine cs ExecutionMode.VULKAN of
       Some e \<Rightarrow> Some e
     | None \<Rightarrow> (case selectEngine cs ExecutionMode.CUDA of
         Some e \<Rightarrow> Some e
       | None \<Rightarrow> selectEngine cs ExecutionMode.CPU)))"

definition tryStreaming ::
    "CapabilityReport \<Rightarrow> PlannerConfig \<Rightarrow> Candidate list \<Rightarrow> Choice option \<Rightarrow> Choice option" where
  "tryStreaming report config cs chosen = (let
     cpu = findDevice report ''CPU''; vulkan = findDevice report ''Vulkan''; cuda = findDevice report ''CUDA'';
     streaming_possible = (pc_allow_streaming_plan config \<and>
       rf_streaming_potentially_feasible (cr_resources report))
   in if chosen = None \<and> streaming_possible \<and> pc_allow_accelerator config \<and>
          (deviceUsable report vulkan \<or> deviceUsable report cuda) \<and> streaming_engine cs \<noteq> None
      then Some \<lparr>ch_mode = ExecutionMode.HYBRID, ch_residency = ExecutionStrategy.STREAMING,
        ch_device = (if deviceUsable report vulkan then vulkan
          else if deviceUsable report cuda then cuda else cpu),
        ch_executable = False, ch_confidence = 40\<rparr>
      else chosen)"

definition tryCpu ::
    "ModelRequirements \<Rightarrow> CapabilityReport \<Rightarrow> PlannerConfig \<Rightarrow> Candidate list \<Rightarrow>
     Choice option \<Rightarrow> Choice option" where
  "tryCpu req report config cs chosen =
     (if chosen = None \<and> cpuFallbackAvailable req report config cs
      then Some \<lparr>ch_mode = ExecutionMode.CPU, ch_residency = ExecutionStrategy.CPU_FALLBACK,
        ch_device = findDevice report ''CPU'', ch_executable = True, ch_confidence = 80\<rparr>
      else chosen)"

definition choose_placement ::
    "ModelRequirements \<Rightarrow> CapabilityReport \<Rightarrow> PlannerConfig \<Rightarrow> Candidate list \<Rightarrow> Choice option" where
  "choose_placement req report config cs = (let
     vulkan = findDevice report ''Vulkan''; cuda = findDevice report ''CUDA'';
     c = tryFull req report config cs ExecutionMode.CUDA cuda None;
     c = tryFull req report config cs ExecutionMode.VULKAN vulkan c;
     c = tryPartial req report config cs ExecutionMode.CUDA cuda c;
     c = tryPartial req report config cs ExecutionMode.VULKAN vulkan c;
     c = tryStreaming report config cs c
   in tryCpu req report config cs c)"

definition engine_for ::
    "CapabilityReport \<Rightarrow> Candidate list \<Rightarrow> Choice \<Rightarrow> Candidate option" where
  "engine_for report cs c = (let
     engine_mode = (if ch_residency c = ExecutionStrategy.PARTIAL_RESIDENT \<or>
         ch_residency c = ExecutionStrategy.STREAMING
       then (if ch_device c = findDevice report ''CUDA'' then ExecutionMode.CUDA
             else if ch_device c = findDevice report ''Vulkan'' then ExecutionMode.VULKAN
             else ExecutionMode.CPU)
       else ch_mode c)
   in case selectEngine cs engine_mode of
     Some e \<Rightarrow> Some e
   | None \<Rightarrow> if ch_mode c = ExecutionMode.HYBRID then selectEngine cs ExecutionMode.HYBRID else None)"

section \<open>The plan\<close>

definition start_plan :: "ModelRequirements \<Rightarrow> CapabilityReport \<Rightarrow> ModelExecutionPlan" where
  "start_plan req report = (let
     plan = plan_default\<lparr>pl_estimated_model_memory_bytes := model_bytes_of req\<rparr>;
     plan = (if rq_quantization req = QuantizationType.UNKNOWN then
         add_warning ''Quantization is unknown. The plan does not assume a specific quant format.''
           (addReason PlanReason.QUANTIZATION_UNKNOWN plan)
       else plan);
     any_fit = (fits req report (findDevice report ''CPU'') \<or>
       fits req report (findDevice report ''Vulkan'') \<or> fits req report (findDevice report ''CUDA''))
   in if rf_full_residency_feasible (cr_resources report) \<and> \<not> any_fit then
        add_warning ''Capability report says full residency is feasible, but no usable device can hold the model. Device memory is authoritative.''
          (addReason PlanReason.CONTRADICTORY_CAPABILITY plan)
      else plan)"

definition no_memory_plan ::
    "ModelRequirements \<Rightarrow> PlannerConfig \<Rightarrow> Candidate list \<Rightarrow> ModelExecutionPlan \<Rightarrow> ModelExecutionPlan" where
  "no_memory_plan req config cs plan = finishContext req config (noteRejections cs
     (add_warning ''Missing or zero model memory requirement.''
       ((addReason PlanReason.UNKNOWN_MEMORY plan)\<lparr>pl_explanation :=
         ''Model memory requirement is zero or unknown. The planner will not claim accelerator residency or CPU execution without a size.''\<rparr>)))"

definition not_chosen_plan ::
    "ModelRequirements \<Rightarrow> CapabilityReport \<Rightarrow> ModelExecutionPlan \<Rightarrow> ModelExecutionPlan" where
  "not_chosen_plan req report plan = (let
     cpu = findDevice report ''CPU''; vulkan = findDevice report ''Vulkan''; cuda = findDevice report ''CUDA'';
     plan = (if \<not> fits req report cpu \<and> deviceUsable report cpu
       then addReason PlanReason.INSUFFICIENT_RAM plan else plan);
     plan = (if \<not> deviceUsable report cpu \<and> \<not> deviceUsable report vulkan \<and> \<not> deviceUsable report cuda
       then addReason PlanReason.ENGINE_UNAVAILABLE plan else plan);
     plan = (if pl_reasons plan = [] \<or> hd (pl_reasons plan) = PlanReason.QUANTIZATION_UNKNOWN \<or>
         hd (pl_reasons plan) = PlanReason.CONTRADICTORY_CAPABILITY
       then addReason PlanReason.ENGINE_UNAVAILABLE plan else plan)
   in plan\<lparr>pl_explanation := ''No registered engine can execute this model on the reported devices.'',
       pl_confidence := 0\<rparr>)"

definition base_plan :: "CapabilityReport \<Rightarrow> Choice \<Rightarrow> Candidate \<Rightarrow> ModelExecutionPlan \<Rightarrow> ModelExecutionPlan" where
  "base_plan report c engine plan = plan\<lparr>pl_viable := True, pl_executable := ch_executable c,
     pl_engine_key := cand_key engine, pl_mode := ch_mode c, pl_residency := ch_residency c,
     pl_confidence := ch_confidence c,
     pl_memory_budget_bytes := (case ch_device c of None \<Rightarrow> 0 | Some i \<Rightarrow> capacity_of report i),
     pl_streaming_required := (ch_residency c = ExecutionStrategy.STREAMING)\<rparr>"

definition set_fallback :: "bool \<Rightarrow> ModelExecutionPlan \<Rightarrow> ModelExecutionPlan" where
  "set_fallback b plan = (if b then plan\<lparr>pl_fallback := ExecutionStrategy.CPU_FALLBACK\<rparr> else plan)"

definition full_plan ::
    "ModelRequirements \<Rightarrow> bool \<Rightarrow> Choice \<Rightarrow> Candidate \<Rightarrow> ModelExecutionPlan \<Rightarrow> ModelExecutionPlan" where
  "full_plan req cpu_ok c engine plan = (let
     plan = (if ch_mode c = ExecutionMode.CUDA then addReason PlanReason.CUDA_FEASIBLE plan else plan);
     plan = (if ch_mode c = ExecutionMode.VULKAN then addReason PlanReason.VULKAN_FEASIBLE plan else plan);
     plan = addReason PlanReason.ACCELERATOR_MEMORY_SUFFICIENT plan;
     plan = (case rq_layer_count req of None \<Rightarrow> plan | Some n \<Rightarrow> plan\<lparr>pl_gpu_layer_budget := Some n\<rparr>);
     plan = set_fallback cpu_ok plan
   in plan\<lparr>pl_explanation := toString_ExecutionMode (ch_mode c) @
       '' full residency was selected because the model fits in the reported accelerator memory and engine '' @ quote @
       cand_key engine @ quote @ '' advertises that backend.''\<rparr>)"

definition partial_plan ::
    "ModelRequirements \<Rightarrow> CapabilityReport \<Rightarrow> bool \<Rightarrow> Choice \<Rightarrow> Candidate \<Rightarrow> ModelExecutionPlan \<Rightarrow> ModelExecutionPlan" where
  "partial_plan req report cpu_ok c engine plan = (let
     plan = addReason PlanReason.ACCELERATOR_MEMORY_INSUFFICIENT plan;
     plan = addReason PlanReason.PARTIAL_RESIDENCY plan;
     plan = (if ch_device c = findDevice report ''CUDA'' then addReason PlanReason.CUDA_FEASIBLE plan else plan);
     plan = (if ch_device c = findDevice report ''Vulkan'' then addReason PlanReason.VULKAN_FEASIBLE plan else plan);
     layers = partialLayers req (pl_memory_budget_bytes plan) (model_bytes_of req);
     plan = (if layers > 0 then plan\<lparr>pl_gpu_layer_budget := Some layers\<rparr> else plan);
     plan = set_fallback cpu_ok plan
   in plan\<lparr>pl_explanation :=
       ''Partial residency was selected because the model exceeds accelerator memory but at least '' @
       word_str kPartialResidentPercent @ ''% of it fits. Engine '' @ quote @ cand_key engine @
       quote @ '' can offload a layer budget. This is existing layer offload, not Phase 14 tensor streaming.''\<rparr>)"

definition streaming_plan :: "bool \<Rightarrow> ModelExecutionPlan \<Rightarrow> ModelExecutionPlan" where
  "streaming_plan cpu_ok plan = (let
     plan = addReason PlanReason.ACCELERATOR_MEMORY_INSUFFICIENT plan;
     plan = addReason PlanReason.STREAMING_REQUIRED plan;
     plan = addReason PlanReason.FUTURE_CAPABILITY plan;
     plan = plan\<lparr>pl_executable := False\<rparr>;
     plan = set_fallback cpu_ok plan;
     plan = plan\<lparr>pl_explanation :=
       ''Streaming plan requires Phase 14 execution support. The model does not fit a resident or partial accelerator placement, and the capability report says streaming may eventually be feasible. This plan is not executable.''\<rparr>
   in add_warning ''STREAMING is a plan only. Tensor streaming is not implemented.'' plan)"

definition cpu_plan :: "CapabilityReport \<Rightarrow> Candidate \<Rightarrow> ModelExecutionPlan \<Rightarrow> ModelExecutionPlan" where
  "cpu_plan report engine plan = (let
     plan = (addReason PlanReason.CPU_FALLBACK plan)\<lparr>pl_gpu_layer_budget := Some 0\<rparr>;
     plan = (if \<not> deviceUsable report (findDevice report ''Vulkan'')
       then add_warning ''Vulkan is not a usable device in the capability report.'' plan else plan);
     plan = (if \<not> deviceUsable report (findDevice report ''CUDA'')
       then add_warning ''CUDA is not a usable device in the capability report.'' plan else plan)
   in plan\<lparr>pl_explanation :=
       ''CPU fallback was selected because no accelerator placement is currently possible and engine '' @ quote @
       cand_key engine @ quote @ '' can execute on the reported CPU memory.''\<rparr>)"

definition chosen_plan ::
    "ModelRequirements \<Rightarrow> CapabilityReport \<Rightarrow> PlannerConfig \<Rightarrow> Candidate list \<Rightarrow> Choice \<Rightarrow>
     Candidate \<Rightarrow> ModelExecutionPlan \<Rightarrow> ModelExecutionPlan" where
  "chosen_plan req report config cs c engine plan = (let
     cpu_ok = cpuFallbackAvailable req report config cs;
     plan = base_plan report c engine plan;
     plan = (if ch_residency c = ExecutionStrategy.FULL_RESIDENT then full_plan req cpu_ok c engine plan
       else if ch_residency c = ExecutionStrategy.PARTIAL_RESIDENT then partial_plan req report cpu_ok c engine plan
       else if ch_residency c = ExecutionStrategy.STREAMING then streaming_plan cpu_ok plan
       else if ch_residency c = ExecutionStrategy.CPU_FALLBACK then cpu_plan report engine plan
       else plan)
   in if \<not> deviceUsable report (findDevice report ''CUDA'') \<and>
          cap_has (cand_caps engine) EngineCapability.BACKEND_CUDA
      then add_warning ''The selected engine advertises CUDA, but CUDA was not selected because the capability report says it is unavailable.'' plan
      else plan)"

definition plan ::
    "ModelRequirements \<Rightarrow> CapabilityReport \<Rightarrow> ExecutionEngineRegistry \<Rightarrow> PlannerConfig \<Rightarrow> ModelExecutionPlan" where
  "plan req report reg config =
     (if \<not> pc_allow_accelerator config \<and> \<not> pc_allow_partial_residency config \<and>
         \<not> pc_allow_streaming_plan config \<and> \<not> pc_allow_cpu_fallback config
      then unsupportedPlan PlanReason.INVALID_CONFIGURATION
        ''Planner configuration disables every execution strategy.''
      else if rq_format req = ModelFormat.UNKNOWN
      then add_warning ''Missing model metadata: format is UNKNOWN.''
        (unsupportedPlan PlanReason.UNSUPPORTED_MODEL
          ''Model format is missing or unsupported, so no engine can be selected.'')
      else if sorted_keys reg = []
      then (unsupportedPlan PlanReason.NO_REGISTERED_ENGINES ''No execution engines are registered.'')
        \<lparr>pl_estimated_model_memory_bytes := model_bytes_of req\<rparr>
      else let
        cs = candidates_of req report reg;
        fail = failWithRejections (model_bytes_of req) cs PlanReason.ENGINE_UNAVAILABLE
      in if \<not> list_ex cand_eligible cs
         then fail ''Every registered engine was rejected for this workload.''
         else let plan = start_plan req report in
           if \<not> memory_known req then no_memory_plan req config cs plan
           else let plan = finishContext req config (noteRejections cs plan) in
             case choose_placement req report config cs of
               None \<Rightarrow> not_chosen_plan req report plan
             | Some c \<Rightarrow> (case engine_for report cs c of
                 None \<Rightarrow> fail ''A placement was possible from device memory, but no eligible engine advertised that backend.''
               | Some engine \<Rightarrow> chosen_plan req report config cs c engine plan))"

end
