(* ===== verification/PlannerProperties.thy ===== *)
theory PlannerProperties
  imports Planner
begin

text \<open>
  What the planner's decisions guarantee: the engine of a viable plan exists, was not rejected and
  can do what the plan asks of it, the device exists and has the memory the plan relies on, and
  the order in which engines were registered does not matter. Two lemmas record what the planner
  cannot do: it plans no work for CUDA on a discovered machine, and a machine on which streaming
  looks feasible loses its CPU fallback.
\<close>

section \<open>Engines\<close>

definition usable_engine :: "ExecutionMode \<Rightarrow> Candidate \<Rightarrow> bool" where
  "usable_engine mode c \<longleftrightarrow> cand_eligible c \<and> hasBackend (cand_caps c) mode"

lemma select_engine_fold:
  assumes "fold (select_engine_step mode) cs best = r" "\<And>b. best = Some b \<Longrightarrow> usable_engine mode b"
  shows "(r = None \<longleftrightarrow> best = None \<and> (\<forall>c\<in>set cs. \<not> usable_engine mode c)) \<and>
    (\<forall>e. r = Some e \<longrightarrow> usable_engine mode e \<and> (e \<in> set cs \<or> best = Some e))"
  using assms
proof (induction cs arbitrary: best)
  case (Cons c cs)
  have ok: "\<And>b. select_engine_step mode c best = Some b \<Longrightarrow> usable_engine mode b"
    using Cons.prems(2) by (auto simp: select_engine_step_def usable_engine_def split: option.splits if_splits)
  have f: "fold (select_engine_step mode) cs (select_engine_step mode c best) = r" using Cons.prems(1) by simp
  have up: "select_engine_step mode c best = None \<longleftrightarrow> best = None \<and> \<not> usable_engine mode c"
    by (auto simp: select_engine_step_def usable_engine_def split: option.splits)
  have mem: "select_engine_step mode c best = Some e \<Longrightarrow> e = c \<or> best = Some e" for e
    by (auto simp: select_engine_step_def split: option.splits if_splits)
  show ?case using Cons.IH [OF f ok] up mem by auto
qed auto

lemma selectEngine_Some:
  "selectEngine cs mode = Some e \<Longrightarrow> e \<in> set cs \<and> usable_engine mode e"
  using select_engine_fold [of mode cs None "Some e"] by (auto simp: selectEngine_def)

lemma selectEngine_None:
  "selectEngine cs mode = None \<longleftrightarrow> (\<forall>c\<in>set cs. \<not> usable_engine mode c)"
  using select_engine_fold [of mode cs None "selectEngine cs mode"] by (auto simp: selectEngine_def)

definition admitted :: "ModelRequirements \<Rightarrow> CapabilityReport \<Rightarrow> string \<Rightarrow> IExecutionEngine \<Rightarrow> bool" where
  "admitted req report key engine \<longleftrightarrow> coversRequired (ie_capabilities engine) req \<and>
     (case find_listed report key of None \<Rightarrow> cr_engines report = [] | Some e \<Rightarrow> ec_supported e)"

lemma candidate_eligible:
  assumes "c \<in> set (candidates_of req report reg)" "cand_eligible c"
  shows "\<exists>engine. create_engine reg (cand_key c) = Some engine \<and> cand_caps c = ie_capabilities engine \<and>
    admitted req report (cand_key c) engine"
proof -
  obtain k where k: "c = candidate_of req report reg k" using assms(1) by (auto simp: candidates_of_def)
  obtain engine where e: "create_engine reg k = Some engine"
    using assms(2) unfolding k by (cases "create_engine reg k") (simp_all add: candidate_of_def)
  show ?thesis
  proof (cases "find_listed report k")
    case None
    with assms(2) e show ?thesis
      unfolding k by (simp add: candidate_of_def admitted_def Let_def split: if_splits)
  next
    case (Some l)
    with assms(2) e show ?thesis
      unfolding k by (simp add: candidate_of_def admitted_def Let_def split: if_splits)
  qed
qed

section \<open>Devices\<close>

lemma find_index_Some: "find_index P xs = Some i \<Longrightarrow> i < length xs \<and> P (xs ! i)"
  by (induction xs arbitrary: i) (auto split: if_splits)

lemma findDevice_Some:
  "findDevice report ty = Some i \<Longrightarrow>
   device_at report i \<in> set (cr_devices report) \<and> dc_backend_type (device_at report i) = ty"
  unfolding findDevice_def device_at_def by (drule find_index_Some) simp

lemma usable_findDevice:
  "deviceUsable report (findDevice report ty) \<Longrightarrow>
   \<exists>i. findDevice report ty = Some i \<and> device_at report i \<in> set (cr_devices report) \<and>
     dc_backend_type (device_at report i) = ty \<and> dc_available (device_at report i) \<and>
     dc_supported (device_at report i)"
  by (auto simp: deviceUsable_def split: option.splits dest: findDevice_Some)

section \<open>Choices\<close>

definition choice_ok ::
    "ModelRequirements \<Rightarrow> CapabilityReport \<Rightarrow> PlannerConfig \<Rightarrow> Candidate list \<Rightarrow> Choice \<Rightarrow> bool" where
  "choice_ok req report config cs c \<longleftrightarrow>
     (if ch_residency c = ExecutionStrategy.FULL_RESIDENT then ch_executable c \<and>
        (ch_mode c = ExecutionMode.CUDA \<or> ch_mode c = ExecutionMode.VULKAN) \<and>
        ch_device c = findDevice report (toString_ExecutionMode (ch_mode c)) \<and>
        fits req report (ch_device c)
      else if ch_residency c = ExecutionStrategy.PARTIAL_RESIDENT then ch_executable c \<and>
        ch_mode c = ExecutionMode.HYBRID \<and>
        (ch_device c = findDevice report ''CUDA'' \<or> ch_device c = findDevice report ''Vulkan'') \<and>
        partial_fits req report config (ch_device c)
      else if ch_residency c = ExecutionStrategy.STREAMING then \<not> ch_executable c \<and>
        ch_mode c = ExecutionMode.HYBRID \<and>
        (ch_device c = findDevice report ''CUDA'' \<or> ch_device c = findDevice report ''Vulkan'') \<and>
        deviceUsable report (ch_device c)
      else ch_residency c = ExecutionStrategy.CPU_FALLBACK \<and> ch_executable c \<and>
        ch_mode c = ExecutionMode.CPU \<and> ch_device c = findDevice report ''CPU'' \<and>
        fits req report (ch_device c))"

definition all_ok :: "(Choice \<Rightarrow> bool) \<Rightarrow> Choice option \<Rightarrow> bool" where
  "all_ok P x = (case x of None \<Rightarrow> True | Some c \<Rightarrow> P c)"

lemma tryFull_ok:
  "all_ok (choice_ok req report config cs) x \<Longrightarrow> mode = ExecutionMode.CUDA \<or> mode = ExecutionMode.VULKAN \<Longrightarrow>
   d = findDevice report (toString_ExecutionMode mode) \<Longrightarrow>
   all_ok (choice_ok req report config cs) (tryFull req report config cs mode d x)"
  by (simp add: tryFull_def all_ok_def choice_ok_def split: option.splits)

lemma tryPartial_ok:
  "all_ok (choice_ok req report config cs) x \<Longrightarrow>
   d = findDevice report ''CUDA'' \<or> d = findDevice report ''Vulkan'' \<Longrightarrow>
   all_ok (choice_ok req report config cs) (tryPartial req report config cs mode d x)"
  by (simp add: tryPartial_def all_ok_def choice_ok_def split: option.splits)

lemma tryStreaming_ok:
  "all_ok (choice_ok req report config cs) x \<Longrightarrow>
   all_ok (choice_ok req report config cs) (tryStreaming report config cs x)"
  by (simp add: tryStreaming_def all_ok_def choice_ok_def Let_def split: option.splits)

lemma tryCpu_ok:
  "all_ok (choice_ok req report config cs) x \<Longrightarrow>
   all_ok (choice_ok req report config cs) (tryCpu req report config cs x)"
  by (simp add: tryCpu_def all_ok_def choice_ok_def cpuFallbackAvailable_def split: option.splits)

lemma choose_ok: "choose_placement req report config cs = Some c \<Longrightarrow> choice_ok req report config cs c"
proof -
  assume c: "choose_placement req report config cs = Some c"
  have "all_ok (choice_ok req report config cs) (choose_placement req report config cs)"
    unfolding choose_placement_def Let_def
    by (intro tryCpu_ok tryStreaming_ok tryPartial_ok tryFull_ok) (simp_all add: all_ok_def)
  with c show ?thesis by (simp add: all_ok_def)
qed

section \<open>The fields of a plan\<close>

lemma addReason_fields [simp]:
  "pl_viable (addReason r p) = pl_viable p" "pl_executable (addReason r p) = pl_executable p"
  "pl_engine_key (addReason r p) = pl_engine_key p" "pl_mode (addReason r p) = pl_mode p"
  "pl_residency (addReason r p) = pl_residency p"
  "pl_memory_budget_bytes (addReason r p) = pl_memory_budget_bytes p"
  "pl_estimated_model_memory_bytes (addReason r p) = pl_estimated_model_memory_bytes p"
  "pl_gpu_layer_budget (addReason r p) = pl_gpu_layer_budget p"
  by (simp_all add: addReason_def)

lemma add_warning_fields [simp]:
  "pl_viable (add_warning w p) = pl_viable p" "pl_executable (add_warning w p) = pl_executable p"
  "pl_engine_key (add_warning w p) = pl_engine_key p" "pl_mode (add_warning w p) = pl_mode p"
  "pl_residency (add_warning w p) = pl_residency p"
  "pl_memory_budget_bytes (add_warning w p) = pl_memory_budget_bytes p"
  "pl_estimated_model_memory_bytes (add_warning w p) = pl_estimated_model_memory_bytes p"
  "pl_gpu_layer_budget (add_warning w p) = pl_gpu_layer_budget p"
  by (simp_all add: add_warning_def)

lemma set_fallback_fields [simp]:
  "pl_viable (set_fallback b p) = pl_viable p" "pl_executable (set_fallback b p) = pl_executable p"
  "pl_engine_key (set_fallback b p) = pl_engine_key p" "pl_mode (set_fallback b p) = pl_mode p"
  "pl_residency (set_fallback b p) = pl_residency p"
  "pl_memory_budget_bytes (set_fallback b p) = pl_memory_budget_bytes p"
  "pl_estimated_model_memory_bytes (set_fallback b p) = pl_estimated_model_memory_bytes p"
  "pl_gpu_layer_budget (set_fallback b p) = pl_gpu_layer_budget p"
  by (simp_all add: set_fallback_def)

lemma start_plan_fields [simp]:
  "pl_viable (start_plan req report) = False"
  "pl_estimated_model_memory_bytes (start_plan req report) = model_bytes_of req"
  "pl_gpu_layer_budget (start_plan req report) = None"
  by (simp_all add: start_plan_def Let_def plan_default_def)

lemma finishContext_fields [simp]:
  "pl_viable (finishContext req config p) = pl_viable p"
  "pl_estimated_model_memory_bytes (finishContext req config p) = pl_estimated_model_memory_bytes p"
  "pl_gpu_layer_budget (finishContext req config p) = pl_gpu_layer_budget p"
  by (simp_all add: finishContext_def Let_def split: option.split)

lemma noteRejections_fields [simp]:
  "pl_viable (noteRejections cs p) = pl_viable p"
  "pl_estimated_model_memory_bytes (noteRejections cs p) = pl_estimated_model_memory_bytes p"
  "pl_gpu_layer_budget (noteRejections cs p) = pl_gpu_layer_budget p"
  by (simp_all add: noteRejections_def)

lemma fail_not_viable [simp]: "\<not> pl_viable (failWithRejections b cs r e)"
  by (simp add: failWithRejections_def unsupportedPlan_def plan_default_def Let_def)

lemma not_chosen_viable [simp]: "pl_viable (not_chosen_plan req report p) = pl_viable p"
  by (simp add: not_chosen_plan_def Let_def)

lemma chosen_plan_fields:
  assumes "choice_ok req report config cs c"
  shows "pl_viable (chosen_plan req report config cs c engine p)"
    "pl_engine_key (chosen_plan req report config cs c engine p) = cand_key engine"
    "pl_mode (chosen_plan req report config cs c engine p) = ch_mode c"
    "pl_residency (chosen_plan req report config cs c engine p) = ch_residency c"
    "pl_executable (chosen_plan req report config cs c engine p) = ch_executable c"
    "pl_memory_budget_bytes (chosen_plan req report config cs c engine p) =
      (case ch_device c of None \<Rightarrow> 0 | Some i \<Rightarrow> capacity_of report i)"
    "pl_estimated_model_memory_bytes (chosen_plan req report config cs c engine p) =
      pl_estimated_model_memory_bytes p"
  using assms
  by (simp_all add: chosen_plan_def base_plan_def full_plan_def partial_plan_def streaming_plan_def
      cpu_plan_def Let_def choice_ok_def split: option.split if_splits)

lemma partial_layers_budget:
  assumes "pl_gpu_layer_budget p = None"
  shows "pl_gpu_layer_budget (partial_plan req report cpu_ok c engine p) =
    (if partialLayers req (pl_memory_budget_bytes p) (model_bytes_of req) > 0
     then Some (partialLayers req (pl_memory_budget_bytes p) (model_bytes_of req)) else None)"
  using assms by (simp add: partial_plan_def Let_def)

text \<open>A viable plan comes from a choice.\<close>

lemma plan_viable_cases:
  assumes "pl_viable (plan req report reg config)"
  obtains c engine p where
    "plan req report reg config = chosen_plan req report config (candidates_of req report reg) c engine p"
    "choice_ok req report config (candidates_of req report reg) c"
    "choose_placement req report config (candidates_of req report reg) = Some c"
    "engine_for report (candidates_of req report reg) c = Some engine"
    "pl_estimated_model_memory_bytes p = model_bytes_of req" "pl_gpu_layer_budget p = None"
    "memory_known req"
proof -
  let ?cs = "candidates_of req report reg"
  let ?p = "finishContext req config (noteRejections ?cs (start_plan req report))"
  have g: "pc_allow_accelerator config \<or> pc_allow_partial_residency config \<or>
      pc_allow_streaming_plan config \<or> pc_allow_cpu_fallback config"
    "rq_format req \<noteq> ModelFormat.UNKNOWN" "sorted_keys reg \<noteq> []" "list_ex cand_eligible ?cs"
    and mk: "memory_known req"
    using assms
    by (simp_all add: plan_def unsupportedPlan_def plan_default_def no_memory_plan_def Let_def
        split: if_splits)
  then have eq: "plan req report reg config = (case choose_placement req report config ?cs of
        None \<Rightarrow> not_chosen_plan req report ?p
      | Some c \<Rightarrow> (case engine_for report ?cs c of
          None \<Rightarrow> failWithRejections (model_bytes_of req) ?cs PlanReason.ENGINE_UNAVAILABLE
            ''A placement was possible from device memory, but no eligible engine advertised that backend.''
        | Some engine \<Rightarrow> chosen_plan req report config ?cs c engine ?p))"
    by (auto simp: plan_def Let_def)
  from assms eq obtain c engine where ce: "choose_placement req report config ?cs = Some c"
      "engine_for report ?cs c = Some engine"
    by (auto split: option.splits)
  show ?thesis
    by (rule that [of c engine ?p]) (use eq ce mk choose_ok [OF ce(1)] in simp_all)
qed

section \<open>Layer budgets\<close>

lemma unat_or_one: "unat (if k = 0 then 1 else k :: u64) = (if unat k = 0 then 1 else unat k)"
  by (simp add: unat_eq_zero)

lemma pos_clamp:
  "k < (n :: nat) \<Longrightarrow> r = (if k = 0 then 1 else k) \<Longrightarrow> 0 < n \<Longrightarrow> 1 \<le> r \<and> (r < n \<or> n = 1 \<and> r = 1)"
  by auto

lemma partialLayers_bounds:
  assumes "rq_layer_count req = Some n" "n \<noteq> 0" "b \<noteq> 0"
  shows "1 \<le> partialLayers req a b \<and> (partialLayers req a b < n \<or> n = 1 \<and> partialLayers req a b = 1)"
proof -
  let ?l = "(ucast n :: u64) * a div b"
  let ?m = "if ?l = 0 then 1 else ?l"
  let ?k = "if ?m \<ge> ucast n then ucast n - 1 else ?m"
  let ?r = "if ?k = 0 then 1 else ?k"
  have eq: "partialLayers req a b = ucast ?r" using assms by (simp add: partialLayers_def Let_def)
  have un: "unat (ucast n :: u64) = unat n" 
    using unsigned_less [of n, where 'a = nat] by (simp add: unsigned_ucast_eq take_bit_nat_eq_self)
  have n0: "0 < unat n" using assms(2) by (simp add: unat_gt_0)
  have "unat ?k < unat n"
  proof (cases "?m \<ge> (ucast n :: u64)")
    case True
    have "unat ((ucast n :: u64) - 1) = unat n - 1"
      by (subst unat_sub) (use n0 un in \<open>simp_all add: word_le_nat_alt\<close>)
    with True n0 show ?thesis by simp
  next
    case False
    then have "unat ?m < unat n" using un by (simp add: word_le_nat_alt not_le)
    with False show ?thesis by simp
  qed
  then have r: "1 \<le> unat ?r \<and> (unat ?r < unat n \<or> unat n = 1 \<and> unat ?r = 1)"
    using unat_or_one n0 by (rule pos_clamp)
  have "unat ?r < 2 ^ 32" using r unsigned_less [of n, where 'a = nat] by auto
  then have "unat (ucast ?r :: u32) = unat ?r" by (simp add: unsigned_ucast_eq take_bit_nat_eq_self)
  then show ?thesis using r unfolding eq by (simp only: word_le_nat_alt word_less_nat_alt word_unat_eq_iff unat_1)
qed

section \<open>Properties\<close>

text \<open>
  The promise of a viable plan: the named engine is registered, can be created and was not
  rejected; the budget is the memory of a usable device of the report; full and CPU plans fit in
  it, on an engine that advertises the backend; partial plans are split.
\<close>

definition plan_promise ::
    "ModelRequirements \<Rightarrow> CapabilityReport \<Rightarrow> ExecutionEngineRegistry \<Rightarrow> ModelExecutionPlan \<Rightarrow> bool" where
  "plan_promise req report reg p \<longleftrightarrow> (\<exists>engine d.
     create_engine reg (pl_engine_key p) = Some engine \<and> admitted req report (pl_engine_key p) engine \<and>
     d \<in> set (cr_devices report) \<and> dc_available d \<and> dc_supported d \<and>
     pl_memory_budget_bytes p = dc_memory_capacity d \<and>
     pl_executable p = (pl_residency p \<noteq> ExecutionStrategy.STREAMING) \<and>
     (pl_mode p = ExecutionMode.HYBRID \<longleftrightarrow>
        pl_residency p \<in> {ExecutionStrategy.PARTIAL_RESIDENT, ExecutionStrategy.STREAMING}) \<and>
     (pl_mode p \<noteq> ExecutionMode.HYBRID \<longrightarrow>
        pl_residency p \<in> {ExecutionStrategy.FULL_RESIDENT, ExecutionStrategy.CPU_FALLBACK} \<and>
        dc_backend_type d = toString_ExecutionMode (pl_mode p) \<and>
        hasBackend (ie_capabilities engine) (pl_mode p) \<and>
        pl_memory_budget_bytes p \<ge> pl_estimated_model_memory_bytes p) \<and>
     (pl_residency p = ExecutionStrategy.PARTIAL_RESIDENT \<longrightarrow>
        0 < pl_memory_budget_bytes p \<and> pl_memory_budget_bytes p < pl_estimated_model_memory_bytes p))"

lemma plan_promise:
  assumes "pl_viable (plan req report reg config)"
  shows "plan_promise req report reg (plan req report reg config)"
proof -
  let ?cs = "candidates_of req report reg"
  obtain c engine p where eq: "plan req report reg config = chosen_plan req report config ?cs c engine p"
    and ok: "choice_ok req report config ?cs c" and e: "engine_for report ?cs c = Some engine"
    and est: "pl_estimated_model_memory_bytes p = model_bytes_of req" and mk: "memory_known req"
    using plan_viable_cases [OF assms] by metis
  note fields = chosen_plan_fields [OF ok, of engine p]
  have sel: "\<exists>mode. selectEngine ?cs mode = Some engine \<and>
      (ch_mode c \<noteq> ExecutionMode.HYBRID \<longrightarrow> mode = ch_mode c)"
    using e ok by (auto simp: engine_for_def choice_ok_def Let_def split: option.splits if_splits)
  then obtain mode where mode: "selectEngine ?cs mode = Some engine"
      "ch_mode c \<noteq> ExecutionMode.HYBRID \<longrightarrow> mode = ch_mode c" by blast
  have eng: "engine \<in> set ?cs" "cand_eligible engine" "hasBackend (cand_caps engine) mode"
    using selectEngine_Some [OF mode(1)] by (simp_all add: usable_engine_def)
  obtain ie where ie: "create_engine reg (cand_key engine) = Some ie" "cand_caps engine = ie_capabilities ie"
      "admitted req report (cand_key engine) ie"
    using candidate_eligible [OF eng(1,2)] by blast
  have "\<exists>ty. ch_device c = findDevice report ty \<and> deviceUsable report (findDevice report ty) \<and>
      (ch_mode c \<noteq> ExecutionMode.HYBRID \<longrightarrow> ty = toString_ExecutionMode (ch_mode c))"
    using ok by (auto simp: choice_ok_def fits_def partial_fits_def split: if_splits)
  then obtain ty where ty: "ch_device c = findDevice report ty" "deviceUsable report (findDevice report ty)"
      "ch_mode c \<noteq> ExecutionMode.HYBRID \<longrightarrow> ty = toString_ExecutionMode (ch_mode c)" by blast
  obtain i where i: "findDevice report ty = Some i" "device_at report i \<in> set (cr_devices report)"
      "dc_backend_type (device_at report i) = ty" "dc_available (device_at report i)"
      "dc_supported (device_at report i)" using usable_findDevice [OF ty(2)] by blast
  have budget: "pl_memory_budget_bytes (plan req report reg config) = dc_memory_capacity (device_at report i)"
    using i(1) ty(1) by (simp add: eq fields capacity_of_def)
  have fit: "ch_mode c \<noteq> ExecutionMode.HYBRID \<Longrightarrow> dc_memory_capacity (device_at report i) \<ge> model_bytes_of req"
    using ok i(1) ty(1) by (auto simp: choice_ok_def fits_def capacity_of_def split: if_splits)
  have part: "ch_residency c = ExecutionStrategy.PARTIAL_RESIDENT \<Longrightarrow>
      0 < dc_memory_capacity (device_at report i) \<and> dc_memory_capacity (device_at report i) < model_bytes_of req"
    using ok i(1) ty(1) by (auto simp: choice_ok_def partial_fits_def capacity_of_def word_neq_0_conv split: if_splits)
  have hb: "ch_mode c \<noteq> ExecutionMode.HYBRID \<Longrightarrow> hasBackend (ie_capabilities ie) (ch_mode c)"
    using eng(3) mode(2) ie(2) by simp
  have res: "ch_executable c = (ch_residency c \<noteq> ExecutionStrategy.STREAMING)"
    "ch_mode c = ExecutionMode.HYBRID \<longleftrightarrow>
        ch_residency c \<in> {ExecutionStrategy.PARTIAL_RESIDENT, ExecutionStrategy.STREAMING}"
    "ch_mode c \<noteq> ExecutionMode.HYBRID \<longrightarrow>
        ch_residency c \<in> {ExecutionStrategy.FULL_RESIDENT, ExecutionStrategy.CPU_FALLBACK}"
    using ok by (auto simp: choice_ok_def split: if_splits)
  show ?thesis
    unfolding plan_promise_def using hb
    by (intro exI [of _ ie] exI [of _ "device_at report i"] conjI)
      (use ie i ty(3) eng(3) mode(2) budget fit part res est in \<open>simp_all add: eq fields\<close>)
qed

lemma not_viable_mode:
  assumes "\<not> pl_viable (plan req report reg config)"
  shows "pl_mode (plan req report reg config) = ExecutionMode.UNSUPPORTED"
proof -
  let ?cs = "candidates_of req report reg"
  have s: "pl_mode (start_plan req report) = ExecutionMode.UNSUPPORTED"
    by (simp add: start_plan_def plan_default_def Let_def)
  have f: "pl_mode (finishContext req config p) = pl_mode p" for p
    by (simp add: finishContext_def Let_def split: option.split)
  have n: "pl_mode (noteRejections cs p) = pl_mode p" for p cs by (simp add: noteRejections_def)
  have u: "pl_mode (failWithRejections b cs r e) = ExecutionMode.UNSUPPORTED" for b cs r e
    by (simp add: failWithRejections_def unsupportedPlan_def plan_default_def Let_def)
  have m: "pl_mode (not_chosen_plan req report p) = pl_mode p" for p
    by (simp add: not_chosen_plan_def Let_def)
  have c: "choose_placement req report config ?cs = Some c \<Longrightarrow>
      pl_viable (chosen_plan req report config ?cs c engine p)" for c engine p
    by (rule chosen_plan_fields(1) [OF choose_ok])
  show ?thesis
    using assms
    by (auto simp: plan_def no_memory_plan_def unsupportedPlan_def plan_default_def s f n u m c Let_def
        split: option.splits if_splits)
qed

text \<open>Only the set of registrations matters.\<close>

lemma candidates_of_perm:
  assumes "map_of reg = map_of reg'" "mset (registeredKeys reg) = mset (registeredKeys reg')"
  shows "candidates_of req report reg = candidates_of req report reg'"
proof -
  have "sorted_keys reg = sorted_keys reg'"
    using assms(2) unfolding sorted_keys_def by (metis mset_sort properties_for_sort sorted_sort)
  moreover have "create_engine reg = create_engine reg'" using assms(1) by (simp add: create_engine_def fun_eq_iff)
  ultimately show ?thesis by (simp add: candidates_of_def candidate_of_def)
qed

lemma plan_depends:
  "plan req report reg config = plan req report reg' config"
  if "candidates_of req report reg = candidates_of req report reg'"
    "sorted_keys reg = [] \<longleftrightarrow> sorted_keys reg' = []"
  using that by (simp add: plan_def Let_def)

text \<open>
  C8: a viable plan keeps its promise: its engine is registered, can be created, covers the
  required capabilities and was not rejected by the report; its budget is the memory of a usable
  device; a full or CPU plan fits in that memory on an engine that advertises the backend, a
  partial plan does not; and only a streaming plan is not executable.
\<close>

theorem plan_sound:
  assumes "pl_viable (plan req report reg config)"
  shows "plan_promise req report reg (plan req report reg config)"
  using assms by (rule plan_promise)

text \<open>
  C36: the plan does not depend on the order in which the engines were registered.
\<close>

theorem plan_order_independent:
  assumes "map_of reg = map_of reg'" "mset (registeredKeys reg) = mset (registeredKeys reg')"
  shows "plan req report reg config = plan req report reg' config"
proof (rule plan_depends [OF candidates_of_perm [OF assms]])
  have "length (registeredKeys reg) = length (registeredKeys reg')" using assms(2) by (metis size_mset)
  then show "sorted_keys reg = [] \<longleftrightarrow> sorted_keys reg' = []"
    unfolding sorted_keys_def by (metis length_0_conv length_sort)
qed

text \<open>
  the layer budget of a partial plan is at least one layer and leaves at least one to the CPU
  (unless the model has a single layer), whatever the products in its computation wrap to.
\<close>

lemma partial_plan_splits:
  assumes "pl_residency (plan req report reg config) = ExecutionStrategy.PARTIAL_RESIDENT"
    "pl_viable (plan req report reg config)" "rq_layer_count req = Some n" "n \<noteq> 0"
  shows "\<exists>l. pl_gpu_layer_budget (plan req report reg config) = Some l \<and> 1 \<le> l \<and> (l < n \<or> n = 1 \<and> l = 1)"
proof -
  let ?cs = "candidates_of req report reg"
  obtain c engine p where eq: "plan req report reg config = chosen_plan req report config ?cs c engine p"
    and ok: "choice_ok req report config ?cs c" and none: "pl_gpu_layer_budget p = None"
    and mk: "memory_known req"
    using plan_viable_cases [OF assms(2)] by metis
  have res: "ch_residency c = ExecutionStrategy.PARTIAL_RESIDENT"
    using assms(1) chosen_plan_fields(4) [OF ok] by (simp add: eq)
  have "model_bytes_of req \<noteq> 0"
    using mk by (auto simp: model_bytes_of_def memory_known_def split: option.splits)
  note b = partialLayers_bounds [OF assms(3,4) this]
  obtain a where "pl_gpu_layer_budget (plan req report reg config) =
      Some (partialLayers req a (model_bytes_of req))"
  proof -
    let ?p = "base_plan report c engine p"
    let ?l = "partialLayers req (pl_memory_budget_bytes ?p) (model_bytes_of req)"
    have g: "pl_gpu_layer_budget ?p = None" using none by (simp add: base_plan_def)
    have "?l > 0" using b [of "pl_memory_budget_bytes ?p"] by (simp add: word_le_nat_alt word_less_nat_alt)
    then have "pl_gpu_layer_budget (plan req report reg config) = Some ?l"
      using res by (simp add: eq chosen_plan_def Let_def partial_layers_budget [OF g])
    then show ?thesis by (rule that)
  qed
  with b show ?thesis by blast
qed

section \<open>Limits of the planner\<close>

lemma findDevice_discovered:
  "findDevice (analyze req reg (Some (discover i v bm)) hw) ''CUDA'' = Some 2"
  by (simp add: findDevice_def analyze_def device_compats_def cpu_compat_def accel_compat_def
      dc_default_def Let_def getDevice_discover)

lemma cuda_capacity:
  "capacity_of (analyze req reg (Some (discover i v bm)) hw) 2 = 0"
  by (simp add: capacity_of_def device_at_def analyze_def device_compats_def accel_compat_def
      dc_default_def Let_def getDevice_discover discoverCUDA_def device_default_def numeral_2_eq_2)

lemma cuda_never_fits:
  "\<not> fits req' (analyze req reg (Some (discover i v bm)) hw) (Some 2)"
  by (auto simp: fits_def cuda_capacity memory_known_def model_bytes_of_def split: option.splits)

text \<open>
  on a machine discovered by the backend manager no plan ever targets CUDA, not even when a
  CUDA device is available: discovery never reports the memory of a CUDA device, and nothing
  fits in zero bytes.
\<close>

lemma cuda_never_planned:
  "pl_mode (plan req (analyze req reg (Some (discover i v bm)) hw) reg config) \<noteq> ExecutionMode.CUDA"
proof
  let ?r = "analyze req reg (Some (discover i v bm)) hw"
  let ?cs = "candidates_of req ?r reg"
  let ?p = "plan req ?r reg config"
  assume m: "pl_mode ?p = ExecutionMode.CUDA"
  show False
  proof (cases "pl_viable ?p")
    case True
    obtain c engine p where eq: "?p = chosen_plan req ?r config ?cs c engine p"
      and ok: "choice_ok req ?r config ?cs c"
      using plan_viable_cases [OF True] by metis
    have "ch_mode c = ExecutionMode.CUDA" using m chosen_plan_fields(3) [OF ok] by (simp add: eq)
    then have "fits req ?r (findDevice ?r ''CUDA'')" using ok by (auto simp: choice_ok_def split: if_splits)
    then show False by (simp add: findDevice_discovered cuda_never_fits)
  next
    case False
    then have "pl_mode ?p = ExecutionMode.UNSUPPORTED" by (rule not_viable_mode)
    with m show False by simp
  qed
qed

lemma no_backend_select:
  "\<forall>c\<in>set cs. cand_eligible c \<longrightarrow> \<not> hasBackend (cand_caps c) ExecutionMode.VULKAN \<and>
     \<not> hasBackend (cand_caps c) ExecutionMode.CUDA \<Longrightarrow>
   selectEngine cs ExecutionMode.VULKAN = None \<and> selectEngine cs ExecutionMode.CUDA = None \<and>
   selectEngine cs ExecutionMode.HYBRID = None"
  unfolding selectEngine_None by (auto simp: usable_engine_def)

definition cpu_only :: "Candidate list \<Rightarrow> bool" where
  "cpu_only cs \<longleftrightarrow> list_all (\<lambda>c. \<not> cand_eligible c \<or> \<not> hasBackend (cand_caps c) ExecutionMode.VULKAN \<and>
     \<not> hasBackend (cand_caps c) ExecutionMode.CUDA) cs"

text \<open>
  a plan for streaming costs the CPU fallback: when the only engines run on the CPU, the model
  fits in its memory, and an accelerator too small for the model is present, the planner settles
  on streaming and then finds no engine for it, so no viable plan results; the same request with
  streaming disabled gets a viable CPU plan.
\<close>

lemma streaming_loses_cpu_fallback:
  assumes cpu: "cpuFallbackAvailable req report config (candidates_of req report reg)"
    and only: "cpu_only (candidates_of req report reg)"
    and fmt: "rq_format req \<noteq> ModelFormat.UNKNOWN"
    and acc: "pc_allow_accelerator config" "deviceUsable report (findDevice report ''Vulkan'')"
    and feasible: "rf_streaming_potentially_feasible (cr_resources report)"
    and allowed: "pc_allow_streaming_plan config"
  shows "\<not> pl_viable (plan req report reg config) \<and>
    pl_viable (plan req report reg (config\<lparr>pc_allow_streaming_plan := False\<rparr>)) \<and>
    pl_residency (plan req report reg (config\<lparr>pc_allow_streaming_plan := False\<rparr>)) =
      ExecutionStrategy.CPU_FALLBACK"
proof -
  let ?cs = "candidates_of req report reg"
  let ?off = "config\<lparr>pc_allow_streaming_plan := False\<rparr>"
  have none: "selectEngine ?cs ExecutionMode.VULKAN = None" "selectEngine ?cs ExecutionMode.CUDA = None"
    "selectEngine ?cs ExecutionMode.HYBRID = None"
    using no_backend_select [of ?cs] only by (auto simp: cpu_only_def list_all_iff)
  obtain e where e: "selectEngine ?cs ExecutionMode.CPU = Some e"
    using cpu by (auto simp: cpuFallbackAvailable_def)
  have el: "list_ex cand_eligible ?cs"
    using selectEngine_Some [OF e] by (auto simp: list_ex_iff usable_engine_def)
  then have keys: "sorted_keys reg \<noteq> []" by (auto simp: candidates_of_def)
  have mk: "memory_known req" using cpu by (simp add: cpuFallbackAvailable_def fits_def)
  have full: "tryFull req report c ?cs m d None = None"
    if "m = ExecutionMode.VULKAN \<or> m = ExecutionMode.CUDA" for c m d
    using that none by (auto simp: tryFull_def)
  have part: "tryPartial req report c ?cs m d None = None"
    if "m = ExecutionMode.VULKAN \<or> m = ExecutionMode.CUDA" for c m d
    using that none by (auto simp: tryPartial_def)
  let ?c = "\<lparr>ch_mode = ExecutionMode.HYBRID, ch_residency = ExecutionStrategy.STREAMING,
    ch_device = findDevice report ''Vulkan'', ch_executable = False, ch_confidence = 40\<rparr>"
  have "tryStreaming report config ?cs None = Some ?c"
    using acc feasible allowed none e by (simp add: tryStreaming_def streaming_engine_def Let_def)
  then have ch: "choose_placement req report config ?cs = Some ?c"
    by (simp add: choose_placement_def full part tryCpu_def)
  have "engine_for report ?cs ?c = None" using none by (simp add: engine_for_def Let_def)
  then have bad: "\<not> pl_viable (plan req report reg config)"
    using acc fmt keys el mk ch by (simp add: plan_def Let_def)
  let ?d = "\<lparr>ch_mode = ExecutionMode.CPU, ch_residency = ExecutionStrategy.CPU_FALLBACK,
    ch_device = findDevice report ''CPU'', ch_executable = True, ch_confidence = 80\<rparr>"
  have "cpuFallbackAvailable req report ?off ?cs" using cpu by (simp add: cpuFallbackAvailable_def)
  moreover have "tryStreaming report ?off ?cs None = None" by (simp add: tryStreaming_def Let_def)
  ultimately have ch': "choose_placement req report ?off ?cs = Some ?d"
    by (simp add: choose_placement_def full part tryCpu_def)
  have "engine_for report ?cs ?d = Some e" using e by (simp add: engine_for_def Let_def)
  then obtain p where eq: "plan req report reg ?off = chosen_plan req report ?off ?cs ?d e p"
    using acc fmt keys el mk ch' by (simp add: plan_def Let_def)
  note fields = chosen_plan_fields [OF choose_ok [OF ch'], of e p]
  show ?thesis using fields(1,4) by (simp add: eq bad)
qed

section \<open>Example machines\<close>

definition example_engine :: "EngineCapability list \<Rightarrow> IExecutionEngine" where
  "example_engine caps = \<lparr>ie_identity = \<lparr>ei_name = [], ei_version = [], ei_type = [], ei_author = [],
     ei_registry_key = []\<rparr>, ie_capabilities = cap_of_list caps\<rparr>"

definition example_device :: "string \<Rightarrow> u64 \<Rightarrow> DeviceCompatibility" where
  "example_device ty cap = \<lparr>dc_device_name = ty, dc_backend_type = ty, dc_available = True,
     dc_supported = True, dc_memory_capacity = cap, dc_reason = []\<rparr>"

definition example_report :: "u64 \<Rightarrow> u64 \<Rightarrow> CapabilityReport" where
  "example_report cpu vulkan = \<lparr>cr_model = requirements_default, cr_engines = [],
     cr_devices = [example_device ''CPU'' cpu, example_device ''Vulkan'' vulkan],
     cr_resources = \<lparr>rf_full_residency_feasible = False, rf_streaming_potentially_feasible = True,
       rf_memory_bottleneck_reason = []\<rparr>, cr_warnings = [],
     cr_historical_observations_available = False\<rparr>"

definition example_req :: ModelRequirements where
  "example_req = requirements_default\<lparr>rq_format := ModelFormat.GGUF,
     rq_estimated_memory_bytes := Some 1000, rq_layer_count := Some 32\<rparr>"

definition example_reg :: "EngineCapability list \<Rightarrow> ExecutionEngineRegistry" where
  "example_reg caps = registry_init (Some (example_engine caps))"

lemma example_partial:
  "pl_viable (plan example_req (example_report 2000 400) (example_reg [EngineCapability.BACKEND_VULKAN]) config_default)"
  "pl_residency (plan example_req (example_report 2000 400) (example_reg [EngineCapability.BACKEND_VULKAN]) config_default)
     = ExecutionStrategy.PARTIAL_RESIDENT"
  by code_simp+

theorem plan_sound_witness:
  "plan_promise example_req (example_report 2000 400) (example_reg [EngineCapability.BACKEND_VULKAN])
     (plan example_req (example_report 2000 400) (example_reg [EngineCapability.BACKEND_VULKAN]) config_default)"
  by (rule plan_sound [OF example_partial(1)])

theorem plan_order_independent_witness:
  "plan example_req (example_report 2000 400)
     (registerFactory ''b'' [] None (example_reg [EngineCapability.BACKEND_VULKAN])) config_default =
   plan example_req (example_report 2000 400)
     (registerFactory ''llama.cpp'' ''llama.cpp LLM backend'' (Some (example_engine [EngineCapability.BACKEND_VULKAN]))
        (registerFactory ''b'' [] None [])) config_default"
  by (rule plan_order_independent)
    (auto simp: fun_eq_iff example_reg_def registry_init_def registerFactory_def registeredKeys_def keys_of_def)

lemma partial_plan_splits_instance:
  "\<exists>l. pl_gpu_layer_budget (plan example_req (example_report 2000 400)
     (example_reg [EngineCapability.BACKEND_VULKAN]) config_default) = Some l \<and> 1 \<le> l \<and> l < 32"
proof -
  have "rq_layer_count example_req = Some 32" by (simp add: example_req_def)
  from partial_plan_splits [OF example_partial(2,1) this] show ?thesis by simp
qed

lemma streaming_loses_cpu_fallback_instance:
  "\<not> pl_viable (plan example_req (example_report 2000 100) (example_reg [EngineCapability.BACKEND_CPU]) config_default)"
proof -
  have "cpuFallbackAvailable example_req (example_report 2000 100) config_default
      (candidates_of example_req (example_report 2000 100) (example_reg [EngineCapability.BACKEND_CPU]))"
    by code_simp
  moreover have "cpu_only
      (candidates_of example_req (example_report 2000 100) (example_reg [EngineCapability.BACKEND_CPU]))"
    by code_simp
  moreover have "rq_format example_req \<noteq> ModelFormat.UNKNOWN" "pc_allow_accelerator config_default"
    "pc_allow_streaming_plan config_default"
    "rf_streaming_potentially_feasible (cr_resources (example_report 2000 100))"
    by (simp_all add: example_req_def config_default_def example_report_def)
  moreover have "deviceUsable (example_report 2000 100) (findDevice (example_report 2000 100) ''Vulkan'')"
    by code_simp
  ultimately show ?thesis using streaming_loses_cpu_fallback by blast
qed

end
