(* ===== verification/PlanAdapter.thy ===== *)
theory PlanAdapter
  imports PlannerProperties ResidencySystem
begin

text \<open>
  From plans to residency: the extractor of byte regions of a model file
  (\<open>src/model/GGUFRegionExtractor.cpp\<close>) and the adapter that carries out a plan's residency
  strategy on the residency manager (\<open>src/model/PlanResidencyAdapter.cpp\<close>). The file size and
  what llama.cpp says about the model are inputs; \<open>xe_tensors\<close> is \<open>None\<close> in a build without
  llama.cpp's tensor metadata. The property says, without the adapter's loops, which calls of the manager a plan
  stands for.
\<close>

section \<open>Region extraction\<close>

record TensorMeta =
  tm_name :: "string option"
  tm_data_offset :: u64
  tm_data_size :: u64

record ExtractEnv =
  xe_file_size :: "u64 option"
  xe_model_loads :: bool
  xe_tensors :: "TensorMeta list option"

definition wholeFileRegion :: "ExtractEnv \<Rightarrow> string \<Rightarrow> u64 \<Rightarrow> ModelRegion" where
  "wholeFileRegion env path k = empty_region\<lparr>rg_id := k, rg_offset := 0, rg_identifier := path,
     rg_kind := ModelRegionKind.GENERIC, rg_layer := 0, rg_tensor := 0,
     rg_size := (case xe_file_size env of None \<Rightarrow> 0 | Some sz \<Rightarrow> sz)\<rparr>"

definition whole_error :: "ExtractEnv \<Rightarrow> string \<Rightarrow> string \<Rightarrow> string" where
  "whole_error env path err =
     (if rg_size (wholeFileRegion env path 0) = 0 then ''Cannot stat file: '' @ path else err)"

definition whole_region :: "string \<Rightarrow> u64 \<Rightarrow> u64 \<Rightarrow> ModelRegion" where
  "whole_region path id_base file_size = empty_region\<lparr>rg_id := id_base, rg_offset := 0,
     rg_size := file_size, rg_identifier := path, rg_kind := ModelRegionKind.GENERIC\<rparr>"

fun tensor_regions :: "u64 \<Rightarrow> u64 \<Rightarrow> nat \<Rightarrow> TensorMeta list \<Rightarrow> ModelRegion list" where
  "tensor_regions id_base file_size i [] = []"
| "tensor_regions id_base file_size i (t # ts) = (case tm_name t of
     None \<Rightarrow> tensor_regions id_base file_size (i + 1) ts
   | Some name \<Rightarrow>
       if tm_data_size t = 0 then tensor_regions id_base file_size (i + 1) ts
       else if tm_data_offset t + tm_data_size t > file_size then tensor_regions id_base file_size (i + 1) ts
       else empty_region\<lparr>rg_id := id_base + of_nat i, rg_offset := tm_data_offset t,
              rg_size := tm_data_size t, rg_identifier := name, rg_kind := ModelRegionKind.TENSOR,
              rg_layer := 0, rg_tensor := of_nat i\<rparr>
            # tensor_regions id_base file_size (i + 1) ts)"

text \<open>The regions and the extractor's error string.\<close>

definition extract_regions :: "ExtractEnv \<Rightarrow> string \<Rightarrow> u64 \<Rightarrow> ModelRegion list \<times> string" where
  "extract_regions env path id_base = (case xe_file_size env of
     None \<Rightarrow> ([], ''File not found or unreadable: '' @ path)
   | Some file_size \<Rightarrow>
       if \<not> xe_model_loads env then ([], ''llama_model_load_from_file failed for: '' @ path)
       else let regions = (case xe_tensors env of
           None \<Rightarrow> [whole_region path id_base file_size]
         | Some ts \<Rightarrow> tensor_regions id_base file_size 0 ts)
       in (if regions = [] then [whole_region path id_base file_size] else regions, []))"

section \<open>Applying a plan\<close>

record PlanResidencyResult =
  pr_success :: bool
  pr_regions_total :: u32
  pr_regions_ram :: u32
  pr_regions_accel :: u32
  pr_explanation :: string
  pr_error :: string

definition pr_default :: PlanResidencyResult where
  "pr_default = \<lparr>pr_success = False, pr_regions_total = 0, pr_regions_ram = 0,
     pr_regions_accel = 0, pr_explanation = [], pr_error = []\<rparr>"

text \<open>
  The loops over the regions. The environment may differ at every call (the clock moves on), so
  the \<open>i\<close>-th region sees \<open>env i\<close>. The flag says whether the loop was left by cancellation.
\<close>

fun ensure_all ::
    "(nat \<Rightarrow> ('d, 'a) ResidencyEnv) \<Rightarrow> bool \<Rightarrow> ModelResidencyTarget \<Rightarrow> nat \<Rightarrow> ModelRegion list \<Rightarrow> cancel
     \<Rightarrow> ('d, 'a) rm \<Rightarrow> u32 \<Rightarrow> (bool \<times> u32 \<times> cancel \<times> ('d, 'a) rm) option" where
  "ensure_all env check target i [] c s n = Some (False, n, c, s)"
| "ensure_all env check target i (reg # regs) c s n = (let
     (stop, c) = (if check then poll c else (False, c))
   in if stop then Some (True, n, c, s)
      else case ensureResident (env i) reg target c s of
        None \<Rightarrow> None
      | Some (ok, c, s) \<Rightarrow> ensure_all env check target (i + 1) regs c s (if ok then n + 1 else n))"

fun ensure_partial ::
    "(nat \<Rightarrow> ('d, 'a) ResidencyEnv) \<Rightarrow> bool \<Rightarrow> u64 \<Rightarrow> nat \<Rightarrow> ModelRegion list \<Rightarrow> cancel
     \<Rightarrow> ('d, 'a) rm \<Rightarrow> u32 \<Rightarrow> u32 \<Rightarrow> u64 \<Rightarrow> (bool \<times> u32 \<times> u32 \<times> cancel \<times> ('d, 'a) rm) option" where
  "ensure_partial env use_accel accel_budget i [] c s n m uploaded = Some (False, n, m, c, s)"
| "ensure_partial env use_accel accel_budget i (reg # regs) c s n m uploaded = (let
     (stop, c) = poll c
   in if stop then Some (True, n, m, c, s)
      else case ensureResident (env i) reg ModelResidencyTarget.RAM c s of
        None \<Rightarrow> None
      | Some (False, c, s) \<Rightarrow> ensure_partial env use_accel accel_budget (i + 1) regs c s n m uploaded
      | Some (True, c, s) \<Rightarrow>
          if use_accel \<and> accel_budget > 0 \<and> uploaded + rg_size reg \<le> accel_budget
          then case ensureResident (env i) reg ModelResidencyTarget.ACCELERATOR c s of
            None \<Rightarrow> None
          | Some (ok, c, s) \<Rightarrow> ensure_partial env use_accel accel_budget (i + 1) regs c s (n + 1)
              (if ok then m + 1 else m) (if ok then uploaded + rg_size reg else uploaded)
          else ensure_partial env use_accel accel_budget (i + 1) regs c s (n + 1) m uploaded)"

definition finish_apply :: "bool \<Rightarrow> string \<Rightarrow> PlanResidencyResult \<Rightarrow> PlanResidencyResult" where
  "finish_apply ok err r = r\<lparr>pr_success := ok, pr_error := (if ok then pr_error r else err)\<rparr>"

definition targets_accel :: "ModelExecutionPlan \<Rightarrow> bool" where
  "targets_accel pl \<longleftrightarrow> pl_mode pl = ExecutionMode.VULKAN \<or> pl_mode pl = ExecutionMode.CUDA"

definition accel_target :: "bool \<Rightarrow> ModelResidencyTarget" where
  "accel_target use_accel = (if use_accel then ModelResidencyTarget.ACCELERATOR else ModelResidencyTarget.RAM)"

text \<open>Each strategy's branch, on the extracted regions.\<close>

definition apply_cpu where
  "apply_cpu env regions r c s = (let
     r = r\<lparr>pr_explanation := ''CPU_FALLBACK: loading '' @ digits_of (length regions) @ '' region(s) to RAM.''\<rparr>
   in case ensure_all env True ModelResidencyTarget.RAM 0 regions c s 0 of
     None \<Rightarrow> None
   | Some (True, n, c, s) \<Rightarrow> Some (r\<lparr>pr_regions_ram := n, pr_error := ''Cancelled''\<rparr>, c, s)
   | Some (False, n, c, s) \<Rightarrow>
       Some (finish_apply (n = pr_regions_total r) (rm_last_error s) (r\<lparr>pr_regions_ram := n\<rparr>), c, s))"

definition apply_full where
  "apply_full env pl regions r c s = (let
     use_accel = targets_accel pl;
     r = r\<lparr>pr_explanation := ''FULL_RESIDENT: loading '' @ digits_of (length regions) @ '' region(s)'' @
       (if use_accel then '' + accelerator upload.'' else '' to RAM only.'')\<rparr>
   in case ensure_all env True (accel_target use_accel) 0 regions c s 0 of
     None \<Rightarrow> None
   | Some (stop, n, c, s) \<Rightarrow> let
       r = r\<lparr>pr_regions_ram := n, pr_regions_accel := (if use_accel then n else 0)\<rparr>
     in Some (if stop then r\<lparr>pr_error := ''Cancelled''\<rparr> else finish_apply (n > 0) (rm_last_error s) r, c, s))"

definition apply_partial where
  "apply_partial env pl regions r c s = (let
     use_accel = targets_accel pl;
     r = r\<lparr>pr_explanation := ''PARTIAL_RESIDENT: loading '' @ digits_of (length regions) @
       '' region(s) to RAM; '' @ (if use_accel then ''uploading subset to accelerator within budget.''
         else ''no accelerator.'')\<rparr>
   in case ensure_partial env use_accel (pl_memory_budget_bytes pl) 0 regions c s 0 0 0 of
     None \<Rightarrow> None
   | Some (stop, n, m, c, s) \<Rightarrow> let
       r = r\<lparr>pr_regions_ram := n, pr_regions_accel := m\<rparr>
     in Some (if stop then r\<lparr>pr_error := ''Cancelled''\<rparr> else finish_apply (n > 0) (rm_last_error s) r, c, s))"

definition apply_hybrid where
  "apply_hybrid env pl regions r c s = (let use_accel = targets_accel pl in
     case ensure_all env True (accel_target use_accel) 0 regions c s 0 of
     None \<Rightarrow> None
   | Some (stop, n, c, s) \<Rightarrow> let
       r = r\<lparr>pr_regions_ram := n, pr_regions_accel := (if use_accel then n else 0)\<rparr>
     in Some (if stop then r\<lparr>pr_error := ''Cancelled''\<rparr>
         else finish_apply (n > 0) (rm_last_error s)
           (r\<lparr>pr_explanation := ''HYBRID: mixed CPU/accelerator residency.''\<rparr>), c, s))"

definition apply_unknown where
  "apply_unknown env regions r c s = (let
     r = r\<lparr>pr_explanation := ''Unknown strategy '' @ emdash @ '' falling back to RAM-only residency.''\<rparr>
   in case ensure_all env False ModelResidencyTarget.RAM 0 regions c s 0 of
     None \<Rightarrow> None
   | Some (stop, n, c, s) \<Rightarrow>
       Some (finish_apply (n > 0) (rm_last_error s) (r\<lparr>pr_regions_ram := n\<rparr>), c, s))"

definition apply_strategy ::
    "(nat \<Rightarrow> ('d, 'a) ResidencyEnv) \<Rightarrow> ModelExecutionPlan \<Rightarrow> ModelRegion list \<Rightarrow> cancel
     \<Rightarrow> ('d, 'a) rm \<Rightarrow> (PlanResidencyResult \<times> cancel \<times> ('d, 'a) rm) option" where
  "apply_strategy env pl regions c s = (let
     r = pr_default\<lparr>pr_regions_total := of_nat (length regions)\<rparr>
   in case pl_residency pl of
     ExecutionStrategy.CPU_FALLBACK \<Rightarrow> apply_cpu env regions r c s
   | ExecutionStrategy.STREAMING \<Rightarrow> Some (r\<lparr>pr_success := True, pr_explanation :=
       ''STREAMING: on-demand file-backed residency. No pre-loading performed. Regions will be loaded individually as needed.''\<rparr>, c, s)
   | ExecutionStrategy.FULL_RESIDENT \<Rightarrow> apply_full env pl regions r c s
   | ExecutionStrategy.AUTO \<Rightarrow> apply_full env pl regions r c s
   | ExecutionStrategy.PARTIAL_RESIDENT \<Rightarrow> apply_partial env pl regions r c s
   | ExecutionStrategy.ACCELERATOR_OFFLOAD \<Rightarrow> apply_partial env pl regions r c s
   | ExecutionStrategy.HYBRID \<Rightarrow> apply_hybrid env pl regions r c s
   | ExecutionStrategy.MEMORY_PRESSURE \<Rightarrow> apply_unknown env regions r c s)"

definition apply_plan ::
    "(nat \<Rightarrow> ('d, 'a) ResidencyEnv) \<Rightarrow> ExtractEnv \<Rightarrow> ModelExecutionPlan \<Rightarrow> string \<Rightarrow> cancel
     \<Rightarrow> ('d, 'a) rm \<Rightarrow> (PlanResidencyResult \<times> cancel \<times> ('d, 'a) rm) option" where
  "apply_plan env xenv pl model_path c s =
     (if \<not> pl_viable pl \<or> pl_mode pl = ExecutionMode.UNSUPPORTED then
        Some (pr_default\<lparr>pr_error := ''Plan is not viable: '' @ pl_explanation pl,
          pr_explanation := ''UNSUPPORTED plan '' @ emdash @ '' no residency operations performed.''\<rparr>, c, s)
      else case extract_regions xenv model_path 1 of (regions, err) \<Rightarrow>
        if regions = [] then let whole = wholeFileRegion xenv model_path 1 in
          if \<not> rg_valid whole then
            Some (pr_default\<lparr>pr_error := ''Cannot extract model regions: '' @
              whole_error xenv model_path err\<rparr>, c, s)
          else apply_strategy env pl [whole] c s
        else apply_strategy env pl regions c s)"

section \<open>The calls of a plan\<close>

text \<open>
  What a plan asks of the residency manager, without loops: the calls of \<open>ensureResident\<close> by the
  index of the region, whether the cancel flag is read before, the target, and what the manager
  answered. \<open>G i\<close> says whether the first call for region \<open>i\<close> was granted, \<open>U i\<close> whether region \<open>i\<close> was uploaded
  in a second call.
\<close>

datatype call = Call (call_index: nat) (call_polls: bool) (call_target: ModelResidencyTarget) (call_granted: bool)

fun replay_calls ::
    "(nat \<Rightarrow> ('d, 'a) ResidencyEnv) \<Rightarrow> ModelRegion list \<Rightarrow> call list \<Rightarrow> cancel \<Rightarrow> ('d, 'a) rm \<Rightarrow> (cancel \<times> ('d, 'a) rm) option" where
  "replay_calls env regions [] c s = Some (c, s)"
| "replay_calls env regions (Call i p t ok # qs) c s = (case (if p then poll c else (False, c)) of (stop, c) \<Rightarrow>
     if stop then None
     else case ensureResident (env i) (regions ! i) t c s of
       None \<Rightarrow> None
     | Some (b, c, s) \<Rightarrow> if b = ok then replay_calls env regions qs c s else None)"

definition plan_regions :: "ExtractEnv \<Rightarrow> string \<Rightarrow> ModelRegion list" where
  "plan_regions xenv path = (let regions = fst (extract_regions xenv path 1); whole = wholeFileRegion xenv path 1 in
     if regions \<noteq> [] then regions else if rg_valid whole then [whole] else [])"

definition plan_uses_accel :: "ModelExecutionPlan \<Rightarrow> bool" where
  "plan_uses_accel pl \<longleftrightarrow> pl_mode pl \<in> {ExecutionMode.VULKAN, ExecutionMode.CUDA}"

definition first_target :: "ModelExecutionPlan \<Rightarrow> ModelResidencyTarget" where
  "first_target pl = (if plan_uses_accel pl \<and>
     pl_residency pl \<in> {ExecutionStrategy.FULL_RESIDENT, ExecutionStrategy.AUTO, ExecutionStrategy.HYBRID}
     then ModelResidencyTarget.ACCELERATOR else ModelResidencyTarget.RAM)"

definition up_bytes :: "ModelRegion list \<Rightarrow> (nat \<Rightarrow> bool) \<Rightarrow> nat \<Rightarrow> nat \<Rightarrow> u64" where
  "up_bytes regions U i j = sum_list (map (\<lambda>k. rg_size (regions ! k)) (filter U [i..<j]))"

definition asks_from :: "bool \<Rightarrow> u64 \<Rightarrow> u64 \<Rightarrow> ModelRegion list \<Rightarrow> nat \<Rightarrow> (nat \<Rightarrow> bool) \<Rightarrow> (nat \<Rightarrow> bool) \<Rightarrow> nat \<Rightarrow> bool" where
  "asks_from ua bud up regions i G U j \<longleftrightarrow> ua \<and> G j \<and> 0 < bud \<and>
     up + up_bytes regions U i j + rg_size (regions ! j) \<le> bud"

text \<open>A second call is made for a region in RAM as long as it and what is uploaded fit the plan's budget.\<close>

definition asks_upload :: "ModelExecutionPlan \<Rightarrow> ModelRegion list \<Rightarrow> (nat \<Rightarrow> bool) \<Rightarrow> (nat \<Rightarrow> bool) \<Rightarrow> nat \<Rightarrow> bool" where
  "asks_upload pl regions G U i \<longleftrightarrow> plan_uses_accel pl \<and>
     pl_residency pl \<in> {ExecutionStrategy.PARTIAL_RESIDENT, ExecutionStrategy.ACCELERATOR_OFFLOAD} \<and>
     G i \<and> 0 < pl_memory_budget_bytes pl \<and>
     up_bytes regions U 0 i + rg_size (regions ! i) \<le> pl_memory_budget_bytes pl"

definition plan_calls :: "ModelExecutionPlan \<Rightarrow> ModelRegion list \<Rightarrow> nat \<Rightarrow> (nat \<Rightarrow> bool) \<Rightarrow> (nat \<Rightarrow> bool) \<Rightarrow> call list" where
  "plan_calls pl regions n G U = concat (map (\<lambda>i.
     Call i (pl_residency pl \<noteq> ExecutionStrategy.MEMORY_PRESSURE) (first_target pl) (G i) #
     (if asks_upload pl regions G U i then [Call i False ModelResidencyTarget.ACCELERATOR (U i)] else [])) [0..<n])"

text \<open>The result of a plan after the calls for the first \<open>n\<close> regions.\<close>

definition plan_outcome ::
    "ModelExecutionPlan \<Rightarrow> ModelRegion list \<Rightarrow> nat \<Rightarrow> (nat \<Rightarrow> bool) \<Rightarrow> (nat \<Rightarrow> bool) \<Rightarrow> string \<Rightarrow> PlanResidencyResult \<Rightarrow> bool" where
  "plan_outcome pl regions n G U err r \<longleftrightarrow>
     pr_regions_total r = of_nat (length regions) \<and>
     pr_regions_ram r = of_nat (length (filter G [0..<n])) \<and>
     pr_regions_accel r = of_nat (length (filter
       (if first_target pl = ModelResidencyTarget.ACCELERATOR then G else U) [0..<n])) \<and>
     (pr_success r \<longleftrightarrow> n = length regions \<and>
       (if pl_residency pl = ExecutionStrategy.CPU_FALLBACK then pr_regions_ram r = pr_regions_total r
        else pr_regions_ram r \<noteq> 0)) \<and>
     pr_error r = (if n < length regions then ''Cancelled'' else if pr_success r then [] else err)"

lemma replay_calls_append:
  "replay_calls env regions (xs @ ys) c s = Some r \<longleftrightarrow>
     (\<exists>c1 s1. replay_calls env regions xs c s = Some (c1, s1) \<and> replay_calls env regions ys c1 s1 = Some r)"
proof (induction xs arbitrary: c s)
  case (Cons q xs)
  then show ?case by (cases q) (auto split: option.splits prod.splits)
qed simp

lemma up_bytes_first:
  "i < j \<Longrightarrow> up_bytes regions U i j = (if U i then rg_size (regions ! i) else 0) + up_bytes regions U (Suc i) j"
  by (simp add: up_bytes_def upt_conv_Cons)

lemma up_bytes_cong: "(\<And>k. i \<le> k \<Longrightarrow> U k = V k) \<Longrightarrow> up_bytes regions U i j = up_bytes regions V i j"
  unfolding up_bytes_def by (rule arg_cong [where f = "\<lambda>xs. sum_list (map _ xs)"]) (rule filter_cong, simp_all)

lemma filter_first:
  "i < n \<Longrightarrow> filter P [i..<n] = (if P i then [i] else []) @ filter P [Suc i..<n]"
  by (simp add: upt_conv_Cons)

text \<open>The loops make these calls.\<close>

lemma ensure_all_calls:
  assumes "ensure_all env p t i (drop i regions) c s m = Some (stop, m', c', s')" "i \<le> length regions"
  shows "\<exists>n G c1. i \<le> n \<and> n \<le> length regions \<and>
    replay_calls env regions (map (\<lambda>j. Call j p t (G j)) [i..<n]) c s = Some (c1, s') \<and>
    m' = m + of_nat (length (filter G [i..<n])) \<and>
    (if n = length regions then \<not> stop \<and> c' = c1 else stop \<and> p \<and> poll c1 = (True, c'))"
  using assms
proof (induction "length regions - i" arbitrary: i c s m)
  case 0
  then show ?case by (intro exI [of _ i]) simp
next
  case (Suc k)
  then have i: "i < length regions" and k: "k = length regions - Suc i" by simp_all
  have dr: "drop i regions = regions ! i # drop (Suc i) regions" using i by (rule Cons_nth_drop_Suc [symmetric])
  obtain st c2 where po: "(if p then poll c else (False, c)) = (st, c2)" by fastforce
  show ?case
  proof (cases st)
    case True
    then have "p" "poll c = (True, c2)" using po by (auto split: if_splits)
    moreover have "stop" "m' = m" "c' = c2" "s' = s" using Suc.prems(1) po True by (simp_all add: dr)
    ultimately show ?thesis using i by (intro exI [of _ i] exI [of _ "\<lambda>_. False"] exI [of _ c]) simp
  next
    case False
    then obtain ok c3 s3 where e: "ensureResident (env i) (regions ! i) t c2 s = Some (ok, c3, s3)"
      "ensure_all env p t (Suc i) (drop (Suc i) regions) c3 s3 (if ok then m + 1 else m) = Some (stop, m', c', s')"
      using Suc.prems(1) po by (auto simp: dr split: option.splits)
    obtain n G c1 where n: "Suc i \<le> n" "n \<le> length regions"
      "replay_calls env regions (map (\<lambda>j. Call j p t (G j)) [Suc i..<n]) c3 s3 = Some (c1, s')"
      "m' = (if ok then m + 1 else m) + of_nat (length (filter G [Suc i..<n]))"
      "if n = length regions then \<not> stop \<and> c' = c1 else stop \<and> p \<and> poll c1 = (True, c')"
      using Suc.hyps(1) [OF k e(2) Suc_leI [OF i]] by (elim exE conjE)
    let ?G = "G(i := ok)"
    have "map (\<lambda>j. Call j p t (?G j)) [i..<n] = Call i p t ok # map (\<lambda>j. Call j p t (G j)) [Suc i..<n]"
      using n(1) by (simp add: upt_conv_Cons)
    moreover have "filter ?G [Suc i..<n] = filter G [Suc i..<n]" by (rule filter_cong) auto
    ultimately show ?thesis
      using n e(1) po False filter_first [of i n ?G]
      by (intro exI [of _ n] exI [of _ ?G] exI [of _ c1]) simp
  qed
qed

lemma ensure_partial_calls:
  assumes "ensure_partial env ua bud i (drop i regions) c s m a up = Some (stop, m', a', c', s')" "i \<le> length regions"
  shows "\<exists>n G U c1. i \<le> n \<and> n \<le> length regions \<and>
    replay_calls env regions (concat (map (\<lambda>j. Call j True ModelResidencyTarget.RAM (G j) #
      (if asks_from ua bud up regions i G U j then [Call j False ModelResidencyTarget.ACCELERATOR (U j)] else [])) [i..<n])) c s =
      Some (c1, s') \<and>
    (\<forall>j. i \<le> j \<and> j < n \<and> U j \<longrightarrow> asks_from ua bud up regions i G U j) \<and>
    m' = m + of_nat (length (filter G [i..<n])) \<and> a' = a + of_nat (length (filter U [i..<n])) \<and>
    (if n = length regions then \<not> stop \<and> c' = c1 else stop \<and> poll c1 = (True, c'))"
  using assms
proof (induction "length regions - i" arbitrary: i c s m a up)
  case 0
  then show ?case by (intro exI [of _ i] exI [of _ "\<lambda>_. False"] exI [of _ c]) simp
next
  case (Suc k)
  then have i: "i < length regions" and k: "k = length regions - Suc i" by simp_all
  have dr: "drop i regions = regions ! i # drop (Suc i) regions" using i by (rule Cons_nth_drop_Suc [symmetric])
  obtain st c2 where po: "poll c = (st, c2)" by fastforce
  show ?case
  proof (cases st)
    case True
    have "stop" "m' = m" "a' = a" "c' = c2" "s' = s" using Suc.prems(1) po True by (simp_all add: dr)
    then show ?thesis using i po True
      by (intro exI [of _ i] exI [of _ "\<lambda>_. False"] exI [of _ c]) simp
  next
    case False
    let ?g = "regions ! i"
    let ?ask = "\<lambda>ok. ok \<and> ua \<and> bud > 0 \<and> up + rg_size ?g \<le> bud"
    obtain ok c3 s3 where e: "ensureResident (env i) ?g ModelResidencyTarget.RAM c2 s = Some (ok, c3, s3)"
      using Suc.prems(1) po False by (auto simp: dr split: option.splits)
    have "\<exists>u c4 s4. (if ?ask ok then ensureResident (env i) ?g ModelResidencyTarget.ACCELERATOR c3 s3 = Some (u, c4, s4)
        else \<not> u \<and> c4 = c3 \<and> s4 = s3) \<and>
      ensure_partial env ua bud (Suc i) (drop (Suc i) regions) c4 s4 (if ok then m + 1 else m) (if u then a + 1 else a)
        (up + (if u then rg_size ?g else 0)) = Some (stop, m', a', c', s')"
      using Suc.prems(1) po False e by (cases ok) (auto simp: dr split: option.splits if_splits)
    then obtain u c4 s4 where u: "if ?ask ok then ensureResident (env i) ?g ModelResidencyTarget.ACCELERATOR c3 s3 = Some (u, c4, s4)
        else \<not> u \<and> c4 = c3 \<and> s4 = s3"
      and r: "ensure_partial env ua bud (Suc i) (drop (Suc i) regions) c4 s4 (if ok then m + 1 else m) (if u then a + 1 else a)
        (up + (if u then rg_size ?g else 0)) = Some (stop, m', a', c', s')" by blast
    let ?up = "up + (if u then rg_size ?g else 0)"
    let ?calls = "\<lambda>up i0 G U j. Call j True ModelResidencyTarget.RAM (G j) #
      (if asks_from ua bud up regions i0 G U j then [Call j False ModelResidencyTarget.ACCELERATOR (U j)] else [])"
    obtain n G U c1 where n: "Suc i \<le> n" "n \<le> length regions"
      "replay_calls env regions (concat (map (?calls ?up (Suc i) G U) [Suc i..<n])) c4 s4 = Some (c1, s')"
      "\<forall>j. Suc i \<le> j \<and> j < n \<and> U j \<longrightarrow> asks_from ua bud ?up regions (Suc i) G U j"
      "m' = (if ok then m + 1 else m) + of_nat (length (filter G [Suc i..<n]))"
      "a' = (if u then a + 1 else a) + of_nat (length (filter U [Suc i..<n]))"
      "if n = length regions then \<not> stop \<and> c' = c1 else stop \<and> poll c1 = (True, c')"
      using Suc.hyps(1) [OF k r Suc_leI [OF i]] by (elim exE conjE)
    let ?G = "G(i := ok)" and ?U = "U(i := u)"
    have ub: "up_bytes regions ?U i j = (if u then rg_size ?g else 0) + up_bytes regions U (Suc i) j" if "i < j" for j
      using up_bytes_first [OF that, of regions ?U] up_bytes_cong [of "Suc i" ?U U regions j] by simp
    have asks: "asks_from ua bud up regions i ?G ?U j = asks_from ua bud ?up regions (Suc i) G U j" if "Suc i \<le> j" for j
      using that ub [of j] by (simp add: asks_from_def add.assoc)
    have ask_i: "asks_from ua bud up regions i ?G ?U i = ?ask ok" by (auto simp: asks_from_def up_bytes_def)
    define f where "f = ?calls up i ?G ?U"
    define f2 where "f2 = ?calls ?up (Suc i) G U"
    have fm: "map f [Suc i..<n] = map f2 [Suc i..<n]"
      unfolding f_def f2_def using asks by (intro map_cong) auto
    have fu: "[i..<n] = i # [Suc i..<n]" using n(1) by (simp add: upt_conv_Cons)
    have fi: "f i = Call i True ModelResidencyTarget.RAM ok # (if ?ask ok then [Call i False ModelResidencyTarget.ACCELERATOR u] else [])"
      unfolding f_def ask_i by simp
    have fs: "concat (map f [i..<n]) =
        (Call i True ModelResidencyTarget.RAM ok # (if ?ask ok then [Call i False ModelResidencyTarget.ACCELERATOR u] else [])) @
        concat (map f2 [Suc i..<n])" by (simp only: fu fm fi list.map concat.simps)
    have "replay_calls env regions (concat (map f [i..<n])) c s = Some (c1, s')"
      using po False e u n(3) unfolding fs f2_def [symmetric] by (auto split: if_splits)
    then have rep: "replay_calls env regions (concat (map (?calls up i ?G ?U) [i..<n])) c s = Some (c1, s')"
      by (simp only: f_def)
    have fil: "filter ?G [Suc i..<n] = filter G [Suc i..<n]" "filter ?U [Suc i..<n] = filter U [Suc i..<n]"
      by (rule filter_cong; auto)+
    have only: "\<forall>j. i \<le> j \<and> j < n \<and> ?U j \<longrightarrow> asks_from ua bud up regions i ?G ?U j"
    proof (intro allI impI)
      fix j assume j: "i \<le> j \<and> j < n \<and> ?U j"
      show "asks_from ua bud up regions i ?G ?U j"
      proof (cases "j = i")
        case True
        then show ?thesis using j u ask_i by (auto split: if_splits)
      next
        case no: False
        then show ?thesis using j n(4) asks [of j] by simp
      qed
    qed
    show ?thesis
      using n(1,2,5-7) rep only fil filter_first [of i n ?G] filter_first [of i n ?U]
      by (intro exI [of _ n] exI [of _ ?G] exI [of _ ?U] exI [of _ c1]) (simp del: fun_upd_apply, simp)
  qed
qed

lemma non_polling_runs_on: "ensure_all env False t i regs c s m = Some (stop, m', c', s') \<Longrightarrow> \<not> stop"
  by (induction regs arbitrary: i c s m) (auto split: option.splits)

lemma uniform_calls:
  assumes "pl_residency pl \<notin> {ExecutionStrategy.PARTIAL_RESIDENT, ExecutionStrategy.ACCELERATOR_OFFLOAD}"
  shows "plan_calls pl regions n G U =
    map (\<lambda>j. Call j (pl_residency pl \<noteq> ExecutionStrategy.MEMORY_PRESSURE) (first_target pl) (G j)) [0..<n]"
  using assms by (simp add: plan_calls_def asks_upload_def concat_map_singleton)

lemma targets_first:
  "targets_accel pl = plan_uses_accel pl"
  "pl_residency pl \<in> {ExecutionStrategy.FULL_RESIDENT, ExecutionStrategy.AUTO, ExecutionStrategy.HYBRID} \<Longrightarrow>
    accel_target (targets_accel pl) = first_target pl"
  "pl_residency pl \<notin> {ExecutionStrategy.FULL_RESIDENT, ExecutionStrategy.AUTO, ExecutionStrategy.HYBRID} \<Longrightarrow>
    first_target pl = ModelResidencyTarget.RAM"
  by (auto simp: targets_accel_def plan_uses_accel_def accel_target_def first_target_def)

text \<open>A plan's calls and its result, for every strategy that loads.\<close>

definition carried_out ::
    "(nat \<Rightarrow> ('d, 'a) ResidencyEnv) \<Rightarrow> ModelExecutionPlan \<Rightarrow> ModelRegion list \<Rightarrow> nat \<Rightarrow> (nat \<Rightarrow> bool) \<Rightarrow> (nat \<Rightarrow> bool)
     \<Rightarrow> cancel \<Rightarrow> ('d, 'a) rm \<Rightarrow> PlanResidencyResult \<Rightarrow> cancel \<Rightarrow> ('d, 'a) rm \<Rightarrow> bool" where
  "carried_out env pl regions n G U c s r c' s' \<longleftrightarrow> n \<le> length regions \<and>
     (\<exists>c1. replay_calls env regions (plan_calls pl regions n G U) c s = Some (c1, s') \<and>
        (if n = length regions then c' = c1
         else pl_residency pl \<noteq> ExecutionStrategy.MEMORY_PRESSURE \<and> poll c1 = (True, c'))) \<and>
     (\<forall>i. i < n \<and> U i \<longrightarrow> asks_upload pl regions G U i) \<and>
     plan_outcome pl regions n G U (rm_last_error s') r"

lemma uniform_carried:
  assumes loop: "ensure_all env p (first_target pl) 0 regions c s 0 = Some (stop, m, c', s')"
    and pl: "pl_residency pl \<notin> {ExecutionStrategy.PARTIAL_RESIDENT, ExecutionStrategy.ACCELERATOR_OFFLOAD}"
      "p \<longleftrightarrow> pl_residency pl \<noteq> ExecutionStrategy.MEMORY_PRESSURE"
    and r: "pr_regions_total r = of_nat (length regions)" "pr_regions_ram r = m"
      "pr_regions_accel r = (if first_target pl = ModelResidencyTarget.ACCELERATOR then m else 0)"
      "pr_success r \<longleftrightarrow> \<not> stop \<and> (if pl_residency pl = ExecutionStrategy.CPU_FALLBACK then m = pr_regions_total r else m \<noteq> 0)"
      "pr_error r = (if stop then ''Cancelled'' else if pr_success r then [] else rm_last_error s')"
  shows "\<exists>n G U. carried_out env pl regions n G U c s r c' s'"
proof -
  obtain n G c1 where n: "n \<le> length regions"
    "replay_calls env regions (map (\<lambda>j. Call j p (first_target pl) (G j)) [0..<n]) c s = Some (c1, s')"
    "m = of_nat (length (filter G [0..<n]))"
    "if n = length regions then \<not> stop \<and> c' = c1 else stop \<and> p \<and> poll c1 = (True, c')"
    using ensure_all_calls [of env p "first_target pl" 0 regions c s 0 stop m c' s'] loop by auto
  have st: "stop \<longleftrightarrow> n < length regions" using n(1,4) by (auto split: if_splits)
  have "plan_outcome pl regions n G (\<lambda>_. False) (rm_last_error s') r"
    using r n(1,3) st by (auto simp: plan_outcome_def)
  then have "carried_out env pl regions n G (\<lambda>_. False) c s r c' s'"
    using n pl unfolding carried_out_def uniform_calls [OF pl(1)] by (auto split: if_splits)
  then show ?thesis by blast
qed

lemma partial_carried:
  assumes loop: "ensure_partial env (targets_accel pl) (pl_memory_budget_bytes pl) 0 regions c s 0 0 0 = Some (stop, m, a, c', s')"
    and pl: "pl_residency pl \<in> {ExecutionStrategy.PARTIAL_RESIDENT, ExecutionStrategy.ACCELERATOR_OFFLOAD}"
    and r: "pr_regions_total r = of_nat (length regions)" "pr_regions_ram r = m" "pr_regions_accel r = a"
      "pr_success r \<longleftrightarrow> \<not> stop \<and> m \<noteq> 0"
      "pr_error r = (if stop then ''Cancelled'' else if pr_success r then [] else rm_last_error s')"
  shows "\<exists>n G U. carried_out env pl regions n G U c s r c' s'"
proof -
  let ?asks = "asks_from (targets_accel pl) (pl_memory_budget_bytes pl) 0 regions 0"
  obtain n G U c1 where n: "n \<le> length regions"
    "replay_calls env regions (concat (map (\<lambda>j. Call j True ModelResidencyTarget.RAM (G j) #
       (if ?asks G U j then [Call j False ModelResidencyTarget.ACCELERATOR (U j)] else [])) [0..<n])) c s = Some (c1, s')"
    "\<forall>j. j < n \<and> U j \<longrightarrow> ?asks G U j"
    "m = of_nat (length (filter G [0..<n]))" "a = of_nat (length (filter U [0..<n]))"
    "if n = length regions then \<not> stop \<and> c' = c1 else stop \<and> poll c1 = (True, c')"
    using ensure_partial_calls [of env "targets_accel pl" "pl_memory_budget_bytes pl" 0 regions c s 0 0 0 stop m a c' s'] loop
    by auto
  have asks: "?asks G U = asks_upload pl regions G U"
    using pl by (auto simp: fun_eq_iff asks_from_def asks_upload_def targets_first(1))
  have ft: "first_target pl = ModelResidencyTarget.RAM" using pl by (intro targets_first(3)) auto
  have st: "stop \<longleftrightarrow> n < length regions" using n(1,6) by (auto split: if_splits)
  have np: "pl_residency pl \<noteq> ExecutionStrategy.MEMORY_PRESSURE" "pl_residency pl \<noteq> ExecutionStrategy.CPU_FALLBACK" using pl by auto
  have "plan_outcome pl regions n G U (rm_last_error s') r"
    using r n(1,4,5) st np ft by (auto simp: plan_outcome_def)
  moreover have "replay_calls env regions (plan_calls pl regions n G U) c s = Some (c1, s')"
    using n(2) np ft by (simp add: plan_calls_def asks)
  ultimately have "carried_out env pl regions n G U c s r c' s'"
    using n(1,3,6) np unfolding carried_out_def asks by (auto split: if_splits)
  then show ?thesis by blast
qed

lemma strategy_carried:
  assumes ap: "apply_strategy env pl regions c s = Some (r, c', s')" and ns: "pl_residency pl \<noteq> ExecutionStrategy.STREAMING"
  shows "\<exists>n G U. carried_out env pl regions n G U c s r c' s'"
proof -
  note defs = apply_strategy_def apply_cpu_def apply_full_def apply_partial_def apply_hybrid_def apply_unknown_def
    finish_apply_def pr_default_def Let_def word_neq_0_conv
  consider (cpu) "pl_residency pl = ExecutionStrategy.CPU_FALLBACK"
    | (full) "pl_residency pl \<in> {ExecutionStrategy.FULL_RESIDENT, ExecutionStrategy.AUTO, ExecutionStrategy.HYBRID}"
    | (part) "pl_residency pl \<in> {ExecutionStrategy.PARTIAL_RESIDENT, ExecutionStrategy.ACCELERATOR_OFFLOAD}"
    | (unknown) "pl_residency pl = ExecutionStrategy.MEMORY_PRESSURE"
    using ns by (cases "pl_residency pl") auto
  then show ?thesis
  proof cases
    case cpu
    then have ft: "first_target pl = ModelResidencyTarget.RAM" by (intro targets_first(3)) auto
    obtain stop m where l: "ensure_all env True (first_target pl) 0 regions c s 0 = Some (stop, m, c', s')"
      using ap cpu by (auto simp: defs ft split: option.splits bool.splits)
    show ?thesis
      by (rule uniform_carried [OF l]) (use ap cpu l in \<open>auto simp: defs ft split: bool.splits\<close>)
  next
    case full
    note ft = targets_first(2) [OF full, symmetric]
    obtain stop m where l: "ensure_all env True (first_target pl) 0 regions c s 0 = Some (stop, m, c', s')"
      using ap full unfolding ft by (auto simp: defs split: option.splits)
    obtain e where fin: "r = (let q = pr_default\<lparr>pr_regions_total := of_nat (length regions), pr_regions_ram := m,
        pr_regions_accel := (if targets_accel pl then m else 0), pr_explanation := e\<rparr>
      in if stop then q\<lparr>pr_error := ''Cancelled''\<rparr> else finish_apply (m > 0) (rm_last_error s') q)"
      using ap full l unfolding ft by (cases stop) (auto simp: defs)
    have "(first_target pl = ModelResidencyTarget.ACCELERATOR) = targets_accel pl"
      unfolding ft by (simp add: accel_target_def)
    then show ?thesis
      by (intro uniform_carried [OF l]) (use full in \<open>auto simp: fin defs\<close>)
  next
    case part
    obtain stop m a where l: "ensure_partial env (targets_accel pl) (pl_memory_budget_bytes pl) 0 regions c s 0 0 0 =
        Some (stop, m, a, c', s')"
      using ap part by (auto simp: defs split: option.splits)
    show ?thesis
      by (rule partial_carried [OF l part]) (use ap part l in \<open>auto simp: defs split: if_splits\<close>)
  next
    case unknown
    then have ft: "first_target pl = ModelResidencyTarget.RAM" by (intro targets_first(3)) auto
    obtain stop m where l: "ensure_all env False (first_target pl) 0 regions c s 0 = Some (stop, m, c', s')"
      using ap unknown by (auto simp: defs ft split: option.splits)
    show ?thesis
      by (rule uniform_carried [OF l])
        (use ap unknown l non_polling_runs_on [OF l] in \<open>auto simp: defs ft\<close>)
  qed
qed

text \<open>The bytes uploaded in second calls stay within the plan's budget, unless sizes add up to 16 EiB.\<close>

lemma unat_sum_list: "sum_list (map unat (ws :: u64 list)) < 2 ^ 64 \<Longrightarrow> unat (sum_list ws) = sum_list (map unat ws)"
proof (induction ws)
  case (Cons w ws)
  then show ?case using unat_add_exact [of w "sum_list ws"] by simp
qed simp

lemma up_bytes_within:
  "(\<And>i. i < n \<Longrightarrow> U i \<Longrightarrow> up_bytes regions U 0 i + rg_size (regions ! i) \<le> bud) \<Longrightarrow> up_bytes regions U 0 n \<le> bud"
proof (induction n)
  case (Suc n)
  have "up_bytes regions U 0 (Suc n) = up_bytes regions U 0 n + (if U n then rg_size (regions ! n) else 0)"
    by (simp add: up_bytes_def)
  then show ?case using Suc.IH Suc.prems by auto
qed (simp add: up_bytes_def)

lemma uploads_within:
  assumes ups: "\<forall>i. i < n \<and> U i \<longrightarrow> asks_upload pl regions G U i" and n: "n \<le> length regions"
    and total: "sum_list (map (unat \<circ> rg_size) regions) < 2 ^ 64"
  shows "sum_list (map (\<lambda>i. unat (rg_size (regions ! i))) (filter U [0..<n])) \<le> unat (pl_memory_budget_bytes pl)"
proof -
  let ?f = "\<lambda>i. unat (rg_size (regions ! i))"
  have "sum_list (map ?f (filter U [0..<n])) \<le> sum_list (map ?f [0..<n])" by (rule sum_list_filter_le_nat)
  also have "\<dots> \<le> sum_list (map ?f [0..<length regions])"
    using n upt_add_eq_append [of 0 n "length regions - n"] by simp
  also have "map ?f [0..<length regions] = map (unat \<circ> rg_size) regions"
    by (intro nth_equalityI) simp_all
  finally have le: "sum_list (map ?f (filter U [0..<n])) < 2 ^ 64" using total by simp
  have "unat (up_bytes regions U 0 n) = sum_list (map ?f (filter U [0..<n]))"
    unfolding up_bytes_def using unat_sum_list [of "map (\<lambda>k. rg_size (regions ! k)) (filter U [0..<n])"] le by (simp add: comp_def)
  moreover have "up_bytes regions U 0 n \<le> pl_memory_budget_bytes pl"
    using ups by (intro up_bytes_within) (auto simp: asks_upload_def)
  ultimately show ?thesis by (simp add: word_le_nat_alt)
qed

section \<open>The loops keep the residency invariant\<close>

context residency
begin

lemma ensureResident_ok:
  assumes "env_ok env" "rm_ok s" "fits s"
  shows "\<exists>b c' s'. ensureResident env g t c s = Some (b, c', s') \<and> rm_ok s' \<and> fits s' \<and> rm_budget s' = rm_budget s"
proof -
  obtain b c' s' where e: "ensureResident env g t c s = Some (b, c', s')" "keeps (rg_id g) s s'"
    using ensureResident_spec [OF assms, of g t c] by blast
  have "rm_ok s'" by (rule keeps_ok [OF e(2)])
  moreover have "fits s'" using assms(3) fits_keeps [OF e(2)] by simp
  moreover have "rm_budget s' = rm_budget s" using e(2) by (simp add: keeps_def)
  ultimately show ?thesis using e(1) by blast
qed

lemma ensure_all_ok:
  assumes env: "\<forall>i. env_ok (env i)"
  shows "rm_ok s \<Longrightarrow> fits s \<Longrightarrow> \<exists>stop n' c' s'. ensure_all env check t i regs c s n = Some (stop, n', c', s') \<and>
    rm_ok s' \<and> fits s' \<and> rm_budget s' = rm_budget s"
proof (induction regs arbitrary: i c s n)
  case (Cons g regs)
  obtain stop c1 where p: "(if check then poll c else (False, c)) = (stop, c1)"
    by (cases "if check then poll c else (False, c)")
  show ?case
  proof (cases stop)
    case True
    with p Cons.prems show ?thesis by (auto simp: Let_def)
  next
    case False
    obtain b c2 s2 where e: "ensureResident (env i) g t c1 s = Some (b, c2, s2)" "rm_ok s2" "fits s2"
        "rm_budget s2 = rm_budget s"
      using ensureResident_ok [OF env [rule_format] Cons.prems] by blast
    from Cons.IH [OF e(2,3), where i = "i + 1" and c = c2 and n = "if b then n + 1 else n"] e(4)
    show ?thesis using p False e(1) by (simp add: Let_def)
  qed
qed auto

lemma ensure_partial_ok:
  assumes env: "\<forall>i. env_ok (env i)"
  shows "rm_ok s \<Longrightarrow> fits s \<Longrightarrow>
    \<exists>stop n' m' c' s'. ensure_partial env ua bud i regs c s n m up = Some (stop, n', m', c', s') \<and>
      rm_ok s' \<and> fits s' \<and> rm_budget s' = rm_budget s"
proof (induction regs arbitrary: i c s n m up)
  case (Cons g regs)
  obtain stop c1 where p: "poll c = (stop, c1)" by (cases "poll c")
  show ?case
  proof (cases stop)
    case True
    with p Cons.prems show ?thesis by (auto simp: Let_def)
  next
    case False
    obtain b c2 s2 where e: "ensureResident (env i) g ModelResidencyTarget.RAM c1 s = Some (b, c2, s2)"
        "rm_ok s2" "fits s2" "rm_budget s2 = rm_budget s"
      using ensureResident_ok [OF env [rule_format] Cons.prems] by blast
    show ?thesis
    proof (cases "b \<and> ua \<and> bud > 0 \<and> up + rg_size g \<le> bud")
      case True
      obtain b3 c3 s3 where e3: "ensureResident (env i) g ModelResidencyTarget.ACCELERATOR c2 s2 = Some (b3, c3, s3)"
          "rm_ok s3" "fits s3" "rm_budget s3 = rm_budget s2"
        using ensureResident_ok [OF env [rule_format] e(2,3)] by blast
      from Cons.IH [OF e3(2,3), of "i + 1" c3 "n + 1" "if b3 then m + 1 else m" "if b3 then up + rg_size g else up"]
      show ?thesis using p False True e(1,4) e3(1,4) by (simp add: Let_def)
    next
      case no: False
      from Cons.IH [OF e(2,3), of "i + 1" c2 "if b then n + 1 else n" m up]
      show ?thesis using p False no e(1,4) by (cases b) (auto simp: Let_def)
    qed
  qed
qed auto

lemma apply_plan_ok:
  assumes env: "\<forall>i. env_ok (env i)" and s: "rm_ok s" "fits s"
  shows "\<exists>r c' s'. apply_plan env xenv pl path c s = Some (r, c', s') \<and> rm_ok s' \<and> rm_budget s' = rm_budget s"
proof -
  have "\<exists>r c' s'. apply_strategy env pl regions c s = Some (r, c', s') \<and> rm_ok s' \<and> rm_budget s' = rm_budget s"
    for regions
  proof -
    have all: "\<exists>stop n' c' s'. ensure_all env ch t 0 regions c s 0 = Some (stop, n', c', s') \<and>
        rm_ok s' \<and> rm_budget s' = rm_budget s" for ch t
      using ensure_all_ok [OF env s, where check = ch and t = t and regs = regions and c = c] by blast
    have part: "\<exists>stop n' m' c' s'. ensure_partial env ua bud 0 regions c s 0 0 0 = Some (stop, n', m', c', s') \<and>
        rm_ok s' \<and> rm_budget s' = rm_budget s" for ua bud
      using ensure_partial_ok [OF env s, where ua = ua and bud = bud and regs = regions and c = c] by blast
    have 1: "\<exists>r' c' s'. apply_cpu env regions r c s = Some (r', c', s') \<and> rm_ok s' \<and> rm_budget s' = rm_budget s" for r
      using all [of True ModelResidencyTarget.RAM]
      by (elim exE conjE) (simp add: apply_cpu_def Let_def split: bool.split)
    have 2: "\<exists>r' c' s'. apply_full env pl regions r c s = Some (r', c', s') \<and> rm_ok s' \<and> rm_budget s' = rm_budget s" for r
      using all [of True "accel_target (targets_accel pl)"]
      by (elim exE conjE) (simp add: apply_full_def Let_def)
    have 3: "\<exists>r' c' s'. apply_partial env pl regions r c s = Some (r', c', s') \<and> rm_ok s' \<and> rm_budget s' = rm_budget s" for r
      using part [of "targets_accel pl" "pl_memory_budget_bytes pl"]
      by (elim exE conjE) (simp add: apply_partial_def Let_def)
    have 4: "\<exists>r' c' s'. apply_hybrid env pl regions r c s = Some (r', c', s') \<and> rm_ok s' \<and> rm_budget s' = rm_budget s" for r
      using all [of True "accel_target (targets_accel pl)"]
      by (elim exE conjE) (simp add: apply_hybrid_def Let_def)
    have 5: "\<exists>r' c' s'. apply_unknown env regions r c s = Some (r', c', s') \<and> rm_ok s' \<and> rm_budget s' = rm_budget s" for r
      using all [of False ModelResidencyTarget.RAM]
      by (elim exE conjE) (simp add: apply_unknown_def Let_def)
    show ?thesis
      using s(1) 1 2 3 4 5 by (cases "pl_residency pl") (simp_all add: apply_strategy_def Let_def)
  qed
  with s(1) show ?thesis by (simp add: apply_plan_def Let_def split: prod.split)
qed

text \<open>At every granted call the region is then resident at the target that was asked for.\<close>

lemma replay_calls_keeps:
  assumes env: "\<forall>i. env_ok (env i)"
  shows "rm_ok s \<Longrightarrow> fits s \<Longrightarrow> replay_calls env regions qs c s = Some (c', s') \<Longrightarrow> rm_ok s' \<and> fits s'"
proof (induction qs arbitrary: c s)
  case (Cons q qs)
  obtain i p t ok where q: "q = Call i p t ok" by (cases q)
  from Cons.prems(3) obtain c1 b c2 s2 where
    e: "ensureResident (env i) (regions ! i) t c1 s = Some (b, c2, s2)" "replay_calls env regions qs c2 s2 = Some (c', s')"
    unfolding q by (auto split: prod.splits if_splits option.splits)
  have "rm_ok s2 \<and> fits s2" using ensureResident_ok [OF env [rule_format] Cons.prems(1,2), of i "regions ! i" t c1] e(1) by auto
  then show ?case using Cons.IH e(2) by blast
qed simp

lemma replay_calls_granted:
  assumes env: "\<forall>i. env_ok (env i)" and s: "rm_ok s" "fits s"
    and run: "replay_calls env regions (ys @ q # zs) c s = Some (c', s')" and g: "call_granted q"
  shows "\<exists>c2 s2. replay_calls env regions (ys @ [q]) c s = Some (c2, s2) \<and>
    isResident (rg_id (regions ! call_index q)) (call_target q) s2"
proof -
  have "replay_calls env regions ((ys @ [q]) @ zs) c s = Some (c', s')" using run by simp
  then obtain c2 s2 where full: "replay_calls env regions (ys @ [q]) c s = Some (c2, s2)" unfolding replay_calls_append by blast
  then obtain c1 s1 where pre: "replay_calls env regions ys c s = Some (c1, s1)" "replay_calls env regions [q] c1 s1 = Some (c2, s2)"
    unfolding replay_calls_append by blast
  obtain i p t where q: "q = Call i p t True" using g by (cases q) simp
  obtain c3 where e: "ensureResident (env i) (regions ! i) t c3 s1 = Some (True, c2, s2)"
    using pre(2) unfolding q by (auto split: prod.splits if_splits option.splits)
  have "rm_ok s1" "fits s1" using replay_calls_keeps [OF env s pre(1)] by simp_all
  from ensureResident_spec [OF env [rule_format] this, of i "regions ! i" t c3] e
  have "isResident (rg_id (regions ! i)) t s2" by auto
  then show ?thesis using full by (auto simp: q)
qed

end

section \<open>Properties\<close>

lemma plan_ends:
  assumes "runs_over fenv newok xs" "budget_fits fenv budget"
    and "rm_run xs (system_start fenv path budget capacity) = Some s"
    and "\<forall>i. re_src (env i) = file_vtable fenv \<and> re_acc (env i) = host_acc_vtable newok"
  shows "\<forall>i. file_host.env_ok fenv newok (env i)" "file_host.rm_ok fenv s" "file_host.fits fenv s"
    "\<exists>r c' s'. apply_plan env xenv pl model_path c s = Some (r, c', s')"
proof -
  from system_run [OF assms(1,2), of path capacity] assms(3)
  show s: "file_host.rm_ok fenv s" "file_host.fits fenv s" by simp_all
  show env: "\<forall>i. file_host.env_ok fenv newok (env i)"
    using assms(4) by (simp add: file_host.env_ok_def)
  show "\<exists>r c' s'. apply_plan env xenv pl model_path c s = Some (r, c', s')"
    using file_host.apply_plan_ok [OF env s, of xenv pl model_path c] by blast
qed

definition plan_loads :: "ModelExecutionPlan \<Rightarrow> ModelRegion list \<Rightarrow> bool" where
  "plan_loads pl regions \<longleftrightarrow> pl_viable pl \<and> pl_mode pl \<noteq> ExecutionMode.UNSUPPORTED \<and>
     pl_residency pl \<noteq> ExecutionStrategy.STREAMING \<and> regions \<noteq> []"

lemma streaming_loads_nothing:
  "apply_strategy env pl regions c s = Some (r, c', s') \<Longrightarrow> pl_residency pl = ExecutionStrategy.STREAMING \<Longrightarrow>
     c' = c \<and> s' = s \<and> pr_success r"
  by (auto simp: apply_strategy_def Let_def)

lemma apply_plan_split:
  assumes "apply_plan env xenv pl model_path c s = Some (r, c', s')"
  shows "if plan_loads pl (plan_regions xenv model_path)
    then apply_strategy env pl (plan_regions xenv model_path) c s = Some (r, c', s')
    else c' = c \<and> s' = s \<and> (pr_success r \<longleftrightarrow>
      pl_viable pl \<and> pl_mode pl \<noteq> ExecutionMode.UNSUPPORTED \<and> plan_regions xenv model_path \<noteq> [])"
  using assms
  by (auto simp: apply_plan_def plan_loads_def plan_regions_def pr_default_def Let_def
      split: if_splits prod.splits dest: streaming_loads_nothing)

text \<open>
  C31: carrying out a plan on a reachable residency manager ends, and the manager is left as by exactly
  the calls that the plan stands for. A plan that is refused, streams or finds no region makes no call. Any
  other asks for every extracted region in order, up to the first one before which the
  cancel flag was read as set: on the accelerator when a full or hybrid plan runs on VULKAN or CUDA, in RAM
  otherwise. A partial plan on these modes asks a second time, for the accelerator, exactly for
  the regions in RAM that still fit its memory budget, and what it uploads so stays within it. The result
  counts what was granted, reports success by the rule of the strategy, and every
  granted region was resident at its target after its call.\<close>

theorem apply_plan_calls:
  assumes "runs_over fenv newok xs" "budget_fits fenv budget"
    and "rm_run xs (system_start fenv path budget capacity) = Some s"
    and "\<forall>i. re_src (env i) = file_vtable fenv \<and> re_acc (env i) = host_acc_vtable newok"
    and "regions = plan_regions xenv model_path"
  shows "\<exists>r c' s'. apply_plan env xenv pl model_path c s = Some (r, c', s') \<and>
    (if \<not> plan_loads pl regions then c' = c \<and> s' = s \<and>
       (pr_success r \<longleftrightarrow> pl_viable pl \<and> pl_mode pl \<noteq> ExecutionMode.UNSUPPORTED \<and> regions \<noteq> [])
     else \<exists>n G U c1. n \<le> length regions \<and>
       replay_calls env regions (plan_calls pl regions n G U) c s = Some (c1, s') \<and>
       (if n = length regions then c' = c1
        else pl_residency pl \<noteq> ExecutionStrategy.MEMORY_PRESSURE \<and> poll c1 = (True, c')) \<and>
       (\<forall>i. i < n \<and> U i \<longrightarrow> asks_upload pl regions G U i) \<and>
       (sum_list (map (unat \<circ> rg_size) regions) < 2 ^ 64 \<longrightarrow>
          sum_list (map (\<lambda>i. unat (rg_size (regions ! i))) (filter U [0..<n])) \<le> unat (pl_memory_budget_bytes pl)) \<and>
       plan_outcome pl regions n G U (rm_last_error s') r \<and>
       (\<forall>ys q zs. plan_calls pl regions n G U = ys @ q # zs \<and> call_granted q \<longrightarrow>
          (\<exists>c2 s2. replay_calls env regions (ys @ [q]) c s = Some (c2, s2) \<and>
             isResident (rg_id (regions ! call_index q)) (call_target q) s2)))"
proof -
  note ok = plan_ends [OF assms(1-4)]
  obtain r c' s' where a: "apply_plan env xenv pl model_path c s = Some (r, c', s')" using ok(4) by blast
  note sp = apply_plan_split [OF a, folded assms(5)]
  show ?thesis
  proof (cases "plan_loads pl regions")
    case False
    with a sp show ?thesis by auto
  next
    case True
    then have "pl_residency pl \<noteq> ExecutionStrategy.STREAMING" by (simp add: plan_loads_def)
    then obtain n G U where co: "carried_out env pl regions n G U c s r c' s'"
      using strategy_carried [of env pl regions c s r c' s'] sp True by auto
    then obtain c1 where run: "replay_calls env regions (plan_calls pl regions n G U) c s = Some (c1, s')"
      "if n = length regions then c' = c1
       else pl_residency pl \<noteq> ExecutionStrategy.MEMORY_PRESSURE \<and> poll c1 = (True, c')"
      by (auto simp: carried_out_def)
    have ups: "n \<le> length regions" "\<forall>i. i < n \<and> U i \<longrightarrow> asks_upload pl regions G U i"
      "plan_outcome pl regions n G U (rm_last_error s') r" using co by (simp_all add: carried_out_def)
    have within: "sum_list (map (unat \<circ> rg_size) regions) < 2 ^ 64 \<longrightarrow>
        sum_list (map (\<lambda>i. unat (rg_size (regions ! i))) (filter U [0..<n])) \<le> unat (pl_memory_budget_bytes pl)"
      using uploads_within [OF ups(2,1)] by blast
    have granted: "\<forall>ys q zs. plan_calls pl regions n G U = ys @ q # zs \<and> call_granted q \<longrightarrow>
        (\<exists>c2 s2. replay_calls env regions (ys @ [q]) c s = Some (c2, s2) \<and>
           isResident (rg_id (regions ! call_index q)) (call_target q) s2)"
      using file_host.replay_calls_granted [OF ok(1-3)] run(1) by metis
    show ?thesis
      unfolding a by (intro exI [of _ r] exI [of _ c'] exI [of _ s'])
        (simp only: True not_True_eq_False if_False, intro conjI refl exI [of _ n] exI [of _ G] exI [of _ U] exI [of _ c1] ups run within granted)
  qed
qed

definition sample_extract :: ExtractEnv where
  "sample_extract = \<lparr>xe_file_size = Some 8, xe_model_loads = True, xe_tensors = None\<rparr>"

text \<open>Two tensors of three bytes and a partial plan for VULKAN with a budget of four: both are in RAM, one is uploaded.\<close>

definition two_tensors :: ExtractEnv where
  "two_tensors = sample_extract\<lparr>xe_tensors := Some
     [\<lparr>tm_name = Some ''a'', tm_data_offset = 0, tm_data_size = 3\<rparr>, \<lparr>tm_name = Some ''b'', tm_data_offset = 3, tm_data_size = 3\<rparr>]\<rparr>"

definition partial_vulkan_plan :: ModelExecutionPlan where
  "partial_vulkan_plan = plan_default\<lparr>pl_viable := True, pl_mode := ExecutionMode.VULKAN,
     pl_residency := ExecutionStrategy.PARTIAL_RESIDENT, pl_memory_budget_bytes := 4\<rparr>"

theorem apply_plan_calls_witness:
  "\<exists>s r c' s' n G U c1. rm_run [] (system_start sample_file ''m'' sample_budget 8) = Some s \<and>
     apply_plan (\<lambda>i. sample_env 9) two_tensors partial_vulkan_plan ''m'' [] s = Some (r, c', s') \<and>
     pr_success r \<and> pr_regions_ram r = 2 \<and> pr_regions_accel r = 1 \<and>
     replay_calls (\<lambda>i. sample_env 9) (plan_regions two_tensors ''m'')
       (plan_calls partial_vulkan_plan (plan_regions two_tensors ''m'') n G U) [] s = Some (c1, s') \<and>
     plan_outcome partial_vulkan_plan (plan_regions two_tensors ''m'') n G U (rm_last_error s') r"
proof -
  let ?s = "system_start sample_file ''m'' sample_budget 8"
  have ov: "runs_over sample_file (\<lambda>_. True) []" by (simp add: runs_over_def)
  have run: "rm_run [] ?s = Some ?s" by simp
  have env: "\<forall>i::nat. re_src (sample_env 9) = file_vtable sample_file \<and> re_acc (sample_env 9) = host_acc_vtable (\<lambda>_. True)"
    by (simp add: sample_env_def)
  have loads: "plan_loads partial_vulkan_plan (plan_regions two_tensors ''m'')" by code_simp
  have res: "case apply_plan (\<lambda>i. sample_env 9) two_tensors partial_vulkan_plan ''m'' [] ?s of None \<Rightarrow> False
    | Some (r, _) \<Rightarrow> pr_success r \<and> pr_regions_ram r = 2 \<and> pr_regions_accel r = 1" by code_simp
  from apply_plan_calls [where xenv = two_tensors and model_path = "''m''" and pl = partial_vulkan_plan and c = "[]",
      OF ov sample_fits run env refl]
  obtain r c' s' n G U c1 where
    "apply_plan (\<lambda>i. sample_env 9) two_tensors partial_vulkan_plan ''m'' [] ?s = Some (r, c', s')"
    "replay_calls (\<lambda>i. sample_env 9) (plan_regions two_tensors ''m'')
       (plan_calls partial_vulkan_plan (plan_regions two_tensors ''m'') n G U) [] ?s = Some (c1, s')"
    "plan_outcome partial_vulkan_plan (plan_regions two_tensors ''m'') n G U (rm_last_error s') r"
    using loads by (elim exE conjE) (simp only: not_True_eq_False if_False, elim exE conjE, rule that)
  with run res show ?thesis by (intro exI conjI) auto
qed

lemma ensure_partial_none:
  "ensure_partial env False bud i regs c s n 0 up = Some (stop, n', m', c', s') \<Longrightarrow> m' = 0"
proof (induction regs arbitrary: i c s n up)
  case (Cons g regs)
  obtain b c1 where p: "poll c = (b, c1)" by (cases "poll c")
  show ?case
  proof (cases b)
    case True
    with p Cons.prems show ?thesis by simp
  next
    case False
    from Cons.prems p False obtain ok c2 s2 where
      e: "ensureResident (env i) g ModelResidencyTarget.RAM c1 s = Some (ok, c2, s2)"
      by (auto split: option.splits)
    show ?thesis using Cons.prems p False e by (cases ok) (auto intro: Cons.IH)
  qed
qed simp

text \<open>
  a partial plan is never carried out on the accelerator: the planner marks every partial plan
  HYBRID, but the adapter uploads only for the modes VULKAN and CUDA, so no region of a partial
  plan is counted as uploaded, although the planner chose it for its accelerator.
\<close>

lemma partial_plan_never_uploads:
  assumes "pl_viable (plan req report reg config)"
    and "pl_residency (plan req report reg config) = ExecutionStrategy.PARTIAL_RESIDENT"
    and "apply_plan env xenv (plan req report reg config) model_path c s = Some (r, c', s')"
  shows "pr_regions_accel r = 0"
proof -
  let ?p = "plan req report reg config"
  have "pl_mode ?p = ExecutionMode.HYBRID"
    using plan_promise [OF assms(1)] assms(2) unfolding plan_promise_def by auto
  then have na: "targets_accel ?p = False" by (simp add: targets_accel_def)
  have "pr_regions_accel r = 0" if "apply_strategy env ?p regions c s = Some (r, c', s')" for regions
  proof -
    let ?r = "pr_default\<lparr>pr_regions_total := of_nat (length regions)\<rparr>"
    have ap: "apply_partial env ?p regions ?r c s = Some (r, c', s')"
      using that assms(2) by (simp add: apply_strategy_def Let_def)
    obtain stop n m c2 s2 where e: "ensure_partial env False (pl_memory_budget_bytes ?p) 0 regions c s 0 0 0 =
        Some (stop, n, m, c2, s2)"
      using ap by (auto simp: apply_partial_def na Let_def split: option.splits)
    from ensure_partial_none [OF e] ap e show ?thesis
      by (auto simp: apply_partial_def na Let_def finish_apply_def split: if_splits)
  qed
  then show ?thesis
    using assms(3) by (auto simp: apply_plan_def pr_default_def Let_def split: if_splits prod.splits)
qed

lemma partial_plan_never_uploads_instance:
  "\<exists>r c' s'. apply_plan (\<lambda>i. sample_env 9) sample_extract
     (plan example_req (example_report 2000 400) (example_reg [EngineCapability.BACKEND_VULKAN]) config_default)
     ''m'' [] (system_start sample_file ''m'' (sample_budget\<lparr>bd_ram_bytes := 8\<rparr>) 8) = Some (r, c', s') \<and>
     pr_regions_accel r = 0"
proof -
  have "apply_plan (\<lambda>i. sample_env 9) sample_extract
     (plan example_req (example_report 2000 400) (example_reg [EngineCapability.BACKEND_VULKAN]) config_default)
     ''m'' [] (system_start sample_file ''m'' (sample_budget\<lparr>bd_ram_bytes := 8\<rparr>) 8) \<noteq> None"
    by code_simp
  then obtain r c' s' where "apply_plan (\<lambda>i. sample_env 9) sample_extract
     (plan example_req (example_report 2000 400) (example_reg [EngineCapability.BACKEND_VULKAN]) config_default)
     ''m'' [] (system_start sample_file ''m'' (sample_budget\<lparr>bd_ram_bytes := 8\<rparr>) 8) = Some (r, c', s')"
    by auto
  with partial_plan_never_uploads [OF example_partial this] show ?thesis by blast
qed

end
