(* ===== verification/GGUFLoader.thy ===== *)
theory GGUFLoader
  imports Engine
begin

text \<open>
  The native GGUF parser (\<open>src/hydroxl/HydroXLTypes.h\<close>, \<open>src/hydroxl/GGUFLoader.h\<close>,
  \<open>src/hydroxl/GGUFLoader.cpp\<close>). A stream is the file's bytes and a position; every read either
  yields a value and the advanced stream or fails with the loader's message. Arrays may nest, and
  the code recurses once per level, so reading takes fuel; a file has fewer levels than bytes.
  Floating-point values stay bit patterns. What a loader holds after a failed \<open>open\<close> is not
  modelled: nothing but the message is read then.
\<close>

section \<open>Types\<close>

datatype GGUFValueType =
    UINT8 | INT8 | UINT16 | INT16 | UINT32 | INT32 | FLOAT32 | BOOL | STRING | ARRAY
    | UINT64 | INT64 | FLOAT64

definition value_type_of :: "u32 \<Rightarrow> GGUFValueType option" where
  "value_type_of raw = map_of [
     (0, GGUFValueType.UINT8),
     (1, GGUFValueType.INT8),
     (2, GGUFValueType.UINT16),
     (3, GGUFValueType.INT16),
     (4, GGUFValueType.UINT32),
     (5, GGUFValueType.INT32),
     (6, GGUFValueType.FLOAT32),
     (7, GGUFValueType.BOOL),
     (8, GGUFValueType.STRING),
     (9, GGUFValueType.ARRAY),
     (10, GGUFValueType.UINT64),
     (11, GGUFValueType.INT64),
     (12, GGUFValueType.FLOAT64)] raw"

datatype GGMLType =
    F32 | F16 | Q4_0 | Q4_1 | Q5_0 | Q5_1 | Q8_0 | Q8_1 | Q2_K | Q3_K | Q4_K | Q5_K | Q6_K
    | Q8_K | UNKNOWN

fun toString_GGMLType :: "GGMLType \<Rightarrow> string" where
  "toString_GGMLType GGMLType.F32 = ''F32''"
| "toString_GGMLType GGMLType.F16 = ''F16''"
| "toString_GGMLType GGMLType.Q4_0 = ''Q4_0''"
| "toString_GGMLType GGMLType.Q4_1 = ''Q4_1''"
| "toString_GGMLType GGMLType.Q5_0 = ''Q5_0''"
| "toString_GGMLType GGMLType.Q5_1 = ''Q5_1''"
| "toString_GGMLType GGMLType.Q8_0 = ''Q8_0''"
| "toString_GGMLType GGMLType.Q8_1 = ''Q8_1''"
| "toString_GGMLType GGMLType.Q2_K = ''Q2_K''"
| "toString_GGMLType GGMLType.Q3_K = ''Q3_K''"
| "toString_GGMLType GGMLType.Q4_K = ''Q4_K''"
| "toString_GGMLType GGMLType.Q5_K = ''Q5_K''"
| "toString_GGMLType GGMLType.Q6_K = ''Q6_K''"
| "toString_GGMLType GGMLType.Q8_K = ''Q8_K''"
| "toString_GGMLType GGMLType.UNKNOWN = ''Other''"

definition ggml_type_of :: "u32 \<Rightarrow> GGMLType option" where
  "ggml_type_of raw = map_of [
     (0, GGMLType.F32),
     (1, GGMLType.F16),
     (2, GGMLType.Q4_0),
     (3, GGMLType.Q4_1),
     (6, GGMLType.Q5_0),
     (7, GGMLType.Q5_1),
     (8, GGMLType.Q8_0),
     (9, GGMLType.Q8_1),
     (10, GGMLType.Q2_K),
     (11, GGMLType.Q3_K),
     (12, GGMLType.Q4_K),
     (13, GGMLType.Q5_K),
     (14, GGMLType.Q6_K),
     (15, GGMLType.Q8_K),
     (65535, GGMLType.UNKNOWN)] raw"

record GGUFTensorDesc =
  gt_name :: string
  gt_type :: u32
  gt_shape :: "u64 list"
  gt_offset :: u64
  gt_n_bytes :: u64

record Qwen2HParams =
  hp_vocab_size :: u32
  hp_n_embd :: u32
  hp_n_heads :: u32
  hp_n_kv_heads :: u32
  hp_n_layers :: u32
  hp_n_ff :: u32
  hp_n_ctx_max :: u32
  hp_rms_norm_eps :: rat
  hp_rope_freq_base :: rat
  hp_rope_freq_scale :: rat
  hp_n_head_dim :: u32

definition hp_isValid :: "Qwen2HParams \<Rightarrow> bool" where
  "hp_isValid h \<longleftrightarrow> hp_vocab_size h > 0 \<and> hp_n_embd h > 0 \<and> hp_n_heads h > 0 \<and>
     hp_n_kv_heads h > 0 \<and> hp_n_layers h > 0 \<and> hp_n_ff h > 0"

datatype GGUFValue =
    VUInt32 u32 | VUInt64 u64 | VInt32 u32 | VInt64 u64 | VFloat32 u32 | VFloat64 u64
  | VBool bool | VString string | VUInt32s "u32 list" | VInt32s "u32 list" | VFloat32s "u32 list"
  | VStrings "string list"

section \<open>Streams\<close>

datatype gguf_error = Msg string | OutOfFuel

record stream =
  gs_bytes :: "u8 list"
  gs_pos :: nat

type_synonym 'a parsed = "gguf_error + 'a \<times> stream"

definition pbind :: "'a parsed \<Rightarrow> ('a \<Rightarrow> stream \<Rightarrow> 'b parsed) \<Rightarrow> 'b parsed" where
  "pbind m f = (case m of Inl e \<Rightarrow> Inl e | Inr (a, st) \<Rightarrow> f a st)"

lemma pbind_simps [simp]: "pbind (Inl e) f = Inl e" "pbind (Inr (a, st)) f = f a st"
  by (simp_all add: pbind_def)

lemma pbind_cong [fundef_cong]:
  "m = m' \<Longrightarrow> (\<And>a st. m' = Inr (a, st) \<Longrightarrow> f a st = f' a st) \<Longrightarrow> pbind m f = pbind m' f'"
  by (auto simp: pbind_def split: sum.split)

fun le_nat :: "u8 list \<Rightarrow> nat" where
  "le_nat [] = 0"
| "le_nat (b # bs) = unat b + 256 * le_nat bs"

definition chars_of :: "u8 list \<Rightarrow> string" where
  "chars_of bs = map (\<lambda>b. char_of (unat b)) bs"

text \<open>\<open>ifstream::read\<close>: all the bytes or a failure; reading none always succeeds.\<close>

definition read_bytes :: "nat \<Rightarrow> stream \<Rightarrow> (u8 list \<times> stream) option" where
  "read_bytes n st = (if n = 0 \<or> gs_pos st + n \<le> length (gs_bytes st)
     then Some (take n (drop (gs_pos st) (gs_bytes st)), st\<lparr>gs_pos := gs_pos st + n\<rparr>) else None)"

definition read_or :: "string \<Rightarrow> nat \<Rightarrow> stream \<Rightarrow> u8 list parsed" where
  "read_or msg n st = (case read_bytes n st of None \<Rightarrow> Inl (Msg msg) | Some r \<Rightarrow> Inr r)"

definition readRaw :: "nat \<Rightarrow> stream \<Rightarrow> 'a::len word parsed" where
  "readRaw n st = pbind (read_or (''Unexpected EOF reading '' @ digits_of n @ '' bytes'') n st)
     (\<lambda>bs st. Inr (of_nat (le_nat bs), st))"

definition read_u8 :: "stream \<Rightarrow> u8 parsed" where "read_u8 = readRaw 1"
definition read_u16 :: "stream \<Rightarrow> u16 parsed" where "read_u16 = readRaw 2"
definition read_u32 :: "stream \<Rightarrow> u32 parsed" where "read_u32 = readRaw 4"
definition read_u64 :: "stream \<Rightarrow> u64 parsed" where "read_u64 = readRaw 8"

section \<open>Values\<close>

definition readString :: "stream \<Rightarrow> string parsed" where
  "readString st = pbind (read_u64 st) (\<lambda>len st.
     if len > 1048576 then Inl (Msg (''String length '' @ word_str len @ '' exceeds 1 MiB limit''))
     else pbind (read_or (''EOF reading string of length '' @ word_str len) (unat len) st)
       (\<lambda>bs st. Inr (chars_of bs, st)))"

fun words_of :: "nat \<Rightarrow> u8 list \<Rightarrow> u32 list" where
  "words_of 0 bs = []"
| "words_of (Suc n) bs = of_nat (le_nat (take 4 bs)) # words_of n (drop 4 bs)"

definition read_words :: "string \<Rightarrow> u64 \<Rightarrow> stream \<Rightarrow> u32 list parsed" where
  "read_words ty cnt st = pbind (read_or (''EOF reading '' @ ty @ '' array'') (unat (cnt * 4)) st)
     (\<lambda>bs st. Inr (words_of (unat cnt) bs, st))"

fun read_strings :: "nat \<Rightarrow> stream \<Rightarrow> string list parsed" where
  "read_strings 0 st = Inr ([], st)"
| "read_strings (Suc n) st = pbind (readString st) (\<lambda>s st.
     pbind (read_strings n st) (\<lambda>ss st. Inr (s # ss, st)))"

definition elem_size :: "GGUFValueType \<Rightarrow> u64" where
  "elem_size t = (case t of
     GGUFValueType.UINT8 \<Rightarrow> 1 | GGUFValueType.INT8 \<Rightarrow> 1 | GGUFValueType.BOOL \<Rightarrow> 1
   | GGUFValueType.UINT16 \<Rightarrow> 2 | GGUFValueType.INT16 \<Rightarrow> 2
   | GGUFValueType.UINT64 \<Rightarrow> 8 | GGUFValueType.INT64 \<Rightarrow> 8 | GGUFValueType.FLOAT64 \<Rightarrow> 8
   | _ \<Rightarrow> 0)"

text \<open>\<open>seekg\<close> past the end of a file succeeds.\<close>

definition seek_by :: "u64 \<Rightarrow> stream \<Rightarrow> stream" where
  "seek_by n st = st\<lparr>gs_pos := gs_pos st + unat n\<rparr>"

definition skipped :: GGUFValue where
  "skipped = VString ''<array_type_skipped>''"

fun readArray :: "nat \<Rightarrow> stream \<Rightarrow> GGUFValue parsed" and skip_arrays :: "nat \<Rightarrow> nat \<Rightarrow> stream \<Rightarrow> unit parsed" where
  "readArray 0 st = Inl OutOfFuel"
| "readArray (Suc fuel) st = pbind (read_u32 st) (\<lambda>elem_type_raw st. pbind (read_u64 st) (\<lambda>cnt st.
     if cnt > 16777216 then Inl (Msg (''Array count '' @ word_str cnt @ '' exceeds 16M limit''))
     else case value_type_of elem_type_raw of
       None \<Rightarrow> Inl (Msg (''Unknown array element type: '' @ word_str elem_type_raw))
     | Some elem_type \<Rightarrow>
         if elem_type = GGUFValueType.UINT32 then
           pbind (read_words ''UINT32'' cnt st) (\<lambda>v st. Inr (VUInt32s v, st))
         else if elem_type = GGUFValueType.INT32 then
           pbind (read_words ''INT32'' cnt st) (\<lambda>v st. Inr (VInt32s v, st))
         else if elem_type = GGUFValueType.FLOAT32 then
           pbind (read_words ''FLOAT32'' cnt st) (\<lambda>v st. Inr (VFloat32s v, st))
         else if elem_type = GGUFValueType.STRING then
           pbind (read_strings (unat cnt) st) (\<lambda>v st. Inr (VStrings v, st))
         else if elem_type = GGUFValueType.ARRAY then
           pbind (skip_arrays fuel (unat cnt) st) (\<lambda>u st. Inr (skipped, st))
         else if cnt > 0 then Inr (skipped, seek_by (cnt * elem_size elem_type) st)
         else Inr (skipped, st)))"
| "skip_arrays fuel 0 st = Inr ((), st)"
| "skip_arrays fuel (Suc n) st = pbind (readArray fuel st) (\<lambda>v st. skip_arrays fuel n st)"

definition readValue :: "nat \<Rightarrow> u32 \<Rightarrow> stream \<Rightarrow> GGUFValue parsed" where
  "readValue fuel vtype st = (case value_type_of vtype of
     None \<Rightarrow> Inl (Msg (''Unknown GGUF value type: '' @ word_str vtype))
   | Some t \<Rightarrow> (case t of
       GGUFValueType.UINT8 \<Rightarrow> pbind (read_u8 st) (\<lambda>v st. Inr (VUInt32 (ucast v), st))
     | GGUFValueType.INT8 \<Rightarrow> pbind (read_u8 st) (\<lambda>v st. Inr (VInt32 (scast v), st))
     | GGUFValueType.UINT16 \<Rightarrow> pbind (read_u16 st) (\<lambda>v st. Inr (VUInt32 (ucast v), st))
     | GGUFValueType.INT16 \<Rightarrow> pbind (read_u16 st) (\<lambda>v st. Inr (VInt32 (scast v), st))
     | GGUFValueType.UINT32 \<Rightarrow> pbind (read_u32 st) (\<lambda>v st. Inr (VUInt32 v, st))
     | GGUFValueType.INT32 \<Rightarrow> pbind (read_u32 st) (\<lambda>v st. Inr (VInt32 v, st))
     | GGUFValueType.FLOAT32 \<Rightarrow> pbind (read_u32 st) (\<lambda>v st. Inr (VFloat32 v, st))
     | GGUFValueType.BOOL \<Rightarrow> pbind (read_u8 st) (\<lambda>v st. Inr (VBool (v \<noteq> 0), st))
     | GGUFValueType.STRING \<Rightarrow> pbind (readString st) (\<lambda>v st. Inr (VString v, st))
     | GGUFValueType.ARRAY \<Rightarrow> readArray fuel st
     | GGUFValueType.UINT64 \<Rightarrow> pbind (read_u64 st) (\<lambda>v st. Inr (VUInt64 v, st))
     | GGUFValueType.INT64 \<Rightarrow> pbind (read_u64 st) (\<lambda>v st. Inr (VInt64 v, st))
     | GGUFValueType.FLOAT64 \<Rightarrow> pbind (read_u64 st) (\<lambda>v st. Inr (VFloat64 v, st))))"

section \<open>Header, metadata and tensors\<close>

definition GGUF_MAGIC :: u32 where "GGUF_MAGIC = 0x46554747"
definition GGUF_VER_MIN :: u32 where "GGUF_VER_MIN = 2"
definition GGUF_VER_MAX :: u32 where "GGUF_VER_MAX = 3"
definition GGUF_DEFAULT_ALIGN :: u32 where "GGUF_DEFAULT_ALIGN = 32"

definition parseHeader :: "stream \<Rightarrow> (u32 \<times> u64 \<times> u64) parsed" where
  "parseHeader st = pbind (read_u32 st) (\<lambda>magic st.
     if magic \<noteq> GGUF_MAGIC then Inl (Msg ''Not a GGUF file (bad magic)'')
     else pbind (read_u32 st) (\<lambda>version st.
       if version < GGUF_VER_MIN \<or> version > GGUF_VER_MAX
       then Inl (Msg (''Unsupported GGUF version: '' @ word_str version))
       else pbind (read_u64 st) (\<lambda>n_tensors st. pbind (read_u64 st) (\<lambda>n_kv st.
         if n_tensors > 65536 then Inl (Msg (''n_tensors exceeds 65536 '' @ emdash @ '' corrupt file?''))
         else if n_kv > 65536 then Inl (Msg (''n_kv exceeds 65536 '' @ emdash @ '' corrupt file?''))
         else Inr ((version, n_tensors, n_kv), st)))))"

fun parseKV :: "nat \<Rightarrow> nat \<Rightarrow> (string \<times> GGUFValue) list \<Rightarrow> stream \<Rightarrow> (string \<times> GGUFValue) list parsed" where
  "parseKV fuel 0 kvs st = Inr (kvs, st)"
| "parseKV fuel (Suc n) kvs st = pbind (readString st) (\<lambda>key st. pbind (read_u32 st) (\<lambda>vtype st.
     pbind (readValue fuel vtype st) (\<lambda>val st. parseKV fuel n (AList.update key val kvs) st)))"

fun read_dims :: "string \<Rightarrow> nat \<Rightarrow> nat \<Rightarrow> u64 \<Rightarrow> stream \<Rightarrow> (u64 list \<times> u64) parsed" where
  "read_dims name d 0 n_elems st = Inr (([], n_elems), st)"
| "read_dims name d (Suc n) n_elems st = pbind (read_u64 st) (\<lambda>dim st.
     if dim = 0 then Inl (Msg (''Tensor '' @ [char_of (39::nat)] @ name @ [char_of (39::nat)] @ '' dim['' @ digits_of d @ ''] is 0''))
     else if dim > 4294967296 then Inl (Msg (''Tensor '' @ [char_of (39::nat)] @ name @ [char_of (39::nat)] @ '' dim['' @ digits_of d @ ''] = '' @ word_str dim @ '' is too large''))
     else if n_elems > (- 1) div dim then Inl (Msg (''Tensor '' @ [char_of (39::nat)] @ name @ [char_of (39::nat)] @ '' element count overflow''))
     else pbind (read_dims name (d + 1) n (n_elems * dim) st) (\<lambda>(dims, total) st.
       Inr ((dim # dims, total), st)))"

text \<open>The bytes of a tensor from its type and element count.\<close>

definition blocks :: "u64 \<Rightarrow> u64 \<Rightarrow> u64 \<Rightarrow> u64" where
  "blocks n_elems block_size block_bytes = (n_elems + block_size - 1) div block_size * block_bytes"

definition tensor_bytes :: "u32 \<Rightarrow> u64 \<Rightarrow> string + u64" where
  "tensor_bytes ty n = (case ggml_type_of ty of
     None \<Rightarrow> Inr 0
   | Some t \<Rightarrow> (case t of
       GGMLType.F32 \<Rightarrow> if n > (- 1) div 4 then Inl ''n_bytes overflow for F32'' else Inr (n * 4)
     | GGMLType.F16 \<Rightarrow> if n > (- 1) div 2 then Inl ''n_bytes overflow for F16'' else Inr (n * 2)
     | GGMLType.Q4_0 \<Rightarrow> Inr (blocks n 32 18)
     | GGMLType.Q4_1 \<Rightarrow> Inr (blocks n 32 20)
     | GGMLType.Q4_K \<Rightarrow> Inr (blocks n 256 144)
     | GGMLType.Q3_K \<Rightarrow> Inr (blocks n 256 110)
     | GGMLType.Q5_0 \<Rightarrow> Inr (blocks n 32 22)
     | GGMLType.Q5_1 \<Rightarrow> Inr (blocks n 32 24)
     | GGMLType.Q6_K \<Rightarrow> Inr (blocks n 256 210)
     | GGMLType.Q8_0 \<Rightarrow> Inr (blocks n 32 34)
     | GGMLType.Q8_1 \<Rightarrow> Inr (blocks n 32 36)
     | GGMLType.Q2_K \<Rightarrow> Inr (blocks n 256 84)
     | GGMLType.Q5_K \<Rightarrow> Inr (blocks n 256 176)
     | GGMLType.Q8_K \<Rightarrow> Inr (blocks n 256 292)
     | GGMLType.UNKNOWN \<Rightarrow> Inr 0))"

definition parse_tensor :: "stream \<Rightarrow> GGUFTensorDesc parsed" where
  "parse_tensor st = pbind (readString st) (\<lambda>name st. pbind (read_u32 st) (\<lambda>n_dims st.
     if n_dims = 0 then Inl (Msg (''Tensor '' @ [char_of (39::nat)] @ name @ [char_of (39::nat)] @ '' has 0 dimensions''))
     else if n_dims > 4 then Inl (Msg (''Tensor '' @ [char_of (39::nat)] @ name @ [char_of (39::nat)] @ '' has '' @ word_str n_dims @ '' dims (max 4)''))
     else pbind (read_dims name 0 (unat n_dims) 1 st) (\<lambda>(dims, n_elems) st.
       pbind (read_u32 st) (\<lambda>ty st. pbind (read_u64 st) (\<lambda>off st.
         case tensor_bytes ty n_elems of
           Inl e \<Rightarrow> Inl (Msg e)
         | Inr nb \<Rightarrow> Inr (\<lparr>gt_name = name, gt_type = ty, gt_shape = dims, gt_offset = off,
             gt_n_bytes = nb\<rparr>, st))))))"

fun parseTensors :: "nat \<Rightarrow> stream \<Rightarrow> GGUFTensorDesc list parsed" where
  "parseTensors 0 st = Inr ([], st)"
| "parseTensors (Suc n) st = pbind (parse_tensor st) (\<lambda>t st.
     pbind (parseTensors n st) (\<lambda>ts st. Inr (t # ts, st)))"

section \<open>The loader\<close>

record GGUFLoader =
  gl_path :: string
  gl_bytes :: "u8 list"
  gl_version :: u32
  gl_n_tensors :: u64
  gl_n_kv :: u64
  gl_data_offset :: u64
  gl_file_size :: u64
  gl_kv :: "(string \<times> GGUFValue) list"
  gl_tensors :: "GGUFTensorDesc list"

definition lookup_kv :: "(string \<times> GGUFValue) list \<Rightarrow> string \<Rightarrow> GGUFValue option" where
  "lookup_kv kvs key = map_of kvs key"

definition kvUInt32 :: "(string \<times> GGUFValue) list \<Rightarrow> string \<Rightarrow> u32 \<Rightarrow> u32" where
  "kvUInt32 kvs key def = (case lookup_kv kvs key of
     Some (VUInt32 v) \<Rightarrow> v | Some (VInt32 v) \<Rightarrow> v | Some (VUInt64 v) \<Rightarrow> ucast v | _ \<Rightarrow> def)"

definition kvUInt64 :: "(string \<times> GGUFValue) list \<Rightarrow> string \<Rightarrow> u64 \<Rightarrow> u64" where
  "kvUInt64 kvs key def = (case lookup_kv kvs key of
     Some (VUInt64 v) \<Rightarrow> v | Some (VUInt32 v) \<Rightarrow> ucast v | _ \<Rightarrow> def)"

definition kvInt32 :: "(string \<times> GGUFValue) list \<Rightarrow> string \<Rightarrow> u32 \<Rightarrow> u32" where
  "kvInt32 kvs key def = (case lookup_kv kvs key of
     Some (VInt32 v) \<Rightarrow> v | Some (VUInt32 v) \<Rightarrow> v | _ \<Rightarrow> def)"

definition kvString :: "(string \<times> GGUFValue) list \<Rightarrow> string \<Rightarrow> string \<Rightarrow> string" where
  "kvString kvs key def = (case lookup_kv kvs key of Some (VString s) \<Rightarrow> s | _ \<Rightarrow> def)"

definition kvStringArray :: "(string \<times> GGUFValue) list \<Rightarrow> string \<Rightarrow> string list" where
  "kvStringArray kvs key = (case lookup_kv kvs key of Some (VStrings v) \<Rightarrow> v | _ \<Rightarrow> [])"

definition alignment_of :: "(string \<times> GGUFValue) list \<Rightarrow> u64" where
  "alignment_of kvs = (let align = kvUInt32 kvs ''general.alignment'' GGUF_DEFAULT_ALIGN in
     ucast (if align = 0 then GGUF_DEFAULT_ALIGN else align))"

definition padding :: "u64 \<Rightarrow> u64 \<Rightarrow> u64" where
  "padding align cur_pos = (align - cur_pos mod align) mod align"

type_synonym sections = "u32 \<times> u64 \<times> u64 \<times> (string \<times> GGUFValue) list \<times> GGUFTensorDesc list"

definition parse_sections :: "nat \<Rightarrow> stream \<Rightarrow> sections parsed" where
  "parse_sections fuel st = pbind (parseHeader st) (\<lambda>(version, n_tensors, n_kv) st.
     pbind (parseKV fuel (unat n_kv) [] st) (\<lambda>kvs st.
       pbind (parseTensors (unat n_tensors) st) (\<lambda>tensors st.
         Inr ((version, n_tensors, n_kv, kvs, tensors), st))))"

definition parse_file :: "nat \<Rightarrow> string \<Rightarrow> u8 list \<Rightarrow> gguf_error + GGUFLoader" where
  "parse_file fuel path bytes = (case parse_sections fuel \<lparr>gs_bytes = bytes, gs_pos = 0\<rparr> of
     Inl e \<Rightarrow> Inl e
   | Inr ((version, n_tensors, n_kv, kvs, tensors), st) \<Rightarrow> let
       file_size = of_nat (length bytes);
       cur_pos = of_nat (gs_pos st);
       pad = padding (alignment_of kvs) cur_pos
     in if cur_pos > - 1 - pad then Inl (Msg ''Data offset overflow while padding to alignment'')
        else if n_tensors > 0 \<and> cur_pos + pad \<ge> file_size then
          Inl (Msg (''Data section offset '' @ word_str (cur_pos + pad) @ '' is at or beyond file size '' @
            word_str file_size @ '' with '' @ word_str n_tensors @ '' declared tensors''))
        else Inr \<lparr>gl_path = path, gl_bytes = bytes, gl_version = version, gl_n_tensors = n_tensors,
          gl_n_kv = n_kv, gl_data_offset = cur_pos + pad, gl_file_size = file_size, gl_kv = kvs,
          gl_tensors = tensors\<rparr>)"

definition open_gguf :: "string \<Rightarrow> u8 list option \<Rightarrow> gguf_error + GGUFLoader" where
  "open_gguf path contents = (case contents of
     None \<Rightarrow> Inl (Msg (''Cannot open file: '' @ path))
   | Some bytes \<Rightarrow>
       if (of_nat (length bytes) :: u64) < 12 then Inl (Msg (''File too small to be GGUF: '' @ path))
       else parse_file (length bytes) path bytes)"

definition findTensor :: "GGUFLoader \<Rightarrow> string \<Rightarrow> GGUFTensorDesc option" where
  "findTensor l name = find (\<lambda>t. gt_name t = name) (gl_tensors l)"

definition readTensorData :: "GGUFLoader \<Rightarrow> GGUFTensorDesc \<Rightarrow> u64 \<Rightarrow> u8 list option" where
  "readTensorData l desc max_bytes =
     (if gt_n_bytes desc = 0 then None
      else if gt_n_bytes desc > max_bytes then None
      else if gt_offset desc > gl_file_size l \<or> gt_n_bytes desc > gl_file_size l - gt_offset desc then None
      else if gt_offset desc > - 1 - gl_data_offset l then None
      else let file_offset = gl_data_offset l + gt_offset desc in
        if file_offset > gl_file_size l \<or> gt_n_bytes desc > gl_file_size l - file_offset then None
        else map_option fst (read_bytes (unat (gt_n_bytes desc))
          \<lparr>gs_bytes = gl_bytes l, gs_pos = unat file_offset\<rparr>))"

end
