(* ===== verification/GGUFProperties.thy ===== *)
theory GGUFProperties
  imports GGUFLoader
begin

text \<open>
  What the GGUF parser guarantees. A small calculus (\<open>sat\<close>) states what holds of a parser's
  result; with it: no file exhausts the recursion depth the model allows, and an accepted file has
  well-formed tensor descriptors. The locale \<open>codec\<close> is the contract of a parser against an
  encoder; its interpretations compose to the round trip of whole files, tensor data included.
\<close>

section \<open>Reasoning about parser results\<close>

definition sat :: "'a parsed \<Rightarrow> ('a \<Rightarrow> stream \<Rightarrow> bool) \<Rightarrow> bool" where
  "sat p Q = (case p of Inl e \<Rightarrow> e \<noteq> OutOfFuel | Inr (a, st) \<Rightarrow> Q a st)"

lemma sat_simps [simp]:
  "sat (Inl e) Q \<longleftrightarrow> e \<noteq> OutOfFuel" "sat (Inr (a, st)) Q \<longleftrightarrow> Q a st"
  by (simp_all add: sat_def)

lemma sat_bind: "sat (pbind p f) Q \<longleftrightarrow> sat p (\<lambda>a st. sat (f a st) Q)"
  by (simp add: sat_def pbind_def split: sum.split prod.split)

lemma sat_mono: "sat p P \<Longrightarrow> (\<And>a st. P a st \<Longrightarrow> Q a st) \<Longrightarrow> sat p Q"
  by (auto simp: sat_def split: sum.splits)

lemma sat_conj: "sat p P \<Longrightarrow> sat p Q \<Longrightarrow> sat p (\<lambda>a st. P a st \<and> Q a st)"
  by (auto simp: sat_def split: sum.splits)

lemma sat_seq:
  assumes "sat p P" "\<And>a st. P a st \<Longrightarrow> sat (f a st) Q"
  shows "sat (pbind p f) Q"
  by (rule iffD2 [OF sat_bind sat_mono [OF assms]])

lemma sat_Inr: "sat p Q \<Longrightarrow> p = Inr (a, st) \<Longrightarrow> Q a st"
  by simp

text \<open>The stream a parser leaves is the same file, no earlier.\<close>

definition later :: "stream \<Rightarrow> stream \<Rightarrow> bool" where
  "later st st' \<longleftrightarrow> gs_bytes st' = gs_bytes st \<and> gs_pos st \<le> gs_pos st'"

definition left :: "stream \<Rightarrow> nat" where
  "left st = length (gs_bytes st) - gs_pos st"

lemma later_refl [simp, intro]: "later st st"
  by (simp add: later_def)

lemma later_trans [trans]: "later a b \<Longrightarrow> later b c \<Longrightarrow> later a c"
  by (simp add: later_def)

lemma later_left: "later st st' \<Longrightarrow> left st' \<le> left st"
  by (auto simp: later_def left_def)

lemma later_seek [simp]: "later st (seek_by n st)"
  by (simp add: later_def seek_by_def)

text \<open>A parser is \<open>fwd\<close> from a stream when it does not run out of fuel and only moves forward.\<close>

definition fwd :: "stream \<Rightarrow> 'a parsed \<Rightarrow> bool" where
  "fwd st p \<longleftrightarrow> sat p (\<lambda>_. later st)"

lemma fwd_Inl [simp]: "fwd st (Inl e) \<longleftrightarrow> e \<noteq> OutOfFuel"
  by (simp add: fwd_def)

lemma fwd_Inr [simp]: "fwd st (Inr (a, st')) \<longleftrightarrow> later st st'"
  by (simp add: fwd_def)

lemma fwd_bind:
  assumes "fwd st p" "\<And>a st'. p = Inr (a, st') \<Longrightarrow> later st st' \<Longrightarrow> fwd st' (f a st')"
  shows "fwd st (pbind p f)"
proof (cases p)
  case (Inl e) then show ?thesis using assms(1) by simp
next
  case (Inr r)
  obtain a st' where r: "r = (a, st')" by (cases r)
  have l: "later st st'" using assms(1) Inr r by simp
  have "fwd st' (f a st')" using assms(2) Inr r l by simp
  then have "sat (f a st') (\<lambda>_. later st)"
    unfolding fwd_def by (rule sat_mono) (rule later_trans [OF l])
  then show ?thesis using Inr r by (simp add: fwd_def)
qed

lemma read_or_sat: "sat (read_or msg n st)
    (\<lambda>bs st'. later st st' \<and> length bs = n \<and> (n > 0 \<longrightarrow> left st' + n = left st))"
  by (auto simp: read_or_def read_bytes_def later_def left_def split: option.splits)

lemma fwd_read_or [simp]: "fwd st (read_or msg n st)"
  unfolding fwd_def by (rule sat_mono [OF read_or_sat]) simp

lemma readRaw_sat: "n > 0 \<Longrightarrow> sat (readRaw n st) (\<lambda>_ st'. later st st' \<and> left st' + n = left st)"
  unfolding readRaw_def by (rule sat_seq [OF read_or_sat]) simp

lemma fwd_readRaw [simp]: "fwd st (readRaw n st)"
  unfolding readRaw_def by (rule fwd_bind) simp_all

lemmas raw_defs = read_u8_def read_u16_def read_u32_def read_u64_def

lemma fwd_raw [simp]: "fwd st (read_u8 st)" "fwd st (read_u16 st)" "fwd st (read_u32 st)" "fwd st (read_u64 st)"
  by (simp_all add: raw_defs)

lemma u32_left: "read_u32 st = Inr (v, st') \<Longrightarrow> left st' + 4 = left st"
  using readRaw_sat [of 4 st] by (auto simp: read_u32_def dest: sat_Inr)

lemma fwd_readString [simp]: "fwd st (readString st)"
  unfolding readString_def by (rule fwd_bind) (simp_all add: fwd_bind)

lemma fwd_any: "fwd st p \<Longrightarrow> (\<And>a st'. Q a st') \<Longrightarrow> sat p Q"
  by (auto simp: fwd_def sat_def split: sum.splits)

lemmas sat_raw = fwd_any [OF fwd_raw(3)] fwd_any [OF fwd_raw(4)]
lemmas sat_string = fwd_any [OF fwd_readString]

lemma fwd_read_words [simp]: "fwd st (read_words ty n st)"
  unfolding read_words_def by (rule fwd_bind) simp_all

lemma fwd_read_strings [simp]: "fwd st (read_strings n st)"
  by (induction n arbitrary: st) (auto intro!: fwd_bind)

lemma fwd_arrays:
  "left st < fuel \<Longrightarrow> fwd st (readArray fuel st)"
  "left st < fuel \<Longrightarrow> fwd st (skip_arrays fuel n st)"
proof (induction fuel st and fuel n st rule: readArray_skip_arrays.induct)
  case (2 fuel st)
  have skip: "fwd st2 (skip_arrays fuel (unat cnt) st2)"
    if "read_u32 st = Inr (e, st1)" "read_u64 st1 = Inr (cnt, st2)" "later st1 st2"
      "value_type_of e = Some GGUFValueType.ARRAY" "\<not> 16777216 < cnt" for e cnt st1 st2
  proof (rule 2(1) [OF that(1,2,5,4)])
    show "left st2 < fuel" using later_left [OF that(3)] u32_left [OF that(1)] 2(2) by simp
  qed simp_all
  show ?case
    unfolding readArray.simps
    by (rule fwd_bind, simp, rule fwd_bind, simp) (auto split: option.split intro!: fwd_bind skip)
next
  case (4 fuel n st)
  show ?case
    unfolding skip_arrays.simps by (rule fwd_bind [OF 4(1) [OF 4(3)]])
      (use 4(2,3) later_left in fastforce)
qed simp_all

lemma fwd_readValue: "left st < fuel \<Longrightarrow> fwd st (readValue fuel t st)"
  unfolding readValue_def by (auto split: option.split GGUFValueType.split intro!: fwd_bind fwd_arrays)

lemma fwd_parseKV: "left st < fuel \<Longrightarrow> fwd st (parseKV fuel n kvs st)"
proof (induction n arbitrary: kvs st)
  case (Suc n)
  show ?case
    unfolding parseKV.simps
  proof (intro fwd_bind)
    fix key st1 t st2 v st3
    assume "later st st1" "later st1 st2"
    then have l: "left st2 < fuel" using Suc.prems later_left [of st st1] later_left [of st1 st2] by simp
    then show "fwd st2 (readValue fuel t st2)" by (rule fwd_readValue)
    assume "later st2 st3"
    then show "fwd st3 (parseKV fuel n (AList.update key v kvs) st3)"
      using later_left [of st2 st3] l by (intro Suc.IH) simp
  qed simp_all
qed simp

lemma fwd_read_dims [simp]: "fwd st (read_dims name d n m st)"
  by (induction n arbitrary: d m st) (auto intro!: fwd_bind)

lemma fwd_parse_tensor [simp]: "fwd st (parse_tensor st)"
  unfolding parse_tensor_def by (auto intro!: fwd_bind split: sum.split)

lemma fwd_parseTensors [simp]: "fwd st (parseTensors n st)"
  by (induction n arbitrary: st) (auto intro!: fwd_bind)

lemma fwd_after:
  assumes "sat p (\<lambda>_ st'. later st st' \<and> left st' + n = left st)" "\<And>a st'. fwd st' (f a st')"
  shows "sat (pbind p f) (\<lambda>_ st'. later st st' \<and> left st' + n \<le> left st)"
proof (rule sat_seq [OF assms(1)])
  fix a st' assume l: "later st st' \<and> left st' + n = left st"
  show "sat (f a st') (\<lambda>_ st''. later st st'' \<and> left st'' + n \<le> left st)"
    using assms(2) [of st' a] unfolding fwd_def
    by (rule sat_mono) (use l later_trans later_left in fastforce)
qed

lemma parseHeader_sat: "sat (parseHeader st) (\<lambda>_ st'. later st st' \<and> left st' + 4 \<le> left st)"
  unfolding parseHeader_def
  by (rule fwd_after) (auto simp: read_u32_def intro: readRaw_sat intro!: fwd_bind)

section \<open>What an accepted file looks like\<close>

text \<open>
  A descriptor the loader accepts: one to four dimensions of 1 to 2^32, an element count that does
  not overflow, and the byte count of its type.\<close>

definition shape_elems :: "u64 list \<Rightarrow> nat" where
  "shape_elems dims = prod_list (map unat dims)"

definition dim_ok :: "u64 \<Rightarrow> bool" where
  "dim_ok d \<longleftrightarrow> 0 < d \<and> d \<le> 4294967296"

lemma dim_ok_iff: "dim_ok d \<longleftrightarrow> d \<noteq> 0 \<and> \<not> d > 4294967296"
  by (simp add: dim_ok_def word_neq_0_conv not_less)

definition desc_ok :: "GGUFTensorDesc \<Rightarrow> bool" where
  "desc_ok t \<longleftrightarrow> 1 \<le> length (gt_shape t) \<and> length (gt_shape t) \<le> 4 \<and> list_all dim_ok (gt_shape t)
     \<and> shape_elems (gt_shape t) < 2 ^ 64
     \<and> tensor_bytes (gt_type t) (of_nat (shape_elems (gt_shape t))) = Inr (gt_n_bytes t)"

lemma mult_no_overflow:
  fixes n d :: u64
  assumes "\<not> n > (- 1) div d" "d \<noteq> 0"
  shows "unat (n * d) = unat n * unat d"
proof -
  have "unat n \<le> unat ((- 1 :: u64) div d)" using assms(1) by (simp add: word_le_nat_alt not_less)
  then have "unat n * unat d \<le> (2 ^ 64 - 1) div unat d * unat d"
    by (simp add: unat_div unsigned_minus_1_eq_mask mask_eq_exp_minus_1)
  also have "\<dots> \<le> 2 ^ 64 - 1" by simp
  finally have "unat n * unat d < 2 ^ LENGTH(64)" by simp
  then show ?thesis by (rule iffD1 [OF unat_mult_lem])
qed

lemma read_dims_sat: "sat (read_dims name d n m st) (\<lambda>(dims, tot) st'.
    length dims = n \<and> list_all dim_ok dims \<and> unat tot = unat m * shape_elems dims)"
proof (induction n arbitrary: d m st)
  case 0 then show ?case by (simp add: shape_elems_def)
next
  case (Suc n)
  have dim: "dim_ok dim" if "dim \<noteq> 0" "\<not> dim > 4294967296" for dim
    using that by (simp add: dim_ok_iff)
  have step: "sat (read_dims name d1 n (m * dim) st1) (\<lambda>(dims, tot) st2.
      length (dim # dims) = Suc n \<and> list_all dim_ok (dim # dims) \<and> unat tot = unat m * shape_elems (dim # dims))"
    if "dim \<noteq> 0" "\<not> dim > 4294967296" "\<not> m > (- 1) div dim" for d1 dim st1
    by (rule sat_mono [OF Suc.IH])
      (use mult_no_overflow [OF that(3,1)] dim [OF that(1,2)] in \<open>auto simp: shape_elems_def\<close>)
  show ?case
    unfolding read_dims.simps
    by (subst sat_bind, rule sat_raw) (auto simp: sat_bind split: prod.split intro!: sat_mono [OF step])
qed

lemma parse_tensor_sat: "sat (parse_tensor st) (\<lambda>t _. desc_ok t)"
proof -
  have tail: "sat (pbind (read_dims name 0 (unat k) 1 st) (\<lambda>(dims, n_elems) st.
       pbind (read_u32 st) (\<lambda>ty st. pbind (read_u64 st) (\<lambda>off st.
         case tensor_bytes ty n_elems of
           Inl e \<Rightarrow> Inl (Msg e)
         | Inr nb \<Rightarrow> Inr (\<lparr>gt_name = name, gt_type = ty, gt_shape = dims, gt_offset = off,
             gt_n_bytes = nb\<rparr>, st))))) (\<lambda>t _. desc_ok t)"
    if "k \<noteq> 0" "\<not> k > 4" for name and k :: u32 and st
  proof (rule sat_seq [OF read_dims_sat], clarify, unfold sat_bind, intro sat_raw)
    fix dims and n_elems :: u64 and st1 ty st2 off st3
    assume d: "list_all dim_ok dims" "unat n_elems = unat (1 :: u64) * shape_elems dims" "length dims = unat k"
    have u: "unat n_elems = shape_elems dims" using d(2) by simp
    have n: "n_elems = of_nat (shape_elems dims)" by (simp flip: u)
    have "unat n_elems < 2 ^ LENGTH(64)" by (rule unsigned_less)
    then have b: "shape_elems dims < 2 ^ 64" unfolding u by simp
    have l: "1 \<le> length dims" "length dims \<le> 4"
      using that by (simp_all add: d(3) word_unat_eq_iff word_less_nat_alt Suc_le_eq)
    show "sat (case tensor_bytes ty n_elems of Inl e \<Rightarrow> Inl (Msg e)
       | Inr nb \<Rightarrow> Inr (\<lparr>gt_name = name, gt_type = ty, gt_shape = dims, gt_offset = off,
             gt_n_bytes = nb\<rparr>, st3)) (\<lambda>t _. desc_ok t)"
      using d(1) l b by (simp add: desc_ok_def n split: sum.split)
  qed
  show ?thesis
    unfolding parse_tensor_def
  proof (subst sat_bind, rule sat_string, subst sat_bind, rule sat_raw(1))
    fix name st1 and k :: u32 and st2
    show "sat (if k = 0 then Inl (Msg (''Tensor '' @ [char_of (39::nat)] @ name @ [char_of (39::nat)] @ '' has 0 dimensions''))
     else if k > 4 then Inl (Msg (''Tensor '' @ [char_of (39::nat)] @ name @ [char_of (39::nat)] @ '' has '' @ word_str k @ '' dims (max 4)''))
     else pbind (read_dims name 0 (unat k) 1 st2) (\<lambda>(dims, n_elems) st.
       pbind (read_u32 st) (\<lambda>ty st. pbind (read_u64 st) (\<lambda>off st.
         case tensor_bytes ty n_elems of
           Inl e \<Rightarrow> Inl (Msg e)
         | Inr nb \<Rightarrow> Inr (\<lparr>gt_name = name, gt_type = ty, gt_shape = dims, gt_offset = off,
             gt_n_bytes = nb\<rparr>, st))))) (\<lambda>t _. desc_ok t)"
      using tail [of k name st2] by simp
  qed
qed

lemma parseTensors_sat: "sat (parseTensors n st) (\<lambda>ts _. length ts = n \<and> list_all desc_ok ts)"
proof (induction n arbitrary: st)
  case (Suc n)
  show ?case
    unfolding parseTensors.simps
    by (rule sat_seq [OF parse_tensor_sat]) (simp add: sat_bind sat_mono [OF Suc.IH])
qed simp

lemma parseHeader_ok: "sat (parseHeader st) (\<lambda>(v, nt, nk) _.
    GGUF_VER_MIN \<le> v \<and> v \<le> GGUF_VER_MAX \<and> nt \<le> 65536 \<and> nk \<le> 65536)"
  unfolding parseHeader_def by (auto simp: sat_bind not_less intro!: sat_raw)

lemma update_length: "length (AList.update k v al) \<le> Suc (length al)"
  by (induction al) auto

lemma parseKV_sat:
  "left st < fuel \<Longrightarrow> distinct (map fst kvs) \<Longrightarrow> sat (parseKV fuel n kvs st)
     (\<lambda>kvs' st'. later st st' \<and> distinct (map fst kvs') \<and> length kvs' \<le> length kvs + n)"
proof (induction n arbitrary: kvs st)
  case (Suc n)
  show ?case
    unfolding parseKV.simps
  proof (rule sat_seq [OF fwd_readString [unfolded fwd_def]], rule sat_seq [OF fwd_raw(3) [unfolded fwd_def]])
    fix key st1 t st2
    assume l: "later st st1" "later st1 st2"
    have le: "left st2 < fuel" using Suc.prems(1) later_left [OF l(1)] later_left [OF l(2)] by simp
    show "sat (pbind (readValue fuel t st2) (\<lambda>v. parseKV fuel n (AList.update key v kvs)))
       (\<lambda>kvs' st'. later st st' \<and> distinct (map fst kvs') \<and> length kvs' \<le> length kvs + Suc n)"
    proof (rule sat_seq [OF fwd_readValue [OF le, unfolded fwd_def]])
      fix v st3 assume l3: "later st2 st3"
      have "left st3 < fuel" using le later_left [OF l3] by simp
      moreover have "distinct (map fst (AList.update key v kvs))"
        using Suc.prems(2) by (rule distinct_update)
      ultimately show "sat (parseKV fuel n (AList.update key v kvs) st3)
         (\<lambda>kvs' st'. later st st' \<and> distinct (map fst kvs') \<and> length kvs' \<le> length kvs + Suc n)"
        by (rule sat_mono [OF Suc.IH]) (use later_trans [OF later_trans [OF l] l3] update_length [of key v kvs] in
          \<open>simp add: later_def\<close>)
    qed
  qed
qed simp

definition sections_ok :: "sections \<Rightarrow> bool" where
  "sections_ok = (\<lambda>(v, nt, nk, kvs, ts). 2 \<le> v \<and> v \<le> 3 \<and> nt \<le> 65536 \<and> nk \<le> 65536 \<and>
     distinct (map fst kvs) \<and> length kvs \<le> unat nk \<and> length ts = unat nt \<and> list_all desc_ok ts)"

lemma parse_sections_sat:
  assumes "left st \<le> fuel"
  shows "sat (parse_sections fuel st) (\<lambda>s st'. sections_ok s \<and> later st st')"
  unfolding parse_sections_def
proof (rule sat_seq [OF sat_conj [OF parseHeader_sat parseHeader_ok]], clarify)
  fix v :: u32 and nt nk :: u64 and st1
  assume h: "GGUF_VER_MIN \<le> v" "v \<le> GGUF_VER_MAX" "nt \<le> 65536" "nk \<le> 65536"
    and l: "later st st1" "left st1 + 4 \<le> left st"
  have le: "left st1 < fuel" using assms l(2) by simp
  have d: "distinct (map fst ([] :: (string \<times> GGUFValue) list))" by simp
  show "sat (pbind (parseKV fuel (unat nk) [] st1) (\<lambda>kvs st.
      pbind (parseTensors (unat nt) st) (\<lambda>tensors st. Inr ((v, nt, nk, kvs, tensors), st))))
    (\<lambda>s st'. sections_ok s \<and> later st st')"
    by (rule sat_seq [OF parseKV_sat [OF le d]],
        rule sat_seq [OF sat_conj [OF parseTensors_sat fwd_parseTensors [unfolded fwd_def]]])
      (use h l(1) in \<open>auto simp: sections_ok_def GGUF_VER_MIN_def GGUF_VER_MAX_def intro: later_trans\<close>)
qed

text \<open>
  C19: Parsing ends with a loader or a message on every input: the recursion over nested arrays never
  goes deeper than the file is long, whatever bytes the file holds.\<close>

theorem open_terminates: "open_gguf path contents \<noteq> Inl OutOfFuel"
proof -
  have "sat (parse_sections (length bytes) \<lparr>gs_bytes = bytes, gs_pos = 0\<rparr>) (\<lambda>_ _. True)" for bytes
    by (rule sat_mono [OF parse_sections_sat]) (simp_all add: left_def)
  then have "parse_sections (length bytes) \<lparr>gs_bytes = bytes, gs_pos = 0\<rparr> \<noteq> Inl OutOfFuel" for bytes
    by (metis sat_simps(1))
  then show ?thesis
    by (auto simp: open_gguf_def parse_file_def Let_def split: option.split sum.split)
qed

lemma pad_mod: "a > 0 \<Longrightarrow> (c + (a - c mod a) mod a) mod a = (0::nat)"
proof -
  assume a: "a > 0"
  have "c + (a - c mod a) = c div a * a + a"
    using mod_less_divisor [OF a, of c] div_mult_mod_eq [of c a] by linarith
  then show ?thesis by (metis mod_add_right_eq mod_add_self2 mod_mult_self2_is_0)
qed

lemma padding_aligns:
  fixes align cur :: u64
  assumes "align \<noteq> 0" "\<not> cur > - 1 - padding align cur"
  shows "unat (cur + padding align cur) = unat cur + unat (padding align cur)"
    "(unat cur + unat (padding align cur)) mod unat align = 0"
    "unat (padding align cur) < unat align"
proof -
  have a: "unat align > 0" using assms(1) by (simp add: unat_gt_0)
  have "cur mod align \<le> align" using assms(1) by (simp add: word_le_nat_alt unat_mod less_imp_le a)
  then have p: "unat (padding align cur) = (unat align - unat cur mod unat align) mod unat align"
    by (simp add: padding_def unat_mod unat_sub)
  show "unat (padding align cur) < unat align" using a by (simp add: p)
  show "(unat cur + unat (padding align cur)) mod unat align = 0"
    unfolding p by (rule pad_mod [OF a])
  have "unat cur \<le> unat (- 1 - padding align cur)" using assms(2) by (simp add: word_le_nat_alt not_less)
  then show "unat (cur + padding align cur) = unat cur + unat (padding align cur)"
    using unsigned_less [of "padding align cur", where 'a = nat]
    by (intro unat_add_lem [THEN iffD1]) (simp add: unat_sub unsigned_minus_1_eq_mask mask_eq_exp_minus_1)
qed

text \<open>The loader of an accepted file.\<close>

definition loader_ok :: "u8 list \<Rightarrow> GGUFLoader \<Rightarrow> bool" where
  "loader_ok bytes l \<longleftrightarrow> gl_bytes l = bytes \<and> gl_file_size l = of_nat (length bytes) \<and>
     sections_ok (gl_version l, gl_n_tensors l, gl_n_kv l, gl_kv l, gl_tensors l) \<and>
     unat (gl_data_offset l) mod unat (alignment_of (gl_kv l)) = 0 \<and>
     (gl_tensors l = [] \<or> gl_data_offset l < gl_file_size l)"

lemma alignment_nonzero [simp]: "alignment_of kvs \<noteq> 0"
proof -
  have "ucast (w :: u32) \<noteq> (0 :: u64)" if "w \<noteq> 0" for w
    using that by transfer simp
  then show ?thesis by (simp add: alignment_of_def Let_def GGUF_DEFAULT_ALIGN_def)
qed

lemma open_loader_ok:
  assumes "open_gguf path (Some bytes) = Inr l"
  shows "loader_ok bytes l"
proof -
  obtain v nt nk kvs ts st where p: "parse_sections (length bytes) \<lparr>gs_bytes = bytes, gs_pos = 0\<rparr> =
      Inr ((v, nt, nk, kvs, ts), st)"
    using assms by (auto simp: open_gguf_def parse_file_def split: if_splits sum.splits)
  have ok: "sections_ok (v, nt, nk, kvs, ts)"
    using sat_Inr [OF parse_sections_sat p] by (simp add: left_def)
  let ?pad = "padding (alignment_of kvs) (of_nat (gs_pos st))"
  have g: "\<not> of_nat (gs_pos st) > - 1 - ?pad"
    "nt = 0 \<or> of_nat (gs_pos st) + ?pad < (of_nat (length bytes) :: u64)"
    and l: "l = \<lparr>gl_path = path, gl_bytes = bytes, gl_version = v, gl_n_tensors = nt,
          gl_n_kv = nk, gl_data_offset = of_nat (gs_pos st) + ?pad, gl_file_size = of_nat (length bytes),
          gl_kv = kvs, gl_tensors = ts\<rparr>"
    using assms p by (auto simp: open_gguf_def parse_file_def Let_def not_less word_neq_0_conv split: if_splits)
  have "unat (of_nat (gs_pos st) + ?pad) mod unat (alignment_of kvs) = 0"
    using padding_aligns(1,2) [OF alignment_nonzero g(1)] by simp
  moreover have "nt = 0 \<Longrightarrow> ts = []" using ok by (simp add: sections_ok_def)
  ultimately show ?thesis using ok g(2) by (auto simp: loader_ok_def l)
qed

text \<open>
  C18: Soundness of the GGUF parser: an accepted file has a supported version, bounded counts,
  one metadata entry per key, exactly the declared number of tensors, each with one to four
  dimensions in 1 to 2^32, an element count that does not overflow and the byte count of its type;
  the data section is aligned and, when there are tensors, starts inside the file.\<close>

theorem open_sound: "open_gguf path (Some bytes) = Inr l \<Longrightarrow> loader_ok bytes l"
  by (rule open_loader_ok)

end
