(* ===== verification/GGUFRoundTrip.thy ===== *)
theory GGUFRoundTrip
  imports GGUFProperties
begin

text \<open>
  The round trip of the GGUF format. \<open>codec\<close> is the contract between a parser and an encoder:
  standing before an encoding, the parser returns the value and stands behind it. The loader's
  parsers are interpreted one by one; the lists of a file follow from the locale's lemma on repeated
  parsing, and whole files from the sections.
\<close>

section \<open>The contract\<close>

definition cursor :: "u8 list \<Rightarrow> u8 list \<Rightarrow> stream" where
  "cursor pre rest = \<lparr>gs_bytes = pre @ rest, gs_pos = length pre\<rparr>"

fun parse_many :: "(stream \<Rightarrow> 'a parsed) \<Rightarrow> nat \<Rightarrow> stream \<Rightarrow> 'a list parsed" where
  "parse_many p 0 st = Inr ([], st)"
| "parse_many p (Suc n) st = pbind (p st) (\<lambda>a st. pbind (parse_many p n st) (\<lambda>r st. Inr (a # r, st)))"

locale codec =
  fixes parse :: "stream \<Rightarrow> 'a parsed" and enc :: "'a \<Rightarrow> u8 list" and ok :: "'a \<Rightarrow> bool"
  assumes parse_enc: "ok a \<Longrightarrow> parse (cursor pre (enc a @ post)) = Inr (a, cursor (pre @ enc a) post)"
begin

lemma parse_many_enc:
  "list_all ok as \<Longrightarrow> parse_many parse (length as) (cursor pre (concat (map enc as) @ post)) =
     Inr (as, cursor (pre @ concat (map enc as)) post)"
  by (induction as arbitrary: pre) (simp_all add: parse_enc)

end

lemma parse_many_eqs: "read_strings n st = parse_many readString n st" "parseTensors n st = parse_many parse_tensor n st"
  by (induction n arbitrary: st) simp_all

section \<open>Integers\<close>

fun le_bytes :: "nat \<Rightarrow> nat \<Rightarrow> u8 list" where
  "le_bytes 0 x = []"
| "le_bytes (Suc n) x = of_nat (x mod 256) # le_bytes n (x div 256)"

lemma length_le_bytes [simp]: "length (le_bytes n x) = n"
  by (induction n arbitrary: x) simp_all

lemma le_nat_le_bytes [simp]: "le_nat (le_bytes n x) = x mod 256 ^ n"
  by (induction n arbitrary: x) (simp_all add: mod_mult2_eq unat_of_nat)

lemma read_bytes_cursor: "read_bytes (length bs) (cursor pre (bs @ post)) = Some (bs, cursor (pre @ bs) post)"
  by (simp add: read_bytes_def cursor_def)

lemma read_or_cursor:
  "n = length bs \<Longrightarrow> read_or msg n (cursor pre (bs @ post)) = Inr (bs, cursor (pre @ bs) post)"
  by (simp add: read_or_def read_bytes_cursor)

lemma readRaw_cursor:
  "readRaw n (cursor pre (le_bytes n x @ post)) = Inr (of_nat (x mod 256 ^ n), cursor (pre @ le_bytes n x) post)"
  by (simp add: readRaw_def read_or_cursor)

definition enc_u8 :: "u8 \<Rightarrow> u8 list" where "enc_u8 w = le_bytes 1 (unat w)"
definition enc_u32 :: "u32 \<Rightarrow> u8 list" where "enc_u32 w = le_bytes 4 (unat w)"
definition enc_u64 :: "u64 \<Rightarrow> u8 list" where "enc_u64 w = le_bytes 8 (unat w)"

interpretation u8_codec: codec read_u8 enc_u8 "\<lambda>_. True"
proof
  fix a :: u8 and pre post
  have "unat a < 2 ^ LENGTH(8)" by (rule unsigned_less)
  then show "read_u8 (cursor pre (enc_u8 a @ post)) = Inr (a, cursor (pre @ enc_u8 a) post)"
    by (simp add: read_u8_def enc_u8_def readRaw_cursor del: le_bytes.simps One_nat_def)
qed

interpretation u32_codec: codec read_u32 enc_u32 "\<lambda>_. True"
proof
  fix a :: u32 and pre post
  have "unat a < 2 ^ LENGTH(32)" by (rule unsigned_less)
  then show "read_u32 (cursor pre (enc_u32 a @ post)) = Inr (a, cursor (pre @ enc_u32 a) post)"
    by (simp add: read_u32_def enc_u32_def readRaw_cursor)
qed

interpretation u64_codec: codec read_u64 enc_u64 "\<lambda>_. True"
proof
  fix a :: u64 and pre post
  have "unat a < 2 ^ LENGTH(64)" by (rule unsigned_less)
  then show "read_u64 (cursor pre (enc_u64 a @ post)) = Inr (a, cursor (pre @ enc_u64 a) post)"
    by (simp add: read_u64_def enc_u64_def readRaw_cursor)
qed

lemmas int_codecs = u8_codec.parse_enc [OF TrueI] u32_codec.parse_enc [OF TrueI] u64_codec.parse_enc [OF TrueI]

section \<open>Strings\<close>

definition byte_of :: "char \<Rightarrow> u8" where
  "byte_of c = of_nat (of_char c)"

lemma chars_of_bytes [simp]: "chars_of (map byte_of s) = s"
proof -
  have "char_of (unat (byte_of c)) = c" for c
    by (simp add: byte_of_def unat_of_nat)
  then show ?thesis by (simp add: chars_of_def o_def)
qed

definition enc_string :: "string \<Rightarrow> u8 list" where
  "enc_string s = enc_u64 (of_nat (length s)) @ map byte_of s"

definition string_ok :: "string \<Rightarrow> bool" where
  "string_ok s \<longleftrightarrow> length s \<le> 1048576"

lemma unat_small: "n < 2 ^ 64 \<Longrightarrow> unat (of_nat n :: u64) = n"
  by (simp add: unat_of_nat)

interpretation string_codec: codec readString enc_string string_ok
proof
  fix s pre post
  assume "string_ok s"
  then have "\<not> (of_nat (length s) :: u64) > 1048576" "unat (of_nat (length s) :: u64) = length s"
    by (simp_all add: string_ok_def word_less_nat_alt unat_of_nat)
  then show "readString (cursor pre (enc_string s @ post)) = Inr (s, cursor (pre @ enc_string s) post)"
    by (simp add: readString_def enc_string_def int_codecs read_or_cursor)
qed

section \<open>Metadata values\<close>

definition enc_words :: "u32 list \<Rightarrow> u8 list" where
  "enc_words ws = concat (map enc_u32 ws)"

lemma length_enc_u32 [simp]: "length (enc_u32 w) = 4"
  by (simp add: enc_u32_def)

lemma length_enc_words [simp]: "length (enc_words ws) = 4 * length ws"
  by (induction ws) (simp_all add: enc_words_def)

lemma words_of_enc [simp]: "words_of (length ws) (enc_words ws) = ws"
proof (induction ws)
  case (Cons w ws)
  have "unat w < 2 ^ LENGTH(32)" by (rule unsigned_less)
  then have "of_nat (le_nat (enc_u32 w)) = w" by (simp add: enc_u32_def)
  then show ?case using Cons by (simp add: enc_words_def)
qed simp

lemma read_words_cursor:
  assumes "length ws \<le> 16777216"
  shows "read_words ty (of_nat (length ws)) (cursor pre (enc_words ws @ post)) =
    Inr (ws, cursor (pre @ enc_words ws) post)"
proof -
  have "unat (of_nat (length ws) :: u64) = length ws" using assms by (simp add: unat_of_nat)
  moreover have "unat (of_nat (length ws) * 4 :: u64) = 4 * length ws"
    using assms by (simp add: unat_word_ariths unat_of_nat)
  ultimately show ?thesis by (simp add: read_words_def read_or_cursor)
qed

fun value_tag :: "GGUFValue \<Rightarrow> u32" where
  "value_tag (VUInt32 _) = 4"
| "value_tag (VInt32 _) = 5"
| "value_tag (VFloat32 _) = 6"
| "value_tag (VBool _) = 7"
| "value_tag (VString _) = 8"
| "value_tag (VUInt64 _) = 10"
| "value_tag (VInt64 _) = 11"
| "value_tag (VFloat64 _) = 12"
| "value_tag _ = 9"

definition enc_array :: "u32 \<Rightarrow> nat \<Rightarrow> u8 list \<Rightarrow> u8 list" where
  "enc_array tag n body = enc_u32 tag @ enc_u64 (of_nat n) @ body"

fun enc_value :: "GGUFValue \<Rightarrow> u8 list" where
  "enc_value (VUInt32 v) = enc_u32 v"
| "enc_value (VInt32 v) = enc_u32 v"
| "enc_value (VFloat32 v) = enc_u32 v"
| "enc_value (VBool b) = enc_u8 (if b then 1 else 0)"
| "enc_value (VString s) = enc_string s"
| "enc_value (VUInt64 v) = enc_u64 v"
| "enc_value (VInt64 v) = enc_u64 v"
| "enc_value (VFloat64 v) = enc_u64 v"
| "enc_value (VUInt32s ws) = enc_array 4 (length ws) (enc_words ws)"
| "enc_value (VInt32s ws) = enc_array 5 (length ws) (enc_words ws)"
| "enc_value (VFloat32s ws) = enc_array 6 (length ws) (enc_words ws)"
| "enc_value (VStrings ss) = enc_array 8 (length ss) (concat (map enc_string ss))"

fun value_ok :: "GGUFValue \<Rightarrow> bool" where
  "value_ok (VString s) = string_ok s"
| "value_ok (VUInt32s ws) = (length ws \<le> 16777216)"
| "value_ok (VInt32s ws) = (length ws \<le> 16777216)"
| "value_ok (VFloat32s ws) = (length ws \<le> 16777216)"
| "value_ok (VStrings ss) = (length ss \<le> 16777216 \<and> list_all string_ok ss)"
| "value_ok _ = True"

lemma array_count:
  "n \<le> 16777216 \<Longrightarrow> \<not> (of_nat n :: u64) > 16777216" "n \<le> 16777216 \<Longrightarrow> unat (of_nat n :: u64) = n"
  by (simp_all add: word_less_nat_alt unat_of_nat)

lemma type_tags [simp]:
  "value_type_of 4 = Some GGUFValueType.UINT32" "value_type_of 5 = Some GGUFValueType.INT32"
  "value_type_of 6 = Some GGUFValueType.FLOAT32" "value_type_of 7 = Some GGUFValueType.BOOL"
  "value_type_of 8 = Some GGUFValueType.STRING" "value_type_of 9 = Some GGUFValueType.ARRAY"
  "value_type_of 10 = Some GGUFValueType.UINT64" "value_type_of 11 = Some GGUFValueType.INT64"
  "value_type_of 12 = Some GGUFValueType.FLOAT64"
  by (simp_all add: value_type_of_def)

lemma array_codec:
  "length ws \<le> 16777216 \<Longrightarrow> readArray (Suc fuel) (cursor pre (enc_array 4 (length ws) (enc_words ws) @ post)) =
     Inr (VUInt32s ws, cursor (pre @ enc_array 4 (length ws) (enc_words ws)) post)"
  "length ws \<le> 16777216 \<Longrightarrow> readArray (Suc fuel) (cursor pre (enc_array 5 (length ws) (enc_words ws) @ post)) =
     Inr (VInt32s ws, cursor (pre @ enc_array 5 (length ws) (enc_words ws)) post)"
  "length ws \<le> 16777216 \<Longrightarrow> readArray (Suc fuel) (cursor pre (enc_array 6 (length ws) (enc_words ws) @ post)) =
     Inr (VFloat32s ws, cursor (pre @ enc_array 6 (length ws) (enc_words ws)) post)"
  by (simp_all add: enc_array_def int_codecs read_words_cursor array_count)

lemma string_array_codec:
  assumes "length ss \<le> 16777216" "list_all string_ok ss"
  shows "readArray (Suc fuel) (cursor pre (enc_array 8 (length ss) (concat (map enc_string ss)) @ post)) =
     Inr (VStrings ss, cursor (pre @ enc_array 8 (length ss) (concat (map enc_string ss))) post)"
  using assms
  by (simp add: enc_array_def int_codecs array_count parse_many_eqs string_codec.parse_many_enc)

lemma value_codec:
  "value_ok v \<Longrightarrow> readValue (Suc fuel) (value_tag v) (cursor pre (enc_value v @ post)) =
     Inr (v, cursor (pre @ enc_value v) post)"
  by (cases v) (simp_all add: readValue_def int_codecs string_codec.parse_enc array_codec string_array_codec
      del: readArray.simps)

section \<open>Metadata, tensors and files\<close>

definition enc_kv :: "string \<times> GGUFValue \<Rightarrow> u8 list" where
  "enc_kv kv = enc_string (fst kv) @ enc_u32 (value_tag (snd kv)) @ enc_value (snd kv)"

definition kv_ok :: "string \<times> GGUFValue \<Rightarrow> bool" where
  "kv_ok kv \<longleftrightarrow> string_ok (fst kv) \<and> value_ok (snd kv)"

lemma update_new: "k \<notin> fst ` set kvs \<Longrightarrow> AList.update k v kvs = kvs @ [(k, v)]"
  by (induction kvs) auto

lemma parseKV_cursor:
  "list_all kv_ok kvs \<Longrightarrow> distinct (map fst (acc @ kvs)) \<Longrightarrow>
   parseKV (Suc fuel) (length kvs) acc (cursor pre (concat (map enc_kv kvs) @ post)) =
     Inr (acc @ kvs, cursor (pre @ concat (map enc_kv kvs)) post)"
proof (induction kvs arbitrary: acc pre)
  case (Cons kv kvs)
  obtain k v where kv: "kv = (k, v)" by (cases kv)
  have ok: "string_ok k" "value_ok v" using Cons.prems(1) by (simp_all add: kv kv_ok_def)
  have new: "AList.update k v acc = acc @ [kv]" using Cons.prems(2) by (simp add: kv update_new)
  show ?case
    using Cons.IH [of "acc @ [kv]" "pre @ enc_kv kv"] Cons.prems
    by (simp add: kv enc_kv_def string_codec.parse_enc [OF ok(1)] int_codecs value_codec [OF ok(2)] new [unfolded kv])
qed simp

definition enc_tensor :: "GGUFTensorDesc \<Rightarrow> u8 list" where
  "enc_tensor t = enc_string (gt_name t) @ enc_u32 (of_nat (length (gt_shape t))) @
     concat (map enc_u64 (gt_shape t)) @ enc_u32 (gt_type t) @ enc_u64 (gt_offset t)"

definition tensor_ok :: "GGUFTensorDesc \<Rightarrow> bool" where
  "tensor_ok t \<longleftrightarrow> string_ok (gt_name t) \<and> desc_ok t"

lemma elems_pos: "list_all dim_ok dims \<Longrightarrow> 0 < shape_elems dims"
  by (induction dims) (auto simp: shape_elems_def dim_ok_def unat_gt_0)

lemma read_dims_cursor:
  "list_all dim_ok dims \<Longrightarrow> unat m * shape_elems dims < 2 ^ 64 \<Longrightarrow>
   read_dims name d (length dims) m (cursor pre (concat (map enc_u64 dims) @ post)) =
     Inr ((dims, m * of_nat (shape_elems dims)), cursor (pre @ concat (map enc_u64 dims)) post)"
proof (induction dims arbitrary: d m pre)
  case Nil then show ?case by (simp add: shape_elems_def)
next
  case (Cons dim dims)
  have ok: "dim \<noteq> 0" "\<not> dim > 4294967296" using Cons.prems(1) by (simp_all add: dim_ok_iff)
  have e: "shape_elems (dim # dims) = unat dim * shape_elems dims" by (simp add: shape_elems_def)
  have p: "0 < shape_elems dims" using Cons.prems(1) by (simp add: elems_pos)
  have "unat m * unat dim \<le> unat m * unat dim * shape_elems dims" using p by (cases "shape_elems dims") simp_all
  then have lt: "unat m * unat dim < 2 ^ 64"
    by (rule le_less_trans) (use Cons.prems(2) in \<open>simp only: e mult.assoc\<close>)
  then have u: "unat (m * dim) = unat m * unat dim" by (intro iffD1 [OF unat_mult_lem]) simp
  have "unat m \<le> (2 ^ 64 - 1) div unat dim"
    using lt ok(1) by (simp add: less_eq_div_iff_mult_less_eq unat_gt_0)
  then have g: "\<not> m > (- 1) div dim"
    by (simp add: word_less_nat_alt not_less unat_div unsigned_minus_1_eq_mask mask_eq_exp_minus_1)
  show ?case
    using Cons.IH [of "m * dim" "d + 1" "pre @ enc_u64 dim"] Cons.prems ok g
    by (simp add: int_codecs u e mult.assoc)
qed

interpretation tensor_codec: codec parse_tensor enc_tensor tensor_ok
proof
  fix t pre post
  assume "tensor_ok t"
  then have ok: "string_ok (gt_name t)" "1 \<le> length (gt_shape t)" "length (gt_shape t) \<le> 4"
    "list_all dim_ok (gt_shape t)" "shape_elems (gt_shape t) < 2 ^ 64"
    "tensor_bytes (gt_type t) (of_nat (shape_elems (gt_shape t))) = Inr (gt_n_bytes t)"
    by (simp_all add: tensor_ok_def desc_ok_def)
  have k: "(of_nat (length (gt_shape t)) :: u32) \<noteq> 0" "\<not> (of_nat (length (gt_shape t)) :: u32) > 4"
    "unat (of_nat (length (gt_shape t)) :: u32) = length (gt_shape t)"
    using ok(2,3) by (auto simp: word_unat_eq_iff word_less_nat_alt unat_of_nat)
  show "parse_tensor (cursor pre (enc_tensor t @ post)) = Inr (t, cursor (pre @ enc_tensor t) post)"
    using ok k by (simp add: parse_tensor_def enc_tensor_def string_codec.parse_enc int_codecs read_dims_cursor)
qed

text \<open>A file's content: header, metadata, tensor descriptors and the data section behind the padding.\<close>

record GGUFFile =
  gf_version :: u32
  gf_kvs :: "(string \<times> GGUFValue) list"
  gf_tensors :: "GGUFTensorDesc list"
  gf_data :: "u8 list"

definition enc_header :: "GGUFFile \<Rightarrow> u8 list" where
  "enc_header f = enc_u32 GGUF_MAGIC @ enc_u32 (gf_version f) @
     enc_u64 (of_nat (length (gf_tensors f))) @ enc_u64 (of_nat (length (gf_kvs f)))"

definition enc_sections :: "GGUFFile \<Rightarrow> u8 list" where
  "enc_sections f = enc_header f @ concat (map enc_kv (gf_kvs f)) @ concat (map enc_tensor (gf_tensors f))"

definition pad_of :: "GGUFFile \<Rightarrow> nat" where
  "pad_of f = unat (padding (alignment_of (gf_kvs f)) (of_nat (length (enc_sections f))))"

definition encode_file :: "GGUFFile \<Rightarrow> u8 list" where
  "encode_file f = enc_sections f @ replicate (pad_of f) 0 @ gf_data f"

definition file_ok :: "GGUFFile \<Rightarrow> bool" where
  "file_ok f \<longleftrightarrow> 2 \<le> gf_version f \<and> gf_version f \<le> 3 \<and>
     length (gf_kvs f) \<le> 65536 \<and> length (gf_tensors f) \<le> 65536 \<and>
     list_all kv_ok (gf_kvs f) \<and> distinct (map fst (gf_kvs f)) \<and> list_all tensor_ok (gf_tensors f) \<and>
     length (encode_file f) < 2 ^ 64 \<and> (gf_tensors f = [] \<or> gf_data f \<noteq> [])"

lemma parseHeader_cursor:
  assumes "2 \<le> gf_version f" "gf_version f \<le> 3" "length (gf_kvs f) \<le> 65536" "length (gf_tensors f) \<le> 65536"
  shows "parseHeader (cursor pre (enc_header f @ post)) =
    Inr ((gf_version f, of_nat (length (gf_tensors f)), of_nat (length (gf_kvs f))), cursor (pre @ enc_header f) post)"
proof -
  have "\<not> (of_nat (length (gf_tensors f)) :: u64) > 65536" "\<not> (of_nat (length (gf_kvs f)) :: u64) > 65536"
    using assms by (simp_all add: word_less_nat_alt unat_of_nat)
  moreover have "\<not> gf_version f < GGUF_VER_MIN" "\<not> gf_version f > GGUF_VER_MAX"
    using assms by (simp_all add: GGUF_VER_MIN_def GGUF_VER_MAX_def not_less)
  ultimately show ?thesis
    by (simp add: parseHeader_def enc_header_def int_codecs)
qed

lemma parse_sections_cursor:
  assumes "file_ok f"
  shows "parse_sections (Suc fuel) (cursor [] (enc_sections f @ post)) =
    Inr ((gf_version f, of_nat (length (gf_tensors f)), of_nat (length (gf_kvs f)), gf_kvs f, gf_tensors f),
      cursor (enc_sections f) post)"
proof -
  have ok: "2 \<le> gf_version f" "gf_version f \<le> 3" "length (gf_kvs f) \<le> 65536" "length (gf_tensors f) \<le> 65536"
    "list_all kv_ok (gf_kvs f)" "distinct (map fst ([] @ gf_kvs f))" "list_all tensor_ok (gf_tensors f)"
    using assms by (simp_all add: file_ok_def)
  have u: "unat (of_nat (length (gf_tensors f)) :: u64) = length (gf_tensors f)"
    "unat (of_nat (length (gf_kvs f)) :: u64) = length (gf_kvs f)"
    using ok(3,4) by (simp_all add: unat_of_nat)
  show ?thesis
    using parseKV_cursor [OF ok(5,6), of fuel "enc_header f" "concat (map enc_tensor (gf_tensors f)) @ post"]
      tensor_codec.parse_many_enc [OF ok(7), of "enc_header f @ concat (map enc_kv (gf_kvs f))" post]
    by (simp add: parse_sections_def enc_sections_def parseHeader_cursor [OF ok(1-4)] u parse_many_eqs)
qed

lemma length_header: "length (enc_header f) = 24"
  by (simp add: enc_header_def enc_u32_def enc_u64_def)

definition opened :: "string \<Rightarrow> GGUFFile \<Rightarrow> GGUFLoader" where
  "opened path f = \<lparr>gl_path = path, gl_bytes = encode_file f, gl_version = gf_version f,
     gl_n_tensors = of_nat (length (gf_tensors f)), gl_n_kv = of_nat (length (gf_kvs f)),
     gl_data_offset = of_nat (length (encode_file f) - length (gf_data f)),
     gl_file_size = of_nat (length (encode_file f)), gl_kv = gf_kvs f, gl_tensors = gf_tensors f\<rparr>"

lemma open_encoded:
  assumes "file_ok f"
  shows "open_gguf path (Some (encode_file f)) = Inr (opened path f)"
proof -
  let ?n = "length (enc_sections f)" and ?len = "length (encode_file f)"
  have len: "?len = ?n + pad_of f + length (gf_data f)" by (simp add: encode_file_def)
  have n: "?n \<ge> 24" by (simp add: enc_sections_def length_header)
  have b: "?len < 2 ^ 64" "length (gf_tensors f) \<le> 65536" "gf_tensors f = [] \<or> gf_data f \<noteq> []"
    using assms by (simp_all add: file_ok_def)
  have big: "\<not> (of_nat ?len :: u64) < 12" using n b(1) by (simp add: len word_less_nat_alt unat_of_nat del: of_nat_add)
  obtain fuel where fuel: "?len = Suc fuel" using n len by (metis not0_implies_Suc add_is_0 not_numeral_le_zero)
  have st: "\<lparr>gs_bytes = encode_file f, gs_pos = 0\<rparr> = cursor [] (enc_sections f @ replicate (pad_of f) 0 @ gf_data f)"
    by (simp add: cursor_def encode_file_def)
  let ?pad = "padding (alignment_of (gf_kvs f)) (of_nat ?n)"
  have pad: "unat ?pad = pad_of f" by (simp add: pad_of_def)
  have un: "unat (of_nat ?n :: u64) = ?n" "unat (of_nat ?len :: u64) = ?len"
    using b(1) len by (simp_all add: unat_of_nat del: of_nat_add)
  have ovf: "\<not> (of_nat ?n :: u64) > - 1 - ?pad"
    using b(1) len unsigned_less [of ?pad, where 'a = nat]
    by (simp add: word_less_nat_alt not_less unat_sub un pad unsigned_minus_1_eq_mask mask_eq_exp_minus_1)
  have sum: "of_nat ?n + ?pad = (of_nat (?n + pad_of f) :: u64)" by (simp flip: pad)
  have inside: "\<not> ((of_nat (length (gf_tensors f)) :: u64) > 0 \<and> of_nat ?n + ?pad \<ge> (of_nat ?len :: u64))"
  proof (cases "gf_tensors f = []")
    case False
    then have "gf_data f \<noteq> []" using b(3) by simp
    then have "\<not> of_nat ?n + ?pad \<ge> (of_nat ?len :: u64)"
      unfolding sum using b(1) len by (simp add: word_le_nat_alt unat_of_nat del: of_nat_add)
    then show ?thesis by simp
  qed simp
  have d: "?len - length (gf_data f) = ?n + pad_of f" by (simp add: len)
  have ps: "parse_sections ?len \<lparr>gs_bytes = encode_file f, gs_pos = 0\<rparr> =
      Inr ((gf_version f, of_nat (length (gf_tensors f)), of_nat (length (gf_kvs f)), gf_kvs f, gf_tensors f),
        cursor (enc_sections f) (replicate (pad_of f) 0 @ gf_data f))"
    unfolding st fuel by (rule parse_sections_cursor [OF assms])
  have padw: "of_nat (pad_of f) = ?pad" by (simp flip: pad)
  show ?thesis
    using big ovf inside by (simp add: open_gguf_def parse_file_def ps Let_def opened_def d cursor_def padw)
qed

text \<open>
  C17: Round trip of the GGUF format: a file written from metadata, tensor descriptors and data, within
  the limits the loader states, is opened and gives back the version, every metadata entry in order
  and every descriptor, with the data section where the writer put it.\<close>

theorem open_roundtrip:
  assumes "file_ok f"
  shows "\<exists>l. open_gguf path (Some (encode_file f)) = Inr l \<and> gl_version l = gf_version f \<and>
    gl_kv l = gf_kvs f \<and> gl_tensors l = gf_tensors f \<and>
    drop (unat (gl_data_offset l)) (gl_bytes l) = gf_data f"
proof -
  have "length (encode_file f) < 2 ^ 64" using assms by (simp add: file_ok_def)
  then have "unat (of_nat (length (encode_file f) - length (gf_data f)) :: u64) = length (enc_sections f) + pad_of f"
    by (simp add: encode_file_def unat_of_nat del: of_nat_add)
  then show ?thesis by (simp add: open_encoded [OF assms] opened_def) (simp add: encode_file_def)
qed

section \<open>Tensor data\<close>

lemma beyond_iff:
  fixes n p s :: u64
  shows "(p > s \<or> n > s - p) \<longleftrightarrow> unat p + unat n > unat s"
proof (cases "p > s")
  case False
  then have "unat (s - p) = unat s - unat p" "unat p \<le> unat s" by (simp_all add: unat_sub word_le_nat_alt not_less)
  then show ?thesis using False by (auto simp: word_less_nat_alt)
qed (auto simp: word_less_nat_alt)

lemma sum_fits:
  fixes a b :: u64
  assumes "\<not> b > - 1 - a"
  shows "unat (a + b) = unat a + unat b"
proof (rule iffD1 [OF unat_add_lem])
  have "unat b \<le> unat (- 1 - a)" using assms by (simp add: word_le_nat_alt not_less)
  then show "unat a + unat b < 2 ^ LENGTH(64)"
    using unsigned_less [of a, where 'a = nat] by (simp add: unat_sub unsigned_minus_1_eq_mask mask_eq_exp_minus_1)
qed

lemma sum_overflows:
  fixes a b :: u64
  assumes "b > - 1 - a"
  shows "2 ^ 64 \<le> unat a + unat b"
proof -
  have "unat (- 1 - a) < unat b" using assms by (simp add: word_less_nat_alt)
  then show ?thesis by (simp add: unat_sub unsigned_minus_1_eq_mask mask_eq_exp_minus_1)
qed

lemma readTensorData_exact:
  assumes "loader_ok bytes l" "length bytes < 2 ^ 64"
  shows "readTensorData l t m =
    (let p = unat (gl_data_offset l) + unat (gt_offset t); n = unat (gt_n_bytes t) in
     if 0 < n \<and> gt_n_bytes t \<le> m \<and> p + n \<le> length bytes then Some (take n (drop p bytes)) else None)"
proof -
  have fs: "unat (gl_file_size l) = length bytes" "gl_bytes l = bytes"
    using assms by (simp_all add: loader_ok_def unat_of_nat)
  let ?p = "unat (gl_data_offset l) + unat (gt_offset t)" and ?n = "unat (gt_n_bytes t)"
  have first: "unat (gt_offset t) + ?n > length bytes \<Longrightarrow> ?p + ?n > length bytes" by simp
  show ?thesis
  proof (cases "gt_offset t > - 1 - gl_data_offset l")
    case True
    then have "\<not> ?p + ?n \<le> length bytes" using sum_overflows [OF True] assms(2) by simp
    then show ?thesis using True by (simp add: readTensorData_def Let_def)
  next
    case False
    note u = sum_fits [OF False]
    show ?thesis
      using False first
      by (auto simp: readTensorData_def Let_def beyond_iff u fs read_bytes_def unat_gt_0 not_less word_neq_0_conv)
  qed
qed

text \<open>
  C30: Tensor data of an accepted file: reading a tensor yields exactly its bytes, at its offset behind
  the data section's start, when they are wanted, fit the caller's buffer and lie inside the file;
  in every other case, sums that wrap around included, it fails.\<close>

theorem tensor_data_exact:
  assumes "open_gguf path (Some bytes) = Inr l" "length bytes < 2 ^ 64"
  shows "readTensorData l t m =
    (let p = unat (gl_data_offset l) + unat (gt_offset t); n = unat (gt_n_bytes t) in
     if 0 < n \<and> gt_n_bytes t \<le> m \<and> p + n \<le> length bytes then Some (take n (drop p bytes)) else None)"
  by (rule readTensorData_exact [OF open_loader_ok [OF assms(1)] assms(2)])

section \<open>Byte counts\<close>

text \<open>Elements and bytes of a block, per type.\<close>

fun block_of :: "GGMLType \<Rightarrow> nat \<times> nat" where
  "block_of GGMLType.F32 = (1, 4)"
| "block_of GGMLType.F16 = (1, 2)"
| "block_of GGMLType.Q4_0 = (32, 18)"
| "block_of GGMLType.Q4_1 = (32, 20)"
| "block_of GGMLType.Q5_0 = (32, 22)"
| "block_of GGMLType.Q5_1 = (32, 24)"
| "block_of GGMLType.Q8_0 = (32, 34)"
| "block_of GGMLType.Q8_1 = (32, 36)"
| "block_of GGMLType.Q2_K = (256, 84)"
| "block_of GGMLType.Q3_K = (256, 110)"
| "block_of GGMLType.Q4_K = (256, 144)"
| "block_of GGMLType.Q5_K = (256, 176)"
| "block_of GGMLType.Q6_K = (256, 210)"
| "block_of GGMLType.Q8_K = (256, 292)"
| "block_of GGMLType.UNKNOWN = (1, 0)"

definition exact_bytes :: "GGMLType \<Rightarrow> nat \<Rightarrow> nat" where
  "exact_bytes t n = (case block_of t of (bsize, bytes) \<Rightarrow> (n + bsize - 1) div bsize * bytes)"

lemma blocks_exact:
  fixes n s b :: u64
  assumes "unat n + unat s < 2 ^ 64" "0 < unat s" "(unat n + unat s - 1) div unat s * unat b < 2 ^ 64"
  shows "unat (blocks n s b) = (unat n + unat s - 1) div unat s * unat b"
proof -
  have "unat (n + s) = unat n + unat s" using assms(1) by (intro iffD1 [OF unat_add_lem]) simp
  moreover have "(1 :: u64) \<le> n + s" using calculation assms(2) by (simp add: word_le_nat_alt)
  ultimately have "unat (n + s - 1) = unat n + unat s - 1" by (simp add: unat_sub)
  then have "unat ((n + s - 1) div s) * unat b < 2 ^ LENGTH(64)" using assms(3) by (simp add: unat_div)
  from iffD1 [OF unat_mult_lem this] show ?thesis
    unfolding blocks_def using \<open>unat (n + s - 1) = _\<close> by (simp add: unat_div)
qed

lemma div_bound: "n < 2 ^ 63 \<Longrightarrow> (n + 31) div 32 * 36 < (2::nat) ^ 64" "n < 2 ^ 63 \<Longrightarrow> (n + 255) div 256 * 292 < (2::nat) ^ 64"
  by simp_all

lemma blocks_32:
  fixes n b :: u64
  assumes "unat n < 2 ^ 63" "unat b \<le> 36"
  shows "unat (blocks n 32 b) = (unat n + 31) div 32 * unat b"
proof -
  have "(unat n + 31) div 32 * unat b \<le> (unat n + 31) div 32 * 36" using assms(2) by (rule mult_le_mono2)
  then have "(unat n + 31) div 32 * unat b < 2 ^ 64" using div_bound(1) [OF assms(1)] by (rule le_less_trans)
  then show ?thesis using blocks_exact [of n 32 b] assms(1) by (simp add: add.commute [of 31 "unat n"])
qed

lemma blocks_256:
  fixes n b :: u64
  assumes "unat n < 2 ^ 63" "unat b \<le> 292"
  shows "unat (blocks n 256 b) = (unat n + 255) div 256 * unat b"
proof -
  have "(unat n + 255) div 256 * unat b \<le> (unat n + 255) div 256 * 292" using assms(2) by (rule mult_le_mono2)
  then have "(unat n + 255) div 256 * unat b < 2 ^ 64" using div_bound(2) [OF assms(1)] by (rule le_less_trans)
  then show ?thesis using blocks_exact [of n 256 b] assms(1) by (simp add: add.commute [of 255 "unat n"])
qed

text \<open>
  Below 2^63 elements the byte count of a descriptor is the exact number of blocks of its type times
  the bytes of a block, without wrap-around, for all fourteen types.\<close>

lemma tensor_bytes_exact:
  assumes "unat n < 2 ^ 63" "ggml_type_of ty = Some t" "tensor_bytes ty n = Inr b"
  shows "unat b = exact_bytes t (unat n)"
proof (cases t)
  case F32
  then have g: "\<not> n > (- 1) div 4" "b = n * 4" using assms(2,3) by (auto simp: tensor_bytes_def split: if_splits)
  then show ?thesis using F32 mult_no_overflow [OF g(1)] by (simp add: exact_bytes_def)
next
  case F16
  then have g: "\<not> n > (- 1) div 2" "b = n * 2" using assms(2,3) by (auto simp: tensor_bytes_def split: if_splits)
  then show ?thesis using F16 mult_no_overflow [OF g(1)] by (simp add: exact_bytes_def)
qed (use assms blocks_32 [OF assms(1)] blocks_256 [OF assms(1)] in \<open>auto simp: tensor_bytes_def exact_bytes_def\<close>)

text \<open>
  Only the two dense types are checked for overflow: a Q4_0 descriptor whose dimensions the loader
  accepts gets the byte count 0.\<close>

lemma block_bytes_wrap:
  "list_all dim_ok [4294967295, 641, 6700417] \<and>
   tensor_bytes 2 (of_nat (shape_elems [4294967295, 641, 6700417])) = Inr 0"
  by (simp add: dim_ok_def shape_elems_def tensor_bytes_def ggml_type_of_def blocks_def)

text \<open>
  A skipped array is not bounded by the file: seeking past its end succeeds, and a file that ends
  inside its last, skipped array is accepted.\<close>

definition truncated_file :: "u8 list" where
  "truncated_file = enc_u32 GGUF_MAGIC @ enc_u32 3 @ enc_u64 0 @ enc_u64 1 @
     enc_string ''a'' @ enc_u32 9 @ enc_u32 0 @ enc_u64 1000"

lemmas int_codecs_end = int_codecs [where post = "[]", simplified]

lemma truncated_accepted: "\<exists>l. open_gguf ''m'' (Some truncated_file) = Inr l"
proof -
  have len: "length truncated_file = 49"
    by (simp add: truncated_file_def enc_u32_def enc_u64_def enc_string_def)
  have fuel: "Suc 48 = 49" by simp
  have arr: "readArray 49 (cursor pre (enc_u32 0 @ enc_u64 1000)) =
      Inr (skipped, seek_by 1000 (cursor (pre @ enc_u32 0 @ enc_u64 1000) []))" for pre
    using readArray.simps(2) [of 48 "cursor pre (enc_u32 0 @ enc_u64 1000)"]
    unfolding fuel by (simp add: int_codecs int_codecs_end value_type_of_def elem_size_def del: readArray.simps)
  have "parse_sections 49 (cursor [] truncated_file) =
      Inr ((3, 0, 1, [(''a'', skipped)], []), seek_by 1000 (cursor truncated_file []))"
    by (simp add: truncated_file_def parse_sections_def parseHeader_def int_codecs arr
        string_codec.parse_enc string_ok_def readValue_def GGUF_VER_MIN_def GGUF_VER_MAX_def del: readArray.simps)
  moreover have "gs_pos (seek_by 1000 (cursor truncated_file [])) = 1049"
    by (simp add: seek_by_def cursor_def len)
  moreover have "alignment_of [(''a'', skipped)] = 32"
    by (simp add: alignment_of_def kvUInt32_def lookup_kv_def GGUF_DEFAULT_ALIGN_def)
  moreover have "padding 32 1049 = 7" by (simp add: padding_def)
  moreover have "\<lparr>gs_bytes = truncated_file, gs_pos = 0\<rparr> = cursor [] truncated_file" by (simp add: cursor_def)
  ultimately show ?thesis by (simp add: open_gguf_def parse_file_def len Let_def)
qed

section \<open>Concrete instances\<close>

definition example_file :: GGUFFile where
  "example_file = \<lparr>gf_version = 3,
     gf_kvs = [(''general.alignment'', VUInt32 16), (''tags'', VStrings [''a'', ''b''])],
     gf_tensors = [\<lparr>gt_name = ''w'', gt_type = 0, gt_shape = [2], gt_offset = 0, gt_n_bytes = 8\<rparr>],
     gf_data = [1, 2, 3, 4, 5, 6, 7, 8]\<rparr>"

lemma example_parts:
  "gf_data example_file = [1, 2, 3, 4, 5, 6, 7, 8]"
  "hd (gf_tensors example_file) = \<lparr>gt_name = ''w'', gt_type = 0, gt_shape = [2], gt_offset = 0, gt_n_bytes = 8\<rparr>"
  by (simp_all add: example_file_def)

lemma example_alignment: "alignment_of (gf_kvs example_file) = 16"
  by (simp add: example_file_def alignment_of_def kvUInt32_def lookup_kv_def)

lemma example_sections: "length (enc_sections example_file) = 136"
  by (simp add: example_file_def enc_sections_def length_header enc_kv_def enc_tensor_def enc_string_def
      enc_array_def enc_u32_def enc_u64_def)

lemma example_encoding: "encode_file example_file = enc_sections example_file @ replicate 8 0 @ [1, 2, 3, 4, 5, 6, 7, 8]"
  by (simp add: encode_file_def pad_of_def example_alignment example_sections padding_def) (simp add: example_file_def)

lemma example_file_ok: "file_ok example_file"
proof -
  have "length (encode_file example_file) < 2 ^ 64" by (simp add: example_encoding example_sections)
  then show ?thesis
    by (simp add: file_ok_def) (simp add: example_file_def kv_ok_def string_ok_def tensor_ok_def desc_ok_def
        dim_ok_def shape_elems_def tensor_bytes_def ggml_type_of_def)
qed

theorem open_roundtrip_witness:
  "\<exists>l. open_gguf ''m'' (Some (encode_file example_file)) = Inr l \<and> gl_kv l = gf_kvs example_file"
  using open_roundtrip [OF example_file_ok, of "''m''"] by auto

theorem open_sound_witness: "loader_ok (encode_file example_file) (opened ''m'' example_file)"
  by (rule GGUFProperties.open_sound [OF open_encoded [OF example_file_ok]])

theorem tensor_data_exact_witness:
  "readTensorData (opened ''m'' example_file) (hd (gf_tensors example_file)) 8 = Some [1, 2, 3, 4, 5, 6, 7, 8]"
proof -
  have "length (encode_file example_file) < 2 ^ 64" using example_file_ok by (simp add: file_ok_def)
  note tensor_data_exact [OF open_encoded [OF example_file_ok] this, of "''m''" "hd (gf_tensors example_file)" 8]
  also have "(let p = unat (gl_data_offset (opened ''m'' example_file)) + unat (gt_offset (hd (gf_tensors example_file)));
      n = unat (gt_n_bytes (hd (gf_tensors example_file))) in
     if 0 < n \<and> gt_n_bytes (hd (gf_tensors example_file)) \<le> 8 \<and> p + n \<le> length (encode_file example_file)
     then Some (take n (drop p (encode_file example_file))) else None) = Some [1, 2, 3, 4, 5, 6, 7, 8]"
    by (simp add: opened_def example_encoding example_sections example_parts)
  finally show ?thesis .
qed

lemma tensor_bytes_exact_instance: "unat (54 :: u64) = exact_bytes GGMLType.Q4_0 (unat (70 :: u64))"
  by (rule tensor_bytes_exact [where ty = 2])
    (simp_all add: ggml_type_of_def tensor_bytes_def blocks_def)

end
