(* ===== verification/KVCache.thy ===== *)
theory KVCache
  imports Prelude
begin

text \<open>
  The key-value cache of the native transformer (\<open>src/hydroxl/HydroXLKVCache.h\<close>,
  \<open>src/hydroxl/HydroXLKVCache.cpp\<close>). A float is its bit pattern, so the zero the buffers are filled
  with is the word 0. Sizes are 64-bit and wrap. A \<open>memcpy\<close> outside its destination is the result
  None. What \<open>assign\<close> leaves behind when memory runs out is an input.
\<close>

section \<open>State and operations\<close>

record KVCache =
  kc_n_layers :: u32
  kc_n_kv_heads :: u32
  kc_max_seq_len :: u32
  kc_head_dim :: u32
  kc_seq_len :: u32
  kc_allocated :: bool
  kc_k :: "u32 list list"
  kc_v :: "u32 list list"

definition kc_empty :: KVCache where
  "kc_empty = \<lparr>kc_n_layers = 0, kc_n_kv_heads = 0, kc_max_seq_len = 0, kc_head_dim = 0,
     kc_seq_len = 0, kc_allocated = False, kc_k = [], kc_v = []\<rparr>"

datatype kv_alloc = Enough | BadAlloc "u32 list list" "u32 list list"

definition per_layer_floats :: "u32 \<Rightarrow> u32 \<Rightarrow> u32 \<Rightarrow> u64" where
  "per_layer_floats n_kv_heads max_seq_len head_dim = ucast n_kv_heads * ucast max_seq_len * ucast head_dim"

definition kv_total_bytes :: "u32 \<Rightarrow> u32 \<Rightarrow> u32 \<Rightarrow> u32 \<Rightarrow> u64" where
  "kv_total_bytes n_layers n_kv_heads max_seq_len head_dim =
     ucast n_layers * 2 * per_layer_floats n_kv_heads max_seq_len head_dim * 4"

definition kv_allocate :: "kv_alloc \<Rightarrow> u32 \<Rightarrow> u32 \<Rightarrow> u32 \<Rightarrow> u32 \<Rightarrow> KVCache \<Rightarrow> bool \<times> KVCache" where
  "kv_allocate outcome n_layers n_kv_heads max_seq_len head_dim c =
     (if n_layers = 0 \<or> n_kv_heads = 0 \<or> max_seq_len = 0 \<or> head_dim = 0 then (False, c)
      else if kv_total_bytes n_layers n_kv_heads max_seq_len head_dim > 4294967296 then (False, c)
      else let
        c = c\<lparr>kc_n_layers := n_layers, kc_n_kv_heads := n_kv_heads, kc_max_seq_len := max_seq_len,
          kc_head_dim := head_dim, kc_seq_len := 0\<rparr>;
        zeros = replicate (unat n_layers)
          (replicate (unat (per_layer_floats n_kv_heads max_seq_len head_dim)) 0)
      in case outcome of
           BadAlloc k v \<Rightarrow> (False, c\<lparr>kc_k := k, kc_v := v, kc_allocated := False\<rparr>)
         | Enough \<Rightarrow> (True, c\<lparr>kc_k := zeros, kc_v := zeros, kc_allocated := True\<rparr>))"

definition memoryBytes :: "KVCache \<Rightarrow> u64" where
  "memoryBytes c = (if \<not> kc_allocated c then 0
     else ucast (2 * kc_n_layers c) *
       per_layer_floats (kc_n_kv_heads c) (kc_max_seq_len c) (kc_head_dim c) * 4)"

definition kv_reset :: "KVCache \<Rightarrow> KVCache" where
  "kv_reset c = c\<lparr>kc_seq_len := 0, kc_k := map (map (\<lambda>_. 0)) (kc_k c), kc_v := map (map (\<lambda>_. 0)) (kc_v c)\<rparr>"

text \<open>\<open>memcpy\<close> of n floats to an offset of the destination.\<close>

definition memcpy_at :: "nat \<Rightarrow> nat \<Rightarrow> u32 list \<Rightarrow> u32 list \<Rightarrow> u32 list option" where
  "memcpy_at off n src dst = (if n \<le> length src \<and> off + n \<le> length dst
     then Some (take off dst @ take n src @ drop (off + n) dst) else None)"

definition copy_len :: "u64 \<Rightarrow> nat" where
  "copy_len vec_len = unat (vec_len * 4) div 4"

text \<open>A null pointer is None.\<close>

definition writeKV ::
    "u32 \<Rightarrow> u32 \<Rightarrow> u32 list option \<Rightarrow> u32 list option \<Rightarrow> KVCache \<Rightarrow> (bool \<times> KVCache) option" where
  "writeKV layer pos k_vec v_vec c =
     (if \<not> kc_allocated c then Some (False, c)
      else if layer \<ge> kc_n_layers c then Some (False, c)
      else if pos \<ge> kc_max_seq_len c then Some (False, c)
      else case (k_vec, v_vec) of (Some kv, Some vv) \<Rightarrow> let
             vec_len = ucast (kc_n_kv_heads c) * ucast (kc_head_dim c) :: u64;
             offset = ucast pos * ucast (kc_n_kv_heads c) * ucast (kc_head_dim c) :: u64;
             k = kc_k c ! unat layer; v = kc_v c ! unat layer
           in if offset + vec_len > of_nat (length k) then Some (False, c)
              else (case (memcpy_at (unat offset) (copy_len vec_len) kv k,
                          memcpy_at (unat offset) (copy_len vec_len) vv v) of
                (Some k', Some v') \<Rightarrow> Some (True, c\<lparr>kc_k := (kc_k c)[unat layer := k'],
                  kc_v := (kc_v c)[unat layer := v']\<rparr>)
              | _ \<Rightarrow> None)
         | _ \<Rightarrow> Some (False, c))"

definition advanceSeq :: "KVCache \<Rightarrow> bool \<times> KVCache" where
  "advanceSeq c = (if \<not> kc_allocated c \<or> kc_seq_len c \<ge> kc_max_seq_len c then (False, c)
     else (True, c\<lparr>kc_seq_len := kc_seq_len c + 1\<rparr>))"

definition kLayer :: "KVCache \<Rightarrow> u32 \<Rightarrow> u32 list option" where
  "kLayer c layer = (if \<not> kc_allocated c \<or> layer \<ge> kc_n_layers c then None
     else Some (kc_k c ! unat layer))"

definition vLayer :: "KVCache \<Rightarrow> u32 \<Rightarrow> u32 list option" where
  "vLayer c layer = (if \<not> kc_allocated c \<or> layer \<ge> kc_n_layers c then None
     else Some (kc_v c ! unat layer))"

section \<open>The cache as two maps\<close>

text \<open>Floats of a vector and of a layer, without wrap-around.\<close>

definition vec_floats :: "KVCache \<Rightarrow> nat" where
  "vec_floats c = unat (kc_n_kv_heads c) * unat (kc_head_dim c)"

definition layer_ok :: "KVCache \<Rightarrow> u32 list list \<Rightarrow> bool" where
  "layer_ok c d \<longleftrightarrow> length d = unat (kc_n_layers c) \<and>
     list_all (\<lambda>x. length x = unat (kc_max_seq_len c) * vec_floats c) d"

definition kv_ok :: "KVCache \<Rightarrow> bool" where
  "kv_ok c \<longleftrightarrow> kc_allocated c \<and> layer_ok c (kc_k c) \<and> layer_ok c (kc_v c) \<and>
     unat (kc_max_seq_len c) * vec_floats c \<le> 2 ^ 32 \<and> kc_seq_len c \<le> kc_max_seq_len c"

definition slot :: "KVCache \<Rightarrow> u32 list list \<Rightarrow> u32 \<times> u32 \<Rightarrow> u32 list" where
  "slot c d = (\<lambda>(l, p). if l < kc_n_layers c \<and> p < kc_max_seq_len c
     then take (vec_floats c) (drop (unat p * vec_floats c) (d ! unat l)) else [])"

text \<open>The specification: a vector per layer and position, and the filled length.\<close>

record kv_spec =
  ks_keys :: "u32 \<times> u32 \<Rightarrow> u32 list"
  ks_values :: "u32 \<times> u32 \<Rightarrow> u32 list"
  ks_len :: nat

definition kv_abs :: "KVCache \<Rightarrow> kv_spec" where
  "kv_abs c = \<lparr>ks_keys = slot c (kc_k c), ks_values = slot c (kc_v c), ks_len = unat (kc_seq_len c)\<rparr>"

datatype kv_op = Write u32 u32 "u32 list" "u32 list" | Advance | Reset

fun kv_step :: "kv_op \<Rightarrow> KVCache \<Rightarrow> KVCache option" where
  "kv_step (Write l p k v) c = map_option snd (writeKV l p (Some k) (Some v) c)"
| "kv_step Advance c = Some (snd (advanceSeq c))"
| "kv_step Reset c = Some (kv_reset c)"

fun kv_run :: "kv_op list \<Rightarrow> KVCache \<Rightarrow> KVCache option" where
  "kv_run [] c = Some c"
| "kv_run (x # xs) c = (case kv_step x c of None \<Rightarrow> None | Some c' \<Rightarrow> kv_run xs c')"

text \<open>The dimensions the specification needs: layers, positions and floats of a vector.\<close>

type_synonym kv_dims = "u32 \<times> u32 \<times> nat"

definition dims_of :: "KVCache \<Rightarrow> kv_dims" where
  "dims_of c = (kc_n_layers c, kc_max_seq_len c, vec_floats c)"

fun spec_step :: "kv_dims \<Rightarrow> kv_op \<Rightarrow> kv_spec \<Rightarrow> kv_spec" where
  "spec_step (nl, mx, w) (Write l p k v) a = (if l < nl \<and> p < mx
     then a\<lparr>ks_keys := (ks_keys a)((l, p) := k), ks_values := (ks_values a)((l, p) := v)\<rparr> else a)"
| "spec_step (nl, mx, w) Advance a = (if ks_len a < unat mx then a\<lparr>ks_len := ks_len a + 1\<rparr> else a)"
| "spec_step (nl, mx, w) Reset a = (let z = (\<lambda>(l, p). if l < nl \<and> p < mx then replicate w 0 else []) in
     \<lparr>ks_keys = z, ks_values = z, ks_len = 0\<rparr>)"

fun op_fits :: "nat \<Rightarrow> kv_op \<Rightarrow> bool" where
  "op_fits w (Write l p k v) = (length k = w \<and> length v = w)"
| "op_fits w _ = True"

section \<open>Writing a slot\<close>

lemma slot_bound: "p < m \<Longrightarrow> p * w + w \<le> m * (w::nat)"
proof -
  assume "p < m"
  then have "Suc p * w \<le> m * w" by (intro mult_le_mono1) simp
  then show ?thesis by simp
qed

lemma slice_update:
  assumes "length dst = m * w" "length src = w" "p < m" "q < m"
  shows "take w (drop (q * w) (take (p * w) dst @ src @ drop (p * w + w) dst)) =
    (if q = p then src else take w (drop (q * w) dst))"
proof -
  have b: "p * w + w \<le> m * w" "q * w + w \<le> m * w" using assms(3,4) by (simp_all add: slot_bound)
  consider "q = p" | "q < p" | "p < q" by linarith
  then show ?thesis
  proof cases
    case 1 then show ?thesis using b assms by simp
  next
    case 2
    then have "q * w + w \<le> p * w" by (rule slot_bound)
    then show ?thesis using 2 b assms by (simp add: take_drop)
  next
    case 3
    then have "p * w + w \<le> q * w" by (rule slot_bound)
    then show ?thesis using 3 b assms by (auto simp: min_def)
  qed
qed

lemma unat32_64 [simp]: "unat (ucast (w :: u32) :: u64) = unat w"
proof -
  have "unat w < 2 ^ LENGTH(32)" by (rule unsigned_less)
  then show ?thesis by (simp add: unsigned_ucast_eq take_bit_nat_eq_self)
qed

lemma unat_mult_exact:
  fixes a b :: "'a::len word"
  shows "unat a * unat b < 2 ^ LENGTH('a) \<Longrightarrow> unat (a * b) = unat a * unat b"
  by (rule unat_mult_lem [THEN iffD1])

lemma write_offsets:
  assumes "unat m * (unat h * unat d) \<le> 2 ^ 32" "p < m"
  shows "unat (ucast (h :: u32) * ucast (d :: u32) :: u64) = unat h * unat d"
    "unat (ucast (p :: u32) * ucast h * ucast d :: u64) = unat p * (unat h * unat d)"
    "copy_len (ucast h * ucast d) = unat h * unat d"
proof -
  have b: "unat p * (unat h * unat d) + unat h * unat d \<le> 2 ^ 32"
    using slot_bound [of "unat p" "unat m" "unat h * unat d"] assms by (simp add: word_less_nat_alt)
  show v: "unat (ucast h * ucast d :: u64) = unat h * unat d"
    using b by (simp add: unat_mult_exact)
  show "unat (ucast p * ucast h * ucast d :: u64) = unat p * (unat h * unat d)"
    using b v by (simp add: unat_mult_exact mult.assoc)
  define q where "q = unat h * unat d"
  have "unat (ucast h * ucast d * 4 :: u64) = unat h * unat d * 4"
    using b unat_mult_exact [of "ucast h * ucast d :: u64" 4] unfolding v q_def [symmetric] by simp
  then show "copy_len (ucast h * ucast d) = unat h * unat d" by (simp add: copy_len_def)
qed

lemma memcpy_slot:
  assumes "length dst = m * w" "length src = w" "p < m"
  shows "memcpy_at (p * w) w src dst = Some (take (p * w) dst @ src @ drop (p * w + w) dst)"
  using assms slot_bound [OF assms(3), of w] by (simp add: memcpy_at_def)

lemma layer_nth: "layer_ok c d \<Longrightarrow> l < kc_n_layers c \<Longrightarrow> length (d ! unat l) = unat (kc_max_seq_len c) * vec_floats c"
  by (simp add: layer_ok_def list_all_length word_less_nat_alt)

lemma layer_update:
  assumes ok: "layer_ok c d" and l: "l < kc_n_layers c" and p: "p < kc_max_seq_len c" and n: "length v = vec_floats c"
  defines "w \<equiv> vec_floats c"
  defines "d' \<equiv> d[unat l := take (unat p * w) (d ! unat l) @ v @ drop (unat p * w + w) (d ! unat l)]"
  shows "layer_ok c d' \<and> slot c d' = (slot c d)((l, p) := v)"
proof
  let ?x = "d ! unat l"
  have ln: "unat l < length d" using ok l by (simp add: layer_ok_def word_less_nat_alt)
  have x: "length ?x = unat (kc_max_seq_len c) * w" using layer_nth [OF ok l] by (simp add: w_def)
  have b: "unat p * w + w \<le> unat (kc_max_seq_len c) * w"
    using p by (simp add: slot_bound word_less_nat_alt)
  have "length (take (unat p * w) ?x @ v @ drop (unat p * w + w) ?x) = unat (kc_max_seq_len c) * w"
    using x b n by (simp add: w_def)
  then show "layer_ok c d'"
    using ok ln by (simp add: layer_ok_def d'_def w_def list_all_length nth_list_update)
  show "slot c d' = (slot c d)((l, p) := v)"
  proof (rule ext, clarify)
    fix l2 p2
    show "slot c d' (l2, p2) = ((slot c d)((l, p) := v)) (l2, p2)"
    proof (cases "l2 < kc_n_layers c \<and> p2 < kc_max_seq_len c \<and> l2 = l")
      case True
      have "take w (drop (unat p2 * w) (take (unat p * w) ?x @ v @ drop (unat p * w + w) ?x)) =
          (if unat p2 = unat p then v else take w (drop (unat p2 * w) ?x))"
        by (rule slice_update [OF x]) (use True p n in \<open>simp_all add: w_def word_less_nat_alt\<close>)
      then show ?thesis using True ln by (simp add: slot_def d'_def w_def word_unat_eq_iff)
    next
      case False
      then show ?thesis using l p ln by (auto simp: slot_def d'_def nth_list_update simp flip: word_unat_eq_iff)
    qed
  qed
qed

lemma writeKV_spec:
  assumes ok: "kv_ok c" and k: "length k = vec_floats c" and v: "length v = vec_floats c"
  shows "\<exists>c'. writeKV l p (Some k) (Some v) c = Some (l < kc_n_layers c \<and> p < kc_max_seq_len c, c') \<and>
    kv_ok c' \<and> dims_of c' = dims_of c \<and> kv_abs c' = spec_step (dims_of c) (Write l p k v) (kv_abs c)"
proof (cases "l < kc_n_layers c \<and> p < kc_max_seq_len c")
  case False
  then show ?thesis using ok by (auto simp: writeKV_def kv_ok_def dims_of_def not_less)
next
  case True
  let ?w = "vec_floats c"
  have o: "unat (ucast (kc_n_kv_heads c) * ucast (kc_head_dim c) :: u64) = ?w"
    "unat (ucast p * ucast (kc_n_kv_heads c) * ucast (kc_head_dim c) :: u64) = unat p * ?w"
    "copy_len (ucast (kc_n_kv_heads c) * ucast (kc_head_dim c)) = ?w"
    using write_offsets [of "kc_max_seq_len c" "kc_n_kv_heads c" "kc_head_dim c" p] ok True
    by (simp_all add: kv_ok_def vec_floats_def)
  have ly: "layer_ok c (kc_k c)" "layer_ok c (kc_v c)" "kc_allocated c"
    and sz: "unat (kc_max_seq_len c) * ?w \<le> 2 ^ 32" using ok by (simp_all add: kv_ok_def)
  have p: "unat p < unat (kc_max_seq_len c)" using True by (simp add: word_less_nat_alt)
  note b = slot_bound [OF p, of ?w]
  have lk: "length (kc_k c ! unat l) = unat (kc_max_seq_len c) * ?w"
    and lv: "length (kc_v c ! unat l) = unat (kc_max_seq_len c) * ?w"
    using layer_nth ly(1,2) True by simp_all
  have "unat (ucast p * ucast (kc_n_kv_heads c) * ucast (kc_head_dim c) +
      ucast (kc_n_kv_heads c) * ucast (kc_head_dim c) :: u64) = unat p * ?w + ?w"
    using b sz by (simp add: unat_add_exact o)
  moreover have "unat (of_nat (length (kc_k c ! unat l)) :: u64) = unat (kc_max_seq_len c) * ?w"
    unfolding lk using sz by (simp add: unat_of_nat del: of_nat_mult)
  ultimately have fits: "\<not> (ucast p * ucast (kc_n_kv_heads c) * ucast (kc_head_dim c) +
      ucast (kc_n_kv_heads c) * ucast (kc_head_dim c) :: u64) > of_nat (length (kc_k c ! unat l))"
    using b by (simp add: word_less_nat_alt)
  let ?k = "take (unat p * ?w) (kc_k c ! unat l) @ k @ drop (unat p * ?w + ?w) (kc_k c ! unat l)"
    and ?v = "take (unat p * ?w) (kc_v c ! unat l) @ v @ drop (unat p * ?w + ?w) (kc_v c ! unat l)"
  let ?c = "c\<lparr>kc_k := (kc_k c)[unat l := ?k], kc_v := (kc_v c)[unat l := ?v]\<rparr>"
  have w: "writeKV l p (Some k) (Some v) c = Some (True, ?c)"
    using True ly(3) fits by (simp add: writeKV_def Let_def o memcpy_slot [OF lk k p] memcpy_slot [OF lv v p] not_le)
  have uk: "layer_ok c ((kc_k c)[unat l := ?k])" "slot c ((kc_k c)[unat l := ?k]) = (slot c (kc_k c))((l, p) := k)"
    and uv: "layer_ok c ((kc_v c)[unat l := ?v])" "slot c ((kc_v c)[unat l := ?v]) = (slot c (kc_v c))((l, p) := v)"
    using layer_update [OF ly(1) _ _ k] layer_update [OF ly(2) _ _ v] True by simp_all
  have same: "layer_ok ?c = layer_ok c" "slot ?c = slot c" "vec_floats ?c = ?w"
    by (simp_all add: layer_ok_def slot_def vec_floats_def fun_eq_iff)
  have "kv_ok ?c" using ok uk uv by (simp add: kv_ok_def same)
  then show ?thesis using True w uk(2) uv(2) by (simp add: kv_abs_def dims_of_def same)
qed

lemma reset_layer:
  assumes "layer_ok c d"
  shows "layer_ok c (map (map (\<lambda>_. 0)) d)"
    "slot c (map (map (\<lambda>_. 0)) d) = (\<lambda>(l, p). if l < kc_n_layers c \<and> p < kc_max_seq_len c
       then replicate (vec_floats c) 0 else [])"
proof -
  show "layer_ok c (map (map (\<lambda>_. 0)) d)" using assms by (simp add: layer_ok_def list_all_length)
  have "take (vec_floats c) (drop (unat p * vec_floats c) (map (\<lambda>_. 0) (d ! unat l))) = replicate (vec_floats c) 0"
    if "l < kc_n_layers c" "p < kc_max_seq_len c" for l p
    using slot_bound [of "unat p" "unat (kc_max_seq_len c)" "vec_floats c"] layer_nth [OF assms that(1)] that(2)
    by (simp add: take_map drop_map map_replicate_const word_less_nat_alt min_def)
  moreover have "unat l < length d" if "l < kc_n_layers c" for l
    using that assms by (simp add: layer_ok_def word_less_nat_alt)
  ultimately show "slot c (map (map (\<lambda>_. 0)) d) = (\<lambda>(l, p). if l < kc_n_layers c \<and> p < kc_max_seq_len c
       then replicate (vec_floats c) 0 else [])"
    by (auto simp: slot_def fun_eq_iff)
qed

lemma kv_reset_spec:
  assumes "kv_ok c"
  shows "kv_ok (kv_reset c) \<and> dims_of (kv_reset c) = dims_of c \<and> kv_abs (kv_reset c) = spec_step (dims_of c) Reset (kv_abs c)"
proof -
  have same: "layer_ok (kv_reset c) = layer_ok c" "slot (kv_reset c) = slot c" "vec_floats (kv_reset c) = vec_floats c"
    by (simp_all add: kv_reset_def layer_ok_def slot_def vec_floats_def fun_eq_iff)
  have ok: "layer_ok c (kc_k c)" "layer_ok c (kc_v c)" using assms by (simp_all add: kv_ok_def)
  have ab: "kv_abs (kv_reset c) = spec_step (dims_of c) Reset (kv_abs c)"
    by (simp add: kv_abs_def same dims_of_def Let_def)
      (simp add: kv_reset_def reset_layer(2) [OF ok(1)] reset_layer(2) [OF ok(2)])
  have "kv_ok (kv_reset c)"
    using assms by (simp add: kv_ok_def same) (simp add: kv_reset_def reset_layer(1) ok)
  then show ?thesis using ab by (simp add: dims_of_def same) (simp add: kv_reset_def)
qed

lemma advance_spec:
  assumes "kv_ok c"
  shows "kv_ok (snd (advanceSeq c)) \<and> dims_of (snd (advanceSeq c)) = dims_of c \<and>
    kv_abs (snd (advanceSeq c)) = spec_step (dims_of c) Advance (kv_abs c)"
proof (cases "kc_seq_len c \<ge> kc_max_seq_len c")
  case True
  then show ?thesis using assms by (simp add: advanceSeq_def kv_abs_def dims_of_def word_le_nat_alt not_less)
next
  case False
  have u: "unat (kc_seq_len c + 1) = Suc (unat (kc_seq_len c))"
    using False by (intro unat_Suc_exact) (auto simp: not_le)
  show ?thesis
    using assms False
    by (simp add: advanceSeq_def kv_ok_def kv_abs_def dims_of_def layer_ok_def slot_def vec_floats_def
        word_less_nat_alt word_le_nat_alt u fun_eq_iff)
qed

lemma kv_step_spec:
  assumes "kv_ok c" "op_fits (vec_floats c) x"
  shows "\<exists>c'. kv_step x c = Some c' \<and> kv_ok c' \<and> dims_of c' = dims_of c \<and> kv_abs c' = spec_step (dims_of c) x (kv_abs c)"
proof (cases x)
  case (Write l p k v)
  then show ?thesis using writeKV_spec [OF assms(1), of k v l p] assms(2) by auto
qed (use kv_reset_spec [OF assms(1)] advance_spec [OF assms(1)] in simp_all)

lemma kv_run_spec:
  "kv_ok c \<Longrightarrow> list_all (op_fits (vec_floats c)) xs \<Longrightarrow>
   \<exists>c'. kv_run xs c = Some c' \<and> kv_ok c' \<and> dims_of c' = dims_of c \<and> kv_abs c' = fold (spec_step (dims_of c)) xs (kv_abs c)"
proof (induction xs arbitrary: c)
  case (Cons x xs)
  obtain c1 where c1: "kv_step x c = Some c1" "kv_ok c1" "dims_of c1 = dims_of c"
      "kv_abs c1 = spec_step (dims_of c) x (kv_abs c)"
    using kv_step_spec [of c x] Cons.prems by auto
  have "vec_floats c1 = vec_floats c" using c1(3) by (simp add: dims_of_def)
  then show ?case using Cons.IH [OF c1(2)] Cons.prems(2) c1 by simp
qed simp

section \<open>Allocation\<close>

definition exact_bytes_needed :: "u32 \<Rightarrow> u32 \<Rightarrow> u32 \<Rightarrow> u32 \<Rightarrow> nat" where
  "exact_bytes_needed nl h m d = unat nl * 2 * (unat h * unat m * unat d) * 4"

lemma kv_allocate_ok:
  assumes a: "kv_allocate Enough nl h m d c = (True, c')" and e: "exact_bytes_needed nl h m d < 2 ^ 64"
  shows "kv_ok c' \<and> dims_of c' = (nl, m, unat h * unat d) \<and> unat (memoryBytes c') = exact_bytes_needed nl h m d \<and>
    exact_bytes_needed nl h m d \<le> 2 ^ 32"
proof -
  define D where "D = unat h * unat m * unat d"
  have nz: "nl \<noteq> 0" "h \<noteq> 0" "m \<noteq> 0" "d \<noteq> 0" and le: "\<not> kv_total_bytes nl h m d > 4294967296"
    and c': "c' = c\<lparr>kc_n_layers := nl, kc_n_kv_heads := h, kc_max_seq_len := m, kc_head_dim := d, kc_seq_len := 0,
      kc_k := replicate (unat nl) (replicate (unat (per_layer_floats h m d)) 0),
      kc_v := replicate (unat nl) (replicate (unat (per_layer_floats h m d)) 0), kc_allocated := True\<rparr>"
    using a by (auto simp: kv_allocate_def Let_def split: if_splits)
  have n1: "1 \<le> unat nl" using nz by (simp add: Suc_le_eq unat_gt_0)
  have ex: "unat nl * 2 * D * 4 < 2 ^ 64" using e by (simp add: exact_bytes_needed_def D_def)
  have mono: "x < b" if "w \<noteq> 0" "x * unat w < b" for x b and w :: u32
  proof -
    have "1 \<le> unat w" using that(1) by (simp add: unat_gt_0 Suc_le_eq)
    then have "x * 1 \<le> x * unat w" by (rule mult_le_mono2)
    then show ?thesis using that(2) by (simp only: mult_1_right)
  qed
  define P where "P = D * unat nl"
  have eq: "unat nl * 2 * D * 4 = 8 * P" "unat nl * 2 * D = 2 * P" "2 * unat nl * D = 2 * P" by (simp_all add: P_def)
  have P: "P < 2 ^ 61" using ex unfolding eq by simp
  have D: "D < 2 ^ 61" by (rule mono [OF nz(1)]) (rule P [unfolded P_def])
  have hm: "unat h * unat m < 2 ^ 61" by (rule mono [OF nz(4)]) (rule D [unfolded D_def])
  then have "unat (ucast h * ucast m :: u64) = unat h * unat m" by (subst unat_mult_exact) simp_all
  then have per: "unat (per_layer_floats h m d) = D"
    unfolding per_layer_floats_def using D by (subst unat_mult_exact) (simp_all add: D_def)
  have n2: "unat (ucast nl * 2 :: u64) = unat nl * 2"
    using unsigned_less [of nl, where 'a = nat] by (subst unat_mult_exact) simp_all
  have t: "unat (ucast nl * 2 * per_layer_floats h m d :: u64) = unat nl * 2 * D"
    using ex by (subst unat_mult_exact) (simp_all add: n2 per)
  have total: "unat (kv_total_bytes nl h m d) = unat nl * 2 * D * 4"
    unfolding kv_total_bytes_def using ex by (subst unat_mult_exact) (simp_all only: t, simp_all)
  have small: "unat nl * 2 * D * 4 \<le> 2 ^ 32" using le by (simp add: word_less_nat_alt total)
  have Dpos: "1 \<le> D" using nz by (simp add: D_def Suc_le_eq unat_gt_0)
  have n3: "unat nl \<le> 2 ^ 29"
    using mult_le_mono1 [OF Dpos, of "unat nl"] small unfolding eq P_def [symmetric] by simp
  have n4: "unat (2 * nl) = 2 * unat nl" using n3 by (subst unat_mult_exact) simp_all
  have "unat (ucast (2 * nl) * per_layer_floats h m d :: u64) = 2 * unat nl * D"
    using P by (subst unat_mult_exact) (simp_all add: n4 per eq)
  then have mem: "unat (ucast (2 * nl) * per_layer_floats h m d * 4 :: u64) = unat nl * 2 * D * 4"
    using small by (subst unat_mult_exact) (simp_all add: mult.assoc mult.commute mult.left_commute)
  have layers: "unat m * (unat h * unat d) \<le> 2 ^ 32"
    using mono [OF nz(1), of D "2 ^ 32 + 1"] small by (simp add: D_def mult.assoc mult.commute mult.left_commute)
  have "kv_ok c'" using layers by (simp add: c' kv_ok_def layer_ok_def vec_floats_def per list_all_length D_def mult.assoc mult.commute mult.left_commute)
  moreover have "dims_of c' = (nl, m, unat h * unat d)" by (simp add: c' dims_of_def vec_floats_def)
  moreover have "unat (memoryBytes c') = unat nl * 2 * D * 4" by (simp add: c' memoryBytes_def mem)
  ultimately show ?thesis using small by (simp add: exact_bytes_needed_def D_def)
qed

section \<open>The contract of the cache\<close>

text \<open>
  C28: The cache implements its specification: once allocated for dimensions whose byte count does not
  exceed 64 bits, no sequence of writes, advances and resets ever copies outside a buffer, and it acts
  on the map from layer and position to vectors exactly as the specification says: a write in range
  changes its own slot and no other, one out of range nothing, the filled length stops at the maximum,
  and a reset zeroes every slot.\<close>

theorem kv_refines:
  assumes "kv_allocate Enough nl h m d c0 = (True, c)" "exact_bytes_needed nl h m d < 2 ^ 64"
    and "list_all (op_fits (unat h * unat d)) xs"
  shows "\<exists>c'. kv_run xs c = Some c' \<and> kc_seq_len c' \<le> m \<and>
    kv_abs c' = fold (spec_step (nl, m, unat h * unat d)) xs (kv_abs c)"
proof -
  have c: "kv_ok c" "dims_of c = (nl, m, unat h * unat d)"
    using kv_allocate_ok [OF assms(1,2)] by simp_all
  obtain c' where c': "kv_run xs c = Some c'" "kv_ok c'" "dims_of c' = dims_of c"
      "kv_abs c' = fold (spec_step (dims_of c)) xs (kv_abs c)"
    using kv_run_spec [OF c(1)] assms(3) c(2) by (auto simp: dims_of_def)
  have "kc_seq_len c' \<le> m" using c'(2,3) c(2) by (simp add: kv_ok_def dims_of_def)
  then show ?thesis using c' c(2) by simp
qed

text \<open>
  The byte count is 64 bits wide and wraps: dimensions far beyond the 4 GB limit pass the check. With
  buffers that are too small, the wrapped bound of \<open>writeKV\<close> lets a copy outside its buffer through.\<close>

lemma kv_limit_wraps:
  "kv_total_bytes 1 1073741824 8 2147483648 = 0 \<and> exact_bytes_needed 1 1073741824 8 2147483648 = 2 ^ 67"
  by (simp add: kv_total_bytes_def per_layer_floats_def exact_bytes_needed_def)

lemma kv_write_escapes:
  "writeKV 0 7 (Some k) (Some v) (snd (kv_allocate Enough 1 1073741824 8 2147483648 kc_empty)) = None"
proof -
  have "per_layer_floats 1073741824 8 2147483648 = 0" by (simp add: per_layer_floats_def)
  then show ?thesis
    by (simp add: kv_allocate_def kv_total_bytes_def writeKV_def memcpy_at_def copy_len_def kc_empty_def Let_def)
qed

section \<open>A concrete run\<close>

definition example_kv :: KVCache where
  "example_kv = snd (kv_allocate Enough 2 1 2 2 kc_empty)"

lemma example_kv_alloc: "kv_allocate Enough 2 1 2 2 kc_empty = (True, example_kv)"
  by (simp add: example_kv_def kv_allocate_def kv_total_bytes_def per_layer_floats_def Let_def)

theorem kv_refines_witness:
  "\<exists>c'. kv_run [Write 1 0 [7, 8] [9, 10], Advance, Write 1 1 [5, 6] [3, 4]] example_kv = Some c' \<and>
     ks_keys (kv_abs c') (1, 0) = [7, 8]"
proof -
  have "exact_bytes_needed 2 1 2 2 < 2 ^ 64" by (simp add: exact_bytes_needed_def)
  from kv_refines [OF example_kv_alloc this, of "[Write 1 0 [7, 8] [9, 10], Advance, Write 1 1 [5, 6] [3, 4]]"]
  show ?thesis by auto
qed

end
