(* ===== verification/PluginLoader.thy ===== *)
theory PluginLoader
  imports Engine
begin

text \<open>
  The plugin loader (\<open>src/plugin/PluginAbis.h\<close>, \<open>src/plugin/PluginLoader.cpp\<close>, POSIX branch). A shared
  library is what it exports, an input, and so is what the operating system answers; a return code
  may differ from call to call. Every \<open>dlopen\<close> that succeeds is a new reference to a module, and the
  loader's calls into modules are recorded in a trace (newest first), so that the protocol towards a
  module is a property of the trace. The lock around each operation makes operations atomic.
\<close>

section \<open>The plugin interface\<close>

datatype agrPluginState =
    PS_DISCOVERED | PS_VALIDATED | PS_LOADED | PS_INITIALIZED | PS_REGISTERED | PS_READY
  | PS_SHUTTING_DOWN | PS_UNLOADED

fun plugin_state_int :: "agrPluginState \<Rightarrow> int" where
  "plugin_state_int PS_DISCOVERED = 0"
| "plugin_state_int PS_VALIDATED = 1"
| "plugin_state_int PS_LOADED = 2"
| "plugin_state_int PS_INITIALIZED = 3"
| "plugin_state_int PS_REGISTERED = 4"
| "plugin_state_int PS_READY = 5"
| "plugin_state_int PS_SHUTTING_DOWN = 6"
| "plugin_state_int PS_UNLOADED = 7"

definition ERROR_NONE :: u32 where "ERROR_NONE = 0"
definition ERROR_INIT_FAILED :: u32 where "ERROR_INIT_FAILED = 1"
definition ERROR_INTERNAL :: u32 where "ERROR_INTERNAL = 7"

definition HOST_ABI :: u32 where "HOST_ABI = 1"

record agrPluginIdentity =
  id_name :: string
  id_version :: string
  id_type :: string
  id_author :: string
  id_registry_key :: string

record agrPluginError =
  pe_code :: u32
  pe_message :: string

record agrPluginDiscoveryResult =
  dr_path :: string
  dr_filename :: string
  dr_identity :: agrPluginIdentity
  dr_load_error :: agrPluginError
  dr_loadable :: bool

definition no_identity :: agrPluginIdentity where
  "no_identity = \<lparr>id_name = [], id_version = [], id_type = [], id_author = [], id_registry_key = []\<rparr>"

text \<open>What a library exports: a missing export is None; the argument is the time of the call.\<close>

record PluginModule =
  pm_abi :: "u32 option"
  pm_identity :: "(nat \<Rightarrow> u32 \<times> agrPluginIdentity) option"
  pm_initialize :: "(nat \<Rightarrow> u32) option"
  pm_execute :: "(nat \<Rightarrow> u32) option"
  pm_shutdown :: bool
  pm_capabilities :: "(nat \<Rightarrow> u32 \<times> u32 \<times> nat) option"

type_synonym module_ref = "nat \<times> PluginModule"

record PluginEnv =
  os_load :: "nat \<Rightarrow> string \<Rightarrow> PluginModule option"
  os_plugin_dir :: "string option"
  os_entries :: "string \<Rightarrow> string list option"

section \<open>State\<close>

datatype event =
    Open nat | Close nat | CallAbi nat u32 | CallIdentity nat | CallCapabilities nat
  | CallInitialize nat u32 | CallExecute nat | CallShutdown nat

record PluginInternalState =
  ps_path :: string
  ps_filename :: string
  ps_module_handle :: "module_ref option"
  ps_abi_version :: u32
  ps_identity :: agrPluginIdentity
  ps_capabilities :: u32
  ps_capability_count :: nat
  ps_state :: agrPluginState
  ps_last_error_code :: u32
  ps_last_error_message :: string
  ps_initialized :: bool
  ps_loaded :: bool

definition plugin_default :: PluginInternalState where
  "plugin_default = \<lparr>ps_path = [], ps_filename = [], ps_module_handle = None, ps_abi_version = 0,
     ps_identity = no_identity, ps_capabilities = 0, ps_capability_count = 0, ps_state = PS_DISCOVERED,
     ps_last_error_code = ERROR_NONE, ps_last_error_message = [], ps_initialized = False, ps_loaded = False\<rparr>"

record Loader =
  pl_cache :: "(string \<times> PluginInternalState) list"
  pl_next :: nat
  pl_trace :: "event list"

definition loader_init :: Loader where
  "loader_init = \<lparr>pl_cache = [], pl_next = 0, pl_trace = []\<rparr>"

definition emit :: "event \<Rightarrow> Loader \<Rightarrow> Loader" where
  "emit e s = s\<lparr>pl_trace := e # pl_trace s\<rparr>"

definition clock :: "Loader \<Rightarrow> nat" where
  "clock s = length (pl_trace s)"

definition setError :: "u32 \<Rightarrow> string \<Rightarrow> PluginInternalState \<Rightarrow> PluginInternalState" where
  "setError code msg p = p\<lparr>ps_last_error_code := code, ps_last_error_message := msg\<rparr>"

definition copyToField :: "nat \<Rightarrow> string \<Rightarrow> string" where
  "copyToField cap src = take (cap - 1) src"

definition get_plugin_dir :: "PluginEnv \<Rightarrow> string" where
  "get_plugin_dir env = (case os_plugin_dir env of None \<Rightarrow> ''./plugins'' | Some d \<Rightarrow> d)"

section \<open>Modules\<close>

definition load_module :: "PluginEnv \<Rightarrow> string \<Rightarrow> Loader \<Rightarrow> module_ref option \<times> Loader" where
  "load_module env path s = (case os_load env (clock s) path of
     None \<Rightarrow> (None, s)
   | Some m \<Rightarrow> (Some (pl_next s, m), emit (Open (pl_next s)) (s\<lparr>pl_next := pl_next s + 1\<rparr>)))"

definition free_module :: "module_ref \<Rightarrow> Loader \<Rightarrow> Loader" where
  "free_module h s = emit (Close (fst h)) s"

definition query_capabilities :: "module_ref \<Rightarrow> PluginInternalState \<Rightarrow> Loader \<Rightarrow> PluginInternalState \<times> Loader" where
  "query_capabilities h p s = (case pm_capabilities (snd h) of
     None \<Rightarrow> (p, s)
   | Some f \<Rightarrow> (case f (clock s) of (rc, caps, cnt) \<Rightarrow>
       (if rc = ERROR_NONE then p\<lparr>ps_capabilities := caps, ps_capability_count := cnt\<rparr> else p,
        emit (CallCapabilities (fst h)) s)))"

definition validate_module :: "module_ref \<Rightarrow> PluginInternalState \<Rightarrow> Loader \<Rightarrow> bool \<times> PluginInternalState \<times> Loader" where
  "validate_module h p s = (case pm_abi (snd h) of
     None \<Rightarrow> (False, setError ERROR_INIT_FAILED
       ''plugin does not export pluginGetAbiVersion (pre-ABI-v1 plugin)'' p, s)
   | Some abi \<Rightarrow> let
       s = emit (CallAbi (fst h) abi) s;
       p = p\<lparr>ps_abi_version := abi\<rparr>
     in if abi \<noteq> HOST_ABI then (False, setError ERROR_INIT_FAILED
            (''ABI version mismatch: plugin='' @ word_str abi @ '' host='' @ word_str HOST_ABI) p, s)
        else (case (pm_identity (snd h), pm_initialize (snd h), pm_execute (snd h), pm_shutdown (snd h)) of
          (Some get_identity, Some ini, Some ex, True) \<Rightarrow> (case get_identity (clock s) of (rc, ident) \<Rightarrow>
            let s = emit (CallIdentity (fst h)) s in
            if rc \<noteq> ERROR_NONE then (False, setError rc ''pluginGetIdentity failed'' p, s)
            else (case query_capabilities h (p\<lparr>ps_identity := ident\<rparr>) s of (p, s) \<Rightarrow>
              (True, setError ERROR_NONE ''OK'' p, s)))
        | _ \<Rightarrow> (False, setError ERROR_INIT_FAILED
            ''missing required exports (pluginGetIdentity, pluginInitialize, pluginExecute, pluginShutdown)'' p, s)))"

section \<open>Discovery\<close>

definition is_plugin :: "string \<Rightarrow> bool" where
  "is_plugin f \<longleftrightarrow> length f > 3 \<and> drop (length f - 3) f = ''.so''"

definition truncated_identity :: "agrPluginIdentity \<Rightarrow> agrPluginIdentity" where
  "truncated_identity i = \<lparr>id_name = copyToField 64 (id_name i), id_version = copyToField 32 (id_version i),
     id_type = copyToField 32 (id_type i), id_author = copyToField 64 (id_author i),
     id_registry_key = copyToField 64 (id_registry_key i)\<rparr>"

definition probe_module :: "PluginEnv \<Rightarrow> string \<Rightarrow> string \<Rightarrow> Loader \<Rightarrow> agrPluginDiscoveryResult \<times> Loader" where
  "probe_module env full_path filename s = (let
     result = \<lparr>dr_path = copyToField 512 full_path, dr_filename = copyToField 256 filename,
       dr_identity = no_identity, dr_load_error = \<lparr>pe_code = ERROR_INTERNAL, pe_message = ''unknown''\<rparr>,
       dr_loadable = False\<rparr>;
     probe = plugin_default\<lparr>ps_path := full_path, ps_filename := filename\<rparr>
   in case load_module env full_path s of
     (None, s) \<Rightarrow> (result\<lparr>dr_load_error := \<lparr>pe_code = ERROR_INIT_FAILED, pe_message = copyToField 256
       ''dlopen/LoadLibrary failed (not a valid shared library or dependency missing)''\<rparr>\<rparr>, s)
   | (Some h, s) \<Rightarrow> (case validate_module h probe s of (ok, probe, s) \<Rightarrow>
       (if ok then result\<lparr>dr_loadable := True, dr_load_error := \<lparr>pe_code = ERROR_NONE, pe_message = ''OK''\<rparr>,
          dr_identity := truncated_identity (ps_identity probe)\<rparr>
        else result\<lparr>dr_load_error := \<lparr>pe_code = ps_last_error_code probe,
          pe_message = copyToField 256 (ps_last_error_message probe)\<rparr>\<rparr>,
        free_module h s)))"

definition remember :: "string \<Rightarrow> string \<Rightarrow> agrPluginError \<Rightarrow> Loader \<Rightarrow> Loader" where
  "remember full_path filename e s = (case map_of (pl_cache s) full_path of
     None \<Rightarrow> s\<lparr>pl_cache := AList.update full_path (setError (pe_code e) (pe_message e)
       (plugin_default\<lparr>ps_path := full_path, ps_filename := filename, ps_state := PS_DISCOVERED\<rparr>)) (pl_cache s)\<rparr>
   | Some p \<Rightarrow> if \<not> ps_loaded p then
       s\<lparr>pl_cache := AList.update full_path (setError (pe_code e) (pe_message e) p) (pl_cache s)\<rparr> else s)"

fun discover_files :: "PluginEnv \<Rightarrow> string \<Rightarrow> string list \<Rightarrow> Loader \<Rightarrow> agrPluginDiscoveryResult list \<times> Loader" where
  "discover_files env dir [] s = ([], s)"
| "discover_files env dir (f # fs) s = (if \<not> is_plugin f then discover_files env dir fs s
     else let full_path = dir @ ''/'' @ f in
       case probe_module env full_path f s of (r, s) \<Rightarrow>
         (case discover_files env dir fs (remember full_path f (dr_load_error r) s) of (rs, s) \<Rightarrow> (r # rs, s)))"

definition plugin_discover :: "PluginEnv \<Rightarrow> Loader \<Rightarrow> agrPluginDiscoveryResult list \<times> Loader" where
  "plugin_discover env s = (let dir = get_plugin_dir env in
     case os_entries env dir of None \<Rightarrow> ([], s) | Some files \<Rightarrow> discover_files env dir files s)"

section \<open>Lifecycle\<close>

definition basename :: "string \<Rightarrow> string" where
  "basename path = rev (takeWhile (\<lambda>c. c \<noteq> CHR ''/'' \<and> c \<noteq> char_of (92::nat)) (rev path))"

definition put_plugin :: "string \<Rightarrow> PluginInternalState \<Rightarrow> Loader \<Rightarrow> Loader" where
  "put_plugin path p s = s\<lparr>pl_cache := AList.update path p (pl_cache s)\<rparr>"

text \<open>Return values of the interface are signed; a negative code is printed with its sign.\<close>

definition int_of_code :: "u32 \<Rightarrow> int" where
  "int_of_code w = sint w"

definition code_str :: "u32 \<Rightarrow> string" where
  "code_str w = (if sint w < 0 then ''-'' @ digits_of (nat (- sint w)) else digits_of (nat (sint w)))"

definition failed_load :: "PluginInternalState \<Rightarrow> PluginInternalState" where
  "failed_load p = p\<lparr>ps_module_handle := None, ps_state := PS_UNLOADED\<rparr>"

definition initialize_plugin :: "module_ref \<Rightarrow> PluginInternalState \<Rightarrow> Loader \<Rightarrow> PluginInternalState \<times> Loader" where
  "initialize_plugin h p s = (case pm_initialize (snd h) of
     None \<Rightarrow> (p, s)
   | Some ini \<Rightarrow> let rc = ini (clock s) in
       (if rc = ERROR_NONE then
          setError ERROR_NONE ''OK'' (p\<lparr>ps_initialized := True, ps_state := PS_INITIALIZED\<rparr>)
        else setError rc (''pluginInitialize failed with code '' @ code_str rc)
          (p\<lparr>ps_initialized := False, ps_state := PS_LOADED\<rparr>),
        emit (CallInitialize (fst h) rc) s))"

definition plugin_load :: "PluginEnv \<Rightarrow> string \<Rightarrow> Loader \<Rightarrow> int \<times> Loader" where
  "plugin_load env path s = (let
     old = (case map_of (pl_cache s) path of None \<Rightarrow> plugin_default | Some p \<Rightarrow> p)
   in if ps_loaded old then (plugin_state_int (ps_state old), s)
      else let p = old\<lparr>ps_path := path, ps_filename := basename path\<rparr> in
        (case load_module env path s of
          (None, s) \<Rightarrow> (- 1, put_plugin path (setError ERROR_INIT_FAILED (''Failed to load module: '' @ path)
            (failed_load p)) s)
        | (Some h, s) \<Rightarrow> (case validate_module h p s of
            (False, p, s) \<Rightarrow> (- 1, put_plugin path (failed_load p) (free_module h s))
          | (True, p, s) \<Rightarrow>
              (case initialize_plugin h (p\<lparr>ps_module_handle := Some h, ps_state := PS_LOADED, ps_loaded := True\<rparr>) s of
                (p, s) \<Rightarrow> (plugin_state_int (ps_state p), put_plugin path p s)))))"

definition plugin_execute :: "string \<Rightarrow> Loader \<Rightarrow> int \<times> Loader" where
  "plugin_execute path s = (case map_of (pl_cache s) path of
     None \<Rightarrow> (- 1, s)
   | Some p \<Rightarrow> if \<not> ps_loaded p then (- 1, s)
       else (case ps_module_handle p of
         None \<Rightarrow> (- 1, put_plugin path (setError ERROR_INIT_FAILED ''pluginExecute export disappeared'' p) s)
       | Some h \<Rightarrow> (case pm_execute (snd h) of
           None \<Rightarrow> (- 1, put_plugin path (setError ERROR_INIT_FAILED ''pluginExecute export disappeared'' p) s)
         | Some ex \<Rightarrow> let rc = ex (clock s); s = emit (CallExecute (fst h)) s in
             (int_of_code rc, if rc \<noteq> ERROR_NONE
               then put_plugin path (setError rc (''pluginExecute failed with code '' @ word_str rc) p) s else s))))"

definition shutdown_plugin :: "PluginInternalState \<Rightarrow> Loader \<Rightarrow> PluginInternalState \<times> Loader" where
  "shutdown_plugin p s = (case ps_module_handle p of
     Some h \<Rightarrow> if ps_initialized p then (p\<lparr>ps_initialized := False\<rparr>,
         if pm_shutdown (snd h) then emit (CallShutdown (fst h)) s else s) else (p, s)
   | None \<Rightarrow> (p, s))"

definition plugin_unload :: "string \<Rightarrow> Loader \<Rightarrow> Loader" where
  "plugin_unload path s = (case map_of (pl_cache s) path of
     None \<Rightarrow> s
   | Some p \<Rightarrow> if \<not> ps_loaded p \<and> ps_module_handle p = None
       then put_plugin path (p\<lparr>ps_state := PS_UNLOADED\<rparr>) s
       else (case shutdown_plugin p s of (p, s) \<Rightarrow>
         put_plugin path (p\<lparr>ps_module_handle := None, ps_loaded := False, ps_state := PS_UNLOADED\<rparr>)
           (case ps_module_handle p of Some h \<Rightarrow> free_module h s | None \<Rightarrow> s)))"

section \<open>Queries\<close>

definition plugin_get_state :: "string \<Rightarrow> Loader \<Rightarrow> agrPluginState" where
  "plugin_get_state path s = (case map_of (pl_cache s) path of None \<Rightarrow> PS_DISCOVERED | Some p \<Rightarrow> ps_state p)"

definition plugin_get_error :: "string \<Rightarrow> Loader \<Rightarrow> agrPluginError" where
  "plugin_get_error path s = (case map_of (pl_cache s) path of
     None \<Rightarrow> \<lparr>pe_code = ERROR_INTERNAL, pe_message = copyToField 256 (''Plugin not loaded: '' @ path)\<rparr>
   | Some p \<Rightarrow> \<lparr>pe_code = ps_last_error_code p, pe_message = copyToField 256 (ps_last_error_message p)\<rparr>)"

definition plugin_get_identity :: "string \<Rightarrow> Loader \<Rightarrow> agrPluginIdentity option" where
  "plugin_get_identity path s = (case map_of (pl_cache s) path of
     None \<Rightarrow> None
   | Some p \<Rightarrow> if ps_loaded p then Some (truncated_identity (ps_identity p)) else None)"

definition plugin_list_loaded :: "Loader \<Rightarrow> string list" where
  "plugin_list_loaded s = map fst (filter (\<lambda>(path, p). ps_loaded p) (pl_cache s))"

end
