(* ===== verification/PluginProtocol.thy ===== *)
theory PluginProtocol
  imports PluginLoader
begin

text \<open>
  The protocol between the loader and the modules. A module reference goes through phases; the trace
  of every run replays through them without a violation, and the references that are not closed are
  those of the loaded plugins. The invariant may leave one reference in the hands of the running
  operation; its lemmas say how opening, calling, adopting, dropping and closing it keep the rest.
\<close>

section \<open>Phases of a module reference\<close>

datatype phase = Fresh | Opened | Checked | Ready | Rejected | Closed

fun ref_of :: "event \<Rightarrow> nat" where
  "ref_of (Open r) = r"
| "ref_of (Close r) = r"
| "ref_of (CallAbi r v) = r"
| "ref_of (CallIdentity r) = r"
| "ref_of (CallCapabilities r) = r"
| "ref_of (CallInitialize r rc) = r"
| "ref_of (CallExecute r) = r"
| "ref_of (CallShutdown r) = r"

text \<open>Nothing is called before the interface version is checked, nothing after closing; an initialized
  module is shut down before it is closed.\<close>

fun phase_step :: "event \<Rightarrow> phase \<Rightarrow> phase option" where
  "phase_step (Open r) q = (if q = Fresh then Some Opened else None)"
| "phase_step (CallAbi r v) q = (if q = Opened then Some (if v = HOST_ABI then Checked else Rejected) else None)"
| "phase_step (CallIdentity r) q = (if q = Checked then Some Checked else None)"
| "phase_step (CallCapabilities r) q = (if q = Checked then Some Checked else None)"
| "phase_step (CallInitialize r rc) q = (if q = Checked then Some (if rc = ERROR_NONE then Ready else Checked) else None)"
| "phase_step (CallExecute r) q = (if q = Checked \<or> q = Ready then Some q else None)"
| "phase_step (CallShutdown r) q = (if q = Ready then Some Checked else None)"
| "phase_step (Close r) q = (if q = Opened \<or> q = Checked \<or> q = Rejected then Some Closed else None)"

fun replay :: "event list \<Rightarrow> (nat \<Rightarrow> phase) option" where
  "replay [] = Some (\<lambda>_. Fresh)"
| "replay (e # es) = (case replay es of None \<Rightarrow> None | Some ph \<Rightarrow>
     (case phase_step e (ph (ref_of e)) of None \<Rightarrow> None | Some q \<Rightarrow> Some (ph(ref_of e := q))))"

section \<open>The invariant\<close>

definition look :: "Loader \<Rightarrow> string \<Rightarrow> PluginInternalState option" where
  "look s path = map_of (pl_cache s) path"

definition holds :: "Loader \<Rightarrow> string \<Rightarrow> nat \<Rightarrow> bool" where
  "holds s path r \<longleftrightarrow> (\<exists>p m. look s path = Some p \<and> ps_module_handle p = Some (r, m))"

definition complete_module :: "PluginModule \<Rightarrow> bool" where
  "complete_module m \<longleftrightarrow> pm_abi m = Some HOST_ABI \<and> pm_identity m \<noteq> None \<and> pm_initialize m \<noteq> None \<and>
     pm_execute m \<noteq> None \<and> pm_shutdown m"

definition entry_ok :: "PluginInternalState \<Rightarrow> bool" where
  "entry_ok p \<longleftrightarrow> (ps_loaded p \<longleftrightarrow> ps_module_handle p \<noteq> None) \<and>
     (\<forall>h. ps_module_handle p = Some h \<longrightarrow> complete_module (snd h)) \<and>
     (ps_initialized p \<longrightarrow> ps_loaded p) \<and>
     ps_state p \<in> (if ps_initialized p then {PS_INITIALIZED} else if ps_loaded p then {PS_LOADED}
       else {PS_DISCOVERED, PS_UNLOADED})"

definition entry_phase :: "PluginInternalState \<Rightarrow> phase" where
  "entry_phase p = (if ps_initialized p then Ready else Checked)"

definition refs_ok :: "(nat \<times> phase) option \<Rightarrow> Loader \<Rightarrow> (nat \<Rightarrow> phase) \<Rightarrow> bool" where
  "refs_ok X s ph \<longleftrightarrow> (\<forall>r. pl_next s \<le> r \<longrightarrow> ph r = Fresh) \<and>
     (\<forall>r q. X = Some (r, q) \<longrightarrow> r < pl_next s \<and> ph r = q \<and> (\<forall>path. \<not> holds s path r)) \<and>
     (\<forall>path p r m. look s path = Some p \<longrightarrow> ps_module_handle p = Some (r, m) \<longrightarrow> r < pl_next s \<and> ph r = entry_phase p) \<and>
     (\<forall>r. r < pl_next s \<longrightarrow> (\<forall>q. X \<noteq> Some (r, q)) \<longrightarrow> (\<forall>path. \<not> holds s path r) \<longrightarrow> ph r = Closed)"

definition cache_ok :: "Loader \<Rightarrow> bool" where
  "cache_ok s \<longleftrightarrow> (\<forall>path p. look s path = Some p \<longrightarrow> entry_ok p) \<and>
     (\<forall>p1 p2 r. holds s p1 r \<longrightarrow> holds s p2 r \<longrightarrow> p1 = p2)"

definition linv :: "(nat \<times> phase) option \<Rightarrow> Loader \<Rightarrow> bool" where
  "linv X s \<longleftrightarrow> cache_ok s \<and> (\<exists>ph. replay (pl_trace s) = Some ph \<and> refs_ok X s ph)"

lemma look_put [simp]: "look (put_plugin path p s) = (look s)(path \<mapsto> p)"
  by (simp add: look_def put_plugin_def map_of_update fun_eq_iff)

lemma look_emit [simp]: "look (emit e s) = look s" "pl_next (emit e s) = pl_next s" "pl_trace (emit e s) = e # pl_trace s"
  by (simp_all add: look_def emit_def fun_eq_iff)

lemma look_next [simp]: "look (s\<lparr>pl_next := n\<rparr>) = look s"
  by (simp add: look_def fun_eq_iff)

lemma holds_next [simp]: "holds (s\<lparr>pl_next := n\<rparr>) = holds s"
  by (simp add: holds_def fun_eq_iff)

lemma put_fields [simp]: "pl_next (put_plugin path p s) = pl_next s" "pl_trace (put_plugin path p s) = pl_trace s"
  by (simp_all add: put_plugin_def)

lemma holds_emit [simp]: "holds (emit e s) = holds s"
  by (simp add: holds_def fun_eq_iff)

lemma cache_ok_emit [simp]: "cache_ok (emit e s) = cache_ok s"
  by (simp add: cache_ok_def)

lemma holds_put: "holds (put_plugin path p s) q r \<longleftrightarrow>
    (if q = path then (\<exists>m. ps_module_handle p = Some (r, m)) else holds s q r)"
  by (simp add: holds_def)

lemma held_bound: "refs_ok X s ph \<Longrightarrow> holds s path r \<Longrightarrow> r < pl_next s"
  unfolding refs_ok_def holds_def by blast

lemma linv_init: "linv None loader_init"
  by (simp add: linv_def cache_ok_def refs_ok_def loader_init_def look_def holds_def)

text \<open>The reference in hand: opening it, calling it, closing it.\<close>

lemma linv_open:
  assumes "linv None s" "load_module env path s = (Some h, s')"
  shows "linv (Some (fst h, Opened)) s' \<and> look s' = look s"
proof -
  let ?r = "pl_next s"
  have s': "s' = emit (Open ?r) (s\<lparr>pl_next := ?r + 1\<rparr>)" "fst h = ?r"
    using assms(2) by (auto simp: load_module_def split: option.splits)
  obtain ph where ph: "replay (pl_trace s) = Some ph" "refs_ok None s ph" and c: "cache_ok s"
    using assms(1) by (auto simp: linv_def)
  have "\<not> holds s path2 ?r" for path2 using held_bound [OF ph(2)] by blast
  then have nh: "look s path2 = Some p \<Longrightarrow> ps_module_handle p = Some (?r, m) \<Longrightarrow> False" for path2 p m
    unfolding holds_def by blast
  with \<open>\<And>path2. \<not> holds s path2 ?r\<close> have "refs_ok (Some (?r, Opened)) s' (ph(?r := Opened))"
    using ph(2) by (auto simp: refs_ok_def s' less_Suc_eq dest: nh)
  moreover have "replay (pl_trace s') = Some (ph(?r := Opened))"
    using ph by (simp add: s' refs_ok_def)
  moreover have "cache_ok s'" using c by (simp add: s' cache_ok_def)
  ultimately show ?thesis by (simp add: linv_def s')
qed

lemma linv_call:
  assumes "linv (Some (r, q)) s" "ref_of e = r" "phase_step e q = Some q'"
  shows "linv (Some (r, q')) (emit e s)"
proof -
  obtain ph where ph: "replay (pl_trace s) = Some ph" "refs_ok (Some (r, q)) s ph" and c: "cache_ok s"
    using assms(1) by (auto simp: linv_def)
  have "refs_ok (Some (r, q')) (emit e s) (ph(r := q'))"
    using ph(2) unfolding refs_ok_def by (auto simp: holds_def)
  moreover have "ph r = q" using ph(2) by (simp add: refs_ok_def)
  ultimately show ?thesis using ph(1) c assms(2,3) by (simp add: linv_def)
qed

lemma linv_close:
  assumes "linv (Some (fst h, q)) s" "q \<in> {Opened, Checked, Rejected}"
  shows "linv None (free_module h s)"
proof -
  have "linv (Some (fst h, Closed)) (free_module h s)"
    unfolding free_module_def by (rule linv_call [OF assms(1)]) (use assms(2) in auto)
  then show ?thesis unfolding linv_def refs_ok_def by auto
qed

text \<open>A loaded plugin may be called as long as its phase stays.\<close>

lemma linv_call_held:
  assumes "linv X s" "look s path = Some p" "ps_module_handle p = Some h" "ref_of e = fst h"
    and "phase_step e (entry_phase p) = Some (entry_phase p)"
  shows "linv X (emit e s)"
proof -
  obtain ph where ph: "replay (pl_trace s) = Some ph" "refs_ok X s ph" and c: "cache_ok s"
    using assms(1) by (auto simp: linv_def)
  have "ph (fst h) = entry_phase p" using ph(2) assms(2,3) unfolding refs_ok_def by (metis prod.collapse)
  then have "replay (pl_trace (emit e s)) = Some ph" using ph(1) assms(4,5) by (simp add: fun_upd_idem)
  moreover have "refs_ok X (emit e s) ph" using ph(2) by (simp add: refs_ok_def)
  ultimately show ?thesis using c by (simp add: linv_def)
qed

text \<open>Changes of the cache: an update that keeps the module, one without a module, handing the
  reference over to an entry, and taking it back.\<close>

lemma linv_put:
  assumes "linv X s" "entry_ok p"
    and "\<And>r m. ps_module_handle p = Some (r, m) \<Longrightarrow> (\<forall>p2. p2 \<noteq> path \<longrightarrow> \<not> holds s p2 r)"
    and "\<And>ph. refs_ok X s ph \<Longrightarrow> refs_ok Y (put_plugin path p s) ph"
  shows "linv Y (put_plugin path p s)"
proof -
  obtain ph where ph: "replay (pl_trace s) = Some ph" "refs_ok X s ph" and c: "cache_ok s"
    using assms(1) by (auto simp: linv_def)
  have "cache_ok (put_plugin path p s)"
    using c assms(2,3) unfolding cache_ok_def by (auto simp: holds_put)
  then show ?thesis using ph assms(4) by (simp add: linv_def)
qed

lemma linv_keep:
  assumes "linv X s" "look s path = Some p0" "ps_module_handle p = ps_module_handle p0"
    and "ps_initialized p = ps_initialized p0" "entry_ok p"
  shows "linv X (put_plugin path p s)"
proof (rule linv_put [OF assms(1,5)])
  have same: "holds (put_plugin path p s) = holds s"
    using assms(2,3) by (auto simp: holds_put fun_eq_iff) (simp_all add: holds_def)
  show "refs_ok X (put_plugin path p s) ph" if "refs_ok X s ph" for ph
    using that assms(2-4) unfolding refs_ok_def same by (auto simp: entry_phase_def)
  show "\<forall>p2. p2 \<noteq> path \<longrightarrow> \<not> holds s p2 r" if "ps_module_handle p = Some (r, m)" for r m
  proof -
    have "holds s path r" using that assms(2,3) by (simp add: holds_def)
    moreover have "cache_ok s" using assms(1) by (simp add: linv_def)
    ultimately show ?thesis unfolding cache_ok_def by blast
  qed
qed

lemma linv_put_free:
  assumes "linv X s" "\<And>r. \<not> holds s path r" "ps_module_handle p = None" "entry_ok p"
  shows "linv X (put_plugin path p s)"
proof (rule linv_put [OF assms(1,4)])
  have same: "holds (put_plugin path p s) = holds s"
    using assms(2,3) by (auto simp: holds_put fun_eq_iff)
  show "refs_ok X (put_plugin path p s) ph" if "refs_ok X s ph" for ph
    using that assms(3) unfolding refs_ok_def same by auto
qed (use assms(3) in simp)

lemma linv_adopt:
  assumes "linv (Some (fst h, q)) s" "\<And>r. \<not> holds s path r" "ps_module_handle p = Some h" "entry_phase p = q" "entry_ok p"
  shows "linv None (put_plugin path p s)"
proof (rule linv_put [OF assms(1,5)])
  show "refs_ok None (put_plugin path p s) ph" if "refs_ok (Some (fst h, q)) s ph" for ph
  proof -
    have mine: "holds (put_plugin path p s) path (fst h)" using assms(3) by (cases h) (simp add: holds_put)
    have gone: "r \<noteq> fst h \<and> (\<forall>p2. \<not> holds s p2 r)" if "\<forall>p2. \<not> holds (put_plugin path p s) p2 r" for r
      using that mine assms(2) by (metis holds_put)
    show ?thesis
      using that assms(3,4) unfolding refs_ok_def by (auto split: if_splits dest: gone)
  qed
  show "\<forall>p2. p2 \<noteq> path \<longrightarrow> \<not> holds s p2 r" if "ps_module_handle p = Some (r, m)" for r m
    using assms(1,3) that by (auto simp: linv_def refs_ok_def)
qed

lemma linv_drop:
  assumes "linv None s" "look s path = Some p0" "ps_module_handle p0 = Some h" "ps_module_handle p = None" "entry_ok p"
  shows "linv (Some (fst h, entry_phase p0)) (put_plugin path p s)"
proof (rule linv_put [OF assms(1,5)])
  have own: "holds s path2 (fst h) \<longleftrightarrow> path2 = path" for path2
  proof -
    have "holds s path (fst h)" using assms(2,3) by (cases h) (simp add: holds_def)
    moreover have "cache_ok s" using assms(1) by (simp add: linv_def)
    ultimately show ?thesis unfolding cache_ok_def by blast
  qed
  have only: "holds s path r \<longleftrightarrow> r = fst h" for r using assms(2,3) by (cases h) (auto simp: holds_def)
  show "refs_ok (Some (fst h, entry_phase p0)) (put_plugin path p s) ph" if "refs_ok None s ph" for ph
  proof -
    have gone: "\<forall>p2. \<not> holds s p2 r" if "r \<noteq> fst h" "\<forall>p2. \<not> holds (put_plugin path p s) p2 r" for r
      using that only [of r] by (metis holds_put)
    have bound: "fst h < pl_next s" "ph (fst h) = entry_phase p0"
      using that assms(2,3) unfolding refs_ok_def by (cases h, auto)+
    have free: "\<not> holds (put_plugin path p s) p2 (fst h)" for p2
      using own [of p2] assms(4) by (simp add: holds_put)
    show ?thesis
      using that assms(4) gone bound free unfolding refs_ok_def by (auto split: if_splits)
  qed
qed (use assms(4) in simp)

section \<open>Operations\<close>

lemma query_spec:
  assumes "linv (Some (fst h, Checked)) s" "query_capabilities h p s = (p', s')"
  shows "linv (Some (fst h, Checked)) s' \<and> look s' = look s \<and> ps_module_handle p' = ps_module_handle p \<and>
    ps_loaded p' = ps_loaded p \<and> ps_initialized p' = ps_initialized p \<and> ps_state p' = ps_state p"
  using assms linv_call [OF assms(1), of "CallCapabilities (fst h)" Checked]
  by (auto simp: query_capabilities_def split: option.splits prod.splits if_splits)

lemma setError_fields [simp]:
  "ps_module_handle (setError c m p) = ps_module_handle p" "ps_loaded (setError c m p) = ps_loaded p"
  "ps_initialized (setError c m p) = ps_initialized p" "ps_state (setError c m p) = ps_state p"
  "entry_ok (setError c m p) = entry_ok p"
  by (simp_all add: setError_def entry_ok_def)

lemma validate_spec:
  assumes "linv (Some (fst h, Opened)) s" "validate_module h p s = (ok, p', s')"
  shows "(\<exists>q\<in>{Opened, Checked, Rejected}. linv (Some (fst h, q)) s' \<and> (ok \<longrightarrow> q = Checked)) \<and> look s' = look s \<and>
    (ok \<longrightarrow> complete_module (snd h)) \<and> ps_module_handle p' = ps_module_handle p \<and>
    ps_loaded p' = ps_loaded p \<and> ps_initialized p' = ps_initialized p \<and> ps_state p' = ps_state p"
proof (cases "pm_abi (snd h)")
  case None
  then show ?thesis using assms by (auto simp: validate_module_def)
next
  case (Some abi)
  let ?s = "emit (CallAbi (fst h) abi) s" and ?p = "p\<lparr>ps_abi_version := abi\<rparr>"
  have a: "linv (Some (fst h, if abi = HOST_ABI then Checked else Rejected)) ?s"
    by (rule linv_call [OF assms(1)]) simp_all
  show ?thesis
  proof (cases "abi = HOST_ABI \<and> pm_identity (snd h) \<noteq> None \<and> pm_initialize (snd h) \<noteq> None \<and>
      pm_execute (snd h) \<noteq> None \<and> pm_shutdown (snd h)")
    case False
    then have "ps_module_handle p' = ps_module_handle p \<and> ps_loaded p' = ps_loaded p \<and>
        ps_initialized p' = ps_initialized p \<and> ps_state p' = ps_state p \<and> s' = ?s \<and> \<not> ok"
      using assms(2) Some by (auto simp: validate_module_def Let_def split: if_splits option.splits bool.splits)
    then show ?thesis using a by (auto split: if_splits)
  next
    case True
    then obtain f where f: "pm_identity (snd h) = Some f" by auto
    obtain rc ident where rc: "f (clock ?s) = (rc, ident)" by fastforce
    let ?s2 = "emit (CallIdentity (fst h)) ?s"
    have b: "linv (Some (fst h, Checked)) ?s2"
      by (rule linv_call [OF a]) (use True in simp_all)
    have complete: "complete_module (snd h)" using True Some by (simp add: complete_module_def)
    obtain p3 s3 where q: "query_capabilities h (?p\<lparr>ps_identity := ident\<rparr>) ?s2 = (p3, s3)" by fastforce
    from query_spec [OF b q] have q2: "linv (Some (fst h, Checked)) s3" "look s3 = look s"
      "ps_module_handle p3 = ps_module_handle p" "ps_loaded p3 = ps_loaded p"
      "ps_initialized p3 = ps_initialized p" "ps_state p3 = ps_state p" by simp_all
    have v: "validate_module h p s = (if rc \<noteq> ERROR_NONE then (False, setError rc ''pluginGetIdentity failed'' ?p, ?s2)
        else (True, setError ERROR_NONE ''OK'' p3, s3))"
      using True Some f rc q by (auto simp: validate_module_def Let_def)
    show ?thesis
    proof (cases "rc = ERROR_NONE")
      case True
      then show ?thesis using assms(2) v q2 complete by auto
    next
      case False
      then show ?thesis using assms(2) v b by auto
    qed
  qed
qed

lemma entry_of: "linv X s \<Longrightarrow> look s path = Some p \<Longrightarrow> entry_ok p"
  by (simp add: linv_def cache_ok_def)

lemma unloaded_free: "look s path = None \<or> (\<exists>p. look s path = Some p \<and> ps_module_handle p = None) \<Longrightarrow> \<not> holds s path r"
  by (auto simp: holds_def)

lemma execute_linv: "linv None s \<Longrightarrow> linv None (snd (plugin_execute path s))"
proof -
  assume inv: "linv None s"
  show ?thesis
  proof (cases "look s path")
    case None
    then show ?thesis using inv by (simp add: plugin_execute_def look_def)
  next
    case (Some p)
    note ok = entry_of [OF inv Some]
    show ?thesis
    proof (cases "ps_loaded p")
      case False
      then show ?thesis using Some inv by (simp add: plugin_execute_def look_def)
    next
      case True
      then obtain h where h: "ps_module_handle p = Some h" using ok by (auto simp: entry_ok_def)
      then obtain ex where ex: "pm_execute (snd h) = Some ex"
        using ok by (auto simp: entry_ok_def complete_module_def)
      have c: "linv None (emit (CallExecute (fst h)) s)"
        by (rule linv_call_held [OF inv Some h]) (simp_all add: entry_phase_def)
      have k: "linv None (put_plugin path (setError rc m p) (emit (CallExecute (fst h)) s))" for rc m
        by (rule linv_keep [OF c]) (use Some ok in simp_all)
      show ?thesis
        using Some True h ex c k by (simp add: plugin_execute_def look_def Let_def)
    qed
  qed
qed

lemma unload_linv: "linv None s \<Longrightarrow> linv None (plugin_unload path s)"
proof -
  assume inv: "linv None s"
  show ?thesis
  proof (cases "look s path")
    case None
    then show ?thesis using inv by (simp add: plugin_unload_def look_def)
  next
    case (Some p)
    note ok = entry_of [OF inv Some]
    show ?thesis
    proof (cases "ps_module_handle p")
      case None
      then have "linv None (put_plugin path (p\<lparr>ps_state := PS_UNLOADED\<rparr>) s)"
        by (intro linv_put_free [OF inv] unloaded_free) (use Some ok in \<open>auto simp: entry_ok_def\<close>)
      moreover have "\<not> ps_loaded p" using None ok by (simp add: entry_ok_def)
      ultimately show ?thesis using Some None by (simp add: plugin_unload_def look_def)
    next
      case h: (Some h)
      let ?q = "p\<lparr>ps_initialized := False, ps_module_handle := None, ps_loaded := False, ps_state := PS_UNLOADED\<rparr>"
      have d: "linv (Some (fst h, entry_phase p)) (put_plugin path ?q s)"
        by (rule linv_drop [OF inv Some h]) (simp_all add: entry_ok_def)
      have commute: "put_plugin path q (emit e s') = emit e (put_plugin path q s')" for q e s'
        by (simp add: put_plugin_def emit_def)
      have sd: "pm_shutdown (snd h)" using ok h by (auto simp: entry_ok_def complete_module_def)
      have fin: "linv None (free_module h (if ps_initialized p
          then emit (CallShutdown (fst h)) (put_plugin path ?q s) else put_plugin path ?q s))"
      proof (rule linv_close [where q = Checked])
        show "linv (Some (fst h, Checked)) (if ps_initialized p
          then emit (CallShutdown (fst h)) (put_plugin path ?q s) else put_plugin path ?q s)"
          using d linv_call [OF d, of "CallShutdown (fst h)" Checked] by (simp add: entry_phase_def split: if_splits)
      qed simp
      have pq: "p\<lparr>ps_module_handle := None, ps_loaded := False, ps_state := PS_UNLOADED\<rparr> = ?q" if "\<not> ps_initialized p"
        using that by (cases p) simp
      have "plugin_unload path s = free_module h (if ps_initialized p
          then emit (CallShutdown (fst h)) (put_plugin path ?q s) else put_plugin path ?q s)"
        using Some h sd by (cases "ps_initialized p")
          (simp_all add: plugin_unload_def look_def shutdown_plugin_def free_module_def commute pq)
      then show ?thesis using fin by simp
    qed
  qed
qed

lemma load_linv:
  assumes inv: "linv None s"
  shows "linv None (snd (plugin_load env path s))"
proof -
  define old where "old = (case look s path of None \<Rightarrow> plugin_default | Some p \<Rightarrow> p)"
  show ?thesis
  proof (cases "ps_loaded old")
    case True
    then show ?thesis using inv by (simp add: plugin_load_def old_def look_def Let_def)
  next
    case False
    have ok: "entry_ok old" using entry_of [OF inv, of path]
      by (auto simp: old_def plugin_default_def entry_ok_def split: option.split)
    then have old: "ps_module_handle old = None" "\<not> ps_initialized old" using False by (cases "ps_module_handle old"; auto simp: entry_ok_def)+
    have free: "\<not> holds s path r" for r
      using old(1) by (intro unloaded_free) (auto simp: old_def split: option.splits)
    let ?p = "old\<lparr>ps_path := path, ps_filename := basename path\<rparr>"
    obtain mh s1 where l: "load_module env path s = (mh, s1)" by fastforce
    have ld: "plugin_load env path s = (case mh of
          None \<Rightarrow> (- 1, put_plugin path (setError ERROR_INIT_FAILED (''Failed to load module: '' @ path) (failed_load ?p)) s1)
        | Some h \<Rightarrow> (case validate_module h ?p s1 of
            (False, p, s) \<Rightarrow> (- 1, put_plugin path (failed_load p) (free_module h s))
          | (True, p, s) \<Rightarrow>
              (case initialize_plugin h (p\<lparr>ps_module_handle := Some h, ps_state := PS_LOADED, ps_loaded := True\<rparr>) s of
                (p, s) \<Rightarrow> (plugin_state_int (ps_state p), put_plugin path p s))))"
      using False by (simp add: plugin_load_def old_def [symmetric] look_def [symmetric] Let_def l split: option.split)
    show ?thesis
    proof (cases mh)
      case None
      then have "s1 = s" using l by (auto simp: load_module_def split: option.splits)
      have "linv None (put_plugin path (setError ERROR_INIT_FAILED (''Failed to load module: '' @ path) (failed_load ?p)) s)"
        by (rule linv_put_free [OF inv free]) (use ok False in \<open>simp_all add: failed_load_def entry_ok_def\<close>)
      then show ?thesis using None \<open>s1 = s\<close> by (simp add: ld)
    next
      case (Some h)
      have o: "linv (Some (fst h, Opened)) s1" "look s1 = look s" using linv_open [OF inv] l Some by auto
      obtain ok2 p2 s2 where v: "validate_module h ?p s1 = (ok2, p2, s2)" by (cases "validate_module h ?p s1") auto
      note vs = validate_spec [OF o(1) v]
      then obtain q where q: "q \<in> {Opened, Checked, Rejected}" "linv (Some (fst h, q)) s2" "ok2 \<longrightarrow> q = Checked" by blast
      have p2: "ps_module_handle p2 = None" "\<not> ps_loaded p2" "\<not> ps_initialized p2" and lk: "look s2 = look s"
        using vs old False o(2) by simp_all
      have free2: "\<not> holds s2 path r" for r using free by (simp add: holds_def lk)
      show ?thesis
      proof (cases ok2)
        case False
        have c: "linv None (free_module h s2)" by (rule linv_close [OF q(2,1)])
        have "linv None (put_plugin path (failed_load p2) (free_module h s2))"
          by (rule linv_put_free [OF c]) (use free2 p2 in \<open>simp_all add: free_module_def failed_load_def entry_ok_def\<close>)
        then show ?thesis using Some False v by (simp add: ld)
      next
        case True
        let ?p3 = "p2\<lparr>ps_module_handle := Some h, ps_state := PS_LOADED, ps_loaded := True\<rparr>"
        have full: "complete_module (snd h)" using vs True by simp
        then obtain ini where ini: "pm_initialize (snd h) = Some ini" by (auto simp: complete_module_def)
        define rc where "rc = ini (clock s2)"
        obtain p4 s4 where i4: "initialize_plugin h ?p3 s2 = (p4, s4)" by fastforce
        have s4: "s4 = emit (CallInitialize (fst h) rc) s2" using i4 ini by (auto simp: initialize_plugin_def rc_def Let_def)
        have p4: "entry_ok p4" "ps_module_handle p4 = Some h" "ps_initialized p4 \<longleftrightarrow> rc = ERROR_NONE"
          using i4 ini full p2 by (auto simp: initialize_plugin_def rc_def Let_def entry_ok_def split: if_splits)
        have "linv (Some (fst h, if rc = ERROR_NONE then Ready else Checked)) s4"
          unfolding s4 by (rule linv_call [OF q(2)]) (use q(3) True in simp_all)
        then have "linv None (put_plugin path p4 s4)"
          by (rule linv_adopt) (use p4 free2 in \<open>simp_all add: s4 entry_phase_def\<close>)
        then show ?thesis using Some True v i4 by (simp add: ld)
      qed
    qed
  qed
qed

lemma probe_linv:
  assumes inv: "linv None s" and r: "probe_module env full f s = (r, s')"
  shows "linv None s'"
proof (cases "load_module env full s")
  case (Pair mh s1)
  show ?thesis
  proof (cases mh)
    case None
    then have "s1 = s" using Pair by (auto simp: load_module_def split: option.splits)
    then show ?thesis using r inv Pair None by (simp add: probe_module_def Let_def)
  next
    case (Some h)
    let ?p = "plugin_default\<lparr>ps_path := full, ps_filename := f\<rparr>"
    have o: "linv (Some (fst h, Opened)) s1" using linv_open [OF inv] Pair Some by auto
    obtain ok2 p2 s2 where v: "validate_module h ?p s1 = (ok2, p2, s2)" by (cases "validate_module h ?p s1") auto
    obtain q where q: "q \<in> {Opened, Checked, Rejected}" "linv (Some (fst h, q)) s2"
      using validate_spec [OF o v] by blast
    have "s' = free_module h s2" using r Pair Some v by (simp add: probe_module_def Let_def)
    then show ?thesis using linv_close [OF q(2,1)] by simp
  qed
qed

lemma remember_linv: "linv None s \<Longrightarrow> linv None (remember full f e s)"
proof -
  assume inv: "linv None s"
  show ?thesis
  proof (cases "look s full")
    case None
    let ?p = "setError (pe_code e) (pe_message e) (plugin_default\<lparr>ps_path := full, ps_filename := f, ps_state := PS_DISCOVERED\<rparr>)"
    have "linv None (put_plugin full ?p s)"
      by (rule linv_put_free [OF inv]) (use None in \<open>auto simp: holds_def plugin_default_def entry_ok_def\<close>)
    then show ?thesis using None by (simp add: remember_def look_def put_plugin_def)
  next
    case (Some p)
    have "linv None (put_plugin full (setError (pe_code e) (pe_message e) p) s)"
      by (rule linv_keep [OF inv Some]) (use entry_of [OF inv Some] in simp_all)
    then show ?thesis using Some inv by (simp add: remember_def look_def put_plugin_def)
  qed
qed

lemma discover_files_linv: "linv None s \<Longrightarrow> linv None (snd (discover_files env dir fs s))"
proof (induction fs arbitrary: s)
  case (Cons f fs)
  show ?case
  proof (cases "is_plugin f")
    case True
    obtain r s1 where p: "probe_module env (dir @ ''/'' @ f) f s = (r, s1)" by fastforce
    have "linv None (remember (dir @ ''/'' @ f) f (dr_load_error r) s1)"
      by (rule remember_linv [OF probe_linv [OF Cons.prems p]])
    moreover obtain rs s2 where d: "discover_files env dir fs (remember (dir @ ''/'' @ f) f (dr_load_error r) s1) = (rs, s2)" by fastforce
    ultimately have "linv None s2" using Cons.IH by (metis snd_conv)
    then show ?thesis using True p d by (simp add: Let_def)
  qed (use Cons in simp)
qed simp

lemma discover_linv: "linv None s \<Longrightarrow> linv None (snd (plugin_discover env s))"
  by (simp add: plugin_discover_def Let_def discover_files_linv split: option.split)

section \<open>Runs\<close>

datatype plugin_op = Discover PluginEnv | Load PluginEnv string | Execute string | Unload string

fun plugin_step :: "plugin_op \<Rightarrow> Loader \<Rightarrow> Loader" where
  "plugin_step (Discover env) s = snd (plugin_discover env s)"
| "plugin_step (Load env path) s = snd (plugin_load env path s)"
| "plugin_step (Execute path) s = snd (plugin_execute path s)"
| "plugin_step (Unload path) s = plugin_unload path s"

definition plugin_run :: "plugin_op list \<Rightarrow> Loader" where
  "plugin_run xs = fold plugin_step xs loader_init"

lemma step_linv: "linv None s \<Longrightarrow> linv None (plugin_step x s)"
  by (cases x) (simp_all add: discover_linv load_linv execute_linv unload_linv)

lemma run_linv: "linv None (plugin_run xs)"
proof -
  have "linv None s \<Longrightarrow> linv None (fold plugin_step xs s)" for s
    by (induction xs arbitrary: s) (simp_all add: step_linv)
  then show ?thesis using linv_init by (simp add: plugin_run_def)
qed


lemma run_append: "plugin_run (xs @ [x]) = plugin_step x (plugin_run xs)"
  by (simp add: plugin_run_def)

section \<open>Safety\<close>

text \<open>
  C25: In every run of discoveries, loads, executions and unloads, whatever libraries the operating
  system finds and whatever they answer, the calls into every module reference follow the protocol:
  the interface version is asked first and nothing else is called when it is not the host's, nothing
  is called after closing, initialization precedes shutdown, a module that initialized successfully is
  shut down before it is closed. No reference leaks: one that was opened is closed, or it is the one a
  loaded plugin keeps, in the phase that plugin's record says.\<close>

theorem plugin_protocol:
  "\<exists>ph. replay (pl_trace (plugin_run xs)) = Some ph \<and>
     (\<forall>r. ph r = Fresh \<or> ph r = Closed \<or>
       (\<exists>path p m. look (plugin_run xs) path = Some p \<and> ps_loaded p \<and>
          ps_module_handle p = Some (r, m) \<and> ph r = entry_phase p))"
proof -
  obtain ph where ph: "replay (pl_trace (plugin_run xs)) = Some ph" "refs_ok None (plugin_run xs) ph"
    and c: "cache_ok (plugin_run xs)"
    using run_linv [of xs] by (auto simp: linv_def)
  have "ph r = Fresh \<or> ph r = Closed \<or> (\<exists>path p m. look (plugin_run xs) path = Some p \<and> ps_loaded p \<and>
      ps_module_handle p = Some (r, m) \<and> ph r = entry_phase p)" for r
  proof (cases "\<exists>path. holds (plugin_run xs) path r")
    case True
    then obtain path p m where l: "look (plugin_run xs) path = Some p" "ps_module_handle p = Some (r, m)"
      by (auto simp: holds_def)
    moreover have "ps_loaded p" using c l by (auto simp: cache_ok_def entry_ok_def)
    moreover have "ph r = entry_phase p" using ph(2) l by (auto simp: refs_ok_def)
    ultimately show ?thesis by blast
  next
    case False
    then show ?thesis using ph(2) unfolding refs_ok_def by (metis linorder_not_le option.distinct(1))
  qed
  then show ?thesis using ph(1) by blast
qed

text \<open>
  C39: The record of a plugin is well formed in every reachable state: it holds a module exactly when it
  is loaded, a held module speaks the host's interface version and exports everything the host calls,
  an initialized plugin is loaded, and its state is \<open>INITIALIZED\<close>, \<open>LOADED\<close>, or \<open>DISCOVERED\<close> or
  \<open>UNLOADED\<close>, as these flags say. Two plugins never hold the same reference, so unloading one cannot
  close the module of another.\<close>

theorem plugin_records_typed:
  "(case look (plugin_run xs) path of None \<Rightarrow> True
    | Some p \<Rightarrow> (ps_loaded p \<longleftrightarrow> ps_module_handle p \<noteq> None) \<and>
        (case ps_module_handle p of None \<Rightarrow> True
         | Some h \<Rightarrow> complete_module (snd h) \<and> {path2. holds (plugin_run xs) path2 (fst h)} = {path}) \<and>
        (if ps_initialized p then ps_loaded p \<and> ps_state p = PS_INITIALIZED
         else if ps_loaded p then ps_state p = PS_LOADED
         else ps_state p = PS_DISCOVERED \<or> ps_state p = PS_UNLOADED))"
proof (cases "look (plugin_run xs) path")
  case (Some p)
  have c: "cache_ok (plugin_run xs)" using run_linv [of xs] by (simp add: linv_def)
  then have ok: "entry_ok p" using Some by (simp add: cache_ok_def)
  have "{path2. holds (plugin_run xs) path2 (fst h)} = {path}" if "ps_module_handle p = Some h" for h
  proof -
    have "holds (plugin_run xs) path (fst h)" using Some that by (cases h) (simp add: holds_def)
    then show ?thesis using c unfolding cache_ok_def by blast
  qed
  then show ?thesis using Some ok by (auto simp: entry_ok_def split: option.split)
qed simp

section \<open>Loading\<close>

lemma validate_frame:
  assumes "validate_module h p s = (ok, p', s')"
  shows "look s' = look s" "\<not> ok \<Longrightarrow> ps_last_error_code p' \<noteq> ERROR_NONE"
  using assms
  by (auto simp: validate_module_def query_capabilities_def setError_def Let_def ERROR_INIT_FAILED_def ERROR_NONE_def
      split: option.splits prod.splits if_splits bool.splits)

lemma load_module_look: "load_module env path s = (mh, s') \<Longrightarrow> look s' = look s"
  by (auto simp: load_module_def split: option.splits)

lemma initialize_frame:
  assumes "initialize_plugin h p s = (p', s')" "ps_state p = PS_LOADED" "ps_loaded p"
  shows "look s' = look s" "ps_state p' \<in> {PS_LOADED, PS_INITIALIZED}" "ps_loaded p'"
  using assms by (auto simp: initialize_plugin_def setError_def Let_def split: option.splits if_splits)

lemma look_free [simp]: "look (free_module h s) = look s"
  by (simp add: free_module_def)

lemma load_result_aux:
  assumes inv: "linv None s" and l: "plugin_load env path s = (rc, s')"
  shows "(rc = - 1 \<and> plugin_get_state path s' = PS_UNLOADED \<and> plugin_get_identity path s' = None \<and>
        pe_code (plugin_get_error path s') \<noteq> ERROR_NONE \<or>
      rc = plugin_state_int (plugin_get_state path s') \<and>
        plugin_get_state path s' \<in> {PS_LOADED, PS_INITIALIZED} \<and> plugin_get_identity path s' \<noteq> None) \<and>
    (look s')(path := None) = (look s)(path := None)"
proof -
  define old where "old = (case look s path of None \<Rightarrow> plugin_default | Some p \<Rightarrow> p)"
  have ok: "entry_ok old" using entry_of [OF inv, of path]
    by (auto simp: old_def plugin_default_def entry_ok_def split: option.split)
  note q = plugin_get_state_def plugin_get_identity_def plugin_get_error_def look_def [symmetric]
  show ?thesis
  proof (cases "ps_loaded old")
    case True
    then obtain p where p: "look s path = Some p" "p = old"
      by (auto simp: old_def plugin_default_def split: option.splits)
    then show ?thesis using True ok l
      by (auto simp: plugin_load_def q old_def [symmetric] Let_def entry_ok_def split: if_splits)
  next
    case False
    let ?p = "old\<lparr>ps_path := path, ps_filename := basename path\<rparr>"
    obtain mh s1 where lm: "load_module env path s = (mh, s1)" by fastforce
    note l1 = l [unfolded plugin_load_def look_def [symmetric] old_def [symmetric] Let_def lm]
    show ?thesis
    proof (cases mh)
      case None
      then show ?thesis using l1 False load_module_look [OF lm] old_def
        by (auto simp: q setError_def failed_load_def ERROR_INIT_FAILED_def ERROR_NONE_def)
    next
      case (Some h)
      obtain ok2 p2 s2 where v: "validate_module h ?p s1 = (ok2, p2, s2)" by (cases "validate_module h ?p s1") auto
      note vf = validate_frame [OF v]
      show ?thesis
      proof (cases ok2)
        case False
        have "\<not> ps_loaded p2" using v \<open>\<not> ps_loaded old\<close>
          by (auto simp: validate_module_def query_capabilities_def Let_def split: option.splits prod.splits if_splits bool.splits)
        then show ?thesis using l1 \<open>\<not> ps_loaded old\<close> Some v vf False load_module_look [OF lm] old_def
          by (auto simp: q failed_load_def)
      next
        case True
        obtain p3 s3 where i: "initialize_plugin h (p2\<lparr>ps_module_handle := Some h, ps_state := PS_LOADED, ps_loaded := True\<rparr>) s2 = (p3, s3)"
          by fastforce
        have "look s3 = look s2" "ps_state p3 \<in> {PS_LOADED, PS_INITIALIZED}" "ps_loaded p3"
          using initialize_frame [OF i] by simp_all
        then show ?thesis using l1 \<open>\<not> ps_loaded old\<close> Some v vf True load_module_look [OF lm] i old_def
          by (auto simp: q)
      qed
    qed
  qed
qed

text \<open>
  What loading reports, from any reachable state: either it returns -1, the plugin's state is then
  \<open>UNLOADED\<close>, its identity is not available and an error other than \<open>NONE\<close> is recorded; or it returns
  the number of the state the plugin is in, \<open>LOADED\<close> or \<open>INITIALIZED\<close>, and the identity is available.
  The records of all other plugins are untouched.\<close>

lemma plugin_load_reports:
  "(case plugin_load env path (plugin_run xs) of (rc, s) \<Rightarrow>
      (rc = - 1 \<and> plugin_get_state path s = PS_UNLOADED \<and> plugin_get_identity path s = None \<and>
         pe_code (plugin_get_error path s) \<noteq> ERROR_NONE \<or>
       rc = plugin_state_int (plugin_get_state path s) \<and>
         plugin_get_state path s \<in> {PS_LOADED, PS_INITIALIZED} \<and> plugin_get_identity path s \<noteq> None) \<and>
      (look s)(path := None) = (look (plugin_run xs))(path := None))"
  using load_result_aux [OF run_linv] by (cases "plugin_load env path (plugin_run xs)") simp

text \<open>A loaded plugin whose initialization failed is executed all the same.\<close>

definition stubborn :: PluginModule where
  "stubborn = \<lparr>pm_abi = Some 1, pm_identity = Some (\<lambda>_. (0, no_identity)), pm_initialize = Some (\<lambda>_. 5),
     pm_execute = Some (\<lambda>_. 0), pm_shutdown = True, pm_capabilities = None\<rparr>"

lemma executes_uninitialized:
  "(let env = \<lparr>os_load = \<lambda>_ _. Some stubborn, os_plugin_dir = None, os_entries = \<lambda>_. None\<rparr>;
        s = plugin_run [Load env ''p.so'']
    in plugin_get_state ''p.so'' s = PS_LOADED \<and> fst (plugin_execute ''p.so'' s) = 0 \<and>
       hd (pl_trace (snd (plugin_execute ''p.so'' s))) = CallExecute 0)"
  by (simp add: plugin_run_def stubborn_def plugin_load_def load_module_def validate_module_def loader_init_def
      plugin_default_def emit_def clock_def HOST_ABI_def ERROR_NONE_def query_capabilities_def setError_def
      initialize_plugin_def put_plugin_def plugin_get_state_def plugin_execute_def int_of_code_def Let_def basename_def no_identity_def)

end
