(* ===== verification/Orchestrator.thy ===== *)
theory Orchestrator
  imports Analysis "HOL-Library.AList"
begin

text \<open>
  The engine orchestrator (\<open>src/orchestration\<close>): the hardware registry (\<open>HardwareDetector.cpp\<close>), the
  descriptors of the backends (\<open>BackendCapabilities.h\<close>), the memory estimate
  (\<open>MemoryEstimator.cpp\<close>), the default backends (\<open>OrchestratorInit.cpp\<close>) and the selection and
  creation of engines with their fallbacks (\<open>EngineOrchestrator.cpp\<close>). What the probes of the
  machine answer is an input, with the build flag for CUDA; the code of the POSIX build is modelled.
  A \<open>float\<close> is the rational it denotes, rounded to 24 bits; \<open>std::sort\<close> keeps the order of
  candidates with equal scores, which the standard leaves open: no property depends on it.
\<close>

section \<open>Hardware registry\<close>

datatype DeviceVendor = Unknown | Intel | NVIDIA | AMD | ARM | Apple

definition API_None :: u32 where "API_None = 0"
definition API_CPU :: u32 where "API_CPU = 1"
definition API_Vulkan :: u32 where "API_Vulkan = 2"
definition API_CUDA :: u32 where "API_CUDA = 4"

record DeviceInfo =
  di_name :: string
  di_vendor :: DeviceVendor
  di_api_support :: u32
  di_vram_bytes :: u64
  di_system_ram_bytes :: u64
  di_vulkan_ok :: bool
  di_cuda_ok :: bool
  di_vulkan_queue_count :: int
  di_vulkan_device_name :: string
  di_driver_version :: string

definition device_info_default :: DeviceInfo where
  "device_info_default = \<lparr>di_name = [], di_vendor = DeviceVendor.Unknown, di_api_support = 0, di_vram_bytes = 0,
     di_system_ram_bytes = 0, di_vulkan_ok = False, di_cuda_ok = False, di_vulkan_queue_count = 0,
     di_vulkan_device_name = [], di_driver_version = []\<rparr>"

record HardwareDetector =
  hd_devices :: "DeviceInfo list"
  hd_total_system_ram :: u64
  hd_mock_avail_ram :: u64
  hd_has_vulkan :: bool
  hd_has_cuda :: bool
  hd_detected :: bool
  hd_is_mocked :: bool

definition hd_reset :: "HardwareDetector \<Rightarrow> HardwareDetector" where
  "hd_reset hw = \<lparr>hd_devices = [], hd_total_system_ram = 0, hd_mock_avail_ram = 0, hd_has_vulkan = False,
     hd_has_cuda = False, hd_detected = False, hd_is_mocked = False\<rparr>"

definition set_mock_environment :: "DeviceInfo list \<Rightarrow> u64 \<Rightarrow> bool \<Rightarrow> bool \<Rightarrow> HardwareDetector \<Rightarrow> HardwareDetector" where
  "set_mock_environment ds ram vk cuda hw = \<lparr>hd_devices = ds, hd_total_system_ram = ram, hd_mock_avail_ram = ram,
     hd_has_vulkan = vk, hd_has_cuda = cuda, hd_detected = True, hd_is_mocked = True\<rparr>"

text \<open>What the probes of the machine answer.\<close>

record Machine =
  mc_memory :: MemoryInfo
  mc_cpu :: CPUInfo
  mc_vulkan :: VulkanInfo
  mc_gpus :: "GPUInfo list"
  mc_cuda_enabled :: bool
  mc_cuda :: CUDAInfo

definition tolower :: "char \<Rightarrow> char" where
  "tolower c = (let n = of_char c :: nat in if 65 \<le> n \<and> n \<le> 90 then char_of (n + 32) else c)"

definition detectVendorFromIdOrName :: "u32 \<Rightarrow> string \<Rightarrow> DeviceVendor" where
  "detectVendorFromIdOrName vendor_id name = (
     if vendor_id = 0x8086 then DeviceVendor.Intel
     else if vendor_id = 0x10DE then DeviceVendor.NVIDIA
     else if vendor_id = 0x1002 then DeviceVendor.AMD
     else if vendor_id = 0x13B5 then DeviceVendor.ARM
     else if vendor_id = 0x106B then DeviceVendor.Apple
     else let lower = map tolower name in
       if contains ''intel'' lower then DeviceVendor.Intel
       else if contains ''nvidia'' lower \<or> contains ''geforce'' lower then DeviceVendor.NVIDIA
       else if contains ''amd'' lower \<or> contains ''radeon'' lower then DeviceVendor.AMD
       else if contains ''arm'' lower then DeviceVendor.ARM
       else if contains ''apple'' lower then DeviceVendor.Apple
       else DeviceVendor.Unknown)"

definition detected_cpu :: "u64 \<Rightarrow> CPUInfo \<Rightarrow> DeviceInfo" where
  "detected_cpu ram c = device_info_default\<lparr>
     di_name := (if ci_model_name c = [] then ''Host CPU'' else ci_model_name c),
     di_vendor := detectVendorFromIdOrName 0 (ci_vendor c @ '' '' @ ci_model_name c),
     di_api_support := API_CPU, di_system_ram_bytes := ram, di_driver_version := ''Native OS''\<rparr>"

definition driver_version_str :: "u32 \<Rightarrow> string" where
  "driver_version_str v = word_str (drop_bit 22 v) @ ''.'' @ word_str (and (drop_bit 12 v) 0x3FF) @ ''.'' @
     word_str (and v 0xFFF)"

definition detected_vulkan :: "u64 \<Rightarrow> VulkanDeviceInfo \<Rightarrow> DeviceInfo" where
  "detected_vulkan ram d = device_info_default\<lparr>
     di_name := vd_name d, di_vulkan_device_name := vd_name d,
     di_vendor := detectVendorFromIdOrName (vd_vendor_id d) (vd_name d),
     di_api_support := API_Vulkan, di_vram_bytes := vd_device_local_memory_mb d * 1024 * 1024,
     di_system_ram_bytes := ram, di_vulkan_ok := vd_has_compute_capable_queue d,
     di_vulkan_queue_count := int_of_u32 (sum_list (map vq_queue_count (vd_queue_families d))),
     di_driver_version := driver_version_str (vd_driver_version_raw d)\<rparr>"

definition detected_dxgi :: "u64 \<Rightarrow> GPUInfo \<Rightarrow> DeviceInfo" where
  "detected_dxgi ram g = device_info_default\<lparr>
     di_name := gi_name g, di_vendor := detectVendorFromIdOrName 0 (gi_name g), di_api_support := API_None,
     di_vram_bytes := gi_dedicated_vram_mb g * 1024 * 1024, di_system_ram_bytes := ram,
     di_driver_version := ''DXGI''\<rparr>"

fun mark_cuda :: "string \<Rightarrow> DeviceInfo list \<Rightarrow> DeviceInfo list option" where
  "mark_cuda name [] = None"
| "mark_cuda name (d # ds) = (if contains name (di_name d) \<or> contains (di_name d) name
     then Some (d\<lparr>di_cuda_ok := True, di_api_support := or (di_api_support d) API_CUDA\<rparr> # ds)
     else map_option ((#) d) (mark_cuda name ds))"

definition add_cuda :: "u64 \<Rightarrow> int \<Rightarrow> CUDADeviceInfo \<Rightarrow> DeviceInfo list \<Rightarrow> DeviceInfo list" where
  "add_cuda ram driver c ds = (case mark_cuda (cd_name c) ds of
     Some ds' \<Rightarrow> ds'
   | None \<Rightarrow> ds @ [device_info_default\<lparr>di_name := cd_name c, di_vendor := DeviceVendor.NVIDIA,
       di_api_support := API_CUDA, di_system_ram_bytes := ram, di_cuda_ok := True,
       di_driver_version := (if driver < 0 then ''-'' @ digits_of (nat (- driver)) else digits_of (nat driver))\<rparr>])"

definition hd_detect :: "Machine \<Rightarrow> HardwareDetector \<Rightarrow> HardwareDetector" where
  "hd_detect mc hw = (if hd_is_mocked hw then hw
     else let
       ram = mi_total_physical_mb (mc_memory mc) * 1024 * 1024;
       vk = mc_vulkan mc;
       use_vk = vi_available vk \<and> vi_devices vk \<noteq> [];
       gpus = (if use_vk then map (detected_vulkan ram) (vi_devices vk) else map (detected_dxgi ram) (mc_gpus mc));
       ds = detected_cpu ram (mc_cpu mc) # gpus;
       cuda = mc_cuda_enabled mc \<and> cu_available (mc_cuda mc) \<and> cu_devices (mc_cuda mc) \<noteq> []
     in hw\<lparr>hd_devices := (if cuda then fold (add_cuda ram (cu_driver_version (mc_cuda mc))) (cu_devices (mc_cuda mc)) ds
                         else ds),
           hd_total_system_ram := ram,
           hd_has_vulkan := (use_vk \<and> list_ex vd_has_compute_capable_queue (vi_devices vk)),
           hd_has_cuda := cuda, hd_detected := True\<rparr>)"

definition available_system_ram :: "Machine \<Rightarrow> HardwareDetector \<Rightarrow> u64" where
  "available_system_ram mc hw = (if hd_is_mocked hw then hd_mock_avail_ram hw
     else mi_available_physical_mb (mc_memory mc) * 1024 * 1024)"

definition is_gpu :: "DeviceInfo \<Rightarrow> bool" where
  "is_gpu d \<longleftrightarrow> di_api_support d \<noteq> API_CPU \<and>
     (and (di_api_support d) API_Vulkan \<noteq> 0 \<or> and (di_api_support d) API_CUDA \<noteq> 0 \<or>
      di_vulkan_ok d \<or> di_cuda_ok d \<or> di_vram_bytes d > 0)"

definition best_gpu_step :: "DeviceInfo \<Rightarrow> DeviceInfo option \<Rightarrow> DeviceInfo option" where
  "best_gpu_step d best = (if is_gpu d then
     (case best of None \<Rightarrow> Some d | Some b \<Rightarrow> if di_vram_bytes d > di_vram_bytes b then Some d else Some b)
     else best)"

definition best_gpu :: "HardwareDetector \<Rightarrow> DeviceInfo option" where
  "best_gpu hw = fold best_gpu_step (hd_devices hw) None"

section \<open>Backend descriptors\<close>

definition flt :: "rat \<Rightarrow> rat" where
  "flt = fl 24"

record BackendCapabilities =
  bc_backend_id :: string
  bc_supported_quant_types :: "int list"
  bc_supported_arch :: "string list"
  bc_requires_cuda :: bool
  bc_requires_vulkan :: bool
  bc_min_vram_bytes :: u64
  bc_min_ram_bytes :: u64
  bc_relative_throughput :: rat
  bc_init_cost_ms :: rat
  bc_priority :: int

definition is_available :: "Machine \<Rightarrow> HardwareDetector \<Rightarrow> BackendCapabilities \<Rightarrow> bool" where
  "is_available mc hw b = (
     if bc_requires_cuda b \<and> \<not> hd_has_cuda hw then False
     else if bc_requires_vulkan b \<and> \<not> hd_has_vulkan hw then False
     else if bc_min_vram_bytes b > 0 \<and>
       (case best_gpu hw of None \<Rightarrow> True | Some g \<Rightarrow> di_vram_bytes g < bc_min_vram_bytes b) then False
     else if bc_min_ram_bytes b > 0 \<and> available_system_ram mc hw < bc_min_ram_bytes b then False
     else True)"

definition supports_quant :: "BackendCapabilities \<Rightarrow> int \<Rightarrow> bool" where
  "supports_quant b q \<longleftrightarrow> bc_supported_quant_types b = [] \<or> list_ex (\<lambda>x. x = q) (bc_supported_quant_types b)"

definition supports_arch :: "BackendCapabilities \<Rightarrow> string \<Rightarrow> bool" where
  "supports_arch b arch \<longleftrightarrow> arch = [] \<or> bc_supported_arch b = [] \<or>
     list_ex (\<lambda>a. map tolower a = map tolower arch) (bc_supported_arch b)"

section \<open>Memory estimate\<close>

record ModelMemoryEstimate =
  me_weights_bytes :: u64
  me_kv_cache_bytes :: u64
  me_activations_bytes :: u64
  me_overhead_bytes :: u64
  me_total_estimated :: u64
  me_unified_memory :: bool
  me_notes :: string

definition estimate_default :: ModelMemoryEstimate where
  "estimate_default = \<lparr>me_weights_bytes = 0, me_kv_cache_bytes = 0, me_activations_bytes = 0, me_overhead_bytes = 0,
     me_total_estimated = 0, me_unified_memory = False, me_notes = []\<rparr>"

text \<open>The products inside the parentheses of the code are of 32-bit values and wrap around at 32 bits.\<close>

definition layer_weights :: "u32 \<Rightarrow> u32 \<Rightarrow> u32 \<Rightarrow> u32 \<Rightarrow> u32 \<Rightarrow> u64" where
  "layer_weights n_embd n_heads n_kv_heads head_dim n_ff = (let e = ucast n_embd :: u64; f = ucast n_ff :: u64;
       q = ucast (n_heads * head_dim) :: u64; k = ucast (n_kv_heads * head_dim) :: u64
     in 2 * e + e * q + e * k + e * k + q * e + e * f + e * f + f * e +
        ucast (n_heads * head_dim + 2 * n_kv_heads * head_dim))"

definition estimate_head_dim :: "u32 \<Rightarrow> u32 \<Rightarrow> u32" where
  "estimate_head_dim n_embd n_heads = (let d = n_embd div n_heads in if d = 0 then 64 else d)"

definition unified_gpu :: "HardwareDetector \<Rightarrow> bool" where
  "unified_gpu hw = (case best_gpu hw of None \<Rightarrow> True
     | Some g \<Rightarrow> \<not> ((di_vendor g = DeviceVendor.NVIDIA \<or> di_vendor g = DeviceVendor.AMD) \<and> di_vram_bytes g > 0))"

definition estimate :: "HardwareDetector \<Rightarrow> u32 \<Rightarrow> u32 \<Rightarrow> u32 \<Rightarrow> u32 \<Rightarrow> u32 \<Rightarrow> u32 \<Rightarrow> u32 \<Rightarrow> rat \<Rightarrow> ModelMemoryEstimate" where
  "estimate hw n_layers n_embd n_heads n_kv_heads n_ff vocab_size max_seq_len safety_factor = (
     if n_layers = 0 \<or> n_embd = 0 \<or> n_heads = 0 \<or> n_kv_heads = 0 \<or> vocab_size = 0
     then estimate_default\<lparr>me_notes := ''Invalid parameters: dimensions must be non-zero''\<rparr>
     else let
       head_dim = estimate_head_dim n_embd n_heads;
       seq = (if max_seq_len = 0 then 512 else max_seq_len);
       total_layer_weights = ucast n_layers * layer_weights n_embd n_heads n_kv_heads head_dim n_ff;
       non_layer_weights = ucast vocab_size * ucast n_embd + ucast n_embd + ucast vocab_size * ucast n_embd;
       weights = (total_layer_weights + non_layer_weights) * 4;
       kv = 2 * ucast n_layers * ucast n_kv_heads * ucast head_dim * ucast seq * 4;
       act = (10 * ucast n_embd + 3 * ucast n_ff + ucast seq) * 4;
       safety = (if safety_factor < 1 then 1 else safety_factor);
       base = weights + kv + act;
       overhead = u64_of_dbl (flt (flt (of_int (uint base)) * flt (safety - 1)));
       unified = unified_gpu hw
     in \<lparr>me_weights_bytes = weights, me_kv_cache_bytes = kv, me_activations_bytes = act,
         me_overhead_bytes = overhead, me_total_estimated = base + overhead, me_unified_memory = unified,
         me_notes = ''HydroXL estimate: layers='' @ word_str n_layers @ '', embd='' @ word_str n_embd @
           '', max_seq='' @ word_str seq @ '' -> weights: '' @ word_str (weights div (1024 * 1024)) @ '' MB, '' @
           ''KV: '' @ word_str (kv div (1024 * 1024)) @ '' MB, '' @
           ''total: '' @ word_str ((base + overhead) div (1024 * 1024)) @ '' MB'' @
           (if unified then '' (unified memory GPU/CPU pool)'' else [])\<rparr>)"

definition available_ram_bytes :: u64 where
  "available_ram_bytes = 16 * 1024 * 1024 * 1024"

definition fits_in_memory :: "ModelMemoryEstimate \<Rightarrow> u64 \<Rightarrow> bool \<Rightarrow> bool" where
  "fits_in_memory est avail unified \<longleftrightarrow> avail = 0 \<or>
     me_total_estimated est \<le> (if unified then u64_of_dbl (dbl (dbl_of_u64 avail * dbl (9 / 10))) else avail)"

end
