(* ===== verification/EngineSelection.thy ===== *)
theory EngineSelection
  imports Orchestrator
begin

text \<open>
  Selection and creation of engines (\<open>src/orchestration/EngineOrchestrator.cpp\<close>,
  \<open>OrchestratorInit.cpp\<close>): the registry of backends and factories, the selection with its forced,
  automatic and fallback branches, and the creation of an engine with the fallback to the CPU engine.
  An engine is its \<open>initialize\<close>, which may write to the error string whether it succeeds or not; the
  factories of the two built-in adapters are inputs. The properties say what a selection guarantees
  and that with the fallback allowed an engine is always created when the CPU engine can be.
\<close>

section \<open>State\<close>

record IInferenceEngine =
  ie_backend_id :: string
  ie_initialize :: "string \<Rightarrow> string \<Rightarrow> bool \<times> string"

text \<open>A factory that is empty or returns no engine is None.\<close>

type_synonym EngineFactory = "IInferenceEngine option"

record EngineOrchestrator =
  eo_backends :: "BackendCapabilities list"
  eo_perf_history :: "(string \<times> rat) list"
  eo_rss_history :: "(string \<times> u64) list"
  eo_factories :: "(string \<times> EngineFactory) list"

record SelectionRequest =
  rq_model_path :: string
  rq_model_arch :: string
  rq_quant_type :: int
  rq_model_size_bytes :: u64
  rq_n_ctx :: u64
  rq_prefer_latency :: bool
  rq_allow_cpu_fallback :: bool
  rq_forced_backend :: string
  rq_n_layers :: u32
  rq_n_embd :: u32
  rq_n_heads :: u32
  rq_n_kv_heads :: u32
  rq_n_ff :: u32
  rq_vocab_size :: u32

record SelectionResult =
  sr_selected_backend :: string
  sr_reason :: string
  sr_rejected_backends :: "string list"
  sr_is_fallback :: bool
  sr_used_benchmark_history :: bool
  sr_estimated_memory_bytes :: u64

definition result_default :: SelectionResult where
  "result_default = \<lparr>sr_selected_backend = [], sr_reason = [], sr_rejected_backends = [], sr_is_fallback = False,
     sr_used_benchmark_history = False, sr_estimated_memory_bytes = 0\<rparr>"

definition builtin_factories :: "IInferenceEngine \<Rightarrow> IInferenceEngine \<Rightarrow> (string \<times> EngineFactory) list" where
  "builtin_factories cpu vulkan = [(''hydroxl_cpu'', Some cpu), (''hydroxl_vulkan'', Some vulkan)]"

definition orchestrator_init :: "IInferenceEngine \<Rightarrow> IInferenceEngine \<Rightarrow> EngineOrchestrator" where
  "orchestrator_init cpu vulkan = \<lparr>eo_backends = [], eo_perf_history = [], eo_rss_history = [],
     eo_factories = builtin_factories cpu vulkan\<rparr>"

definition orchestrator_reset :: "IInferenceEngine \<Rightarrow> IInferenceEngine \<Rightarrow> EngineOrchestrator \<Rightarrow> EngineOrchestrator" where
  "orchestrator_reset cpu vulkan o1 = o1\<lparr>eo_backends := [], eo_perf_history := [], eo_rss_history := [],
     eo_factories := builtin_factories cpu vulkan\<rparr>"

fun replace_backend :: "BackendCapabilities \<Rightarrow> BackendCapabilities list \<Rightarrow> BackendCapabilities list" where
  "replace_backend caps [] = [caps]"
| "replace_backend caps (b # bs) = (if bc_backend_id b = bc_backend_id caps then caps # bs else b # replace_backend caps bs)"

definition register_backend :: "BackendCapabilities \<Rightarrow> EngineOrchestrator \<Rightarrow> EngineOrchestrator" where
  "register_backend caps o1 = o1\<lparr>eo_backends := replace_backend caps (eo_backends o1)\<rparr>"

definition register_engine_factory :: "string \<Rightarrow> EngineFactory \<Rightarrow> EngineOrchestrator \<Rightarrow> EngineOrchestrator" where
  "register_engine_factory backend_id f o1 = o1\<lparr>eo_factories := AList.update backend_id f (eo_factories o1)\<rparr>"

definition observed :: "'v \<Rightarrow> (string \<times> 'v) list \<Rightarrow> string \<Rightarrow> 'v" where
  "observed dflt hist backend_id = (case map_of hist backend_id of None \<Rightarrow> dflt | Some v \<Rightarrow> v)"

definition record_performance :: "string \<Rightarrow> rat \<Rightarrow> u64 \<Rightarrow> EngineOrchestrator \<Rightarrow> EngineOrchestrator" where
  "record_performance backend_id tokens_per_second peak_rss_bytes o1 = o1\<lparr>
     eo_perf_history := AList.update backend_id
       (let current = observed 0 (eo_perf_history o1) backend_id
        in if current < tokens_per_second then tokens_per_second else current) (eo_perf_history o1),
     eo_rss_history := AList.update backend_id
       (let current = observed 0 (eo_rss_history o1) backend_id
        in if current < peak_rss_bytes then peak_rss_bytes else current) (eo_rss_history o1)\<rparr>"

section \<open>Default backends\<close>

definition all_quants :: "int list" where
  "all_quants = [0, 1, 2, 6, 7, 8, 10, 11, 12, 13, 14, 15, 16, 17]"

definition default_archs :: "string list" where
  "default_archs = [''llama'', ''qwen2'', ''mistral'', ''phi'', ''gemma'']"

definition cpu_caps :: BackendCapabilities where
  "cpu_caps = \<lparr>bc_backend_id = ''hydroxl_cpu'', bc_supported_quant_types = all_quants,
     bc_supported_arch = default_archs, bc_requires_cuda = False, bc_requires_vulkan = False,
     bc_min_vram_bytes = 0, bc_min_ram_bytes = 512 * 1024 * 1024, bc_relative_throughput = 1,
     bc_init_cost_ms = 2000, bc_priority = 10\<rparr>"

definition vulkan_caps :: BackendCapabilities where
  "vulkan_caps = \<lparr>bc_backend_id = ''hydroxl_vulkan'', bc_supported_quant_types = [0, 1, 7, 8],
     bc_supported_arch = default_archs, bc_requires_cuda = False, bc_requires_vulkan = True,
     bc_min_vram_bytes = 0, bc_min_ram_bytes = 512 * 1024 * 1024, bc_relative_throughput = 5 / 2,
     bc_init_cost_ms = 500, bc_priority = 20\<rparr>"

definition cuda_caps :: BackendCapabilities where
  "cuda_caps = \<lparr>bc_backend_id = ''cuda'', bc_supported_quant_types = all_quants,
     bc_supported_arch = default_archs, bc_requires_cuda = True, bc_requires_vulkan = False,
     bc_min_vram_bytes = 1024 * 1024 * 1024, bc_min_ram_bytes = 512 * 1024 * 1024, bc_relative_throughput = 5,
     bc_init_cost_ms = 3000, bc_priority = 30\<rparr>"

definition register_default_backends :: "Machine \<Rightarrow> HardwareDetector \<Rightarrow> EngineOrchestrator \<Rightarrow> EngineOrchestrator" where
  "register_default_backends mc hw o1 = (let
     o2 = register_backend cpu_caps o1;
     o3 = (if hd_has_vulkan hw then register_backend vulkan_caps o2 else o2)
   in if mc_cuda_enabled mc \<and> hd_has_cuda hw then register_backend cuda_caps o3 else o3)"

section \<open>Selection\<close>

definition int_str :: "int \<Rightarrow> string" where
  "int_str n = (if n < 0 then ''-'' @ digits_of (nat (- n)) else digits_of (nat n))"

definition mb_str :: "u64 \<Rightarrow> string" where
  "mb_str n = word_str (n div (1024 * 1024))"

definition score_str :: "rat \<Rightarrow> string" where
  "score_str x = (if x < 0 then ''-'' @ fixed2 (- x) else fixed2 x)"

definition needs_gpu :: "BackendCapabilities \<Rightarrow> bool" where
  "needs_gpu b \<longleftrightarrow> bc_requires_vulkan b \<or> bc_requires_cuda b"

definition select_forced :: "Machine \<Rightarrow> HardwareDetector \<Rightarrow> EngineOrchestrator \<Rightarrow> SelectionRequest \<Rightarrow> SelectionResult" where
  "select_forced mc hw o1 req = (let name = rq_forced_backend req in
     case find (\<lambda>b. bc_backend_id b = name) (eo_backends o1) of
       Some b \<Rightarrow> let
           avail = is_available mc hw b;
           quant_ok = supports_quant b (rq_quant_type req);
           arch_ok = supports_arch b (rq_model_arch req)
         in if avail \<and> quant_ok \<and> arch_ok then result_default\<lparr>sr_selected_backend := name,
              sr_reason := ''Forced backend override matched and verified''\<rparr>
            else let r = result_default\<lparr>sr_rejected_backends := [name @ '': forced backend incompatible ('' @
                (if \<not> avail then ''hardware unavailable; '' else []) @
                (if \<not> quant_ok then ''unsupported quant '' @ int_str (rq_quant_type req) @ ''; '' else []) @
                (if \<not> arch_ok then ''unsupported arch '' @ rq_model_arch req @ ''; '' else []) @ '')'']\<rparr>
              in if rq_allow_cpu_fallback req then r\<lparr>sr_selected_backend := ''hydroxl_cpu'', sr_is_fallback := True,
                   sr_reason := ''Forced backend '' @ [CHR 0x27] @ name @ [CHR 0x27] @ '' unavailable; falling back to hydroxl_cpu''\<rparr>
                 else r\<lparr>sr_reason := ''Forced backend '' @ [CHR 0x27] @ name @ [CHR 0x27] @ '' is unavailable and fallback disallowed''\<rparr>
     | None \<Rightarrow> let r = result_default\<lparr>sr_rejected_backends := [name @ '': backend not registered'']\<rparr>
         in if rq_allow_cpu_fallback req then r\<lparr>sr_selected_backend := ''hydroxl_cpu'', sr_is_fallback := True,
              sr_reason := ''Forced backend '' @ [CHR 0x27] @ name @ [CHR 0x27] @ '' not found; falling back to hydroxl_cpu''\<rparr>
            else r\<lparr>sr_reason := ''Forced backend '' @ [CHR 0x27] @ name @ [CHR 0x27] @ '' is not registered''\<rparr>)"

definition estimated_memory :: "HardwareDetector \<Rightarrow> SelectionRequest \<Rightarrow> u64" where
  "estimated_memory hw req = (if rq_n_layers req > 0 \<and> rq_n_embd req > 0 \<and> rq_vocab_size req > 0
     then me_total_estimated (estimate hw (rq_n_layers req) (rq_n_embd req) (rq_n_heads req) (rq_n_kv_heads req)
       (rq_n_ff req) (rq_vocab_size req) (ucast (rq_n_ctx req)) (flt (11 / 10)))
     else u64_of_dbl (dbl (dbl_of_u64 (rq_model_size_bytes req) * dbl (12 / 10))))"

definition high_memory_pressure :: "Machine \<Rightarrow> HardwareDetector \<Rightarrow> u64 \<Rightarrow> bool" where
  "high_memory_pressure mc hw need = (let
     ram = available_ram_bytes;
     avail = (if ram = 0 then available_system_ram mc hw else ram)
   in avail > 0 \<and> need > u64_of_dbl (dbl (dbl_of_u64 avail * dbl (9 / 10))))"

definition memory_rejection :: "Machine \<Rightarrow> HardwareDetector \<Rightarrow> u64 \<Rightarrow> BackendCapabilities \<Rightarrow> string option" where
  "memory_rejection mc hw need b = (if need > 0 then
     (if needs_gpu b then (case best_gpu hw of
         Some g \<Rightarrow> if di_vram_bytes g > 0 \<and> di_vram_bytes g < need
           then Some (bc_backend_id b @ '': insufficient VRAM (have '' @ mb_str (di_vram_bytes g) @ '' MB, need '' @
             mb_str need @ '' MB)'') else None
       | None \<Rightarrow> None)
      else if available_system_ram mc hw < need
        then Some (bc_backend_id b @ '': insufficient system RAM (have '' @ mb_str (available_system_ram mc hw) @
          '' MB, need '' @ mb_str need @ '' MB)'') else None)
     else None)"

definition rejection :: "Machine \<Rightarrow> HardwareDetector \<Rightarrow> SelectionRequest \<Rightarrow> u64 \<Rightarrow> BackendCapabilities \<Rightarrow> string option" where
  "rejection mc hw req need b = (
     if high_memory_pressure mc hw need \<and> needs_gpu b then
       Some (bc_backend_id b @ '': memory footprint exceeds 90% available RAM; CPU prioritized'')
     else if \<not> is_available mc hw b then Some (bc_backend_id b @ '': hardware requirements not satisfied'')
     else if \<not> supports_quant b (rq_quant_type req) then
       Some (bc_backend_id b @ '': quant type '' @ int_str (rq_quant_type req) @ '' not supported'')
     else if \<not> supports_arch b (rq_model_arch req) then
       Some (bc_backend_id b @ '': architecture '' @ [CHR 0x27] @ rq_model_arch req @ [CHR 0x27] @ '' not supported'')
     else memory_rejection mc hw need b)"

record BackendCandidate =
  cd_caps :: BackendCapabilities
  cd_score :: rat
  cd_used_history :: bool

definition flt_of_u64 :: "u64 \<Rightarrow> rat" where
  "flt_of_u64 n = flt (of_int (uint n))"

definition backend_score :: "Machine \<Rightarrow> HardwareDetector \<Rightarrow> EngineOrchestrator \<Rightarrow> SelectionRequest \<Rightarrow> u64 \<Rightarrow> BackendCapabilities \<Rightarrow> rat \<times> bool" where
  "backend_score mc hw o1 req need b = (let
     (throughput, used) = (case map_of (eo_perf_history o1) (bc_backend_id b) of
         Some v \<Rightarrow> if v > 0 then (v, True) else (bc_relative_throughput b, False)
       | None \<Rightarrow> (bc_relative_throughput b, False));
     init_cost = max 50 (bc_init_cost_ms b);
     factor1 = flt (1 + flt (init_cost / 1000));
     factor2 = (if rq_prefer_latency req then flt (factor1 * 2) else factor1);
     ram = available_system_ram mc hw;
     headroom = (if need > 0 \<and> ram > 0
       then min 2 (max 1 (flt (flt (flt_of_u64 ram / flt_of_u64 need) / 2))) else 1)
   in (flt (flt (flt (throughput * headroom) / factor2) + flt (flt (of_int (bc_priority b)) * flt (1 / 1000))), used))"

fun collect_candidates :: "Machine \<Rightarrow> HardwareDetector \<Rightarrow> EngineOrchestrator \<Rightarrow> SelectionRequest \<Rightarrow> u64 \<Rightarrow>
    BackendCapabilities list \<Rightarrow> string list \<times> BackendCandidate list" where
  "collect_candidates mc hw o1 req need [] = ([], [])"
| "collect_candidates mc hw o1 req need (b # bs) = (case collect_candidates mc hw o1 req need bs of (rs, cs) \<Rightarrow>
     (case rejection mc hw req need b of
       Some m \<Rightarrow> (m # rs, cs)
     | None \<Rightarrow> (case backend_score mc hw o1 req need b of (sc, used) \<Rightarrow>
         (rs, \<lparr>cd_caps = b, cd_score = sc, cd_used_history = used\<rparr> # cs))))"

definition fallback_choice :: "EngineOrchestrator \<Rightarrow> BackendCapabilities option" where
  "fallback_choice o1 = find (\<lambda>b. bc_backend_id b = ''hydroxl_cpu'' \<or> (\<not> bc_requires_vulkan b \<and> \<not> bc_requires_cuda b))
     (eo_backends o1)"

definition select_backend :: "Machine \<Rightarrow> HardwareDetector \<Rightarrow> EngineOrchestrator \<Rightarrow> SelectionRequest \<Rightarrow> SelectionResult" where
  "select_backend mc hw o1 req = (if rq_forced_backend req \<noteq> [] then select_forced mc hw o1 req
     else let
       need = estimated_memory hw req;
       (rejected, cands) = collect_candidates mc hw o1 req need (eo_backends o1);
       r = result_default\<lparr>sr_estimated_memory_bytes := need, sr_rejected_backends := rejected\<rparr>
     in case sort_key (\<lambda>c. - cd_score c) cands of
       c # _ \<Rightarrow> r\<lparr>sr_selected_backend := bc_backend_id (cd_caps c), sr_used_benchmark_history := cd_used_history c,
           sr_reason := ''Auto-selected backend '' @ [CHR 0x27] @ bc_backend_id (cd_caps c) @ [CHR 0x27] @ '' (score='' @
             score_str (cd_score c) @ '')''\<rparr>
     | [] \<Rightarrow> (case (if rq_allow_cpu_fallback req then fallback_choice o1 else None) of
           Some b \<Rightarrow> r\<lparr>sr_selected_backend := bc_backend_id b, sr_is_fallback := True,
             sr_reason := ''Fallback to '' @ bc_backend_id b @ '' (no candidate passed all primary constraints)''\<rparr>
         | None \<Rightarrow> r\<lparr>sr_reason := ''No candidate backend satisfied model and hardware constraints''\<rparr>))"

section \<open>Creation\<close>

definition create_named :: "EngineOrchestrator \<Rightarrow> string \<Rightarrow> IInferenceEngine option" where
  "create_named o1 name = (case map_of (eo_factories o1) name of None \<Rightarrow> None | Some f \<Rightarrow> f)"

definition orch_create_engine :: "EngineOrchestrator \<Rightarrow> SelectionResult \<Rightarrow> SelectionRequest \<Rightarrow> string \<Rightarrow> IInferenceEngine option \<times> string" where
  "orch_create_engine o1 sel req error_out = (let
     name = sr_selected_backend sel;
     may_fall_back = (rq_allow_cpu_fallback req \<and> name \<noteq> ''hydroxl_cpu'')
   in if name = [] then (None, ''Cannot create engine: no backend was selected ('' @ sr_reason sel @ '')'')
      else (case create_named o1 name of
        None \<Rightarrow> let err = ''Factory for backend '' @ [CHR 0x27] @ name @ [CHR 0x27] @ '' is not registered'' in
          (case (if may_fall_back then create_named o1 ''hydroxl_cpu'' else None) of
            None \<Rightarrow> (None, err)
          | Some fb \<Rightarrow> (case ie_initialize fb (rq_model_path req) err of
              (True, err2) \<Rightarrow> (Some fb, err2)
            | (False, err2) \<Rightarrow> (None, err2)))
      | Some engine \<Rightarrow> (case ie_initialize engine (rq_model_path req) error_out of
          (True, err) \<Rightarrow> (Some engine, err)
        | (False, err) \<Rightarrow> (case (if may_fall_back then create_named o1 ''hydroxl_cpu'' else None) of
            None \<Rightarrow> (None, err)
          | Some fb \<Rightarrow> (case ie_initialize fb (rq_model_path req) [] of
              (True, _) \<Rightarrow> (Some fb, [])
            | (False, fallback_err) \<Rightarrow> (None, ''Primary backend '' @ [CHR 0x27] @ name @ [CHR 0x27] @ '' failed ('' @ err @
                ''); CPU fallback also failed ('' @ fallback_err @ '')''))))))"

section \<open>What a selection guarantees\<close>

text \<open>The specification of a candidate: the conditions of the request against the machine.\<close>

definition suitable :: "Machine \<Rightarrow> HardwareDetector \<Rightarrow> SelectionRequest \<Rightarrow> BackendCapabilities \<Rightarrow> bool" where
  "suitable mc hw req b \<longleftrightarrow> (let need = estimated_memory hw req in
     is_available mc hw b \<and> supports_quant b (rq_quant_type req) \<and> supports_arch b (rq_model_arch req) \<and>
     (if needs_gpu b then \<not> high_memory_pressure mc hw need \<and>
        (case best_gpu hw of None \<Rightarrow> True | Some g \<Rightarrow> di_vram_bytes g = 0 \<or> need \<le> di_vram_bytes g)
      else need \<le> available_system_ram mc hw))"

lemma rejection_iff: "rejection mc hw req (estimated_memory hw req) b = None \<longleftrightarrow> suitable mc hw req b"
  by (auto simp: rejection_def memory_rejection_def suitable_def Let_def not_less word_neq_0_conv split: option.split)

lemma collect_spec:
  "collect_candidates mc hw o1 req (estimated_memory hw req) bs = (rs, cs) \<Longrightarrow>
     length rs = length (filter (\<lambda>b. \<not> suitable mc hw req b) bs) \<and>
     map cd_caps cs = filter (suitable mc hw req) bs \<and>
     (\<forall>c\<in>set cs. cd_score c = fst (backend_score mc hw o1 req (estimated_memory hw req) (cd_caps c)))"
proof (induction bs arbitrary: rs cs)
  case (Cons b bs)
  obtain rs1 cs1 where r: "collect_candidates mc hw o1 req (estimated_memory hw req) bs = (rs1, cs1)" by fastforce
  show ?case
  proof (cases "rejection mc hw req (estimated_memory hw req) b")
    case None
    then have "suitable mc hw req b" by (simp add: rejection_iff)
    then show ?thesis using Cons.prems Cons.IH [OF r] r None by (auto split: prod.splits)
  next
    case (Some m)
    then have "\<not> suitable mc hw req b" using rejection_iff [of mc hw req b] by simp
    then show ?thesis using Cons.prems Cons.IH [OF r] r Some by auto
  qed
qed simp

lemma sort_key_front:
  fixes f :: "'a \<Rightarrow> 'b::linorder"
  assumes "sort_key f xs = c # rest"
  shows "c \<in> set xs" "x \<in> set xs \<Longrightarrow> f c \<le> f x"
proof -
  have s: "set (sort_key f xs) = insert c (set rest)" using assms by simp
  then show "c \<in> set xs" by simp
  have "sorted (map f (c # rest))" using sorted_sort_key [of f xs] by (simp add: assms)
  moreover assume "x \<in> set xs"
  then have "x = c \<or> x \<in> set rest" using s by auto
  ultimately show "f c \<le> f x" by auto
qed

text \<open>
  C11: What is selected, for every request, machine and registry. A forced backend is selected exactly
  when it is registered, available and supports the model; otherwise it is the CPU engine or nothing.
  Without a forced backend and with a suitable one (available, supporting the model, with enough
  memory) the selection is suitable and no suitable backend has a better score; without a suitable
  one it is the fallback, or nothing. Every unsuitable backend is reported as rejected once.\<close>

theorem select_backend_exact:
  "(let r = select_backend mc hw o1 req; bs = eo_backends o1; ok = filter (suitable mc hw req) bs;
        sc = (\<lambda>b. fst (backend_score mc hw o1 req (estimated_memory hw req) b))
    in if rq_forced_backend req \<noteq> [] then
         sr_selected_backend r = (case find (\<lambda>b. bc_backend_id b = rq_forced_backend req) bs of
             Some b \<Rightarrow> if is_available mc hw b \<and> supports_quant b (rq_quant_type req) \<and> supports_arch b (rq_model_arch req)
               then rq_forced_backend req else if rq_allow_cpu_fallback req then ''hydroxl_cpu'' else []
           | None \<Rightarrow> if rq_allow_cpu_fallback req then ''hydroxl_cpu'' else [])
       else length (sr_rejected_backends r) + length ok = length bs \<and>
         (if ok \<noteq> [] then \<not> sr_is_fallback r \<and>
            (\<exists>b. b \<in> set ok \<and> sr_selected_backend r = bc_backend_id b \<and> list_all (\<lambda>b2. sc b2 \<le> sc b) ok)
          else sr_selected_backend r = (case (if rq_allow_cpu_fallback req then fallback_choice o1 else None) of
             Some b \<Rightarrow> bc_backend_id b | None \<Rightarrow> [])))"
proof (cases "rq_forced_backend req = []")
  case False
  then show ?thesis
    by (simp add: select_backend_def select_forced_def Let_def result_default_def split: option.split)
next
  case True
  define need where "need = estimated_memory hw req"
  define bs where "bs = eo_backends o1"
  obtain rs cs where c: "collect_candidates mc hw o1 req need bs = (rs, cs)" by fastforce
  from collect_spec [OF c [unfolded need_def]] have rs: "length rs = length (filter (\<lambda>b. \<not> suitable mc hw req b) bs)"
    and cs: "map cd_caps cs = filter (suitable mc hw req) bs"
    and sc: "\<And>x. x \<in> set cs \<Longrightarrow> cd_score x = fst (backend_score mc hw o1 req need (cd_caps x))"
    by (simp_all add: need_def)
  have len: "length rs + length (filter (suitable mc hw req) bs) = length bs"
    using sum_length_filter_compl [of "suitable mc hw req" bs] rs by simp
  note sel = select_backend_def [of mc hw o1 req, folded need_def bs_def, unfolded Let_def c, simplified True, simplified]
  show ?thesis
  proof (cases "sort_key (\<lambda>c. - cd_score c) cs")
    case Nil
    then have "cs = []" by (metis length_0_conv length_sort)
    then have "filter (suitable mc hw req) bs = []" using cs by simp
    then show ?thesis using True Nil len
      by (simp add: sel need_def [symmetric] bs_def [symmetric] Let_def result_default_def split: option.split)
  next
    case (Cons x rest)
    note fr = sort_key_front [OF Cons]
    have x: "cd_caps x \<in> set (filter (suitable mc hw req) bs)" unfolding cs [symmetric] using fr(1) by simp
    have "fst (backend_score mc hw o1 req need b2) \<le> fst (backend_score mc hw o1 req need (cd_caps x))"
      if "b2 \<in> set (filter (suitable mc hw req) bs)" for b2
    proof -
      have "b2 \<in> set (map cd_caps cs)" using that by (simp only: cs)
      then obtain y where "y \<in> set cs" "b2 = cd_caps y" by auto
      then show ?thesis using fr(2) [of y] sc fr(1) by auto
    qed
    moreover have "filter (suitable mc hw req) bs \<noteq> []" using x by (metis empty_iff list.set(1))
    ultimately show ?thesis using True Cons len x
      by (auto simp: sel need_def [symmetric] bs_def [symmetric] Let_def result_default_def list_all_iff)
  qed
qed

text \<open>The pressure test never looks at the machine: the estimator's query for the available memory is a
  constant outside Windows, so the registry's answer is not used.\<close>

lemma pressure_ignores_machine: "high_memory_pressure mc hw need = high_memory_pressure mc2 hw2 need"
  by (simp add: high_memory_pressure_def available_ram_bytes_def Let_def)

section \<open>Creation with the fallback\<close>

datatype orch_op =
    RegisterBackend BackendCapabilities | RegisterFactory string EngineFactory | RecordPerformance string rat u64

fun orch_step :: "orch_op \<Rightarrow> EngineOrchestrator \<Rightarrow> EngineOrchestrator" where
  "orch_step (RegisterBackend caps) o1 = register_backend caps o1"
| "orch_step (RegisterFactory name f) o1 = register_engine_factory name f o1"
| "orch_step (RecordPerformance name tps rss) o1 = record_performance name tps rss o1"

definition orch_run :: "IInferenceEngine \<Rightarrow> IInferenceEngine \<Rightarrow> Machine \<Rightarrow> HardwareDetector \<Rightarrow> orch_op list \<Rightarrow> EngineOrchestrator" where
  "orch_run cpu vulkan mc hw ops = fold orch_step ops (register_default_backends mc hw (orchestrator_init cpu vulkan))"

definition cpu_registered :: "EngineOrchestrator \<Rightarrow> bool" where
  "cpu_registered o1 \<longleftrightarrow> ''hydroxl_cpu'' \<in> bc_backend_id ` set (eo_backends o1) \<and> [] \<notin> bc_backend_id ` set (eo_backends o1)"

lemma replace_ids: "bc_backend_id ` set (replace_backend caps bs) = insert (bc_backend_id caps) (bc_backend_id ` set bs)"
  by (induction bs) auto

lemma registered_step: "cpu_registered o1 \<Longrightarrow> (\<And>caps. x = RegisterBackend caps \<Longrightarrow> bc_backend_id caps \<noteq> []) \<Longrightarrow>
    cpu_registered (orch_step x o1)"
  by (cases x) (auto simp: cpu_registered_def register_backend_def replace_ids register_engine_factory_def record_performance_def)

lemma registered_run:
  assumes "\<And>caps. RegisterBackend caps \<in> set ops \<Longrightarrow> bc_backend_id caps \<noteq> []"
  shows "cpu_registered (orch_run cpu vulkan mc hw ops)"
proof -
  have "cpu_registered o1 \<Longrightarrow> cpu_registered (fold orch_step ops o1)" for o1
    using assms
  proof (induction ops arbitrary: o1)
    case (Cons x ops)
    have "cpu_registered (orch_step x o1)" by (rule registered_step) (use Cons.prems in auto)
    then show ?case using Cons.IH Cons.prems(2) by simp
  qed simp
  moreover have "cpu_registered (register_default_backends mc hw (orchestrator_init cpu vulkan))"
    by (auto simp: cpu_registered_def register_default_backends_def register_backend_def replace_ids orchestrator_init_def
        Let_def cpu_caps_def vulkan_caps_def cuda_caps_def)
  ultimately show ?thesis by (simp add: orch_run_def)
qed

lemma fallback_choice_registered: "cpu_registered o1 \<Longrightarrow> \<exists>b\<in>set (eo_backends o1). fallback_choice o1 = Some b"
proof -
  assume "cpu_registered o1"
  then obtain b where "b \<in> set (eo_backends o1)" "bc_backend_id b = ''hydroxl_cpu''" by (auto simp: cpu_registered_def)
  then have "fallback_choice o1 \<noteq> None" by (auto simp: fallback_choice_def find_None_iff)
  then show ?thesis by (auto simp: fallback_choice_def find_Some_iff dest: nth_mem)
qed

lemma selected_nonempty:
  assumes reg: "cpu_registered o1" and allow: "rq_allow_cpu_fallback req"
  shows "sr_selected_backend (select_backend mc hw o1 req) \<noteq> []"
proof (cases "rq_forced_backend req = []")
  case False
  then show ?thesis using allow
    by (auto simp: select_backend_def select_forced_def Let_def split: option.split)
next
  case True
  let ?need = "estimated_memory hw req"
  obtain rs cs where c: "collect_candidates mc hw o1 req ?need (eo_backends o1) = (rs, cs)" by fastforce
  obtain b where b: "b \<in> set (eo_backends o1)" "fallback_choice o1 = Some b"
    using fallback_choice_registered [OF reg] by blast
  have named: "bc_backend_id b \<noteq> []" if "b \<in> set (eo_backends o1)" for b
    using reg that unfolding cpu_registered_def by (metis imageI)
  show ?thesis
  proof (cases "sort_key (\<lambda>c. - cd_score c) cs")
    case Nil
    then show ?thesis using True allow c b named [OF b(1)] by (simp add: select_backend_def Let_def)
  next
    case (Cons x rest)
    have "cd_caps x \<in> set (map cd_caps cs)" using sort_key_front(1) [OF Cons] by simp
    then have "cd_caps x \<in> set (eo_backends o1)" using collect_spec [OF c] by auto
    then show ?thesis using True Cons c named by (simp add: select_backend_def Let_def)
  qed
qed

lemma create_with_cpu:
  assumes "sr_selected_backend sel \<noteq> []" "rq_allow_cpu_fallback req" "create_named o1 ''hydroxl_cpu'' = Some e"
    and "\<And>err. fst (ie_initialize e (rq_model_path req) err)"
  shows "\<exists>e2 err2. fst (orch_create_engine o1 sel req err) = Some e2 \<and> fst (ie_initialize e2 (rq_model_path req) err2) \<and>
     create_named o1 (if e2 = e then ''hydroxl_cpu'' else sr_selected_backend sel) = Some e2"
proof -
  show ?thesis
  proof (cases "create_named o1 (sr_selected_backend sel)")
    case None
    then have "sr_selected_backend sel \<noteq> ''hydroxl_cpu''" using assms(3) by auto
    then show ?thesis using assms(1-3) None
      by (auto simp: orch_create_engine_def Let_def case_prod_beta assms(4))
  next
    case (Some p)
    obtain ok err1 where i: "ie_initialize p (rq_model_path req) err = (ok, err1)" by fastforce
    show ?thesis
    proof (cases ok)
      case True
      then have "fst (orch_create_engine o1 sel req err) = Some p" using assms(1) Some i by (simp add: orch_create_engine_def Let_def)
      moreover have "fst (ie_initialize p (rq_model_path req) err)" using i True by simp
      ultimately show ?thesis using Some assms(3) by auto
    next
      case False
      then have "sr_selected_backend sel \<noteq> ''hydroxl_cpu''" using assms(3,4) i Some by (metis fst_conv option.inject)
      then have "fst (orch_create_engine o1 sel req err) = Some e" using assms(1-3) Some i False
        by (simp add: orch_create_engine_def Let_def case_prod_beta assms(4))
      then show ?thesis using assms(3,4) by auto
    qed
  qed
qed

text \<open>
  C12: After the default registration and any further registrations of named backends, factories and
  measurements, a request that allows the fallback always gets an engine when the CPU engine can be
  initialized on the model: whatever the selection says of the machine, an engine is created, it
  initialized successfully on the model of the request, and it comes from the factory of the selected
  backend or from the one of the CPU backend.\<close>

theorem fallback_always_creates:
  assumes "\<And>caps. RegisterBackend caps \<in> set ops \<Longrightarrow> bc_backend_id caps \<noteq> []"
    and "rq_allow_cpu_fallback req"
    and "create_named (orch_run cpu vulkan mc hw ops) ''hydroxl_cpu'' = Some e"
    and "\<And>err. fst (ie_initialize e (rq_model_path req) err)"
  shows "\<exists>e2 err2. fst (orch_create_engine (orch_run cpu vulkan mc hw ops)
       (select_backend mc2 hw2 (orch_run cpu vulkan mc hw ops) req) req err) = Some e2 \<and>
     fst (ie_initialize e2 (rq_model_path req) err2) \<and>
     create_named (orch_run cpu vulkan mc hw ops) (if e2 = e then ''hydroxl_cpu''
       else sr_selected_backend (select_backend mc2 hw2 (orch_run cpu vulkan mc hw ops) req)) = Some e2"
  using selected_nonempty [OF registered_run [OF assms(1)] assms(2)] by (intro create_with_cpu assms(2-4)) auto

definition plain_engine :: "string \<Rightarrow> bool \<Rightarrow> IInferenceEngine" where
  "plain_engine name ok = \<lparr>ie_backend_id = name, ie_initialize = \<lambda>path err. (ok, err)\<rparr>"

definition sample_request :: SelectionRequest where
  "sample_request = \<lparr>rq_model_path = ''m.gguf'', rq_model_arch = ''llama'', rq_quant_type = 0, rq_model_size_bytes = 0,
     rq_n_ctx = 512, rq_prefer_latency = False, rq_allow_cpu_fallback = True, rq_forced_backend = [], rq_n_layers = 0,
     rq_n_embd = 0, rq_n_heads = 0, rq_n_kv_heads = 0, rq_n_ff = 0, rq_vocab_size = 0\<rparr>"

lemma fallback_always_creates_witness:
  "\<forall>mc hw. \<exists>e2. fst (orch_create_engine (orch_run (plain_engine ''cpu'' True) (plain_engine ''vk'' False) mc hw [])
       (select_backend mc hw (orch_run (plain_engine ''cpu'' True) (plain_engine ''vk'' False) mc hw []) sample_request)
       sample_request []) = Some e2"
proof (intro allI)
  fix mc :: Machine and hw :: HardwareDetector
  have "create_named (orch_run (plain_engine ''cpu'' True) (plain_engine ''vk'' False) mc hw []) ''hydroxl_cpu'' =
      Some (plain_engine ''cpu'' True)"
    by (simp add: create_named_def orch_run_def register_default_backends_def register_backend_def orchestrator_init_def
        builtin_factories_def Let_def)
  from fallback_always_creates [OF _ _ this, of sample_request mc hw "[]"]
  show "\<exists>e2. fst (orch_create_engine (orch_run (plain_engine ''cpu'' True) (plain_engine ''vk'' False) mc hw [])
       (select_backend mc hw (orch_run (plain_engine ''cpu'' True) (plain_engine ''vk'' False) mc hw []) sample_request)
       sample_request []) = Some e2"
    by (auto simp: sample_request_def plain_engine_def)
qed

end
