(* ===== verification/Adaptive.thy ===== *)
theory Adaptive
  imports MemPolicy Backend "HOL-Library.AList"
begin

text \<open>
  The adaptive layer (\<open>src/scheduler\<close>): the per-workload performance statistics
  (\<open>PerformanceHistory.cpp\<close>, the profile path), the auto-tuner (\<open>AutoTuner.cpp\<close>), the policy that
  chooses an execution strategy (\<open>ExecutionPolicyEngine.cpp\<close>) and the registry of concurrent workloads
  (\<open>WorkloadRegistry.cpp\<close>). Clock readings, in nanoseconds, are arguments; the text of a policy's
  reason is not modelled. The properties: the tuner never suggests more accelerator layers than the
  caller allows, whatever the history does, and the policy's ceiling follows the resources.
\<close>

section \<open>Square roots of doubles\<close>

fun isqrt :: "nat \<Rightarrow> nat" where
  "isqrt n = (if n = 0 then 0 else let r = 2 * isqrt (n div 4) in if (r + 1) * (r + 1) \<le> n then r + 1 else r)"

declare isqrt.simps [simp del]

text \<open>The argument is scaled by a power of four so that its root has 53 or 54 bits before rounding.\<close>

definition dbl_sqrt :: "rat \<Rightarrow> rat" where
  "dbl_sqrt x = (if x \<le> 0 then 0 else let
     k = 53 - ilog2 x div 2;
     r = isqrt (nat \<lfloor>x * pow2 (2 * k)\<rfloor>)
   in dbl ((if of_nat r * of_nat r = x * pow2 (2 * k) then of_nat r else of_nat r + 1 / 4) * pow2 (- k)))"

section \<open>Performance history\<close>

record ProfileKey =
  pk_hardware_id :: string
  pk_backend :: ComputeBackend
  pk_workload_type :: string
  pk_model_name :: string

record HistoricalStats =
  hs_sample_count :: u64
  hs_ema_duration_ms :: rat
  hs_variance :: rat
  hs_min_duration_ms :: rat
  hs_max_duration_ms :: rat
  hs_failure_count :: u64
  hs_regression_detected :: bool

definition stats_default :: HistoricalStats where
  "stats_default = \<lparr>hs_sample_count = 0, hs_ema_duration_ms = 0, hs_variance = 0, hs_min_duration_ms = - 1,
     hs_max_duration_ms = - 1, hs_failure_count = 0, hs_regression_detected = False\<rparr>"

definition confidence :: "HistoricalStats \<Rightarrow> rat" where
  "confidence h = (if hs_sample_count h = 0 then 0
     else if hs_sample_count h < 5 then dbl (dbl (2 / 10) * dbl_of_u64 (hs_sample_count h)) else 1)"

definition reliability :: "HistoricalStats \<Rightarrow> rat" where
  "reliability h = (if hs_sample_count h = 0 then 1
     else dbl (1 - dbl (dbl_of_u64 (hs_failure_count h) / dbl_of_u64 (hs_sample_count h))))"

type_synonym PerformanceHistory = "(ProfileKey \<times> HistoricalStats) list"

definition alpha :: rat where
  "alpha = dbl (2 / 10)"

definition regression_after :: "HistoricalStats \<Rightarrow> rat \<Rightarrow> rat \<Rightarrow> rat \<Rightarrow> bool" where
  "regression_after st old_ema variance duration_ms = (let stddev = dbl_sqrt variance in
     if hs_sample_count st > 5 then
       if stddev > 0 \<and> duration_ms > dbl (old_ema + dbl (2 * stddev)) then True
       else if stddev = 0 \<and> duration_ms > dbl (old_ema * (3 / 2)) then True
       else if duration_ms < dbl (old_ema + stddev) then False
       else hs_regression_detected st
     else hs_regression_detected st)"

definition updateStats :: "HistoricalStats \<Rightarrow> rat \<Rightarrow> bool \<Rightarrow> HistoricalStats" where
  "updateStats st0 duration_ms success = (let st = st0\<lparr>hs_sample_count := hs_sample_count st0 + 1\<rparr> in
     if \<not> success then st\<lparr>hs_failure_count := hs_failure_count st + 1\<rparr>
     else if hs_sample_count st = 1 \<or> hs_ema_duration_ms st = 0 then
       st\<lparr>hs_ema_duration_ms := duration_ms, hs_min_duration_ms := duration_ms, hs_max_duration_ms := duration_ms,
          hs_variance := 0\<rparr>
     else let
       old_ema = hs_ema_duration_ms st;
       diff = dbl (duration_ms - old_ema);
       variance = dbl (dbl (1 - alpha) * dbl (hs_variance st + dbl (dbl (alpha * diff) * diff)))
     in st\<lparr>hs_ema_duration_ms := dbl (old_ema + dbl (alpha * diff)), hs_variance := variance,
          hs_min_duration_ms := (if duration_ms < hs_min_duration_ms st then duration_ms else hs_min_duration_ms st),
          hs_max_duration_ms := (if duration_ms > hs_max_duration_ms st then duration_ms else hs_max_duration_ms st),
          hs_regression_detected := regression_after st old_ema variance duration_ms\<rparr>)"

definition getStats :: "PerformanceHistory \<Rightarrow> ProfileKey \<Rightarrow> HistoricalStats" where
  "getStats hist key = (case map_of hist key of None \<Rightarrow> stats_default | Some st \<Rightarrow> st)"

definition history_recordEvent :: "ProfileKey \<Rightarrow> rat \<Rightarrow> bool \<Rightarrow> PerformanceHistory \<Rightarrow> PerformanceHistory" where
  "history_recordEvent key duration_ms success hist =
     AList.update key (updateStats (getStats hist key) duration_ms success) hist"

definition getAllStats :: "PerformanceHistory \<Rightarrow> PerformanceHistory" where
  "getAllStats hist = hist"

definition setAllStats :: "PerformanceHistory \<Rightarrow> PerformanceHistory \<Rightarrow> PerformanceHistory" where
  "setAllStats stats hist = stats"

definition predictDurationMs :: "PerformanceHistory \<Rightarrow> ProfileKey \<Rightarrow> rat" where
  "predictDurationMs hist key = (case map_of hist key of
     Some st \<Rightarrow> if hs_sample_count st > 0 then hs_ema_duration_ms st else - 1
   | None \<Rightarrow> - 1)"

section \<open>Auto-tuner\<close>

record TuningConfig =
  tc_n_gpu_layers :: int
  tc_n_threads :: int

definition tuning_default :: TuningConfig where
  "tuning_default = \<lparr>tc_n_gpu_layers = 99, tc_n_threads = 4\<rparr>"

record TunerState =
  ts_current_best :: TuningConfig
  ts_exploring :: TuningConfig
  ts_is_exploring :: bool
  ts_current_best_duration :: rat
  ts_stable_samples :: u64

type_synonym AutoTuner = "(ProfileKey \<times> TunerState) list"

definition min_samples_before_tune :: u64 where "min_samples_before_tune = 3"
definition improvement_threshold :: rat where "improvement_threshold = dbl (5 / 100)"

definition cold_start :: "int \<Rightarrow> int \<Rightarrow> TunerState" where
  "cold_start max_gpu_layers max_threads = \<lparr>
     ts_current_best = \<lparr>tc_n_gpu_layers = max_gpu_layers,
       tc_n_threads = (if max_threads div 2 > 0 then max_threads div 2 else 1)\<rparr>,
     ts_exploring = tuning_default, ts_is_exploring = False, ts_current_best_duration = - 1, ts_stable_samples = 0\<rparr>"

definition enforce_ceiling :: "int \<Rightarrow> TunerState \<Rightarrow> TunerState" where
  "enforce_ceiling max_gpu_layers st = (if tc_n_gpu_layers (ts_current_best st) > max_gpu_layers
     then st\<lparr>ts_current_best := (ts_current_best st)\<lparr>tc_n_gpu_layers := max_gpu_layers\<rparr>, ts_is_exploring := False\<rparr>
     else st)"

definition retune_on_regression :: "HistoricalStats \<Rightarrow> TunerState \<Rightarrow> TunerState" where
  "retune_on_regression hist st = (if hs_regression_detected hist \<and> ts_stable_samples st > min_samples_before_tune
     then st\<lparr>ts_stable_samples := 0, ts_is_exploring := False, ts_current_best_duration := - 1\<rparr> else st)"

definition explore_threads :: "int \<Rightarrow> TuningConfig \<Rightarrow> TuningConfig" where
  "explore_threads max_threads c = (if tc_n_threads c < max_threads then c\<lparr>tc_n_threads := tc_n_threads c + 1\<rparr>
     else if tc_n_threads c > 1 then c\<lparr>tc_n_threads := tc_n_threads c - 1\<rparr> else c)"

definition suggestConfiguration :: "PerformanceHistory \<Rightarrow> ProfileKey \<Rightarrow> int \<Rightarrow> int \<Rightarrow> AutoTuner \<Rightarrow> TuningConfig \<times> AutoTuner" where
  "suggestConfiguration hist key max_gpu_layers max_threads t = (case map_of t key of
     None \<Rightarrow> let st = cold_start max_gpu_layers max_threads in (ts_current_best st, AList.update key st t)
   | Some st0 \<Rightarrow> let st = retune_on_regression (getStats hist key) (enforce_ceiling max_gpu_layers st0) in
       if ts_is_exploring st then (ts_exploring st, AList.update key st t)
       else if ts_stable_samples st \<ge> min_samples_before_tune then
         let e = explore_threads max_threads (ts_current_best st)
         in (e, AList.update key (st\<lparr>ts_is_exploring := True, ts_exploring := e\<rparr>) t)
       else (ts_current_best st, AList.update key st t))"

definition after_success :: "rat \<Rightarrow> TunerState \<Rightarrow> TunerState" where
  "after_success duration_ms st = (if ts_is_exploring st then
       if ts_current_best_duration st < 0 then st\<lparr>ts_current_best_duration := duration_ms, ts_is_exploring := False\<rparr>
       else let
         improvement = dbl (dbl (ts_current_best_duration st - duration_ms) / ts_current_best_duration st);
         kept = (if improvement > improvement_threshold
           then st\<lparr>ts_current_best := ts_exploring st, ts_current_best_duration := duration_ms\<rparr> else st)
       in kept\<lparr>ts_is_exploring := False, ts_stable_samples := 0\<rparr>
     else st\<lparr>ts_current_best_duration :=
         (if ts_current_best_duration st < 0 \<or> ts_stable_samples st = 0 then duration_ms
          else dbl (dbl (dbl (2 / 10) * duration_ms) + dbl (dbl (8 / 10) * ts_current_best_duration st))),
       ts_stable_samples := ts_stable_samples st + 1\<rparr>)"

definition recordResult :: "ProfileKey \<Rightarrow> rat \<Rightarrow> bool \<Rightarrow> AutoTuner \<Rightarrow> AutoTuner" where
  "recordResult key duration_ms success t = (case map_of t key of
     None \<Rightarrow> t
   | Some st \<Rightarrow> AList.update key
       (if \<not> success then if ts_is_exploring st then st\<lparr>ts_is_exploring := False, ts_stable_samples := 0\<rparr> else st
        else after_success duration_ms st) t)"

section \<open>Execution policy\<close>

datatype WorkloadPriority = BACKGROUND | NORMAL | HIGH | CRITICAL

record PolicyInput =
  pi_model_size_bytes :: u64
  pi_available_gpu_mem :: u64
  pi_available_cpu_mem :: u64
  pi_memory_pressure :: PressureLevel
  pi_gpu_available :: bool
  pi_wclass :: WorkloadClass
  pi_priority :: WorkloadPriority
  pi_profile_key :: ProfileKey
  pi_active_workload_count :: int

record PolicyDecision =
  pd_strategy :: ExecutionStrategy
  pd_n_gpu_layers :: int
  pd_n_threads :: int
  pd_prefetch_distance :: int
  pd_streaming_enabled :: bool

definition computeGpuLayers :: "u64 \<Rightarrow> u64 \<Rightarrow> int \<Rightarrow> int" where
  "computeGpuLayers model_size_bytes gpu_mem_bytes total_layers = (
     if gpu_mem_bytes = 0 \<or> total_layers = 0 then 0
     else if model_size_bytes = 0 then total_layers
     else let fraction = min (dbl (dbl_of_u64 gpu_mem_bytes / dbl_of_u64 model_size_bytes)) 1
       in \<lfloor>dbl (fraction * of_int total_layers)\<rfloor>)"

definition adaptivePrefetchDistance :: "PressureLevel \<Rightarrow> int \<Rightarrow> int" where
  "adaptivePrefetchDistance pressure base_distance = (case pressure of
     PressureLevel.NORMAL \<Rightarrow> max 1 base_distance
   | PressureLevel.WARNING \<Rightarrow> max 1 (base_distance sdiv 2)
   | PressureLevel.HIGH \<Rightarrow> 1
   | PressureLevel.CRITICAL \<Rightarrow> 0)"

definition effective_pressure :: "PressureLevel \<Rightarrow> PressureLevel \<Rightarrow> PolicyInput \<Rightarrow> PressureLevel" where
  "effective_pressure cpu gpu i = (let p = (if gpu > cpu then gpu else cpu)
     in if pi_memory_pressure i > p then pi_memory_pressure i else p)"

definition history_suggests_cpu :: "HistoricalStats \<Rightarrow> bool" where
  "history_suggests_cpu h \<longleftrightarrow> hs_sample_count h > 3 \<and> hs_regression_detected h \<and> reliability h < 1 / 2"

definition fits_fully :: "PolicyInput \<Rightarrow> bool" where
  "fits_fully i \<longleftrightarrow> pi_model_size_bytes i = 0 \<or> (pi_available_gpu_mem i > 0 \<and>
     pi_model_size_bytes i \<le> of_int \<lfloor>dbl (dbl_of_u64 (pi_available_gpu_mem i) * dbl (85 / 100))\<rfloor>)"

definition fits_partially :: "PolicyInput \<Rightarrow> bool" where
  "fits_partially i \<longleftrightarrow> pi_available_gpu_mem i > 0 \<and> pi_model_size_bytes i > 0 \<and>
     dbl (dbl_of_u64 (pi_available_gpu_mem i) / dbl_of_u64 (pi_model_size_bytes i)) \<ge> dbl (15 / 100)"

definition cpu_decision :: "int \<Rightarrow> int \<Rightarrow> PolicyDecision" where
  "cpu_decision threads prefetch = \<lparr>pd_strategy = ExecutionStrategy.CPU_FALLBACK, pd_n_gpu_layers = 0,
     pd_n_threads = threads, pd_prefetch_distance = prefetch, pd_streaming_enabled = True\<rparr>"

definition resource_decision :: "PressureLevel \<Rightarrow> PolicyInput \<Rightarrow> PolicyDecision" where
  "resource_decision pressure i = (
     if fits_fully i then \<lparr>pd_strategy = ExecutionStrategy.FULL_RESIDENT, pd_n_gpu_layers = 99, pd_n_threads = 4,
       pd_prefetch_distance = 0, pd_streaming_enabled = False\<rparr>
     else if fits_partially i then \<lparr>
       pd_strategy = (if pressure \<ge> PressureLevel.HIGH then ExecutionStrategy.MEMORY_PRESSURE
         else ExecutionStrategy.PARTIAL_RESIDENT),
       pd_n_gpu_layers = computeGpuLayers (pi_model_size_bytes i) (pi_available_gpu_mem i) 32, pd_n_threads = 4,
       pd_prefetch_distance = adaptivePrefetchDistance pressure 2, pd_streaming_enabled = True\<rparr>
     else \<lparr>pd_strategy = ExecutionStrategy.STREAMING, pd_n_gpu_layers = 0, pd_n_threads = 6,
       pd_prefetch_distance = adaptivePrefetchDistance pressure 1, pd_streaming_enabled = True\<rparr>)"

definition adjust_class :: "PolicyInput \<Rightarrow> PolicyDecision \<Rightarrow> PolicyDecision" where
  "adjust_class i d = (if pi_wclass i = WorkloadClass.BACKGROUND \<or> pi_wclass i = WorkloadClass.BATCH
     then d\<lparr>pd_n_threads := max 2 (pd_n_threads d - 2)\<rparr> else d)"

definition adjust_contention :: "PressureLevel \<Rightarrow> PolicyInput \<Rightarrow> PolicyDecision \<Rightarrow> PolicyDecision" where
  "adjust_contention pressure i d = (if pi_active_workload_count i > 1 \<and> pressure \<ge> PressureLevel.WARNING
     then d\<lparr>pd_prefetch_distance := max 0 (pd_prefetch_distance d - 1)\<rparr> else d)"

definition selectStrategy :: "PressureLevel \<Rightarrow> PressureLevel \<Rightarrow> PerformanceHistory \<Rightarrow> PolicyInput \<Rightarrow> PolicyDecision" where
  "selectStrategy cpu_pressure gpu_pressure hist i = (let pressure = effective_pressure cpu_pressure gpu_pressure i in
     if pressure = PressureLevel.CRITICAL then cpu_decision 4 0
     else if \<not> pi_gpu_available i then cpu_decision 8 (adaptivePrefetchDistance pressure 2)
     else if history_suggests_cpu (getStats hist (pi_profile_key i))
       then cpu_decision 8 (adaptivePrefetchDistance pressure 2)
     else adjust_contention pressure i (adjust_class i (resource_decision pressure i)))"

section \<open>Workload registry\<close>

datatype WorkloadState = QUEUED | RUNNING | COMPLETED | CANCELLED | FAILED

record WorkloadEntry =
  we_id :: u64
  we_name :: string
  we_model_path :: string
  we_priority :: WorkloadPriority
  we_wclass :: WorkloadClass
  we_state :: WorkloadState
  we_queued_at :: int
  we_started_at :: int
  we_finished_at :: int
  we_cancel_requested :: bool
  we_error :: string

definition entry_default :: WorkloadEntry where
  "entry_default = \<lparr>we_id = 0, we_name = [], we_model_path = [], we_priority = WorkloadPriority.NORMAL,
     we_wclass = WorkloadClass.DEFAULT, we_state = WorkloadState.QUEUED, we_queued_at = 0, we_started_at = 0,
     we_finished_at = 0, we_cancel_requested = False, we_error = []\<rparr>"

record WorkloadRegistry =
  wr_next_id :: u64
  wr_entries :: "(u64 \<times> WorkloadEntry) list"

definition workloads_init :: WorkloadRegistry where
  "workloads_init = \<lparr>wr_next_id = 1, wr_entries = []\<rparr>"

definition registerWorkload :: "int \<Rightarrow> string \<Rightarrow> string \<Rightarrow> WorkloadPriority \<Rightarrow> WorkloadClass \<Rightarrow> WorkloadRegistry \<Rightarrow> u64 \<times> WorkloadRegistry" where
  "registerWorkload now name model_path priority wclass r = (let
     ident = wr_next_id r;
     e = (case map_of (wr_entries r) ident of None \<Rightarrow> entry_default | Some e \<Rightarrow> e)
   in (ident, \<lparr>wr_next_id = ident + 1, wr_entries = AList.update ident (e\<lparr>we_id := ident, we_name := name,
       we_model_path := model_path, we_priority := priority, we_wclass := wclass,
       we_state := WorkloadState.QUEUED, we_queued_at := now, we_cancel_requested := False\<rparr>) (wr_entries r)\<rparr>))"

definition update_entry :: "u64 \<Rightarrow> (WorkloadEntry \<Rightarrow> WorkloadEntry) \<Rightarrow> WorkloadRegistry \<Rightarrow> WorkloadRegistry" where
  "update_entry ident f r = (case map_of (wr_entries r) ident of
     None \<Rightarrow> r | Some e \<Rightarrow> r\<lparr>wr_entries := AList.update ident (f e) (wr_entries r)\<rparr>)"

definition workload_cancel :: "int \<Rightarrow> u64 \<Rightarrow> WorkloadRegistry \<Rightarrow> bool \<times> WorkloadRegistry" where
  "workload_cancel now ident r = (map_of (wr_entries r) ident \<noteq> None,
     update_entry ident (\<lambda>e. let e = e\<lparr>we_cancel_requested := True\<rparr> in
       if we_state e = WorkloadState.QUEUED
       then e\<lparr>we_state := WorkloadState.CANCELLED, we_finished_at := now\<rparr> else e) r)"

definition setRunning :: "int \<Rightarrow> u64 \<Rightarrow> WorkloadRegistry \<Rightarrow> WorkloadRegistry" where
  "setRunning now ident = update_entry ident (\<lambda>e. e\<lparr>we_state := WorkloadState.RUNNING, we_started_at := now\<rparr>)"

definition setCompleted :: "int \<Rightarrow> u64 \<Rightarrow> WorkloadRegistry \<Rightarrow> WorkloadRegistry" where
  "setCompleted now ident = update_entry ident (\<lambda>e. e\<lparr>we_state := WorkloadState.COMPLETED, we_finished_at := now\<rparr>)"

definition setFailed :: "int \<Rightarrow> u64 \<Rightarrow> string \<Rightarrow> WorkloadRegistry \<Rightarrow> WorkloadRegistry" where
  "setFailed now ident err = update_entry ident (\<lambda>e. e\<lparr>we_state := WorkloadState.FAILED, we_error := err, we_finished_at := now\<rparr>)"

definition setCancelled :: "int \<Rightarrow> u64 \<Rightarrow> WorkloadRegistry \<Rightarrow> WorkloadRegistry" where
  "setCancelled now ident = update_entry ident (\<lambda>e. e\<lparr>we_state := WorkloadState.CANCELLED, we_finished_at := now\<rparr>)"

definition workload_getState :: "u64 \<Rightarrow> WorkloadRegistry \<Rightarrow> WorkloadState" where
  "workload_getState ident r = (case map_of (wr_entries r) ident of None \<Rightarrow> WorkloadState.FAILED | Some e \<Rightarrow> we_state e)"

definition workload_isCancelled :: "u64 \<Rightarrow> WorkloadRegistry \<Rightarrow> bool" where
  "workload_isCancelled ident r = (case map_of (wr_entries r) ident of None \<Rightarrow> False | Some e \<Rightarrow> we_cancel_requested e)"

definition workload_getClass :: "u64 \<Rightarrow> WorkloadRegistry \<Rightarrow> WorkloadClass" where
  "workload_getClass ident r = (case map_of (wr_entries r) ident of None \<Rightarrow> WorkloadClass.DEFAULT | Some e \<Rightarrow> we_wclass e)"

definition workload_active :: "WorkloadEntry \<Rightarrow> bool" where
  "workload_active e \<longleftrightarrow> we_state e = WorkloadState.QUEUED \<or> we_state e = WorkloadState.RUNNING"

fun priority_int :: "WorkloadPriority \<Rightarrow> int" where
  "priority_int WorkloadPriority.BACKGROUND = 0"
| "priority_int WorkloadPriority.NORMAL = 1"
| "priority_int WorkloadPriority.HIGH = 2"
| "priority_int WorkloadPriority.CRITICAL = 3"

definition activeWorkloadsSorted :: "WorkloadRegistry \<Rightarrow> WorkloadEntry list" where
  "activeWorkloadsSorted r = sort_key (\<lambda>e. - priority_int (we_priority e)) (filter workload_active (map snd (wr_entries r)))"

definition activeCount :: "WorkloadRegistry \<Rightarrow> nat" where
  "activeCount r = length (filter workload_active (map snd (wr_entries r)))"

definition pruneOld :: "int \<Rightarrow> rat \<Rightarrow> WorkloadRegistry \<Rightarrow> WorkloadRegistry" where
  "pruneOld now max_age_sec r = r\<lparr>wr_entries := filter (\<lambda>(ident, e).
     \<not> (we_state e \<in> {WorkloadState.COMPLETED, WorkloadState.FAILED, WorkloadState.CANCELLED} \<and>
        dbl (dbl (of_int (now - we_finished_at e)) / 1000000000) > max_age_sec)) (wr_entries r)\<rparr>"

section \<open>The tuner obeys its limits\<close>

text \<open>While a configuration is being explored it has the layers of the current best.\<close>

definition tuner_ok :: "AutoTuner \<Rightarrow> bool" where
  "tuner_ok t \<longleftrightarrow> (\<forall>key st. map_of t key = Some st \<longrightarrow> tc_n_threads (ts_current_best st) \<ge> 1 \<and>
     (ts_is_exploring st \<longrightarrow> tc_n_gpu_layers (ts_exploring st) = tc_n_gpu_layers (ts_current_best st) \<and>
        tc_n_threads (ts_exploring st) \<ge> 1))"

datatype tuner_op = Suggest PerformanceHistory ProfileKey int int | Result ProfileKey rat bool

fun tuner_step :: "tuner_op \<Rightarrow> AutoTuner \<Rightarrow> AutoTuner" where
  "tuner_step (Suggest hist key layers threads) t = snd (suggestConfiguration hist key layers threads t)"
| "tuner_step (Result key duration_ms success) t = recordResult key duration_ms success t"

definition tuner_run :: "tuner_op list \<Rightarrow> AutoTuner" where
  "tuner_run ops = fold tuner_step ops []"

lemma tuner_ok_update:
  assumes "tuner_ok t" "tc_n_threads (ts_current_best st) \<ge> 1"
    and "ts_is_exploring st \<Longrightarrow> tc_n_gpu_layers (ts_exploring st) = tc_n_gpu_layers (ts_current_best st) \<and>
        tc_n_threads (ts_exploring st) \<ge> 1"
  shows "tuner_ok (AList.update key st t)"
  using assms by (auto simp: tuner_ok_def map_of_update)

lemma explore_keeps: "tc_n_gpu_layers (explore_threads m c) = tc_n_gpu_layers c"
  "tc_n_threads c \<ge> 1 \<Longrightarrow> tc_n_threads (explore_threads m c) \<ge> 1"
  by (auto simp: explore_threads_def)

lemma suggest_ok:
  assumes "tuner_ok t" "suggestConfiguration hist key m threads t = (c, t')"
  shows "tuner_ok t' \<and> tc_n_gpu_layers c \<le> m \<and> tc_n_threads c \<ge> 1"
proof (cases "map_of t key")
  case None
  then show ?thesis using assms
    by (auto simp: suggestConfiguration_def cold_start_def Let_def intro!: tuner_ok_update)
next
  case (Some st0)
  define st where "st = retune_on_regression (getStats hist key) (enforce_ceiling m st0)"
  have best: "tc_n_threads (ts_current_best st) \<ge> 1" "tc_n_gpu_layers (ts_current_best st) \<le> m"
    using assms(1) Some by (auto simp: st_def tuner_ok_def retune_on_regression_def enforce_ceiling_def)
  have expl: "tc_n_gpu_layers (ts_exploring st) = tc_n_gpu_layers (ts_current_best st) \<and> tc_n_threads (ts_exploring st) \<ge> 1"
    if "ts_is_exploring st"
    using assms(1) Some that by (auto simp: st_def tuner_ok_def retune_on_regression_def enforce_ceiling_def split: if_splits)
  have t': "suggestConfiguration hist key m threads t = (if ts_is_exploring st then (ts_exploring st, AList.update key st t)
       else if ts_stable_samples st \<ge> min_samples_before_tune then
         (explore_threads threads (ts_current_best st), AList.update key (st\<lparr>ts_is_exploring := True,
            ts_exploring := explore_threads threads (ts_current_best st)\<rparr>) t)
       else (ts_current_best st, AList.update key st t))"
    using Some by (simp add: suggestConfiguration_def st_def Let_def)
  have u: "tuner_ok (AList.update key st t)" by (rule tuner_ok_update [OF assms(1) best(1) expl])
  have v: "tuner_ok (AList.update key (st\<lparr>ts_is_exploring := True,
            ts_exploring := explore_threads threads (ts_current_best st)\<rparr>) t)"
    by (rule tuner_ok_update [OF assms(1)]) (use best explore_keeps in simp_all)
  show ?thesis using assms(2) t' u v best expl explore_keeps [where m = threads and c = "ts_current_best st"] by (auto split: if_splits)
qed

lemma record_ok: "tuner_ok t \<Longrightarrow> tuner_ok (recordResult key d s t)"
proof -
  assume ok: "tuner_ok t"
  show ?thesis
  proof (cases "map_of t key")
    case (Some st)
    then have st: "tc_n_threads (ts_current_best st) \<ge> 1" "ts_is_exploring st \<Longrightarrow>
        tc_n_gpu_layers (ts_exploring st) = tc_n_gpu_layers (ts_current_best st) \<and> tc_n_threads (ts_exploring st) \<ge> 1"
      using ok by (auto simp: tuner_ok_def)
    have a: "tuner_ok (AList.update key (after_success d st) t)"
      by (rule tuner_ok_update [OF ok]) (use st in \<open>auto simp: after_success_def Let_def\<close>)
    have b: "tuner_ok (AList.update key (st\<lparr>ts_is_exploring := False, ts_stable_samples := 0\<rparr>) t)"
      by (rule tuner_ok_update [OF ok]) (use st in auto)
    have c: "tuner_ok (AList.update key st t)" by (rule tuner_ok_update [OF ok]) (use st in auto)
    show ?thesis using a b c Some by (auto simp: recordResult_def)
  qed (use ok in \<open>simp add: recordResult_def\<close>)
qed

text \<open>What a client of the tuner relies on: the suggestion obeys the limits in every state that
  suggestions and results lead to.\<close>

locale tuner =
  fixes suggest :: "'h \<Rightarrow> 'k \<Rightarrow> int \<Rightarrow> int \<Rightarrow> 't \<Rightarrow> TuningConfig \<times> 't"
    and report :: "'k \<Rightarrow> rat \<Rightarrow> bool \<Rightarrow> 't \<Rightarrow> 't"
    and start :: 't
    and inv :: "'t \<Rightarrow> bool"
  assumes start_inv: "inv start"
    and suggest_law: "inv t \<Longrightarrow> suggest h k m n t = (c, t') \<Longrightarrow>
        inv t' \<and> tc_n_gpu_layers c \<le> m \<and> 1 \<le> tc_n_threads c"
    and report_inv: "inv t \<Longrightarrow> inv (report k d ok t)"
begin

lemma suggest_inv: "inv t \<Longrightarrow> inv (snd (suggest h k m n t))"
  using suggest_law [of t h k m n] by (cases "suggest h k m n t") simp

lemma clamp_idle:
  "inv t \<Longrightarrow> suggest h k m n t = (c, t') \<Longrightarrow>
     (if tc_n_gpu_layers c > m then c\<lparr>tc_n_gpu_layers := m\<rparr> else c) = c"
  using suggest_law [of t h k m n c t'] by simp

lemma tuned_run_inv:
  assumes "\<And>x t. x \<in> set xs \<Longrightarrow> (\<exists>h k m n. step x t = snd (suggest h k m n t)) \<or> (\<exists>k d ok. step x t = report k d ok t)"
  shows "inv t \<Longrightarrow> inv (fold step xs t)"
  using assms
proof (induction xs arbitrary: t)
  case (Cons x xs)
  have "inv (step x t)" using Cons.prems(2) [of x t] Cons.prems(1) suggest_inv report_inv by auto
  then show ?case using Cons.IH Cons.prems(2) by simp
qed simp

end

interpretation auto_tuner: tuner suggestConfiguration recordResult "[]" tuner_ok
  by unfold_locales (simp_all add: suggest_ok record_ok, simp add: tuner_ok_def)

lemma tuner_run_ok: "tuner_ok (tuner_run ops)"
  unfolding tuner_run_def
proof (rule auto_tuner.tuned_run_inv [OF _ auto_tuner.start_inv])
  show "(\<exists>h k m n. tuner_step x t = snd (suggestConfiguration h k m n t)) \<or> (\<exists>k d ok. tuner_step x t = recordResult k d ok t)"
    for x t by (cases x; simp; blast)
qed

text \<open>
  C21: The tuner never suggests more accelerator layers than the caller allows and always at least one
  thread: after any sequence of suggestions with any limits and any performance history, and of
  results of any kind. So the limit of the policy holds even while a configuration is being explored
  that was chosen under a higher limit.\<close>

theorem tuner_within_ceiling:
  "tc_n_gpu_layers (fst (suggestConfiguration hist key max_gpu_layers max_threads (tuner_run ops))) \<le> max_gpu_layers \<and>
   1 \<le> tc_n_threads (fst (suggestConfiguration hist key max_gpu_layers max_threads (tuner_run ops)))"
  using auto_tuner.suggest_law [OF tuner_run_ok, of hist key max_gpu_layers max_threads ops]
  by (cases "suggestConfiguration hist key max_gpu_layers max_threads (tuner_run ops)") auto

section \<open>The policy's ceiling\<close>

lemma fraction_bounds:
  assumes "0 \<le> x" shows "0 \<le> min (dbl x) 1 \<and> min (dbl x) 1 \<le> 1"
  using dbl_nonneg [OF assms] by simp

lemma computeGpuLayers_bounds:
  assumes "0 \<le> n" "n < 2 ^ 53"
  shows "0 \<le> computeGpuLayers model gpu n \<and> computeGpuLayers model gpu n \<le> n"
proof -
  let ?x = "dbl_of_u64 gpu / dbl_of_u64 model"
  have x: "0 \<le> ?x" using dbl_of_u64_nonneg by simp
  let ?f = "min (dbl ?x) 1"
  have f: "0 \<le> ?f" "?f \<le> 1" using fraction_bounds [OF x] by simp_all
  have n: "0 \<le> (of_int n :: rat)" using assms by simp
  have "0 \<le> dbl (?f * of_int n)" by (rule dbl_nonneg) (use f n in simp)
  moreover have "dbl (?f * of_int n) \<le> dbl (of_int n)"
    by (rule dbl_mono) (use f n mult_right_mono [of ?f 1 "of_int n"] in simp)
  moreover have "dbl (of_int n) = of_int n" by (rule dbl_int) (use assms in simp)
  ultimately have "0 \<le> \<lfloor>dbl (?f * of_int n)\<rfloor> \<and> \<lfloor>dbl (?f * of_int n)\<rfloor> \<le> n" by (simp add: floor_le_iff)
  then show ?thesis using assms by (simp add: computeGpuLayers_def Let_def)
qed

lemma adjust_fields [simp]:
  "pd_n_gpu_layers (adjust_class i d) = pd_n_gpu_layers d" "pd_strategy (adjust_class i d) = pd_strategy d"
  "pd_n_gpu_layers (adjust_contention p i d) = pd_n_gpu_layers d" "pd_strategy (adjust_contention p i d) = pd_strategy d"
  by (simp_all add: adjust_class_def adjust_contention_def)

text \<open>
  C22: The ceiling the policy sets follows the resources, for every input, history and pressure, and
  neither the class of the workload nor contention raises it: no layer goes to the accelerator under
  critical pressure, without an accelerator or when the history calls it unreliable; otherwise all of
  them (99) exactly when the model fits, and between 0 and 32 when it does not, 0 when the memory is
  below 15 percent of the model.\<close>

theorem policy_ceiling:
  "(let d = selectStrategy cpu gpu hist i; p = effective_pressure cpu gpu i in
     if p = PressureLevel.CRITICAL \<or> pi_gpu_available i = False \<or> history_suggests_cpu (getStats hist (pi_profile_key i))
     then pd_n_gpu_layers d = 0 \<and> pd_strategy d = ExecutionStrategy.CPU_FALLBACK
     else if fits_fully i then pd_n_gpu_layers d = 99 \<and> pd_strategy d = ExecutionStrategy.FULL_RESIDENT
     else if fits_partially i then 0 \<le> pd_n_gpu_layers d \<and> pd_n_gpu_layers d \<le> 32 \<and>
       pd_strategy d = (if p \<ge> PressureLevel.HIGH then ExecutionStrategy.MEMORY_PRESSURE else ExecutionStrategy.PARTIAL_RESIDENT)
     else pd_n_gpu_layers d = 0 \<and> pd_strategy d = ExecutionStrategy.STREAMING)"
  using computeGpuLayers_bounds [of 32 "pi_model_size_bytes i" "pi_available_gpu_mem i"]
  by (simp add: selectStrategy_def Let_def cpu_decision_def resource_decision_def)

end
