(* ===== verification/HeteroRuntime.thy ===== *)
theory HeteroRuntime
  imports Adaptive
begin

text \<open>
  The runtime (\<open>src/inference/HeteroRuntime.cpp\<close>): it resolves a configuration with the policy and the
  tuner, keeps one engine per model and runs generations. A generation holds the runtime's lock while
  it gets its engine, releases it during the inference and takes it again to report; so it is three
  steps, and a run interleaves the steps of any number of generations with the other operations. The
  calls into engines are a trace (newest first), from which the model loaded in an engine is read. What
  the machine, the engine registry and the engines answer is an input of each step. Objects freed by
  \<open>shutdown\<close> and used later are recorded by a flag.
\<close>

section \<open>Engines\<close>

datatype engine_event =
    EngineInit nat | EngineLoad nat ModelDescriptor bool | EngineUnload nat | EngineShutdown nat | EngineExecute nat int

fun loaded_in :: "engine_event list \<Rightarrow> nat \<Rightarrow> ModelDescriptor option" where
  "loaded_in [] h = None"
| "loaded_in (EngineLoad g d ok # es) h = (if h = g then if ok then Some d else None else loaded_in es h)"
| "loaded_in (EngineUnload g # es) h = (if h = g then None else loaded_in es h)"
| "loaded_in (_ # es) h = loaded_in es h"

definition int_digits :: "int \<Rightarrow> string" where
  "int_digits n = (if n < 0 then ''-'' @ digits_of (nat (- n)) else digits_of (nat n))"

definition load_descriptor :: "string \<Rightarrow> int \<Rightarrow> int \<Rightarrow> ModelDescriptor" where
  "load_descriptor path n_gpu_layers n_ctx = \<lparr>md_model_id = path, md_source_path = path, md_format = ModelFormat.GGUF,
     md_modality = ModelModality.UNKNOWN, md_architecture = [], md_quantization = [], md_description = [],
     md_param_count = None, md_n_layers = None, md_n_ctx_max = None, md_size_bytes = None,
     md_metadata = [(''n_gpu_layers'', int_digits n_gpu_layers), (''cpu_only'', if n_gpu_layers = 0 then ''1'' else ''0''),
       (''n_ctx'', int_digits n_ctx)]\<rparr>"

section \<open>State\<close>

record HeteroRuntime =
  ht_initialized :: bool
  ht_hardware_id :: string
  ht_backends :: BackendManager
  ht_history :: "PerformanceHistory option"
  ht_tuner :: AutoTuner
  ht_has_registry :: bool
  ht_registry :: WorkloadRegistry
  ht_engines :: "(string \<times> nat) list"
  ht_loaded_configs :: "(string \<times> TuningConfig) list"
  ht_last_error :: string
  ht_next_engine :: nat
  ht_trace :: "engine_event list"
  ht_use_after_free :: bool

definition runtime_init :: HeteroRuntime where
  "runtime_init = \<lparr>ht_initialized = False, ht_hardware_id = [], ht_backends = backend_manager_init, ht_history = None,
     ht_tuner = [], ht_has_registry = False, ht_registry = workloads_init, ht_engines = [], ht_loaded_configs = [], ht_last_error = [],
     ht_next_engine = 0, ht_trace = [], ht_use_after_free = False\<rparr>"

text \<open>What the outside answers during a step: the clock, the size of the model file, the pressures of
  the memory manager, the number of hardware threads, whether the registry creates an engine, and the
  outcome of its \<open>loadModel\<close> with the error it reports.\<close>

record RuntimeEnv =
  en_now :: int
  en_file_size :: "u64 option"
  en_cpu_pressure :: PressureLevel
  en_gpu_pressure :: PressureLevel
  en_max_threads :: int
  en_factory :: bool
  en_load_ok :: bool
  en_load_error :: string

definition emit_engine :: "engine_event \<Rightarrow> HeteroRuntime \<Rightarrow> HeteroRuntime" where
  "emit_engine e rt = rt\<lparr>ht_trace := e # ht_trace rt\<rparr>"

text \<open>What the devices found, and a profile read from disk, are inputs of the initialization.\<close>

definition runtime_initialize :: "string \<Rightarrow> BackendManager \<Rightarrow> PerformanceHistory \<Rightarrow> HeteroRuntime \<Rightarrow> HeteroRuntime" where
  "runtime_initialize hardware_id backends profile rt = (if ht_initialized rt then rt
     else rt\<lparr>ht_hardware_id := hardware_id, ht_backends := backends, ht_history := Some profile, ht_tuner := [],
       ht_has_registry := True, ht_registry := workloads_init, ht_initialized := True\<rparr>)"

section \<open>Configuration\<close>

definition gpu_avail :: "HeteroRuntime \<Rightarrow> bool" where
  "gpu_avail rt \<longleftrightarrow> isBackendAvailable (ht_backends rt) ComputeBackend.VULKAN \<or>
     isBackendAvailable (ht_backends rt) ComputeBackend.CUDA"

definition llm_key :: "HeteroRuntime \<Rightarrow> ComputeBackend \<Rightarrow> string \<Rightarrow> ProfileKey" where
  "llm_key rt backend model_path = \<lparr>pk_hardware_id = ht_hardware_id rt, pk_backend = backend,
     pk_workload_type = ''llm-inference'', pk_model_name = model_path\<rparr>"

definition vulkan_memory :: "HeteroRuntime \<Rightarrow> u64" where
  "vulkan_memory rt = (case getDevice (ht_backends rt) ComputeBackend.VULKAN of
     Some d \<Rightarrow> if dv_is_available d then dv_memory_available d else 0 | None \<Rightarrow> 0)"

definition history_of :: "HeteroRuntime \<Rightarrow> PerformanceHistory" where
  "history_of rt = (case ht_history rt of None \<Rightarrow> [] | Some h \<Rightarrow> h)"

definition policy_input :: "RuntimeEnv \<Rightarrow> string \<Rightarrow> WorkloadClass \<Rightarrow> HeteroRuntime \<Rightarrow> PolicyInput" where
  "policy_input env model_path wclass rt = \<lparr>
     pi_model_size_bytes = (case en_file_size env of None \<Rightarrow> 0 | Some n \<Rightarrow> n),
     pi_available_gpu_mem = vulkan_memory rt, pi_available_cpu_mem = 0, pi_memory_pressure = en_gpu_pressure env,
     pi_gpu_available = gpu_avail rt, pi_wclass = wclass, pi_priority = WorkloadPriority.NORMAL,
     pi_profile_key = llm_key rt (if gpu_avail rt then ComputeBackend.VULKAN else ComputeBackend.CPU) model_path,
     pi_active_workload_count = int (activeCount (ht_registry rt))\<rparr>"

definition policy_limit :: "RuntimeEnv \<Rightarrow> string \<Rightarrow> WorkloadClass \<Rightarrow> HeteroRuntime \<Rightarrow> int" where
  "policy_limit env model_path wclass rt = pd_n_gpu_layers (selectStrategy (en_cpu_pressure env) (en_gpu_pressure env)
     (history_of rt) (policy_input env model_path wclass rt))"

definition backend_of_layers :: "int \<Rightarrow> ComputeBackend" where
  "backend_of_layers n = (if n = 0 then ComputeBackend.CPU else ComputeBackend.VULKAN)"

definition resolveAndApplyConfig :: "RuntimeEnv \<Rightarrow> string \<Rightarrow> WorkloadClass \<Rightarrow> HeteroRuntime \<Rightarrow> TuningConfig \<times> HeteroRuntime" where
  "resolveAndApplyConfig env model_path wclass rt = (let
     max_gpu_layers = policy_limit env model_path wclass rt;
     key = llm_key rt (backend_of_layers max_gpu_layers) model_path;
     (tcfg, tuner) = suggestConfiguration (history_of rt) key max_gpu_layers (en_max_threads env) (ht_tuner rt);
     tcfg = (if tc_n_gpu_layers tcfg > max_gpu_layers then tcfg\<lparr>tc_n_gpu_layers := max_gpu_layers\<rparr> else tcfg)
   in (tcfg, rt\<lparr>ht_tuner := tuner\<rparr>))"

section \<open>Engines of the runtime\<close>

definition drop_engine :: "string \<Rightarrow> HeteroRuntime \<Rightarrow> HeteroRuntime" where
  "drop_engine model_path rt = rt\<lparr>ht_engines := AList.delete model_path (ht_engines rt),
     ht_loaded_configs := AList.delete model_path (ht_loaded_configs rt)\<rparr>"

text \<open>An engine loaded with another number of layers is unloaded first.\<close>

definition drop_if_changed :: "string \<Rightarrow> TuningConfig \<Rightarrow> HeteroRuntime \<Rightarrow> HeteroRuntime" where
  "drop_if_changed model_path tcfg rt = (case map_of (ht_engines rt) model_path of
     None \<Rightarrow> rt
   | Some h \<Rightarrow> let loaded = (case map_of (ht_loaded_configs rt) model_path of None \<Rightarrow> tuning_default | Some c \<Rightarrow> c) in
       if tc_n_gpu_layers loaded \<noteq> tc_n_gpu_layers tcfg then drop_engine model_path (emit_engine (EngineUnload h) rt)
       else rt)"

definition new_engine :: "RuntimeEnv \<Rightarrow> string \<Rightarrow> TuningConfig \<Rightarrow> int \<Rightarrow> HeteroRuntime \<Rightarrow> (string + nat) \<times> HeteroRuntime" where
  "new_engine env model_path tcfg n_ctx rt = (if \<not> en_factory env then (Inl [], rt)
     else let
       h = ht_next_engine rt;
       rt = emit_engine (EngineInit h) (rt\<lparr>ht_next_engine := h + 1\<rparr>);
       rt = emit_engine (EngineLoad h (load_descriptor model_path (tc_n_gpu_layers tcfg) n_ctx) (en_load_ok env)) rt
     in if \<not> en_load_ok env then (Inl (''Failed to load model: '' @ en_load_error env), rt)
        else (Inr h, rt\<lparr>ht_engines := AList.update model_path h (ht_engines rt),
               ht_loaded_configs := AList.update model_path tcfg (ht_loaded_configs rt)\<rparr>))"

definition runtime_loadModel :: "RuntimeEnv \<Rightarrow> string \<Rightarrow> int \<Rightarrow> HeteroRuntime \<Rightarrow> bool \<times> HeteroRuntime" where
  "runtime_loadModel env model_path n_ctx rt = (if \<not> ht_initialized rt then (False, rt)
     else case resolveAndApplyConfig env model_path WorkloadClass.DEFAULT rt of (tcfg, rt) \<Rightarrow>
       let rt = drop_if_changed model_path tcfg rt in
       if map_of (ht_engines rt) model_path \<noteq> None then (True, rt)
       else (case new_engine env model_path tcfg n_ctx rt of
         (Inl err, rt) \<Rightarrow> (False, rt\<lparr>ht_last_error := (if err = []
           then ''Failed to create llama.cpp execution engine from registry'' else err)\<rparr>)
       | (Inr h, rt) \<Rightarrow> (True, rt)))"

definition runtime_unloadModel :: "string \<Rightarrow> HeteroRuntime \<Rightarrow> HeteroRuntime" where
  "runtime_unloadModel model_path rt = (case map_of (ht_engines rt) model_path of
     None \<Rightarrow> rt
   | Some h \<Rightarrow> drop_engine model_path (emit_engine (EngineShutdown h) (emit_engine (EngineUnload h) rt)))"

definition runtime_shutdown :: "HeteroRuntime \<Rightarrow> HeteroRuntime" where
  "runtime_shutdown rt = (fold (\<lambda>(path, h) rt. emit_engine (EngineShutdown h) (emit_engine (EngineUnload h) rt))
     (ht_engines rt) rt)\<lparr>ht_engines := [], ht_loaded_configs := [], ht_history := None, ht_initialized := False\<rparr>"

section \<open>Generation\<close>

record InFlight =
  fl_engine :: nat
  fl_config :: TuningConfig
  fl_key :: ProfileKey
  fl_workload_id :: u64

text \<open>Up to the release of the lock.\<close>

definition start_workload :: "RuntimeEnv \<Rightarrow> u64 \<Rightarrow> HeteroRuntime \<Rightarrow> HeteroRuntime" where
  "start_workload env workload_id rt = (if workload_id \<noteq> 0
     then rt\<lparr>ht_registry := setRunning (en_now env) workload_id (ht_registry rt)\<rparr> else rt)"

definition workload_class :: "u64 \<Rightarrow> HeteroRuntime \<Rightarrow> WorkloadClass" where
  "workload_class workload_id rt = (if workload_id \<noteq> 0 then workload_getClass workload_id (ht_registry rt)
     else WorkloadClass.DEFAULT)"

definition generate_begin :: "RuntimeEnv \<Rightarrow> string \<Rightarrow> string \<Rightarrow> int \<Rightarrow> u64 \<Rightarrow> HeteroRuntime \<Rightarrow> (string + InFlight) \<times> HeteroRuntime" where
  "generate_begin env model_path prompt n_ctx workload_id rt = (
     if \<not> ht_initialized rt then (Inl ''HeteroRuntime not initialized'', rt)
     else if prompt = [] then (Inl ''Prompt is empty'', rt)
     else if workload_id \<noteq> 0 \<and> workload_isCancelled workload_id (ht_registry rt)
       then (Inl ''Workload cancelled before execution'', rt)
     else let rt = start_workload env workload_id rt in
       case resolveAndApplyConfig env model_path (workload_class workload_id rt) rt of (tcfg, rt) \<Rightarrow>
         let key = llm_key rt (backend_of_layers (tc_n_gpu_layers tcfg)) model_path;
             rt = drop_if_changed model_path tcfg rt
         in case map_of (ht_engines rt) model_path of
              Some h \<Rightarrow> (Inr \<lparr>fl_engine = h, fl_config = tcfg, fl_key = key, fl_workload_id = workload_id\<rparr>, rt)
            | None \<Rightarrow> (case new_engine env model_path tcfg n_ctx rt of
                (Inl err, rt) \<Rightarrow> (Inl (if err = [] then ''Failed to create execution engine from registry'' else err), rt)
              | (Inr h, rt) \<Rightarrow> (Inr \<lparr>fl_engine = h, fl_config = tcfg, fl_key = key, fl_workload_id = workload_id\<rparr>, rt)))"

text \<open>The inference, without the lock.\<close>

definition generate_execute :: "InFlight \<Rightarrow> HeteroRuntime \<Rightarrow> HeteroRuntime" where
  "generate_execute flight rt = emit_engine (EngineExecute (fl_engine flight) (tc_n_gpu_layers (fl_config flight))) rt"

text \<open>The report, under the lock again; the profiler and the tuner refer to the history that
  \<open>shutdown\<close> frees.\<close>

definition finish_workload :: "int \<Rightarrow> u64 \<Rightarrow> bool \<Rightarrow> string \<Rightarrow> WorkloadRegistry \<Rightarrow> WorkloadRegistry" where
  "finish_workload now workload_id success err r = (if workload_id = 0 then r
     else if success then setCompleted now workload_id r
     else if err = ''Generation cancelled'' \<or> err = ''Cancelled before evaluation'' then r
     else setFailed now workload_id err r)"

definition generate_finish :: "int \<Rightarrow> InFlight \<Rightarrow> bool \<Rightarrow> string \<Rightarrow> rat \<Rightarrow> HeteroRuntime \<Rightarrow> HeteroRuntime" where
  "generate_finish now flight success err wall_ms rt = rt\<lparr>
     ht_history := map_option (history_recordEvent ((fl_key flight)\<lparr>pk_hardware_id := ht_hardware_id rt\<rparr>) wall_ms success) (ht_history rt),
     ht_use_after_free := (ht_use_after_free rt \<or> ht_history rt = None),
     ht_tuner := recordResult (fl_key flight) wall_ms success (ht_tuner rt),
     ht_registry := finish_workload now (fl_workload_id flight) success err (ht_registry rt)\<rparr>"

section \<open>Workloads\<close>

definition runtime_registerWorkload :: "int \<Rightarrow> string \<Rightarrow> string \<Rightarrow> WorkloadPriority \<Rightarrow> WorkloadClass \<Rightarrow> HeteroRuntime \<Rightarrow> u64 \<times> HeteroRuntime" where
  "runtime_registerWorkload now name model_path priority wclass rt = (if \<not> ht_has_registry rt then (0, rt)
     else case registerWorkload now name model_path priority wclass (ht_registry rt) of
       (ident, r) \<Rightarrow> (ident, rt\<lparr>ht_registry := r\<rparr>))"

definition runtime_cancelWorkload :: "int \<Rightarrow> u64 \<Rightarrow> HeteroRuntime \<Rightarrow> bool \<times> HeteroRuntime" where
  "runtime_cancelWorkload now workload_id rt = (if \<not> ht_has_registry rt then (False, rt)
     else case workload_cancel now workload_id (ht_registry rt) of (found, r) \<Rightarrow> (found, rt\<lparr>ht_registry := r\<rparr>))"

section \<open>Runs\<close>

record System =
  sy_runtime :: HeteroRuntime
  sy_flights :: "(InFlight \<times> bool) list"

datatype runtime_op =
    Initialize string BackendManager PerformanceHistory
  | LoadModel RuntimeEnv string int
  | UnloadModel string
  | Shutdown
  | RegisterWorkload int string string WorkloadPriority WorkloadClass
  | CancelWorkload int u64
  | Begin RuntimeEnv string string int u64
  | Execute nat
  | Finish nat int bool string rat

definition on_runtime :: "(HeteroRuntime \<Rightarrow> HeteroRuntime) \<Rightarrow> System \<Rightarrow> System" where
  "on_runtime f sy = sy\<lparr>sy_runtime := f (sy_runtime sy)\<rparr>"

fun runtime_step :: "runtime_op \<Rightarrow> System \<Rightarrow> System" where
  "runtime_step (Initialize hid bm prof) sy = on_runtime (runtime_initialize hid bm prof) sy"
| "runtime_step (LoadModel env path n_ctx) sy = on_runtime (\<lambda>rt. snd (runtime_loadModel env path n_ctx rt)) sy"
| "runtime_step (UnloadModel path) sy = on_runtime (runtime_unloadModel path) sy"
| "runtime_step Shutdown sy = on_runtime runtime_shutdown sy"
| "runtime_step (RegisterWorkload now name path prio wclass) sy =
     on_runtime (\<lambda>rt. snd (runtime_registerWorkload now name path prio wclass rt)) sy"
| "runtime_step (CancelWorkload now ident) sy = on_runtime (\<lambda>rt. snd (runtime_cancelWorkload now ident rt)) sy"
| "runtime_step (Begin env path prompt n_ctx ident) sy =
     (case generate_begin env path prompt n_ctx ident (sy_runtime sy) of
       (Inl err, rt) \<Rightarrow> sy\<lparr>sy_runtime := rt\<rparr>
     | (Inr flight, rt) \<Rightarrow> \<lparr>sy_runtime = rt, sy_flights = sy_flights sy @ [(flight, False)]\<rparr>)"
| "runtime_step (Execute k) sy = (if k < length (sy_flights sy) \<and> \<not> snd (sy_flights sy ! k)
     then \<lparr>sy_runtime = generate_execute (fst (sy_flights sy ! k)) (sy_runtime sy),
           sy_flights = (sy_flights sy)[k := (fst (sy_flights sy ! k), True)]\<rparr> else sy)"
| "runtime_step (Finish k now success err wall_ms) sy = (if k < length (sy_flights sy) \<and> snd (sy_flights sy ! k)
     then \<lparr>sy_runtime = generate_finish now (fst (sy_flights sy ! k)) success err wall_ms (sy_runtime sy),
           sy_flights = take k (sy_flights sy) @ drop (k + 1) (sy_flights sy)\<rparr> else sy)"

definition runtime_run :: "runtime_op list \<Rightarrow> System" where
  "runtime_run ops = fold runtime_step ops \<lparr>sy_runtime = runtime_init, sy_flights = []\<rparr>"

end
