(* ===== verification/RuntimeProperties.thy ===== *)
theory RuntimeProperties
  imports HeteroRuntime
begin

text \<open>
  The runtime keeps its table of engines exact under every interleaving of generations with loading,
  unloading, cancelling, shutting down and initializing again: the engines that hold a model are those
  of the table, each holds the model it is listed for, loaded with the recorded number of layers. A
  generation is handed such an engine, within the policy's ceiling. What the lock does not cover is
  shown by concrete runs.
\<close>

section \<open>The invariant\<close>

definition rt_inv :: "HeteroRuntime \<Rightarrow> bool" where
  "rt_inv rt \<longleftrightarrow> tuner_ok (ht_tuner rt) \<and>
     (\<forall>path. map_of (ht_engines rt) path = None \<longleftrightarrow> map_of (ht_loaded_configs rt) path = None) \<and>
     (\<forall>path h. map_of (ht_engines rt) path = Some h \<longrightarrow> h < ht_next_engine rt \<and>
        (\<exists>c n. map_of (ht_loaded_configs rt) path = Some c \<and>
           loaded_in (ht_trace rt) h = Some (load_descriptor path (tc_n_gpu_layers c) n))) \<and>
     (\<forall>h d. loaded_in (ht_trace rt) h = Some d \<longrightarrow> map_of (ht_engines rt) (md_source_path d) = Some h)"

lemma source_of_load [simp]: "md_source_path (load_descriptor path l n) = path"
  by (simp add: load_descriptor_def)

lemma inv_same:
  assumes "rt_inv rt" "ht_engines rt2 = ht_engines rt" "ht_loaded_configs rt2 = ht_loaded_configs rt"
    and "\<And>h. loaded_in (ht_trace rt2) h = loaded_in (ht_trace rt) h" "ht_next_engine rt2 = ht_next_engine rt"
    and "tuner_ok (ht_tuner rt2)"
  shows "rt_inv rt2"
  using assms unfolding rt_inv_def by simp

lemma inv_init: "rt_inv runtime_init"
  by (simp add: rt_inv_def runtime_init_def tuner_ok_def)

lemma inv_tuner: "rt_inv rt \<Longrightarrow> tuner_ok (ht_tuner rt)"
  by (simp add: rt_inv_def)

lemma engine_loaded:
  assumes "rt_inv rt" "map_of (ht_engines rt) path = Some h"
  obtains c n where "map_of (ht_loaded_configs rt) path = Some c" "h < ht_next_engine rt"
    "loaded_in (ht_trace rt) h = Some (load_descriptor path (tc_n_gpu_layers c) n)"
  using assms unfolding rt_inv_def by blast

lemma engine_unique:
  assumes "rt_inv rt" "map_of (ht_engines rt) path = Some h" "map_of (ht_engines rt) path2 = Some h"
  shows "path2 = path"
proof -
  obtain c :: TuningConfig and n where a: "loaded_in (ht_trace rt) h = Some (load_descriptor path (tc_n_gpu_layers c) n)"
    using engine_loaded [OF assms(1,2)] by blast
  obtain c2 :: TuningConfig and n2 where b: "loaded_in (ht_trace rt) h = Some (load_descriptor path2 (tc_n_gpu_layers c2) n2)"
    using engine_loaded [OF assms(1,3)] by blast
  from a b have "load_descriptor path (tc_n_gpu_layers c) n = load_descriptor path2 (tc_n_gpu_layers c2) n2" by simp
  from arg_cong [OF this, of md_source_path] show ?thesis by simp
qed

lemma fresh_not_loaded: "rt_inv rt \<Longrightarrow> loaded_in (ht_trace rt) (ht_next_engine rt) = None"
  unfolding rt_inv_def by (metis less_irrefl not_Some_eq)

text \<open>Dropping an engine that was unloaded.\<close>

lemma inv_drop:
  assumes inv: "rt_inv rt" and h: "map_of (ht_engines rt) path = Some h"
    and rt2: "\<And>g. loaded_in (ht_trace rt2) g = (if g = h then None else loaded_in (ht_trace rt) g)"
      "ht_engines rt2 = ht_engines rt" "ht_loaded_configs rt2 = ht_loaded_configs rt"
      "ht_next_engine rt2 = ht_next_engine rt" "ht_tuner rt2 = ht_tuner rt"
  shows "rt_inv (drop_engine path rt2)" "map_of (ht_engines (drop_engine path rt2)) path = None"
proof -
  have f: "map_of (ht_engines (drop_engine path rt2)) = (map_of (ht_engines rt))(path := None)"
    "map_of (ht_loaded_configs (drop_engine path rt2)) = (map_of (ht_loaded_configs rt))(path := None)"
    "ht_trace (drop_engine path rt2) = ht_trace rt2" "ht_next_engine (drop_engine path rt2) = ht_next_engine rt"
    "ht_tuner (drop_engine path rt2) = ht_tuner rt"
    by (simp_all add: drop_engine_def rt2 delete_conv fun_eq_iff)
  show "map_of (ht_engines (drop_engine path rt2)) path = None" by (simp add: f)
  have other: "map_of (ht_engines rt) path2 = Some g \<Longrightarrow> path2 \<noteq> path \<Longrightarrow> g \<noteq> h" for path2 g
    using engine_unique [OF inv h] by blast
  show "rt_inv (drop_engine path rt2)"
    unfolding rt_inv_def f rt2(1)
  proof (intro conjI allI impI)
    show "tuner_ok (ht_tuner rt)" using inv by (rule inv_tuner)
  next
    fix p show "((map_of (ht_engines rt))(path := None)) p = None \<longleftrightarrow> ((map_of (ht_loaded_configs rt))(path := None)) p = None"
      using inv by (simp add: rt_inv_def)
  next
    fix p g assume "((map_of (ht_engines rt))(path := None)) p = Some g"
    then have p: "p \<noteq> path" "map_of (ht_engines rt) p = Some g" by (auto split: if_splits)
    obtain c n where e: "map_of (ht_loaded_configs rt) p = Some c" "g < ht_next_engine rt"
      "loaded_in (ht_trace rt) g = Some (load_descriptor p (tc_n_gpu_layers c) n)"
      using engine_loaded [OF inv p(2)] by blast
    show "g < ht_next_engine rt" by (rule e(2))
    show "\<exists>c n. ((map_of (ht_loaded_configs rt))(path := None)) p = Some c \<and>
        (if g = h then None else loaded_in (ht_trace rt) g) = Some (load_descriptor p (tc_n_gpu_layers c) n)"
      using e p other [OF p(2,1)] by auto
  next
    fix g d assume "(if g = h then None else loaded_in (ht_trace rt) g) = Some d"
    then have "g \<noteq> h" "map_of (ht_engines rt) (md_source_path d) = Some g"
      using inv by (auto simp: rt_inv_def split: if_splits)
    then show "((map_of (ht_engines rt))(path := None)) (md_source_path d) = Some g" using h by auto
  qed
qed

lemma drop_if_changed_inv:
  assumes inv: "rt_inv rt"
  shows "rt_inv (drop_if_changed path tcfg rt) \<and>
    (case map_of (ht_engines (drop_if_changed path tcfg rt)) path of None \<Rightarrow> True
     | Some h \<Rightarrow> (\<exists>n. loaded_in (ht_trace (drop_if_changed path tcfg rt)) h = Some (load_descriptor path (tc_n_gpu_layers tcfg) n)))"
proof (cases "map_of (ht_engines rt) path")
  case None
  then show ?thesis using inv by (simp add: drop_if_changed_def)
next
  case (Some h)
  obtain c n where c: "map_of (ht_loaded_configs rt) path = Some c"
    "loaded_in (ht_trace rt) h = Some (load_descriptor path (tc_n_gpu_layers c) n)"
    using engine_loaded [OF inv Some] by blast
  have d: "rt_inv (drop_engine path (emit_engine (EngineUnload h) rt))"
    "map_of (ht_engines (drop_engine path (emit_engine (EngineUnload h) rt))) path = None"
    by (rule inv_drop [OF inv Some]; simp add: emit_engine_def)+
  show ?thesis using Some c d inv by (auto simp: drop_if_changed_def Let_def split: option.split)
qed

lemma new_engine_inv:
  assumes inv: "rt_inv rt" and none: "map_of (ht_engines rt) path = None"
    and r: "new_engine env path tcfg n_ctx rt = (res, rt2)"
  shows "rt_inv rt2 \<and> (case res of Inl err \<Rightarrow> True
     | Inr h \<Rightarrow> (\<exists>n. loaded_in (ht_trace rt2) h = Some (load_descriptor path (tc_n_gpu_layers tcfg) n)))"
proof (cases "en_factory env")
  case False
  then show ?thesis using inv r by (auto simp: new_engine_def)
next
  case True
  let ?h = "ht_next_engine rt" and ?d = "load_descriptor path (tc_n_gpu_layers tcfg) n_ctx"
  have ld: "loaded_in (EngineLoad ?h ?d ok # EngineInit ?h # ht_trace rt) g =
      (if g = ?h then if ok then Some ?d else None else loaded_in (ht_trace rt) g)" for g ok by simp
  have fresh: "loaded_in (ht_trace rt) ?h = None" by (rule fresh_not_loaded [OF inv])
  have below: "map_of (ht_engines rt) p = Some g \<Longrightarrow> g < ?h" for p g
    using inv unfolding rt_inv_def by blast
  show ?thesis
  proof (cases "en_load_ok env")
    case False
    then have rt2: "rt2 = emit_engine (EngineLoad ?h ?d False) (emit_engine (EngineInit ?h) (rt\<lparr>ht_next_engine := ?h + 1\<rparr>))"
      "\<exists>e. res = Inl e"
      using r True by (auto simp: new_engine_def Let_def)
    have "loaded_in (ht_trace rt2) g = loaded_in (ht_trace rt) g" for g
      using fresh by (simp add: rt2 emit_engine_def)
    then have "rt_inv rt2" using inv below unfolding rt_inv_def
      by (simp add: rt2(1) emit_engine_def) (meson less_SucI)
    then show ?thesis using rt2(2) by auto
  next
    case True2: True
    then have rt2: "res = Inr ?h" "ht_trace rt2 = EngineLoad ?h ?d True # EngineInit ?h # ht_trace rt"
      "map_of (ht_engines rt2) = (map_of (ht_engines rt))(path \<mapsto> ?h)"
      "map_of (ht_loaded_configs rt2) = (map_of (ht_loaded_configs rt))(path \<mapsto> tcfg)"
      "ht_next_engine rt2 = ?h + 1" "ht_tuner rt2 = ht_tuner rt"
      using r True by (auto simp: new_engine_def Let_def emit_engine_def map_of_update fun_eq_iff)
    have src: "map_of (ht_engines rt) (md_source_path d) = Some g" if "loaded_in (ht_trace rt) g = Some d" for g d
      using inv that by (simp add: rt_inv_def)
    have "rt_inv rt2" unfolding rt_inv_def rt2 ld
    proof (intro conjI allI impI)
      show "tuner_ok (ht_tuner rt)" using inv by (rule inv_tuner)
    next
      fix p show "((map_of (ht_engines rt))(path \<mapsto> ?h)) p = None \<longleftrightarrow> ((map_of (ht_loaded_configs rt))(path \<mapsto> tcfg)) p = None"
        using inv by (simp add: rt_inv_def)
    next
      fix p g assume g: "((map_of (ht_engines rt))(path \<mapsto> ?h)) p = Some g"
      show "g < ?h + 1" using g below [of p g] by (auto split: if_splits)
      show "\<exists>c n. ((map_of (ht_loaded_configs rt))(path \<mapsto> tcfg)) p = Some c \<and>
          (if g = ?h then if True then Some ?d else None else loaded_in (ht_trace rt) g) =
            Some (load_descriptor p (tc_n_gpu_layers c) n)"
      proof (cases "p = path")
        case True
        then show ?thesis using g by auto
      next
        case False
        then have e: "map_of (ht_engines rt) p = Some g" using g by simp
        then obtain c n where "map_of (ht_loaded_configs rt) p = Some c"
          "loaded_in (ht_trace rt) g = Some (load_descriptor p (tc_n_gpu_layers c) n)"
          by (rule engine_loaded [OF inv])
        then show ?thesis using False below [OF e] by auto
      qed
    next
      fix g d assume g: "(if g = ?h then if True then Some ?d else None else loaded_in (ht_trace rt) g) = Some d"
      show "((map_of (ht_engines rt))(path \<mapsto> ?h)) (md_source_path d) = Some g"
      proof (cases "g = ?h")
        case True
        then show ?thesis using g by auto
      next
        case False
        then have "map_of (ht_engines rt) (md_source_path d) = Some g" using g src by simp
        then show ?thesis using none by auto
      qed
    qed
    then show ?thesis using rt2(1,2) by auto
  qed
qed

section \<open>Operations\<close>

lemma resolve_spec:
  assumes inv: "rt_inv rt" and r: "resolveAndApplyConfig env path wclass rt = (tcfg, rt2)"
  shows "rt_inv rt2" "tc_n_gpu_layers tcfg \<le> policy_limit env path wclass rt" "1 \<le> tc_n_threads tcfg"
    "rt2 = rt\<lparr>ht_tuner := ht_tuner rt2\<rparr>"
proof -
  let ?m = "policy_limit env path wclass rt" and ?k = "llm_key rt (backend_of_layers (policy_limit env path wclass rt)) path"
  obtain c t where s: "suggestConfiguration (history_of rt) ?k ?m (en_max_threads env) (ht_tuner rt) = (c, t)" by fastforce
  note ok = auto_tuner.suggest_law [OF inv_tuner [OF inv] s]
  have e: "tcfg = c" "rt2 = rt\<lparr>ht_tuner := t\<rparr>"
    using r s auto_tuner.clamp_idle [OF inv_tuner [OF inv] s] by (auto simp: resolveAndApplyConfig_def Let_def)
  show "rt_inv rt2" by (rule inv_same [OF inv]) (use e ok in simp_all)
  show "tc_n_gpu_layers tcfg \<le> ?m" "1 \<le> tc_n_threads tcfg" "rt2 = rt\<lparr>ht_tuner := ht_tuner rt2\<rparr>"
    using e ok by simp_all
qed

lemma loadModel_inv: "rt_inv rt \<Longrightarrow> rt_inv (snd (runtime_loadModel env path n_ctx rt))"
proof -
  assume inv: "rt_inv rt"
  obtain tcfg rt1 where r: "resolveAndApplyConfig env path WorkloadClass.DEFAULT rt = (tcfg, rt1)" by fastforce
  note d = drop_if_changed_inv [OF resolve_spec(1) [OF inv r], of path tcfg]
  show ?thesis
  proof (cases "map_of (ht_engines (drop_if_changed path tcfg rt1)) path")
    case None
    obtain res rt2 where n: "new_engine env path tcfg n_ctx (drop_if_changed path tcfg rt1) = (res, rt2)" by fastforce
    have i: "rt_inv rt2" using new_engine_inv [OF conjunct1 [OF d] None n] by simp
    have "rt_inv (rt2\<lparr>ht_last_error := e\<rparr>)" for e by (rule inv_same [OF i]) (use inv_tuner [OF i] in simp_all)
    then show ?thesis using i inv r None n by (auto simp: runtime_loadModel_def Let_def split: sum.split)
  next
    case (Some h)
    then show ?thesis using d inv r by (simp add: runtime_loadModel_def Let_def)
  qed
qed

lemma unload_inv: "rt_inv rt \<Longrightarrow> rt_inv (runtime_unloadModel path rt)"
proof (cases "map_of (ht_engines rt) path")
  case (Some h)
  assume inv: "rt_inv rt"
  have "rt_inv (drop_engine path (emit_engine (EngineShutdown h) (emit_engine (EngineUnload h) rt)))"
    by (rule inv_drop(1) [OF inv Some]) (simp_all add: emit_engine_def)
  then show ?thesis using Some by (simp add: runtime_unloadModel_def)
qed (simp add: runtime_unloadModel_def)

lemma unload_all:
  defines "f \<equiv> \<lambda>(path :: string, h) rt. emit_engine (EngineShutdown h) (emit_engine (EngineUnload h) rt)"
  shows "loaded_in (ht_trace (fold f es rt)) g = (if g \<in> snd ` set es then None else loaded_in (ht_trace rt) g) \<and>
    ht_tuner (fold f es rt) = ht_tuner rt"
  by (induction es arbitrary: rt) (auto simp: f_def emit_engine_def)

lemma shutdown_inv:
  assumes inv: "rt_inv rt" shows "rt_inv (runtime_shutdown rt)"
proof -
  have "loaded_in (ht_trace (runtime_shutdown rt)) g = None" for g
  proof (cases "loaded_in (ht_trace rt) g")
    case (Some d)
    then have "map_of (ht_engines rt) (md_source_path d) = Some g" using inv by (simp add: rt_inv_def)
    then have "g \<in> snd ` set (ht_engines rt)" by (force dest: map_of_SomeD)
    then show ?thesis by (simp add: runtime_shutdown_def unload_all)
  qed (simp add: runtime_shutdown_def unload_all)
  moreover have "ht_tuner (runtime_shutdown rt) = ht_tuner rt" by (simp add: runtime_shutdown_def unload_all)
  moreover have "ht_engines (runtime_shutdown rt) = []" "ht_loaded_configs (runtime_shutdown rt) = []"
    by (simp_all add: runtime_shutdown_def)
  ultimately show ?thesis using inv_tuner [OF inv] by (simp add: rt_inv_def)
qed

lemma begin_spec:
  assumes inv: "rt_inv rt" and b: "generate_begin env path prompt n_ctx ident rt = (res, rt2)"
  defines "rt0 \<equiv> start_workload env ident rt"
  shows "rt_inv rt2 \<and> (case res of Inl err \<Rightarrow> err \<noteq> []
     | Inr flight \<Rightarrow> (\<exists>n. loaded_in (ht_trace rt2) (fl_engine flight) =
           Some (load_descriptor path (tc_n_gpu_layers (fl_config flight)) n)) \<and>
         tc_n_gpu_layers (fl_config flight) \<le> policy_limit env path (workload_class ident rt0) rt0 \<and>
         1 \<le> tc_n_threads (fl_config flight) \<and> fl_workload_id flight = ident)"
proof (cases "\<not> ht_initialized rt \<or> prompt = [] \<or> ident \<noteq> 0 \<and> workload_isCancelled ident (ht_registry rt)")
  case True
  then show ?thesis using inv b by (auto simp: generate_begin_def split: if_splits)
next
  case False
  have inv0: "rt_inv rt0" unfolding rt0_def
    by (rule inv_same [OF inv]) (use inv_tuner [OF inv] in \<open>simp_all add: start_workload_def\<close>)
  obtain tcfg rt1 where r: "resolveAndApplyConfig env path (workload_class ident rt0) rt0 = (tcfg, rt1)" by fastforce
  note rs = resolve_spec [OF inv0 r]
  let ?rt = "drop_if_changed path tcfg rt1"
  note d = drop_if_changed_inv [OF rs(1), of path tcfg]
  have b1: "generate_begin env path prompt n_ctx ident rt =
      (case map_of (ht_engines ?rt) path of
         Some h \<Rightarrow> (Inr \<lparr>fl_engine = h, fl_config = tcfg, fl_key = llm_key rt1 (backend_of_layers (tc_n_gpu_layers tcfg)) path,
            fl_workload_id = ident\<rparr>, ?rt)
       | None \<Rightarrow> (case new_engine env path tcfg n_ctx ?rt of
           (Inl err, rt) \<Rightarrow> (Inl (if err = [] then ''Failed to create execution engine from registry'' else err), rt)
         | (Inr h, rt) \<Rightarrow> (Inr \<lparr>fl_engine = h, fl_config = tcfg,
             fl_key = llm_key rt1 (backend_of_layers (tc_n_gpu_layers tcfg)) path, fl_workload_id = ident\<rparr>, rt)))"
    using False r by (auto simp: generate_begin_def rt0_def [symmetric] Let_def)
  show ?thesis
  proof (cases "map_of (ht_engines ?rt) path")
    case None
    obtain res1 rt3 where n: "new_engine env path tcfg n_ctx ?rt = (res1, rt3)" by fastforce
    note i = new_engine_inv [OF conjunct1 [OF d] None n]
    show ?thesis using b b1 None n i rs by (cases res1) auto
  next
    case (Some h)
    then show ?thesis using b b1 d rs by auto
  qed
qed

lemma initialize_inv: "rt_inv rt \<Longrightarrow> rt_inv (runtime_initialize hid bm prof rt)"
proof -
  assume inv: "rt_inv rt"
  have "tuner_ok []" by (rule auto_tuner.start_inv)
  then show ?thesis unfolding runtime_initialize_def
    using inv by (auto intro: inv_same)
qed

lemma finish_inv: "rt_inv rt \<Longrightarrow> rt_inv (generate_finish now flight success err wall_ms rt)"
  by (rule inv_same, assumption) (simp_all add: generate_finish_def auto_tuner.report_inv inv_tuner)

lemma execute_inv: "rt_inv rt \<Longrightarrow> rt_inv (generate_execute flight rt)"
  by (rule inv_same, assumption) (simp_all add: generate_execute_def emit_engine_def inv_tuner)

lemma registry_inv: "rt_inv rt \<Longrightarrow> rt_inv (snd (runtime_registerWorkload now name path prio wclass rt))"
  "rt_inv rt \<Longrightarrow> rt_inv (snd (runtime_cancelWorkload now ident rt))"
  by (rule inv_same, assumption; simp add: runtime_registerWorkload_def runtime_cancelWorkload_def inv_tuner split: prod.split)+

lemma step_inv: "rt_inv (sy_runtime sy) \<Longrightarrow> rt_inv (sy_runtime (runtime_step x sy))"
proof (cases x)
  case (Begin env path prompt n_ctx ident)
  assume inv: "rt_inv (sy_runtime sy)"
  obtain res rt2 where b: "generate_begin env path prompt n_ctx ident (sy_runtime sy) = (res, rt2)" by fastforce
  have "rt_inv rt2" using begin_spec [OF inv b] by simp
  then show ?thesis using Begin b by (simp split: sum.split)
qed (simp_all add: on_runtime_def initialize_inv loadModel_inv unload_inv shutdown_inv registry_inv execute_inv finish_inv)

lemma run_inv: "rt_inv (sy_runtime (runtime_run ops))"
proof -
  have "rt_inv (sy_runtime sy) \<Longrightarrow> rt_inv (sy_runtime (fold runtime_step ops sy))" for sy
    by (induction ops arbitrary: sy) (simp_all add: step_inv)
  then show ?thesis using inv_init by (simp add: runtime_run_def)
qed

section \<open>Properties\<close>

text \<open>
  C9: The runtime's table of engines is exact in every run, whatever generations, loads, unloads,
  shutdowns and initializations are interleaved and whatever the engines answer. An engine holds a
  model exactly when it is listed for that model, and the model was loaded with the number of layers
  recorded for it; engines and configurations are recorded for the same models. So no engine with a
  model is lost, and none is listed for two models.\<close>

theorem runtime_engines_exact:
  "(let rt = sy_runtime (runtime_run ops) in
     dom (map_of (ht_engines rt)) = dom (map_of (ht_loaded_configs rt)) \<and>
     (case loaded_in (ht_trace rt) h of
        None \<Rightarrow> h \<notin> ran (map_of (ht_engines rt))
      | Some d \<Rightarrow> map_of (ht_engines rt) (md_source_path d) = Some h \<and>
          (\<exists>c n. map_of (ht_loaded_configs rt) (md_source_path d) = Some c \<and>
             d = load_descriptor (md_source_path d) (tc_n_gpu_layers c) n)))"
proof -
  define rt where "rt = sy_runtime (runtime_run ops)"
  have inv: "rt_inv rt" unfolding rt_def by (rule run_inv)
  have "dom (map_of (ht_engines rt)) = dom (map_of (ht_loaded_configs rt))"
    using inv unfolding rt_inv_def dom_def by auto
  moreover have "case loaded_in (ht_trace rt) h of
        None \<Rightarrow> h \<notin> ran (map_of (ht_engines rt))
      | Some d \<Rightarrow> map_of (ht_engines rt) (md_source_path d) = Some h \<and>
          (\<exists>c n. map_of (ht_loaded_configs rt) (md_source_path d) = Some c \<and>
             d = load_descriptor (md_source_path d) (tc_n_gpu_layers c) n)"
  proof (cases "loaded_in (ht_trace rt) h")
    case None
    have "map_of (ht_engines rt) path \<noteq> Some h" for path
      using engine_loaded [OF inv, of path h] None by fastforce
    then show ?thesis using None by (auto simp: ran_def)
  next
    case (Some d)
    then have e: "map_of (ht_engines rt) (md_source_path d) = Some h" using inv by (simp add: rt_inv_def)
    show ?thesis using engine_loaded [OF inv e] e Some by fastforce
  qed
  ultimately show ?thesis unfolding rt_def [symmetric] Let_def by blast
qed

text \<open>
  C10: What a generation is handed when it releases the lock, in every reachable state: an error with a
  message, or an engine in which the model of the request is loaded with exactly the number of layers
  of its configuration, and that number is within the ceiling the policy sets at that moment for the
  workload's class, with at least one thread.\<close>

theorem generate_begin_ready:
  "(let rt = sy_runtime (runtime_run ops); rt0 = start_workload env workload_id rt in
    case generate_begin env model_path prompt n_ctx workload_id rt of
      (Inl err, _) \<Rightarrow> err \<noteq> []
    | (Inr flight, rt2) \<Rightarrow> (\<exists>n. loaded_in (ht_trace rt2) (fl_engine flight) =
          Some (load_descriptor model_path (tc_n_gpu_layers (fl_config flight)) n)) \<and>
        tc_n_gpu_layers (fl_config flight) \<le> policy_limit env model_path (workload_class workload_id rt0) rt0 \<and>
        1 \<le> tc_n_threads (fl_config flight))"
proof -
  define rt where "rt = sy_runtime (runtime_run ops)"
  obtain res rt2 where b: "generate_begin env model_path prompt n_ctx workload_id rt = (res, rt2)" by fastforce
  have inv: "rt_inv rt" unfolding rt_def by (rule run_inv)
  show ?thesis unfolding rt_def [symmetric] Let_def b using begin_spec [OF inv b] by (cases res) simp_all
qed

section \<open>What the lock does not cover\<close>

definition sample_runtime_env :: "bool \<Rightarrow> RuntimeEnv" where
  "sample_runtime_env ok = \<lparr>en_now = 1, en_file_size = None, en_cpu_pressure = PressureLevel.NORMAL,
     en_gpu_pressure = PressureLevel.NORMAL, en_max_threads = 8, en_factory = True, en_load_ok = ok, en_load_error = ''x''\<rparr>"

definition started :: runtime_op where
  "started = Initialize ''cpu'' backend_manager_init []"

lemmas run_eval = runtime_run_def started_def on_runtime_def runtime_initialize_def runtime_init_def sample_runtime_env_def
  runtime_registerWorkload_def registerWorkload_def workloads_init_def entry_default_def generate_begin_def
  workload_isCancelled_def start_workload_def setRunning_def update_entry_def workload_class_def workload_getClass_def
  resolveAndApplyConfig_def policy_limit_def selectStrategy_def policy_input_def gpu_avail_def isBackendAvailable_def
  getDevice_def backend_manager_init_def effective_pressure_def cpu_decision_def suggestConfiguration_def cold_start_def
  drop_if_changed_def new_engine_def emit_engine_def workload_getState_def runtime_unloadModel_def drop_engine_def
  generate_execute_def generate_finish_def finish_workload_def runtime_cancelWorkload_def workload_cancel_def
  runtime_shutdown_def recordResult_def after_success_def llm_key_def backend_of_layers_def

lemma failed_load_leaves_running:
  "workload_getState 1 (ht_registry (sy_runtime (runtime_run [started,
     RegisterWorkload 0 ''w'' ''m'' WorkloadPriority.NORMAL WorkloadClass.DEFAULT,
     Begin (sample_runtime_env False) ''m'' ''hi'' 512 1]))) = WorkloadState.RUNNING"
  by (simp add: run_eval Let_def)

lemma cancelled_run_stays_running:
  "workload_getState 1 (ht_registry (sy_runtime (runtime_run [started,
     RegisterWorkload 0 ''w'' ''m'' WorkloadPriority.NORMAL WorkloadClass.DEFAULT,
     Begin (sample_runtime_env True) ''m'' ''hi'' 512 1, Execute 0, CancelWorkload 2 1,
     Finish 0 3 False ''Generation cancelled'' 5]))) = WorkloadState.RUNNING"
  by (simp add: run_eval Let_def)

lemma unloaded_in_flight:
  "(let es = ht_trace (sy_runtime (runtime_run [started, Begin (sample_runtime_env True) ''m'' ''hi'' 512 0,
       UnloadModel ''m'', Execute 0]))
    in es \<noteq> [] \<and> es ! 0 = EngineExecute 0 0 \<and> loaded_in (tl es) 0 = None)"
  by (simp add: run_eval Let_def)

lemma shutdown_in_flight:
  "ht_use_after_free (sy_runtime (runtime_run [started, Begin (sample_runtime_env True) ''m'' ''hi'' 512 0, Execute 0,
     Shutdown, Finish 0 1 True [] 5]))"
  by (simp add: run_eval Let_def)

end
