(* ===== verification/Tokenizer.thy ===== *)
theory Tokenizer
  imports GGUFLoader
begin

text \<open>
  The byte-level BPE tokenizer (\<open>src/hydroxl/HydroXLTokenizer.h\<close>, \<open>src/hydroxl/HydroXLTokenizer.cpp\<close>).
  A \<open>std::string\<close> is its bytes, a position in it a natural number; every loop over a text keeps the
  code's index. The pre-tokenizer always cuts at consecutive positions, so one step is the end of the
  next piece. A token id is the 32-bit pattern of the code's signed id.
\<close>

section \<open>UTF-8\<close>

unbundle bit_operations_syntax

definition byte_at :: "string \<Rightarrow> nat \<Rightarrow> u32" where
  "byte_at s i = of_nat (of_char (s ! i))"

definition cont_bits :: "string \<Rightarrow> nat \<Rightarrow> u32" where
  "cont_bits s i = byte_at s i AND 0x3F"

definition decodeUtf8 :: "string \<Rightarrow> nat \<Rightarrow> u32 \<times> nat" where
  "decodeUtf8 s i = (let c0 = byte_at s i in
     if c0 < 0x80 then (c0, 1)
     else if c0 AND 0xE0 = 0xC0 \<and> i + 1 < length s then
       (push_bit 6 (c0 AND 0x1F) OR cont_bits s (i + 1), 2)
     else if c0 AND 0xF0 = 0xE0 \<and> i + 2 < length s then
       (push_bit 12 (c0 AND 0x0F) OR push_bit 6 (cont_bits s (i + 1)) OR cont_bits s (i + 2), 3)
     else if c0 AND 0xF8 = 0xF0 \<and> i + 3 < length s then
       (push_bit 18 (c0 AND 0x07) OR push_bit 12 (cont_bits s (i + 1)) OR
          push_bit 6 (cont_bits s (i + 2)) OR cont_bits s (i + 3), 4)
     else (c0, 1))"

definition char_of_u32 :: "u32 \<Rightarrow> char" where
  "char_of_u32 w = char_of (unat w)"

definition encodeUtf8 :: "u32 \<Rightarrow> string" where
  "encodeUtf8 cp = (
     if cp < 0x80 then [char_of_u32 cp]
     else if cp < 0x800 then [char_of_u32 (0xC0 OR drop_bit 6 cp), char_of_u32 (0x80 OR (cp AND 0x3F))]
     else if cp < 0x10000 then [char_of_u32 (0xE0 OR drop_bit 12 cp),
       char_of_u32 (0x80 OR (drop_bit 6 cp AND 0x3F)), char_of_u32 (0x80 OR (cp AND 0x3F))]
     else [char_of_u32 (0xF0 OR drop_bit 18 cp), char_of_u32 (0x80 OR (drop_bit 12 cp AND 0x3F)),
       char_of_u32 (0x80 OR (drop_bit 6 cp AND 0x3F)), char_of_u32 (0x80 OR (cp AND 0x3F))])"

section \<open>Character classes\<close>

definition cpIsSpace :: "u32 \<Rightarrow> bool" where
  "cpIsSpace cp \<longleftrightarrow> cp = 32 \<or> cp = 9 \<or> cp = 10 \<or> cp = 11 \<or> cp = 12 \<or> cp = 13"

definition cpIsNewline :: "u32 \<Rightarrow> bool" where
  "cpIsNewline cp \<longleftrightarrow> cp = 13 \<or> cp = 10"

definition cpIsDigit :: "u32 \<Rightarrow> bool" where
  "cpIsDigit cp \<longleftrightarrow> cp \<ge> 48 \<and> cp \<le> 57"

definition cpIsLetter :: "u32 \<Rightarrow> bool" where
  "cpIsLetter cp \<longleftrightarrow> (cp \<ge> 97 \<and> cp \<le> 122) \<or> (cp \<ge> 65 \<and> cp \<le> 90) \<or> cp \<ge> 0x80"

definition cpIsOther :: "u32 \<Rightarrow> bool" where
  "cpIsOther cp \<longleftrightarrow> \<not> cpIsSpace cp \<and> \<not> cpIsDigit cp \<and> \<not> cpIsLetter cp"

definition cpIsPrefixable :: "u32 \<Rightarrow> bool" where
  "cpIsPrefixable cp \<longleftrightarrow> \<not> cpIsNewline cp \<and> \<not> cpIsDigit cp \<and> \<not> cpIsLetter cp"

definition asciiLower :: "char \<Rightarrow> char" where
  "asciiLower c = (let n = of_char c :: nat in if 65 \<le> n \<and> n \<le> 90 then char_of (n - 65 + 97) else c)"

section \<open>Byte tables\<close>

definition maps_to_itself :: "nat \<Rightarrow> bool" where
  "maps_to_itself b \<longleftrightarrow> (b \<ge> 33 \<and> b \<le> 126) \<or> (b \<ge> 161 \<and> b \<le> 172) \<or> (b \<ge> 174 \<and> b \<le> 255)"

fun byte_cps :: "nat list \<Rightarrow> u32 \<Rightarrow> u32 list" where
  "byte_cps [] nxt = []"
| "byte_cps (b # bs) nxt = (if maps_to_itself b then of_nat b # byte_cps bs nxt
     else nxt # byte_cps bs (nxt + 1))"

definition byte_to_unicode :: "string list" where
  "byte_to_unicode = map encodeUtf8 (byte_cps [0..<256] 256)"

definition unicode_to_byte :: "string \<Rightarrow> nat option" where
  "unicode_to_byte = fold (\<lambda>b m. m(byte_to_unicode ! b \<mapsto> b)) [0..<256] Map.empty"

section \<open>Pre-tokenization\<close>

lemma decodeUtf8_len: "i < length s \<Longrightarrow> 1 \<le> snd (decodeUtf8 s i) \<and> i + snd (decodeUtf8 s i) \<le> length s"
  by (simp add: decodeUtf8_def Let_def)

lemma decodeUtf8_pos [simp]: "0 < snd (decodeUtf8 s i)"
  by (simp add: decodeUtf8_def Let_def)

definition cp_at :: "string \<Rightarrow> nat \<Rightarrow> u32" where
  "cp_at s i = fst (decodeUtf8 s i)"

definition len_at :: "string \<Rightarrow> nat \<Rightarrow> nat" where
  "len_at s i = snd (decodeUtf8 s i)"

lemma len_at_pos [simp]: "0 < len_at s i"
  by (simp add: len_at_def)

text \<open>The loops that advance over characters of a class.\<close>

function scan_while :: "(u32 \<Rightarrow> bool) \<Rightarrow> string \<Rightarrow> nat \<Rightarrow> nat" where
  "scan_while P s j = (if j < length s \<and> P (cp_at s j) then scan_while P s (j + len_at s j) else j)"
  by auto
termination by (relation "measure (\<lambda>(P, s, j). length s - j)") (auto intro: diff_less_mono2)

fun scan_digits :: "nat \<Rightarrow> string \<Rightarrow> nat \<Rightarrow> nat" where
  "scan_digits 0 s j = j"
| "scan_digits (Suc n) s j = (if j < length s \<and> cpIsDigit (cp_at s j)
     then scan_digits n s (j + len_at s j) else j)"

function scan_space :: "string \<Rightarrow> nat \<Rightarrow> nat option \<Rightarrow> nat \<times> nat option" where
  "scan_space s j last_nl = (if j < length s \<and> cpIsSpace (cp_at s j)
     then scan_space s (j + len_at s j) (if cpIsNewline (cp_at s j) then Some (j + len_at s j) else last_nl)
     else (j, last_nl))"
  by auto
termination by (relation "measure (\<lambda>(s, j, l). length s - j)") (auto intro: diff_less_mono2)

declare scan_while.simps [simp del] scan_space.simps [simp del]

text \<open>The look-ahead of an iteration: the next three code points and their lengths.\<close>

record lookahead =
  la_c0 :: u32  la_c1 :: u32  la_c2 :: u32
  la_l0 :: nat  la_l1 :: nat  la_l2 :: nat

definition look :: "string \<Rightarrow> nat \<Rightarrow> lookahead" where
  "look s i = (let
     c0 = cp_at s i; l0 = len_at s i;
     i1 = i + l0;
     c1 = (if i1 < length s then cp_at s i1 else 0); l1 = (if i1 < length s then len_at s i1 else 1);
     i2 = i1 + (if c1 \<noteq> 0 then l1 else 0);
     c2 = (if i2 < length s then cp_at s i2 else 0); l2 = (if i2 < length s then len_at s i2 else 1)
   in \<lparr>la_c0 = c0, la_c1 = c1, la_c2 = c2, la_l0 = l0, la_l1 = l1, la_l2 = l2\<rparr>)"

text \<open>Rule 1: contractions.\<close>

definition contraction :: "lookahead \<Rightarrow> nat" where
  "contraction la = (if la_c0 la = 39 \<and> la_c1 la \<noteq> 0 then let a = asciiLower (char_of_u32 (la_c1 la)) in
       if a = CHR ''s'' \<or> a = CHR ''t'' \<or> a = CHR ''m'' \<or> a = CHR ''d'' then la_l0 la + la_l1 la
       else if la_c2 la \<noteq> 0 then let b2 = asciiLower (char_of_u32 (la_c2 la)) in
         if (a = CHR ''r'' \<and> b2 = CHR ''e'') \<or> (a = CHR ''v'' \<and> b2 = CHR ''e'') \<or>
            (a = CHR ''l'' \<and> b2 = CHR ''l'') then la_l0 la + la_l1 la + la_l2 la else 0
       else 0
     else 0)"

text \<open>Rule 4: an optional space, a run of other characters and the newlines behind it.\<close>

definition other_cp :: "u32 \<Rightarrow> bool" where
  "other_cp c \<longleftrightarrow> cpIsOther c \<and> \<not> cpIsNewline c"

definition other_run :: "string \<Rightarrow> nat \<Rightarrow> lookahead \<Rightarrow> nat option" where
  "other_run s i la = (let
     j = (if la_c0 la = 32 \<and> la_c1 la \<noteq> 0 \<and> other_cp (la_c1 la) then i + la_l0 la else i);
     k = scan_while other_cp s j
   in if k > j then Some (scan_while cpIsNewline s k) else None)"

text \<open>Rules 5 and 6: whitespace.\<close>

definition space_run :: "string \<Rightarrow> nat \<Rightarrow> nat" where
  "space_run s i = (case scan_space s i None of (j, last_nl) \<Rightarrow> (case last_nl of
       Some e \<Rightarrow> e
     | None \<Rightarrow> if j = length s then j else if j - i \<ge> 2 then j - 1 else j))"

definition piece_end :: "string \<Rightarrow> nat \<Rightarrow> nat" where
  "piece_end s i = (let la = look s i in
     if contraction la > 0 then i + contraction la
     else if cpIsLetter (la_c0 la) then scan_while cpIsLetter s (i + la_l0 la)
     else if cpIsPrefixable (la_c0 la) \<and> la_c1 la \<noteq> 0 \<and> cpIsLetter (la_c1 la) then
       scan_while cpIsLetter s (i + la_l0 la)
     else if cpIsDigit (la_c0 la) then scan_digits 2 s (i + la_l0 la)
     else (case other_run s i la of
         Some k \<Rightarrow> k
       | None \<Rightarrow> if cpIsSpace (la_c0 la) then space_run s i else i + la_l0 la))"

section \<open>Every piece ends behind its start and inside the text\<close>

lemma next_inside: "i < length s \<Longrightarrow> i + len_at s i \<le> length s"
  using decodeUtf8_len by (simp add: len_at_def)

lemma scan_while_bounds: "j \<le> scan_while P s j" "j \<le> length s \<Longrightarrow> scan_while P s j \<le> length s"
proof (induction P s j rule: scan_while.induct)
  case (1 P s j)
  {
    case 1 show ?case using "1.IH"(1) by (simp add: scan_while.simps [of P s j]) (metis add_leD1)
  next
    case 2 show ?case using "1.IH"(2) 2 next_inside [of j s] by (simp add: scan_while.simps [of P s j])
  }
qed

lemma scan_digits_bounds: "j \<le> scan_digits n s j" "j \<le> length s \<Longrightarrow> scan_digits n s j \<le> length s"
proof (induction n arbitrary: j)
  case (Suc n)
  {
    case 1 show ?case using Suc.IH(1) [of "j + len_at s j"] by simp
  next
    case 2 then show ?case using Suc.IH(2) [of "j + len_at s j"] next_inside [of j s] by simp
  }
qed simp_all

text \<open>A scan that starts on whitespace moves on; the position behind its last newline lies between.\<close>

lemma scan_space_bounds:
  assumes "scan_space s j l = (k, m)" "j \<le> length s"
  shows "j \<le> k \<and> k \<le> length s \<and> (m = l \<or> (\<exists>e. m = Some e \<and> j < e \<and> e \<le> k))"
  using assms
proof (induction s j l rule: scan_space.induct)
  case (1 s j l)
  show ?case
  proof (cases "j < length s \<and> cpIsSpace (cp_at s j)")
    case True
    let ?l = "if cpIsNewline (cp_at s j) then Some (j + len_at s j) else l"
    have r: "scan_space s (j + len_at s j) ?l = (k, m)"
      using "1.prems"(1) True by (simp add: scan_space.simps [of s j l])
    note ih = "1.IH" [OF True r next_inside [of j s]]
    have "j < j + len_at s j" by simp
    then show ?thesis using ih True by (auto split: if_splits)
  next
    case False
    then show ?thesis using "1.prems" by (auto simp: scan_space.simps [of s j l])
  qed
qed

lemma scan_space_moves:
  assumes "scan_space s i None = (k, m)" "i < length s" "cpIsSpace (cp_at s i)"
  shows "i < k"
proof -
  let ?l = "if cpIsNewline (cp_at s i) then Some (i + len_at s i) else None"
  have "scan_space s (i + len_at s i) ?l = (k, m)"
    using assms by (simp add: scan_space.simps [of s i None])
  from scan_space_bounds [OF this next_inside [OF assms(2)]] have "i + len_at s i \<le> k" by simp
  then show ?thesis using len_at_pos [of s i] by linarith
qed

lemma space_run_bounds:
  assumes "i < length s" "cpIsSpace (cp_at s i)"
  shows "i < space_run s i \<and> space_run s i \<le> length s"
proof -
  obtain k m where r: "scan_space s i None = (k, m)" by fastforce
  show ?thesis
    using scan_space_bounds [OF r] scan_space_moves [OF r assms] assms(1)
    by (auto simp: space_run_def r split: option.splits)
qed

lemma look_bounds:
  assumes "i < length s"
  defines "la \<equiv> look s i"
  shows "0 < la_l0 la" "i + la_l0 la \<le> length s"
    "la_c1 la \<noteq> 0 \<Longrightarrow> i + la_l0 la + la_l1 la \<le> length s"
    "la_c1 la \<noteq> 0 \<Longrightarrow> la_c2 la \<noteq> 0 \<Longrightarrow> i + la_l0 la + la_l1 la + la_l2 la \<le> length s"
  using next_inside [OF assms(1)] next_inside [of "i + len_at s i" s]
    next_inside [of "i + len_at s i + len_at s (i + len_at s i)" s]
  by (auto simp: la_def look_def Let_def split: if_splits)

lemma contraction_bounds:
  assumes "i < length s" "contraction (look s i) > 0"
  shows "i + contraction (look s i) \<le> length s"
  using assms(2) look_bounds [OF assms(1)]
  by (auto simp: contraction_def Let_def ac_simps split: if_splits)

lemma other_run_bounds:
  assumes "i < length s" "other_run s i (look s i) = Some k"
  shows "i < k \<and> k \<le> length s"
proof -
  define j where "j = (if la_c0 (look s i) = 32 \<and> la_c1 (look s i) \<noteq> 0 \<and> other_cp (la_c1 (look s i))
    then i + la_l0 (look s i) else i)"
  have j: "i \<le> j" "j \<le> length s" using look_bounds [OF assms(1)] assms(1) by (simp_all add: j_def)
  have k: "scan_while other_cp s j > j" "k = scan_while cpIsNewline s (scan_while other_cp s j)"
    using assms(2) by (auto simp: other_run_def Let_def j_def [symmetric] split: if_splits)
  have "scan_while other_cp s j \<le> length s" using j(2) by (rule scan_while_bounds(2))
  then show ?thesis
    using k j scan_while_bounds [where j = "scan_while other_cp s j" and s = s and P = cpIsNewline] by linarith
qed

lemma piece_end_bounds:
  assumes "i < length s"
  shows "i < piece_end s i \<and> piece_end s i \<le> length s"
proof -
  note la = look_bounds [OF assms]
  have w: "i < scan_while P s (i + la_l0 (look s i)) \<and> scan_while P s (i + la_l0 (look s i)) \<le> length s" for P
    using la(1,2) scan_while_bounds [where j = "i + la_l0 (look s i)" and s = s and P = P] by linarith
  have d: "i < scan_digits 2 s (i + la_l0 (look s i)) \<and> scan_digits 2 s (i + la_l0 (look s i)) \<le> length s"
    using la(1,2) scan_digits_bounds [where j = "i + la_l0 (look s i)" and s = s and n = 2] by linarith
  have sp: "cpIsSpace (la_c0 (look s i)) \<Longrightarrow> i < space_run s i \<and> space_run s i \<le> length s"
    using space_run_bounds [OF assms] by (simp add: look_def Let_def)
  show ?thesis
    using contraction_bounds [OF assms] other_run_bounds [OF assms] w d sp la(1,2)
    by (simp add: piece_end_def Let_def split: option.split)
qed

section \<open>The loops over a text\<close>

definition substr :: "string \<Rightarrow> nat \<Rightarrow> nat \<Rightarrow> string" where
  "substr s i n = take n (drop i s)"

function pre_loop :: "string \<Rightarrow> nat \<Rightarrow> string list" where
  "pre_loop s i = (if i < length s then substr s i (piece_end s i - i) # pre_loop s (piece_end s i) else [])"
  by auto
termination
  by (relation "measure (\<lambda>(s, i). length s - i)") (use piece_end_bounds in \<open>auto intro: diff_less_mono2\<close>)

declare pre_loop.simps [simp del]

definition preTokenize :: "string \<Rightarrow> string list" where
  "preTokenize s = pre_loop s 0"

lemma pre_loop_concat: "concat (pre_loop s i) = drop i s"
proof (induction s i rule: pre_loop.induct)
  case (1 s i)
  show ?case
  proof (cases "i < length s")
    case True
    have "take (piece_end s i - i) (drop i s) @ drop (piece_end s i) s = drop i s"
      using piece_end_bounds [OF True] append_take_drop_id [of "piece_end s i - i" "drop i s"] by simp
    then show ?thesis using 1 [OF True] True by (simp add: pre_loop.simps [of s i] substr_def)
  qed (simp add: pre_loop.simps [of s i])
qed

lemma pre_loop_nonempty: "[] \<notin> set (pre_loop s i)"
proof (induction s i rule: pre_loop.induct)
  case (1 s i)
  then show ?case using piece_end_bounds [of i s] by (auto simp: pre_loop.simps [of s i] substr_def)
qed

section \<open>State and loading\<close>

type_synonym TokenID = "32 word"

definition TOKEN_INVALID :: TokenID where "TOKEN_INVALID = - 1"

record Tokenizer =
  tz_loaded :: bool
  tz_add_bos :: bool
  tz_vocab :: "string list"
  tz_str_to_id :: "string \<Rightarrow> TokenID option"
  tz_merge_rank :: "string \<Rightarrow> int option"
  tz_token_type :: "u32 list"
  tz_bos_id :: TokenID
  tz_eos_id :: TokenID
  tz_unk_id :: TokenID
  tz_last_error :: string

definition tokenizer_default :: Tokenizer where
  "tokenizer_default = \<lparr>tz_loaded = False, tz_add_bos = False, tz_vocab = [], tz_str_to_id = Map.empty,
     tz_merge_rank = Map.empty, tz_token_type = [], tz_bos_id = 151643, tz_eos_id = 151645,
     tz_unk_id = TOKEN_INVALID, tz_last_error = []\<rparr>"

definition index_vocab :: "string list \<Rightarrow> string \<Rightarrow> TokenID option" where
  "index_vocab vocab = fold (\<lambda>i m. m(vocab ! i \<mapsto> of_nat i)) [0..<length vocab] Map.empty"

definition quoted :: "string \<Rightarrow> string" where
  "quoted s = [char_of (39::nat)] @ s @ [char_of (39::nat)]"

text \<open>A merge is two symbols with exactly one space between them; the loop stops at the first entry
  that is not.\<close>

fun rank_merges :: "nat \<Rightarrow> string list \<Rightarrow> (string \<Rightarrow> int option) \<Rightarrow> string option \<times> (string \<Rightarrow> int option)" where
  "rank_merges i [] ranks = (None, ranks)"
| "rank_merges i (m # ms) ranks = (if length (filter (\<lambda>c. c = CHR '' '') m) \<noteq> 1
     then (Some (''Malformed merge entry #'' @ digits_of i @ '': '' @ quoted m), ranks)
     else rank_merges (i + 1) ms (ranks(m \<mapsto> int i)))"

definition token_types :: "(string \<times> GGUFValue) list \<Rightarrow> nat \<Rightarrow> u32 list" where
  "token_types kvs n = (case lookup_kv kvs ''tokenizer.ggml.token_type'' of
     Some (VInt32s arr) \<Rightarrow> map (\<lambda>i. if i < length arr then arr ! i else 1) [0..<n]
   | _ \<Rightarrow> replicate n 1)"

definition special_ids :: "(string \<times> GGUFValue) list \<Rightarrow> Tokenizer \<Rightarrow> Tokenizer" where
  "special_ids kvs t = t\<lparr>
     tz_bos_id := kvUInt32 kvs ''tokenizer.ggml.bos_token_id'' TOKEN_INVALID,
     tz_eos_id := kvUInt32 kvs ''tokenizer.ggml.eos_token_id'' TOKEN_INVALID,
     tz_unk_id := kvUInt32 kvs ''tokenizer.ggml.unknown_token_id'' TOKEN_INVALID,
     tz_add_bos := (case lookup_kv kvs ''tokenizer.ggml.add_bos_token'' of
       None \<Rightarrow> False | Some (VBool b) \<Rightarrow> b | Some _ \<Rightarrow> tz_add_bos t)\<rparr>"

definition loadFromGGUF :: "(string \<times> GGUFValue) list \<Rightarrow> Tokenizer \<Rightarrow> bool \<times> Tokenizer" where
  "loadFromGGUF kvs t = (let
     t = t\<lparr>tz_loaded := False\<rparr>;
     model = kvString kvs ''tokenizer.ggml.model'' [];
     tokens = kvStringArray kvs ''tokenizer.ggml.tokens'';
     merges = kvStringArray kvs ''tokenizer.ggml.merges''
   in if model \<noteq> ''gpt2'' then (False, t\<lparr>tz_last_error := ''Unsupported tokenizer model '' @ quoted model @
        '' (only '' @ quoted ''gpt2'' @ '' byte-level BPE is supported)''\<rparr>)
      else if tokens = [] then
        (False, t\<lparr>tz_last_error := ''tokenizer.ggml.tokens (string array) missing or empty''\<rparr>)
      else if merges = [] then
        (False, t\<lparr>tz_last_error := ''tokenizer.ggml.merges (string array) missing or empty '' @ emdash @
          '' required for gpt2 BPE''\<rparr>)
      else let t = t\<lparr>tz_vocab := tokens, tz_str_to_id := index_vocab tokens\<rparr> in
        (case rank_merges 0 merges Map.empty of
          (Some e, ranks) \<Rightarrow> (False, t\<lparr>tz_merge_rank := ranks, tz_last_error := e\<rparr>)
        | (None, ranks) \<Rightarrow> (True, special_ids kvs (t\<lparr>tz_merge_rank := ranks,
            tz_token_type := token_types kvs (length tokens), tz_loaded := True\<rparr>))))"

section \<open>Byte pair encoding\<close>

definition pair_key :: "string \<Rightarrow> string \<Rightarrow> string" where
  "pair_key l r = l @ '' '' @ r"

definition INT_MAX :: int where "INT_MAX = 2147483647"

fun best_pair :: "(string \<Rightarrow> int option) \<Rightarrow> int \<Rightarrow> (string \<times> string) option \<Rightarrow> string list
    \<Rightarrow> (string \<times> string) option" where
  "best_pair ranks best bp (a # b # rest) = (case ranks (pair_key a b) of
       Some r \<Rightarrow> if r < best then best_pair ranks r (Some (a, b)) (b # rest)
         else best_pair ranks best bp (b # rest)
     | None \<Rightarrow> best_pair ranks best bp (b # rest))"
| "best_pair ranks best bp _ = bp"

fun merge_pairs :: "string \<Rightarrow> string \<Rightarrow> string list \<Rightarrow> string list" where
  "merge_pairs l r (a # b # rest) = (if a = l \<and> b = r then (l @ r) # merge_pairs l r rest
     else a # merge_pairs l r (b # rest))"
| "merge_pairs l r xs = xs"

fun adjacent :: "string \<Rightarrow> string \<Rightarrow> string list \<Rightarrow> bool" where
  "adjacent l r (a # b # rest) \<longleftrightarrow> (a = l \<and> b = r) \<or> adjacent l r (b # rest)"
| "adjacent l r _ \<longleftrightarrow> False"

lemma best_pair_adjacent:
  "best_pair ranks best bp xs = Some (l, r) \<Longrightarrow> bp = Some (l, r) \<or>
     (adjacent l r xs \<and> ranks (pair_key l r) \<noteq> None)"
  by (induction ranks best bp xs rule: best_pair.induct) (auto split: option.splits if_splits)

lemma merge_pairs_le: "length (merge_pairs l r xs) \<le> length xs"
  by (induction l r xs rule: merge_pairs.induct) auto

lemma merge_pairs_less: "adjacent l r xs \<Longrightarrow> length (merge_pairs l r xs) < length xs"
proof (induction l r xs rule: merge_pairs.induct)
  case (1 l r a b rest)
  then show ?case using merge_pairs_le [of l r rest] by auto
qed auto

lemma merge_pairs_concat: "concat (merge_pairs l r xs) = concat xs"
  by (induction l r xs rule: merge_pairs.induct) auto

lemma merge_pairs_set: "set (merge_pairs l r xs) \<subseteq> insert (l @ r) (set xs)"
  by (induction l r xs rule: merge_pairs.induct) auto

function bpe_loop :: "(string \<Rightarrow> int option) \<Rightarrow> string list \<Rightarrow> string list" where
  "bpe_loop ranks symbols = (if length symbols > 1 then
     (case best_pair ranks INT_MAX None symbols of
       None \<Rightarrow> symbols
     | Some (l, r) \<Rightarrow> bpe_loop ranks (merge_pairs l r symbols)) else symbols)"
  by auto
termination
  by (relation "measure (\<lambda>(ranks, symbols). length symbols)")
    (use best_pair_adjacent merge_pairs_less in fastforce)+

declare bpe_loop.simps [simp del]

definition byte_symbol :: "char \<Rightarrow> string" where
  "byte_symbol c = byte_to_unicode ! of_char c"

definition tokenToId :: "Tokenizer \<Rightarrow> string \<Rightarrow> TokenID" where
  "tokenToId t s = (case tz_str_to_id t s of None \<Rightarrow> TOKEN_INVALID | Some i \<Rightarrow> i)"

definition symbol_ids :: "Tokenizer \<Rightarrow> string \<Rightarrow> TokenID list" where
  "symbol_ids t smb = (let i = tokenToId t smb in
     if i = TOKEN_INVALID then filter (\<lambda>b. b \<noteq> TOKEN_INVALID) (map (\<lambda>ch. tokenToId t (byte_symbol ch)) smb)
     else [i])"

definition bpe :: "Tokenizer \<Rightarrow> string \<Rightarrow> TokenID list" where
  "bpe t piece = concat (map (symbol_ids t) (bpe_loop (tz_merge_rank t) (map byte_symbol piece)))"

section \<open>Encoding and decoding\<close>

definition encode_text :: "Tokenizer \<Rightarrow> string \<Rightarrow> bool \<Rightarrow> TokenID list" where
  "encode_text t s add_bos = (if \<not> tz_loaded t then []
     else (if add_bos \<and> tz_bos_id t \<noteq> TOKEN_INVALID then [tz_bos_id t] else []) @
       concat (map (bpe t) (preTokenize s)))"

definition in_vocab :: "Tokenizer \<Rightarrow> TokenID \<Rightarrow> bool" where
  "in_vocab t i \<longleftrightarrow> \<not> sint i < 0 \<and> unat i < length (tz_vocab t)"

definition decodeToken :: "Tokenizer \<Rightarrow> TokenID \<Rightarrow> string" where
  "decodeToken t i = (if in_vocab t i then tz_vocab t ! unat i else [])"

definition token_text :: "Tokenizer \<Rightarrow> bool \<Rightarrow> TokenID \<Rightarrow> string" where
  "token_text t skip_special i = (if \<not> in_vocab t i then []
     else if skip_special \<and> unat i < length (tz_token_type t) \<and>
         (tz_token_type t ! unat i = 3 \<or> tz_token_type t ! unat i = 5) then []
     else tz_vocab t ! unat i)"

function unmap_loop :: "string \<Rightarrow> nat \<Rightarrow> string" where
  "unmap_loop s i = (if i < length s then let
       n = len_at s i; ch = substr s i n
     in (case unicode_to_byte ch of Some b \<Rightarrow> [char_of b] | None \<Rightarrow> ch) @ unmap_loop s (i + n) else [])"
  by auto
termination by (relation "measure (\<lambda>(s, i). length s - i)") (auto intro: diff_less_mono2)

declare unmap_loop.simps [simp del]

definition decode_ids :: "Tokenizer \<Rightarrow> TokenID list \<Rightarrow> bool \<Rightarrow> string" where
  "decode_ids t ids skip_special = (if \<not> tz_loaded t then []
     else unmap_loop (concat (map (token_text t skip_special) ids)) 0)"

end
