(* ===== verification/TokenizerProperties.thy ===== *)
theory TokenizerProperties
  imports Tokenizer
begin

text \<open>
  The tokenizer loses nothing: UTF-8 and the byte tables are inverted by their decoders, the
  pre-tokenizer cuts a text into its pieces, merging keeps the concatenation, and decoding an encoded
  text gives the text back.
\<close>

section \<open>UTF-8 round trip\<close>

unbundle bit_operations_syntax

lemma u32_bits:
  assumes "unat (cp :: u32) < 2 ^ k" "bit cp n"
  shows "n < k"
proof (rule ccontr)
  assume "\<not> n < k"
  moreover have "take_bit k (unat cp) = unat cp" using assms(1) by (rule take_bit_nat_eq_self)
  moreover have "bit (unat cp) n" using assms(2) by (simp add: bit_unsigned_iff)
  ultimately show False by (metis bit_take_bit_iff)
qed

lemma bit_128: "bit (0x80 :: int) n \<longleftrightarrow> n = 7"
proof -
  have "(0x80 :: int) = 2 ^ 7" by simp
  then show ?thesis by (simp only: bit_exp_iff) auto
qed

lemma masks: "(0x1F :: u32) = mask 5" "(0x0F :: u32) = mask 4" "(0x07 :: u32) = mask 3" "(0x3F :: u32) = mask 6"
  "(0xC0 :: u32) = push_bit 6 (mask 2)" "(0xE0 :: u32) = push_bit 5 (mask 3)" "(0xF0 :: u32) = push_bit 4 (mask 4)"
  "(0xF8 :: u32) = push_bit 3 (mask 5)" "(0xFF :: u32) = mask 8"
  by (simp_all add: mask_eq_exp_minus_1)

lemma byte_at_char: "s ! i = char_of_u32 w \<Longrightarrow> byte_at s i = take_bit 8 w"
  by (simp add: byte_at_def char_of_u32_def word_unat_eq_iff unsigned_take_bit_eq take_bit_eq_mod unat_of_nat unat_mod)

lemma two_bytes:
  fixes cp :: u32
  assumes "cp < 0x800"
  shows "push_bit 6 (take_bit 8 (0xC0 OR drop_bit 6 cp) AND 0x1F) OR (take_bit 8 (0x80 OR (cp AND 0x3F)) AND 0x3F) = cp"
    "take_bit 8 (0xC0 OR drop_bit 6 cp) AND 0xE0 = 0xC0"
proof -
  have b: "n < 11" if "bit cp n" for n using u32_bits [of cp 11 n] assms that by (simp add: word_less_nat_alt)
  show "push_bit 6 (take_bit 8 (0xC0 OR drop_bit 6 cp) AND 0x1F) OR (take_bit 8 (0x80 OR (cp AND 0x3F)) AND 0x3F) = cp"
    unfolding masks by (rule bit_word_eqI) (auto simp: bit_simps bit_128 dest: b)
  show "take_bit 8 (0xC0 OR drop_bit 6 cp) AND 0xE0 = 0xC0"
    unfolding masks by (rule bit_word_eqI) (auto simp: bit_simps bit_128 dest!: b)
qed

lemma one_byte: "(cp :: u32) < 0x80 \<Longrightarrow> take_bit 8 cp = cp"
proof -
  assume "cp < 0x80"
  then have "unat cp < 2 ^ 8" by (simp add: word_less_nat_alt)
  then show ?thesis by (simp add: word_unat_eq_iff unsigned_take_bit_eq take_bit_nat_eq_self)
qed

lemma lead_not_ascii: "\<not> take_bit 8 (0xC0 OR w) < (0x80 :: u32)"
proof
  assume a: "take_bit 8 (0xC0 OR w) < (0x80 :: u32)"
  have "bit (take_bit 8 (0xC0 OR w)) 7" unfolding masks by (simp add: bit_simps)
  then show False using u32_bits [of "take_bit 8 (0xC0 OR w)" 7 7] a by (simp add: word_less_nat_alt)
qed

lemma decode_encode:
  assumes "cp < 0x800"
  shows "decodeUtf8 (pre @ encodeUtf8 cp @ post) (length pre) = (cp, length (encodeUtf8 cp))"
proof (cases "cp < 0x80")
  case True
  let ?s = "pre @ encodeUtf8 cp @ post"
  have "?s ! length pre = char_of_u32 cp" using True by (simp add: encodeUtf8_def nth_append)
  then have "byte_at ?s (length pre) = cp" by (simp add: byte_at_char one_byte [OF True])
  then show ?thesis using True by (simp add: decodeUtf8_def encodeUtf8_def Let_def)
next
  case False
  let ?s = "pre @ encodeUtf8 cp @ post"
  have e: "encodeUtf8 cp = [char_of_u32 (0xC0 OR drop_bit 6 cp), char_of_u32 (0x80 OR (cp AND 0x3F))]"
    using False assms by (simp add: encodeUtf8_def)
  have "?s ! length pre = char_of_u32 (0xC0 OR drop_bit 6 cp)"
    "?s ! (length pre + 1) = char_of_u32 (0x80 OR (cp AND 0x3F))"
    by (simp_all add: e nth_append)
  then have b: "byte_at ?s (length pre) = take_bit 8 (0xC0 OR drop_bit 6 cp)"
    "byte_at ?s (length pre + 1) = take_bit 8 (0x80 OR (cp AND 0x3F))"
    by (simp_all add: byte_at_char)
  have "length pre + 1 < length ?s" by (simp add: e)
  then show ?thesis
    using two_bytes [OF assms] lead_not_ascii [of "drop_bit 6 cp"]
    unfolding decodeUtf8_def Let_def cont_bits_def b by (simp add: e)
qed

lemma encode_inj:
  assumes "encodeUtf8 a = encodeUtf8 b" "a < 0x800" "b < 0x800"
  shows "a = b"
proof -
  have "(a, length (encodeUtf8 a)) = (b, length (encodeUtf8 b))"
    using decode_encode [OF assms(2), of "[]" "[]"] decode_encode [OF assms(3), of "[]" "[]"] assms(1) by simp
  then show ?thesis by simp
qed

section \<open>The byte tables\<close>

text \<open>Bytes that stand for themselves keep their value; the others are numbered from 256 on.\<close>

lemma byte_cps_length [simp]: "length (byte_cps bs n) = length bs"
  by (induction bs arbitrary: n) simp_all

lemma byte_cps_range:
  "cp \<in> set (byte_cps bs n) \<Longrightarrow> list_all (\<lambda>b. b < 256) bs \<Longrightarrow> unat n + length bs \<le> 2 ^ 16 \<Longrightarrow>
   (\<exists>b\<in>set bs. maps_to_itself b \<and> cp = of_nat b) \<or> (unat n \<le> unat cp \<and> unat cp < unat n + length bs)"
proof (induction bs arbitrary: n)
  case (Cons b bs)
  show ?case
  proof (cases "maps_to_itself b")
    case True
    from Cons.prems(1) True consider "cp = of_nat b" | "cp \<in> set (byte_cps bs n)" by auto
    then show ?thesis
    proof cases
      case 1 then show ?thesis using True by auto
    next
      case 2
      from Cons.IH [OF this] Cons.prems show ?thesis by auto
    qed
  next
    case False
    have s: "unat (n + 1) = unat n + 1" using Cons.prems(3) by (subst unat_add_exact) simp_all
    from Cons.prems(1) False consider "cp = n" | "cp \<in> set (byte_cps bs (n + 1))" by auto
    then show ?thesis
    proof cases
      case 1 then show ?thesis by simp
    next
      case 2
      from Cons.IH [OF this] Cons.prems s show ?thesis by auto
    qed
  qed
qed simp

lemma byte_cps_distinct:
  "distinct bs \<Longrightarrow> list_all (\<lambda>b. b < 256) bs \<Longrightarrow> 256 \<le> unat n \<Longrightarrow> unat n + length bs \<le> 2 ^ 16 \<Longrightarrow>
   distinct (byte_cps bs n)"
proof (induction bs arbitrary: n)
  case (Cons b bs)
  have small: "unat (of_nat x :: u32) = x" if "x < 256" for x using that by (simp add: unat_of_nat)
  have all: "x < 256" if "x \<in> set (b # bs)" for x using Cons.prems(2) that by (auto simp: list_all_iff)
  show ?case
  proof (cases "maps_to_itself b")
    case True
    have "of_nat b \<notin> set (byte_cps bs n)"
    proof
      assume "of_nat b \<in> set (byte_cps bs n)"
      from byte_cps_range [OF this] Cons.prems(2,4)
      have "(\<exists>x\<in>set bs. (of_nat b :: u32) = of_nat x) \<or> unat n \<le> unat (of_nat b :: u32)" by auto
      then show False
      proof
        assume "\<exists>x\<in>set bs. (of_nat b :: u32) = of_nat x"
        then obtain x where x: "x \<in> set bs" "(of_nat b :: u32) = of_nat x" by blast
        then have "b = x" using small [of b] small [of x] all [of b] all [of x] by (metis list.set_intros)
        then show False using x(1) Cons.prems(1) by simp
      next
        assume "unat n \<le> unat (of_nat b :: u32)"
        then show False using small [of b] all [of b] Cons.prems(3) by simp
      qed
    qed
    then show ?thesis using True Cons by simp
  next
    case False
    have s: "unat (n + 1) = unat n + 1" using Cons.prems(4) by (subst unat_add_exact) simp_all
    have "n \<notin> set (byte_cps bs (n + 1))"
    proof
      assume "n \<in> set (byte_cps bs (n + 1))"
      from byte_cps_range [OF this] Cons.prems(2,4) s
      have "\<exists>x\<in>set bs. n = of_nat x" by auto
      then show False using small all Cons.prems(3) by fastforce
    qed
    then show ?thesis using False Cons s by simp
  qed
qed simp

lemma byte_cps_small: "cp \<in> set (byte_cps [0..<256] 256) \<Longrightarrow> cp < 0x800"
  using byte_cps_range [of cp "[0..<256]" 256]
  by (auto simp: list_all_iff word_less_nat_alt unat_of_nat)

text \<open>Indexing a list: the last position of a string wins.\<close>

lemma index_fold_Some:
  "fold (\<lambda>i m. m(xs ! i \<mapsto> f i)) [0..<n] Map.empty k = Some v \<Longrightarrow> \<exists>i<n. xs ! i = k \<and> v = f i"
proof (induction n)
  case (Suc n)
  show ?case
  proof (cases "xs ! n = k")
    case True
    then show ?thesis using Suc.prems by auto
  next
    case False
    then have "fold (\<lambda>i m. m(xs ! i \<mapsto> f i)) [0..<n] Map.empty k = Some v"
      using Suc.prems by (simp add: fun_upd_other del: fun_upd_apply)
    from Suc.IH [OF this] show ?thesis by (auto intro: less_SucI)
  qed
qed simp

lemma index_fold_dom: "i < n \<Longrightarrow> fold (\<lambda>i m. m(xs ! i \<mapsto> f i)) [0..<n] Map.empty (xs ! i) \<noteq> None"
  by (induction n) (auto simp: less_Suc_eq)

lemma length_table [simp]: "length byte_to_unicode = 256"
  by (simp add: byte_to_unicode_def)

lemma table_nth: "b < 256 \<Longrightarrow> \<exists>cp. byte_to_unicode ! b = encodeUtf8 cp \<and> cp < 0x800"
  using byte_cps_small nth_mem [of b "byte_cps [0..<256] 256"] by (auto simp: byte_to_unicode_def)

lemma distinct_table: "distinct byte_to_unicode"
proof -
  have "distinct (byte_cps [0..<256] 256)"
    by (rule byte_cps_distinct) (simp_all add: list_all_iff)
  moreover have "inj_on encodeUtf8 (set (byte_cps [0..<256] 256))"
    using byte_cps_small encode_inj by (auto intro!: inj_onI)
  ultimately show ?thesis by (simp add: byte_to_unicode_def distinct_map)
qed

lemma table_inverse: "b < 256 \<Longrightarrow> unicode_to_byte (byte_to_unicode ! b) = Some b"
proof -
  assume b: "b < 256"
  then obtain v where v: "unicode_to_byte (byte_to_unicode ! b) = Some v"
    using index_fold_dom [of b 256 byte_to_unicode "\<lambda>b. b"] by (auto simp: unicode_to_byte_def)
  then obtain i where "i < 256" "byte_to_unicode ! i = byte_to_unicode ! b" "v = i"
    using index_fold_Some [of byte_to_unicode "\<lambda>b. b" 256] by (auto simp: unicode_to_byte_def)
  then have "v = b" using distinct_table b by (simp add: nth_eq_iff_index_eq)
  then show ?thesis using v by simp
qed

lemma symbol_inverse: "unicode_to_byte (byte_symbol c) = Some (of_char c)"
  unfolding byte_symbol_def by (rule table_inverse) simp

lemma symbol_len: "len_at (pre @ byte_symbol c @ post) (length pre) = length (byte_symbol c)"
proof -
  obtain cp where "byte_symbol c = encodeUtf8 cp" "cp < 0x800"
    using table_nth [of "of_char c"] by (auto simp: byte_symbol_def)
  then show ?thesis by (simp add: len_at_def decode_encode)
qed

lemma symbol_nonempty: "0 < length (byte_symbol c)"
  using symbol_len [of "[]" c "[]"] len_at_pos [of "byte_symbol c" 0] by simp

lemma unmap_symbols: "unmap_loop (pre @ concat (map byte_symbol cs)) (length pre) = cs"
proof (induction cs arbitrary: pre)
  case Nil then show ?case by (simp add: unmap_loop.simps)
next
  case (Cons c cs)
  let ?s = "pre @ concat (map byte_symbol (c # cs))"
  have len: "len_at ?s (length pre) = length (byte_symbol c)" by (simp add: symbol_len)
  have sub: "substr ?s (length pre) (length (byte_symbol c)) = byte_symbol c" by (simp add: substr_def)
  have rest: "unmap_loop ?s (length pre + length (byte_symbol c)) = cs"
    using Cons.IH [of "pre @ byte_symbol c"] by simp
  have lt: "length pre < length ?s" using symbol_nonempty [of c] by simp
  show ?case
    by (subst unmap_loop.simps) (simp only: lt len sub rest symbol_inverse Let_def if_True option.case char_of_char append.simps)
qed

section \<open>Byte pair encoding\<close>

lemma bpe_loop_concat: "concat (bpe_loop ranks xs) = concat xs"
proof (induction ranks xs rule: bpe_loop.induct)
  case (1 ranks xs)
  then show ?case
    by (auto simp: bpe_loop.simps [of ranks xs] merge_pairs_concat split: option.split)
qed

text \<open>Every symbol of the result is a byte's symbol or the result of a merge.\<close>

lemma bpe_loop_symbols:
  assumes "\<And>l r. ranks (pair_key l r) \<noteq> None \<Longrightarrow> P (l @ r)" "\<forall>x\<in>set xs. P x"
  shows "\<forall>x\<in>set (bpe_loop ranks xs). P x"
  using assms
proof (induction ranks xs rule: bpe_loop.induct)
  case (1 ranks xs)
  show ?case
  proof (cases "length xs > 1 \<and> best_pair ranks INT_MAX None xs \<noteq> None")
    case False
    then show ?thesis using 1(3) by (auto simp: bpe_loop.simps [of ranks xs] split: option.split)
  next
    case True
    then obtain l r where b: "best_pair ranks INT_MAX None xs = Some (l, r)" and len: "length xs > 1" by auto
    have "P (l @ r)" using best_pair_adjacent [OF b] 1(2) by simp
    then have "\<forall>x\<in>set (merge_pairs l r xs). P x" using 1(3) merge_pairs_set [of l r xs] by blast
    from 1(1) [OF len b refl 1(2) this] show ?thesis using b len by (simp add: bpe_loop.simps [of ranks xs])
  qed
qed

section \<open>Decoding an encoded text\<close>

text \<open>
  A symbol has a token when the vocabulary's index leads from it to an entry with the same text that
  is neither a control nor an unused token.\<close>

definition has_token :: "Tokenizer \<Rightarrow> string \<Rightarrow> bool" where
  "has_token t s \<longleftrightarrow> (case tz_str_to_id t s of None \<Rightarrow> False | Some i \<Rightarrow> i \<noteq> TOKEN_INVALID \<and> token_text t True i = s)"

lemma symbol_ids_text: "has_token t s \<Longrightarrow> concat (map (token_text t True) (symbol_ids t s)) = s"
  by (auto simp: has_token_def symbol_ids_def tokenToId_def Let_def split: option.splits)

lemma concat_map_concat: "concat (map g (concat (map f xs))) = concat (map (\<lambda>x. concat (map g (f x))) xs)"
  by (induction xs) simp_all

lemma bpe_text:
  assumes "\<And>l r. tz_merge_rank t (pair_key l r) \<noteq> None \<Longrightarrow> has_token t (l @ r)"
    and "\<forall>c\<in>set piece. has_token t (byte_symbol c)"
  shows "concat (map (token_text t True) (bpe t piece)) = concat (map byte_symbol piece)"
proof -
  let ?xs = "bpe_loop (tz_merge_rank t) (map byte_symbol piece)"
  have "\<forall>x\<in>set ?xs. has_token t x" by (rule bpe_loop_symbols) (use assms in auto)
  then have "concat (map (\<lambda>s. concat (map (token_text t True) (symbol_ids t s))) ?xs) = concat ?xs"
    by (simp add: symbol_ids_text cong: map_cong)
  then show ?thesis by (simp add: bpe_def concat_map_concat bpe_loop_concat)
qed

lemma decode_encode_text:
  assumes "tz_loaded t" "\<And>l r. tz_merge_rank t (pair_key l r) \<noteq> None \<Longrightarrow> has_token t (l @ r)"
    and "\<forall>c\<in>set s. has_token t (byte_symbol c)"
  shows "decode_ids t (encode_text t s False) True = s"
proof -
  have "concat (map (token_text t True) (bpe t p)) = concat (map byte_symbol p)" if "p \<in> set (preTokenize s)" for p
  proof (rule bpe_text [OF assms(2)])
    have "set p \<subseteq> set (concat (preTokenize s))" using that by auto
    then have "set p \<subseteq> set s" by (simp add: preTokenize_def pre_loop_concat)
    then show "\<forall>c\<in>set p. has_token t (byte_symbol c)" using assms(3) by blast
  qed
  then have "concat (map (token_text t True) (encode_text t s False)) =
      concat (map (\<lambda>p. concat (map byte_symbol p)) (preTokenize s))"
    using assms(1) by (simp add: encode_text_def concat_map_concat cong: map_cong)
  also have "\<dots> = concat (map byte_symbol (concat (preTokenize s)))"
    by (simp add: concat_map_concat [where f = "\<lambda>x. x", simplified])
  also have "\<dots> = concat (map byte_symbol s)" by (simp add: preTokenize_def pre_loop_concat)
  finally have m: "concat (map (token_text t True) (encode_text t s False)) = concat (map byte_symbol s)" .
  show ?thesis using unmap_symbols [of "[]" s] assms(1) by (simp add: decode_ids_def m)
qed

section \<open>Tokenizers loaded from a file\<close>

definition vocab_of :: "(string \<times> GGUFValue) list \<Rightarrow> string list" where
  "vocab_of kvs = kvStringArray kvs ''tokenizer.ggml.tokens''"

definition merges_of :: "(string \<times> GGUFValue) list \<Rightarrow> string list" where
  "merges_of kvs = kvStringArray kvs ''tokenizer.ggml.merges''"

definition plain_token :: "(string \<times> GGUFValue) list \<Rightarrow> string \<Rightarrow> bool" where
  "plain_token kvs s \<longleftrightarrow> s \<in> set (vocab_of kvs) \<and> list_all (\<lambda>(x, ty). x = s \<longrightarrow> ty \<noteq> 3 \<and> ty \<noteq> 5)
     (zip (vocab_of kvs) (token_types kvs (length (vocab_of kvs))))"

definition merged :: "string \<Rightarrow> string" where
  "merged m = filter (\<lambda>c. c \<noteq> CHR '' '') m"

text \<open>The file has a plain token for every byte of a text and for the result of every merge.\<close>

definition covers :: "(string \<times> GGUFValue) list \<Rightarrow> string \<Rightarrow> bool" where
  "covers kvs s \<longleftrightarrow> length (vocab_of kvs) \<le> 2147483647 \<and>
     list_all (\<lambda>c. plain_token kvs (byte_symbol c)) s \<and> list_all (\<lambda>m. plain_token kvs (merged m)) (merges_of kvs)"

lemma rank_merges_dom:
  "rank_merges i ms ranks = (None, ranks') \<Longrightarrow> ranks' k \<noteq> None \<Longrightarrow>
   ranks k \<noteq> None \<or> (k \<in> set ms \<and> length (filter (\<lambda>c. c = CHR '' '') k) = 1)"
  by (induction i ms ranks rule: rank_merges.induct) (auto split: if_splits)

lemma filter_none: "length (filter P xs) = 0 \<Longrightarrow> filter (\<lambda>x. \<not> P x) xs = xs"
  by (induction xs) (auto split: if_splits)

lemma merged_pair: "length (filter (\<lambda>c. c = CHR '' '') (pair_key l r)) = 1 \<Longrightarrow> merged (pair_key l r) = l @ r"
  using filter_none [of "\<lambda>c. c = CHR '' ''" l] filter_none [of "\<lambda>c. c = CHR '' ''" r]
  by (simp add: pair_key_def merged_def)

lemma small_token:
  assumes "n < 2147483647"
  shows "unat (of_nat n :: TokenID) = n" "\<not> sint (of_nat n :: TokenID) < 0" "(of_nat n :: TokenID) \<noteq> TOKEN_INVALID"
proof -
  show u: "unat (of_nat n :: TokenID) = n" using assms by (simp add: unat_of_nat)
  show "\<not> sint (of_nat n :: TokenID) < 0"
    using assms by (simp add: signed_of_nat signed_take_bit_int_eq_self)
  show "(of_nat n :: TokenID) \<noteq> TOKEN_INVALID"
  proof
    assume "(of_nat n :: TokenID) = TOKEN_INVALID"
    then have "n = unat (- 1 :: TokenID)" using u by (simp add: TOKEN_INVALID_def)
    then show False using assms by (simp add: unsigned_minus_1_eq_mask mask_eq_exp_minus_1)
  qed
qed

lemma plain_has_token:
  assumes t: "tz_vocab t = vocab_of kvs" "tz_str_to_id t = index_vocab (vocab_of kvs)"
      "tz_token_type t = token_types kvs (length (vocab_of kvs))"
    and len: "length (vocab_of kvs) \<le> 2147483647" and p: "plain_token kvs s"
  shows "has_token t s"
proof -
  obtain j where "j < length (vocab_of kvs)" "vocab_of kvs ! j = s"
    using p by (auto simp: plain_token_def in_set_conv_nth)
  then obtain v where v: "index_vocab (vocab_of kvs) s = Some v"
    using index_fold_dom [of j "length (vocab_of kvs)" "vocab_of kvs" of_nat] by (auto simp: index_vocab_def)
  then obtain i where i: "i < length (vocab_of kvs)" "vocab_of kvs ! i = s" "v = of_nat i"
    using index_fold_Some [of "vocab_of kvs" of_nat "length (vocab_of kvs)" s v] by (auto simp: index_vocab_def)
  have n: "i < 2147483647" using i(1) len by simp
  have tl: "length (token_types kvs n) = n" for n
    by (simp add: token_types_def split: option.split GGUFValue.split)
  have "token_types kvs (length (vocab_of kvs)) ! i \<notin> {3, 5}"
    using p i(1,2) tl by (auto simp: plain_token_def list_all_length)
  then have "token_text t True v = s"
    using i t small_token [OF n] by (simp add: token_text_def in_vocab_def)
  then show ?thesis using v t(2) small_token(3) [OF n] i(3) by (simp add: has_token_def)
qed

lemma loaded_fields:
  assumes "loadFromGGUF kvs t0 = (True, t)"
  shows "tz_loaded t" "tz_vocab t = vocab_of kvs" "tz_str_to_id t = index_vocab (vocab_of kvs)"
    "tz_token_type t = token_types kvs (length (vocab_of kvs))"
    "rank_merges 0 (merges_of kvs) Map.empty = (None, tz_merge_rank t)"
  using assms
  by (auto simp: loadFromGGUF_def Let_def vocab_of_def merges_of_def special_ids_def
      split: if_splits prod.splits option.splits)

lemma loaded_round_trip:
  assumes "loadFromGGUF kvs t0 = (True, t)" "covers kvs s"
  shows "decode_ids t (encode_text t s False) True = s"
proof (rule decode_encode_text)
  note f = loaded_fields [OF assms(1)]
  have plain: "has_token t x" if "plain_token kvs x" for x
    by (rule plain_has_token [OF f(2,3,4) _ that]) (use assms(2) in \<open>simp add: covers_def\<close>)
  show "tz_loaded t" by (rule f(1))
  show "\<forall>c\<in>set s. has_token t (byte_symbol c)"
    using assms(2) by (auto simp: covers_def list_all_iff intro: plain)
  fix l r
  assume "tz_merge_rank t (pair_key l r) \<noteq> None"
  from rank_merges_dom [OF f(5) this]
  have m: "pair_key l r \<in> set (merges_of kvs)" "length (filter (\<lambda>c. c = CHR '' '') (pair_key l r)) = 1" by simp_all
  have "plain_token kvs (merged (pair_key l r))" using m(1) assms(2) by (simp add: covers_def list_all_iff)
  then show "has_token t (l @ r)" using plain merged_pair [OF m(2)] by simp
qed

text \<open>
  C29: Pre-tokenization ends on every text and loses nothing: the pieces are not empty, and their
  concatenation is the text, whatever bytes it holds.\<close>

theorem pretokenize_lossless: "concat (preTokenize s) = s \<and> [] \<notin> set (preTokenize s)"
  by (simp add: preTokenize_def pre_loop_concat pre_loop_nonempty)

text \<open>
  C16: Round trip of the tokenizer: with a tokenizer loaded from a file that has a plain token for every
  byte of a text and for the result of every merge, decoding the encoded text gives the text back.\<close>

theorem tokenizer_roundtrip:
  assumes "loadFromGGUF kvs t0 = (True, t)" "covers kvs s"
  shows "decode_ids t (encode_text t s False) True = s"
  using assms by (rule loaded_round_trip)

section \<open>A concrete tokenizer\<close>

definition example_kvs :: "(string \<times> GGUFValue) list" where
  "example_kvs = [(''tokenizer.ggml.model'', VString ''gpt2''),
     (''tokenizer.ggml.tokens'', VStrings [''a'', ''b'', ''ab'', ''!'']),
     (''tokenizer.ggml.merges'', VStrings [''a b''])]"

lemma example_loads: "loadFromGGUF example_kvs tokenizer_default = (True, snd (loadFromGGUF example_kvs tokenizer_default))"
  by (simp add: loadFromGGUF_def example_kvs_def kvString_def kvStringArray_def lookup_kv_def Let_def)

lemma byte_cps_self: "i < length bs \<Longrightarrow> maps_to_itself (bs ! i) \<Longrightarrow> byte_cps bs n ! i = of_nat (bs ! i)"
  by (induction bs n arbitrary: i rule: byte_cps.induct) (auto simp: nth_Cons split: nat.split)

lemma printable_symbol:
  assumes "33 \<le> (of_char c :: nat)" "(of_char c :: nat) \<le> 126"
  shows "byte_symbol c = [c]"
proof -
  have "(of_nat (of_char c) :: u32) < 0x80" using assms by (simp add: word_less_nat_alt unat_of_nat)
  moreover have "byte_cps [0..<256] 256 ! of_char c = of_nat (of_char c)"
    using byte_cps_self [of "of_char c" "[0..<256]" 256] assms by (simp add: maps_to_itself_def)
  ultimately show ?thesis
    using assms by (simp add: byte_symbol_def byte_to_unicode_def encodeUtf8_def char_of_u32_def unat_of_nat)
qed

lemma example_covers: "covers example_kvs ''ab!ab''"
proof -
  have v: "vocab_of example_kvs = [''a'', ''b'', ''ab'', ''!'']" "merges_of example_kvs = [''a b'']"
    by (simp_all add: vocab_of_def merges_of_def example_kvs_def kvStringArray_def lookup_kv_def)
  have "byte_symbol c = [c]" if "c \<in> {CHR ''a'', CHR ''b'', CHR ''!''}" for c
    using that by (auto intro!: printable_symbol)
  then show ?thesis
    by (simp add: covers_def v plain_token_def merged_def token_types_def)
      (simp add: example_kvs_def lookup_kv_def)
qed

theorem tokenizer_roundtrip_witness:
  "decode_ids (snd (loadFromGGUF example_kvs tokenizer_default))
     (encode_text (snd (loadFromGGUF example_kvs tokenizer_default)) ''ab!ab'' False) True = ''ab!ab''"
  by (rule tokenizer_roundtrip [OF example_loads example_covers])

text \<open>
  A merged symbol without a token of its own falls back to tokens per byte, but the bytes are those of
  the mapped symbol and are mapped a second time: the space of this text is lost, although the
  vocabulary has a token for it.\<close>

definition space_symbol :: string where
  "space_symbol = [char_of (196::nat), char_of (160::nat)]"

definition gap_kvs :: "(string \<times> GGUFValue) list" where
  "gap_kvs = [(''tokenizer.ggml.model'', VString ''gpt2''),
     (''tokenizer.ggml.tokens'', VStrings [''a'', space_symbol]),
     (''tokenizer.ggml.merges'', VStrings [space_symbol @ '' a''])]"

lemma byte_cps_numbered:
  "i < length bs \<Longrightarrow> (\<And>j. j \<le> i \<Longrightarrow> \<not> maps_to_itself (bs ! j)) \<Longrightarrow> byte_cps bs n ! i = n + of_nat i"
proof (induction bs n arbitrary: i rule: byte_cps.induct)
  case (2 b bs nxt)
  have b: "\<not> maps_to_itself b" using 2(4) [of 0] by simp
  show ?case
  proof (cases i)
    case (Suc k)
    have "byte_cps bs (nxt + 1) ! k = nxt + 1 + of_nat k"
      by (rule 2(2) [OF b]) (use 2(3,4) Suc in force)+
    then show ?thesis using b Suc by simp
  qed (use b in simp)
qed simp

lemma space_byte_symbol: "byte_symbol (CHR '' '') = space_symbol"
proof -
  have "byte_cps [0..<256] 256 ! 32 = 288"
    using byte_cps_numbered [of 32 "[0..<256]" 256] by (simp add: maps_to_itself_def)
  then show ?thesis
    by (simp add: byte_symbol_def byte_to_unicode_def encodeUtf8_def char_of_u32_def space_symbol_def)
qed

lemma byte_symbol_inj: "byte_symbol c = byte_symbol d \<longleftrightarrow> c = d"
  by (metis symbol_inverse option.inject of_char_eq_iff)

lemma space_chars: "char_of (196 :: nat) \<noteq> CHR '' ''" "char_of (160 :: nat) \<noteq> CHR '' ''"
    "char_of (196 :: nat) \<noteq> CHR ''a''" "char_of (160 :: nat) \<noteq> CHR ''a''"
  by (auto dest: arg_cong [where f = "of_char :: char \<Rightarrow> nat"])

lemma fallback_loses_bytes:
  "tokenToId (snd (loadFromGGUF gap_kvs tokenizer_default)) (byte_symbol (CHR '' '')) = 1 \<and>
   bpe (snd (loadFromGGUF gap_kvs tokenizer_default)) '' a'' = [0]"
proof -
  let ?t = "snd (loadFromGGUF gap_kvs tokenizer_default)"
  have a: "byte_symbol (CHR ''a'') = ''a''" by (rule printable_symbol) simp_all
  have ids: "tz_str_to_id ?t = [''a'' \<mapsto> 0, space_symbol \<mapsto> 1]"
    and ranks: "tz_merge_rank ?t = [space_symbol @ '' a'' \<mapsto> 0]"
    by (simp_all add: loadFromGGUF_def gap_kvs_def kvString_def kvStringArray_def lookup_kv_def Let_def
        index_vocab_def special_ids_def space_symbol_def space_chars)
  have id: "tokenToId ?t (byte_symbol c) = (if c = CHR ''a'' then 0 else if c = CHR '' '' then 1 else TOKEN_INVALID)" for c
    using byte_symbol_inj [of c "CHR ''a''"] byte_symbol_inj [of c "CHR '' ''"]
    by (simp add: tokenToId_def ids a space_byte_symbol)
  have "bpe_loop (tz_merge_rank ?t) [space_symbol, ''a''] = [space_symbol @ ''a'']"
    by (simp add: bpe_loop.simps ranks pair_key_def INT_MAX_def)
  moreover have "tokenToId ?t (space_symbol @ ''a'') = TOKEN_INVALID"
    by (simp add: tokenToId_def ids space_symbol_def)
  ultimately show ?thesis
    using id id [of "CHR '' ''"]
    by (simp add: bpe_def a space_byte_symbol symbol_ids_def Let_def)
      (simp add: space_symbol_def TOKEN_INVALID_def space_chars)
qed

end
