(* ===== verification/Sampler.thy ===== *)
theory Sampler
  imports Tokenizer Double
begin

text \<open>
  The sampler of the native engine (\<open>src/hydroxl/HydroXLSampler.h\<close>, \<open>HydroXLSampler.cpp\<close>): repetition
  penalty, greedy choice, temperature, softmax, the top-k and nucleus filters and the draw. A \<open>float\<close>
  is the rational it denotes, rounded to 24 bits; \<open>std::exp\<close> is an argument, since its rounding is the
  platform's. \<open>std::partial_sort\<close> keeps the order of equal scores, which the standard leaves open. The
  sampler always returns one of the best tokens; its random numbers stay in the lower half of the
  interval the header promises, so a token with half of the mass is always drawn.
\<close>

section \<open>The sampler\<close>

definition f32 :: "rat \<Rightarrow> rat" where
  "f32 = fl 24"

record SamplerParams =
  sp_temperature :: rat
  sp_top_k :: int
  sp_top_p :: rat
  sp_repeat_penalty :: rat
  sp_seed :: u32

record HydroXLSampler =
  sm_params :: SamplerParams
  sm_rng_state :: u64

definition sampler_init :: "SamplerParams \<Rightarrow> HydroXLSampler" where
  "sampler_init p = \<lparr>sm_params = p, sm_rng_state = ucast (sp_seed p)\<rparr>"

definition sampler_reset :: "u32 \<Rightarrow> HydroXLSampler \<Rightarrow> HydroXLSampler" where
  "sampler_reset seed s = s\<lparr>sm_rng_state := ucast seed, sm_params := (sm_params s)\<lparr>sp_seed := seed\<rparr>\<rparr>"

definition next_state :: "u64 \<Rightarrow> u64" where
  "next_state st = st * 6364136223846793005 + 1442695040888963407"

definition random_of :: "u64 \<Rightarrow> rat" where
  "random_of st = (let bits = ucast (drop_bit 33 st) :: u32
     in f32 (f32 (of_int (uint bits)) / f32 4294967295))"

definition penalise :: "rat \<Rightarrow> rat \<Rightarrow> rat" where
  "penalise penalty s = (if s > 0 then f32 (s / penalty) else f32 (s * penalty))"

definition penalise_token :: "rat \<Rightarrow> TokenID \<Rightarrow> rat list \<Rightarrow> rat list" where
  "penalise_token penalty t scores = (if 0 \<le> sint t \<and> unat t < length scores
     then scores[unat t := penalise penalty (scores ! unat t)] else scores)"

definition repetition_penalty :: "SamplerParams \<Rightarrow> TokenID list \<Rightarrow> rat list \<Rightarrow> rat list" where
  "repetition_penalty p past scores = (if sp_repeat_penalty p \<noteq> 1 \<and> past \<noteq> []
     then fold (penalise_token (sp_repeat_penalty p)) past scores else scores)"

fun max_index_from :: "rat list \<Rightarrow> nat \<Rightarrow> nat \<Rightarrow> rat \<Rightarrow> nat" where
  "max_index_from [] i best m = best"
| "max_index_from (x # xs) i best m = (if m < x then max_index_from xs (i + 1) i x else max_index_from xs (i + 1) best m)"

definition max_element :: "rat list \<Rightarrow> nat" where
  "max_element xs = (case xs of [] \<Rightarrow> 0 | x # ys \<Rightarrow> max_index_from ys 1 0 x)"

definition f32_sum :: "rat list \<Rightarrow> rat" where
  "f32_sum xs = fold (\<lambda>x acc. f32 (acc + x)) xs 0"

definition softmax :: "(rat \<Rightarrow> rat) \<Rightarrow> rat \<Rightarrow> rat list \<Rightarrow> rat list" where
  "softmax expf temperature scores0 = (let
     inv_temp = f32 (1 / temperature);
     scores = map (\<lambda>s. f32 (s * inv_temp)) scores0;
     max_s = scores ! max_element scores;
     es = map (\<lambda>s. expf (f32 (s - max_s))) scores
   in map (\<lambda>e. f32 (e / f32_sum es)) es)"

definition top_k_count :: "SamplerParams \<Rightarrow> nat \<Rightarrow> nat" where
  "top_k_count p vocab_size = (if sp_top_k p > 0 \<and> sp_top_k p < int vocab_size then nat (sp_top_k p) else vocab_size)"

definition top_indices :: "rat list \<Rightarrow> nat \<Rightarrow> nat list" where
  "top_indices scores k = take k (sort_key (\<lambda>i. - (scores ! i)) [0..<length scores])"

fun nucleus :: "rat \<Rightarrow> rat list \<Rightarrow> rat \<Rightarrow> nat list \<Rightarrow> nat list" where
  "nucleus top_p scores cumsum [] = []"
| "nucleus top_p scores cumsum (i # is) = (let c = f32 (cumsum + scores ! i) in
     if c \<ge> top_p then [i] else i # nucleus top_p scores c is)"

definition kept_indices :: "SamplerParams \<Rightarrow> rat list \<Rightarrow> nat list" where
  "kept_indices p scores = (let is = top_indices scores (top_k_count p (length scores))
     in if sp_top_p p < 1 then nucleus (sp_top_p p) scores 0 is else is)"

fun draw :: "rat \<Rightarrow> rat list \<Rightarrow> rat \<Rightarrow> nat list \<Rightarrow> nat option" where
  "draw r scores running [] = None"
| "draw r scores running (i # is) = (let run = f32 (running + scores ! i) in
     if run \<ge> r then Some i else draw r scores run is)"

definition final_scores :: "(rat \<Rightarrow> rat) \<Rightarrow> SamplerParams \<Rightarrow> rat list \<Rightarrow> TokenID list \<Rightarrow> rat list" where
  "final_scores expf p logits past = softmax expf (sp_temperature p) (repetition_penalty p past logits)"

definition sample :: "(rat \<Rightarrow> rat) \<Rightarrow> rat list option \<Rightarrow> TokenID list \<Rightarrow> HydroXLSampler \<Rightarrow> TokenID \<times> HydroXLSampler" where
  "sample expf logits past s = (case logits of
     None \<Rightarrow> (TOKEN_INVALID, s)
   | Some ls \<Rightarrow> if ls = [] then (TOKEN_INVALID, s)
       else let p = sm_params s in
         if sp_temperature p \<le> 0 then (of_nat (max_element (repetition_penalty p past ls)), s)
         else let
           scores = final_scores expf p ls past;
           kept = kept_indices p scores;
           sub_sum = f32_sum (map ((!) scores) kept);
           st = next_state (sm_rng_state s);
           r = f32 (random_of st * sub_sum)
         in (of_nat (case draw r scores 0 kept of Some i \<Rightarrow> i | None \<Rightarrow> kept ! 0), s\<lparr>sm_rng_state := st\<rparr>))"

section \<open>The stages\<close>

lemma max_index_from_spec:
  assumes "best < i" "xs0 ! best = m" "drop i xs0 = xs" "\<And>j. j < i \<Longrightarrow> xs0 ! j \<le> m" "i \<le> length xs0"
  shows "max_index_from xs i best m < length xs0 \<and> (\<forall>j<length xs0. xs0 ! j \<le> xs0 ! max_index_from xs i best m)"
  using assms
proof (induction xs arbitrary: i best m)
  case Nil
  then show ?case by simp
next
  case (Cons x xs)
  have i: "i < length xs0" using Cons.prems(3) by (metis drop_eq_Nil list.distinct(1) not_le_imp_less)
  have x: "xs0 ! i = x" "drop (i + 1) xs0 = xs" using Cons.prems(3) i by (metis Cons_nth_drop_Suc Suc_eq_plus1 list.inject)+
  show ?case
  proof (cases "m < x")
    case True
    then have "xs0 ! j \<le> x" if "j < i + 1" for j
      using that Cons.prems(4) [of j] x by (cases "j = i") auto
    then show ?thesis using Cons.IH [of i "i + 1" x] x i True by simp
  next
    case False
    then have "xs0 ! j \<le> m" if "j < i + 1" for j
      using that Cons.prems(4) [of j] x by (cases "j = i") auto
    then show ?thesis using Cons.IH [of best "i + 1" m] Cons.prems(1,2) x i False by simp
  qed
qed

lemma max_element_spec: "xs \<noteq> [] \<Longrightarrow> max_element xs < length xs \<and> (\<forall>j<length xs. xs ! j \<le> xs ! max_element xs)"
  using max_index_from_spec [of 0 1 xs "hd xs" "tl xs"]
  by (cases xs) (simp_all add: max_element_def less_Suc_eq)

lemma penalise_token_length [simp]: "length (penalise_token q t xs) = length xs"
  by (simp add: penalise_token_def)

lemma repetition_length [simp]: "length (repetition_penalty p past xs) = length xs"
proof -
  have "length (fold (penalise_token q) ts xs) = length xs" for q ts
    by (induction ts arbitrary: xs) simp_all
  then show ?thesis by (simp add: repetition_penalty_def)
qed

lemma final_length [simp]: "length (final_scores expf p ls past) = length ls"
  by (simp add: final_scores_def softmax_def Let_def)

lemma nucleus_prefix: "\<exists>n. nucleus top_p scores c is = take n is \<and> (is \<noteq> [] \<longrightarrow> n > 0)"
proof (induction "is" arbitrary: c)
  case (Cons i "is")
  obtain n where "nucleus top_p scores (f32 (c + scores ! i)) is = take n is" using Cons.IH by blast
  then show ?case by (auto simp: Let_def intro: exI [of _ 1] exI [of _ "Suc n"])
qed simp

lemma draw_member: "draw r scores c is = Some i \<Longrightarrow> i \<in> set is"
  by (induction "is" arbitrary: c) (auto simp: Let_def split: if_splits)

lemma kept_prefix:
  assumes "scores \<noteq> []"
  obtains n where "kept_indices p scores = take n (sort_key (\<lambda>i. - (scores ! i)) [0..<length scores])" "0 < n"
    "n \<le> top_k_count p (length scores)"
proof -
  let ?s = "sort_key (\<lambda>i. - (scores ! i)) [0..<length scores]" and ?k = "top_k_count p (length scores)"
  have k: "0 < ?k" using assms by (simp add: top_k_count_def)
  obtain n where n: "nucleus (sp_top_p p) scores 0 (take ?k ?s) = take n (take ?k ?s)" "take ?k ?s \<noteq> [] \<longrightarrow> n > 0"
    using nucleus_prefix by blast
  have "take ?k ?s \<noteq> []" using k assms by (metis length_0_conv length_sort length_upt minus_nat.diff_0 take_eq_Nil nat_less_le)
  then show ?thesis
    using that [of "if sp_top_p p < 1 then min n ?k else ?k"] n k
    by (auto simp: kept_indices_def top_indices_def Let_def min_def split: if_splits)
qed

text \<open>A prefix of the sorted indices contains only tokens that few others beat.\<close>

lemma sorted_prefix_rank:
  fixes f :: "nat \<Rightarrow> rat"
  assumes i: "i \<in> set (take n (sort_key f [0..<m]))"
  shows "i < m" "card {j. j < m \<and> f j < f i} < n"
proof -
  let ?s = "sort_key f [0..<m]"
  show "i < m" using i by (metis in_set_takeD set_sort set_upt atLeastLessThan_iff)
  obtain a where a: "a < n" "a < length ?s" "?s ! a = i" using i by (auto simp: in_set_conv_nth)
  have sorted: "sorted (map f ?s)" by simp
  have "{j. j < m \<and> f j < f i} \<subseteq> set (take a ?s)"
  proof
    fix j assume "j \<in> {j. j < m \<and> f j < f i}"
    then have j: "j \<in> set ?s" "f j < f i" by simp_all
    then obtain b where b: "b < length ?s" "?s ! b = j" by (metis in_set_conv_nth)
    have "b < a"
    proof (rule ccontr)
      assume "\<not> b < a"
      then have "map f ?s ! a \<le> map f ?s ! b" using sorted b a by (intro sorted_nth_mono) simp_all
      then show False using j a b by simp
    qed
    then show "j \<in> set (take a ?s)" using b by (auto simp: in_set_conv_nth intro!: exI [of _ b])
  qed
  then have "card {j. j < m \<and> f j < f i} \<le> card (set (take a ?s))" by (intro card_mono) simp_all
  also have "\<dots> \<le> a" using card_length [of "take a ?s"] by simp
  finally show "card {j. j < m \<and> f j < f i} < n" using a by simp
qed

lemma drawn_kept:
  assumes "scores \<noteq> []"
  shows "(case draw r scores 0 (kept_indices p scores) of Some i \<Rightarrow> i | None \<Rightarrow> kept_indices p scores ! 0) \<in>
    set (kept_indices p scores)"
proof -
  obtain n where n: "kept_indices p scores = take n (sort_key (\<lambda>i. - (scores ! i)) [0..<length scores])" "0 < n"
    using kept_prefix [OF assms] by blast
  have "kept_indices p scores \<noteq> []" using n assms by (metis length_0_conv length_sort length_upt minus_nat.diff_0 take_eq_Nil nat_less_le)
  then show ?thesis by (auto split: option.split dest: draw_member)
qed

section \<open>What is sampled\<close>

lemma of_nat_token:
  assumes "n < 2 ^ 31"
  shows "unat (of_nat n :: TokenID) = n" "0 \<le> sint (of_nat n :: TokenID)"
proof -
  show "unat (of_nat n :: TokenID) = n" using assms by (simp add: unsigned_of_nat take_bit_nat_eq_self)
  have "sint (of_nat n :: TokenID) = int n"
    using assms by (simp add: signed_of_nat signed_take_bit_int_eq_self)
  then show "0 \<le> sint (of_nat n :: TokenID)" by simp
qed

text \<open>
  C26: The sampler returns a token of the vocabulary, for every vocabulary below 2^31, every parameters and
  random state, every past tokens and whatever the exponential function returns. With a temperature of
  at most 0 no token has a higher penalised score; otherwise fewer than top-k tokens have a higher
  probability than the one returned.\<close>

theorem sample_sound:
  assumes "ls \<noteq> []" "length ls < 2 ^ 31"
  shows "(let t = fst (sample expf (Some ls) past s); p = sm_params s; greedy = (sp_temperature p \<le> 0);
      sc = (if greedy then repetition_penalty p past ls else final_scores expf p ls past)
    in 0 \<le> sint t \<and> unat t < length ls \<and>
       card {j. j < length ls \<and> sc ! unat t < sc ! j} < (if greedy then 1 else top_k_count p (length ls)))"
proof -
  let ?p = "sm_params s"
  show ?thesis
  proof (cases "sp_temperature ?p \<le> 0")
    case True
    let ?sc = "repetition_penalty ?p past ls"
    have ne: "?sc \<noteq> []" using assms(1) by (metis length_0_conv repetition_length)
    have m: "max_element ?sc < length ls" "\<forall>j<length ls. ?sc ! j \<le> ?sc ! max_element ?sc"
      using max_element_spec [OF ne] by simp_all
    have t: "fst (sample expf (Some ls) past s) = of_nat (max_element ?sc)" using True assms(1) by (simp add: sample_def Let_def)
    have none: "{j. j < length ls \<and> ?sc ! max_element ?sc < ?sc ! j} = {}" using m(2) by (auto simp: not_less)
    have "max_element ?sc < 2 ^ 31" using m(1) assms(2) by simp
    note w = of_nat_token [OF this]
    show ?thesis using True m(1) w none by (simp add: t Let_def)
  next
    case False
    let ?sc = "final_scores expf ?p ls past"
    define i where "i = (case draw (f32 (random_of (next_state (sm_rng_state s)) * f32_sum (map ((!) ?sc) (kept_indices ?p ?sc))))
      ?sc 0 (kept_indices ?p ?sc) of Some i \<Rightarrow> i | None \<Rightarrow> kept_indices ?p ?sc ! 0)"
    have ne: "?sc \<noteq> []" using assms(1) by (metis length_0_conv final_length)
    have t: "fst (sample expf (Some ls) past s) = of_nat i" using False assms(1) by (simp add: sample_def Let_def i_def)
    have "i \<in> set (kept_indices ?p ?sc)" unfolding i_def by (rule drawn_kept [OF ne])
    moreover obtain n where n: "kept_indices ?p ?sc = take n (sort_key (\<lambda>i. - (?sc ! i)) [0..<length ls])"
      "n \<le> top_k_count ?p (length ls)" using kept_prefix [OF ne] by auto
    ultimately have r: "i < length ls" "card {j. j < length ls \<and> - (?sc ! j) < - (?sc ! i)} < n"
      using sorted_prefix_rank [of i n "\<lambda>i. - (?sc ! i)" "length ls"] by simp_all
    have "i < 2 ^ 31" using r(1) assms(2) by simp
    note w = of_nat_token [OF this]
    show ?thesis using False r n(2) w by (simp add: t Let_def)
  qed
qed

definition sample_params :: SamplerParams where
  "sample_params = \<lparr>sp_temperature = 1, sp_top_k = 2, sp_top_p = 1, sp_repeat_penalty = 1, sp_seed = 42\<rparr>"

lemma sample_sound_witness:
  "unat (fst (sample (\<lambda>_. 1) (Some [1, 2, 3]) [] (sampler_init sample_params))) < 3"
  using sample_sound [of "[1, 2, 3]" "\<lambda>_. 1" "[]" "sampler_init sample_params"] by (simp add: Let_def)

section \<open>The random numbers\<close>

lemma f32_mono: "x \<le> y \<Longrightarrow> f32 x \<le> f32 y"
  by (simp add: f32_def fl_mono)

lemma f32_nonneg: "0 \<le> x \<Longrightarrow> 0 \<le> f32 x"
  using f32_mono [of 0 x] by (simp add: f32_def)

lemma f32_pow2: "f32 (pow2 e) = pow2 e"
  using fl_exact [of 1 24 e] by (simp add: f32_def)

lemma f32_max: "f32 4294967295 = 4294967296"
  by code_simp

lemma random_half: "0 \<le> random_of st \<and> random_of st \<le> 1 / 2"
proof -
  let ?b = "ucast (drop_bit 33 st) :: u32"
  have "take_bit 64 (uint st) = uint st"
    using unsigned_less [of st, where 'a = int] by (intro take_bit_int_eq_self) simp_all
  then have "uint (drop_bit 33 st) = drop_bit 33 (uint st)" by (simp add: unsigned_drop_bit_eq)
  then have "uint (drop_bit 33 st) = uint st div 2 ^ 33" by (simp only: drop_bit_eq_div)
  then have "uint (drop_bit 33 st) < 2 ^ 31"
    using unsigned_less [of st, where 'a = int] by simp
  moreover have "uint ?b \<le> uint (drop_bit 33 st)" by (simp add: unsigned_ucast_eq take_bit_int_less_eq_self_iff)
  ultimately have b: "0 \<le> uint ?b" "uint ?b \<le> 2 ^ 31" by simp_all
  have p: "pow2 31 = 2147483648" "pow2 (- 1) = 1 / 2" by (simp_all add: pow2_def)
  define n where "n = uint ?b"
  have "f32 (of_int n) \<le> f32 (pow2 31)"
    by (rule f32_mono) (use b in \<open>simp add: p n_def [symmetric]\<close>)
  then have le: "f32 (of_int n) \<le> 2147483648" using f32_pow2 [of 31] by (simp only: p)
  have ge: "0 \<le> f32 (of_int n)" by (rule f32_nonneg) (use b in \<open>simp add: n_def [symmetric]\<close>)
  have "f32 (f32 (of_int n) / f32 4294967295) \<le> f32 (pow2 (- 1))"
    by (rule f32_mono) (use le in \<open>simp add: f32_max p\<close>)
  then have "f32 (f32 (of_int n) / f32 4294967295) \<le> 1 / 2" using f32_pow2 [of "- 1"] by (simp only: p)
  moreover have "0 \<le> f32 (f32 (of_int n) / f32 4294967295)"
    by (rule f32_nonneg) (use ge in \<open>simp add: f32_max\<close>)
  ultimately show ?thesis unfolding random_of_def Let_def n_def by blast
qed

lemma f32_sum_nonneg: "(\<And>x. x \<in> set xs \<Longrightarrow> 0 \<le> x) \<Longrightarrow> 0 \<le> f32_sum xs"
proof -
  have "0 \<le> a \<Longrightarrow> (\<And>x. x \<in> set xs \<Longrightarrow> 0 \<le> x) \<Longrightarrow> 0 \<le> fold (\<lambda>x acc. f32 (acc + x)) xs a" for a
    by (induction xs arbitrary: a) (simp_all add: f32_nonneg)
  from this [of 0] show "(\<And>x. x \<in> set xs \<Longrightarrow> 0 \<le> x) \<Longrightarrow> 0 \<le> f32_sum xs" by (simp add: f32_sum_def)
qed

lemma final_nonneg:
  assumes "\<And>x. 0 \<le> expf x" "i < length ls"
  shows "0 \<le> final_scores expf p ls past ! i"
proof -
  have "x \<in> set (final_scores expf p ls past) \<Longrightarrow> 0 \<le> x" for x
    using assms(1) by (auto simp: final_scores_def softmax_def Let_def intro!: f32_nonneg divide_nonneg_nonneg f32_sum_nonneg)
  then show ?thesis using assms(2) by simp
qed

text \<open>
  C27: The generator's numbers lie between 0 and 1/2, not in the interval from 0 to 1 the header promises:
  the state is shifted to 31 bits and divided by the largest number of 32 bits. So for every random
  state the most likely token is returned whenever it has at least half of the kept probability; the
  less likely half of the distribution is never drawn.\<close>

theorem upper_half_never_drawn:
  assumes "\<And>x. 0 \<le> expf x" and "0 < sp_temperature (sm_params s)" and "ls \<noteq> []"
    and kept: "kept_indices (sm_params s) (final_scores expf (sm_params s) ls past) = i # rest"
    and half: "f32_sum (map ((!) (final_scores expf (sm_params s) ls past)) (i # rest)) \<le>
      2 * final_scores expf (sm_params s) ls past ! i"
  shows "fst (sample expf (Some ls) past (s\<lparr>sm_rng_state := st\<rparr>)) = of_nat i \<and> random_of st \<le> 1 / 2"
proof -
  let ?p = "sm_params s"
  let ?sc = "final_scores expf ?p ls past"
  let ?sum = "f32_sum (map ((!) ?sc) (i # rest))"
  have ne: "?sc \<noteq> []" using assms(3) by (metis length_0_conv final_length)
  have "j < length ls" if "j \<in> set (i # rest)" for j
    using that kept kept_prefix [OF ne, of ?p] by (metis atLeastLessThan_iff final_length in_set_takeD set_sort set_upt)
  then have sum: "0 \<le> ?sum" using final_nonneg [OF assms(1)] by (intro f32_sum_nonneg) auto
  let ?r = "random_of (next_state st)"
  have "?r * ?sum \<le> 1 / 2 * ?sum" using sum random_half by (intro mult_right_mono) simp_all
  also have "\<dots> \<le> 0 + ?sc ! i" using half by simp
  finally have "f32 (?r * ?sum) \<le> f32 (0 + ?sc ! i)" by (rule f32_mono)
  then have "draw (f32 (?r * ?sum)) ?sc 0 (i # rest) = Some i" by (simp add: Let_def)
  then show ?thesis using assms(2,3) kept random_half [of st] by (simp add: sample_def Let_def)
qed

definition step_exp :: "rat \<Rightarrow> rat" where
  "step_exp x = (if x = 0 then 1 else 0)"

lemma f32_small: "f32 0 = 0" "f32 1 = 1" "f32 2 = 2" "f32 (- 1) = - 1"
  using f32_pow2 [of 0] f32_pow2 [of 1] fl_exact [of "- 1" 24 0] by (simp_all add: pow2_def f32_def)

lemma two_token_scores: "final_scores step_exp sample_params [2, 1] [] = [1, 0]"
  by (simp add: final_scores_def softmax_def repetition_penalty_def sample_params_def Let_def max_element_def f32_sum_def
      step_exp_def f32_small)

lemma two_token_kept: "kept_indices sample_params [1, 0] = [0, 1]"
  by (simp add: kept_indices_def top_indices_def top_k_count_def sample_params_def Let_def upt_rec)

lemma upper_half_never_drawn_witness:
  "\<forall>st. fst (sample step_exp (Some [2, 1]) [] ((sampler_init sample_params)\<lparr>sm_rng_state := st\<rparr>)) = 0"
proof
  fix st
  have "sm_params (sampler_init sample_params) = sample_params" by (simp add: sampler_init_def)
  then show "fst (sample step_exp (Some [2, 1]) [] ((sampler_init sample_params)\<lparr>sm_rng_state := st\<rparr>)) = 0"
    using upper_half_never_drawn [of step_exp "sampler_init sample_params" "[2, 1]" "[]" 0 "[1]" st]
    by (simp add: two_token_scores two_token_kept f32_sum_def f32_small step_exp_def) (simp add: sample_params_def)
qed

end
