(* ===== verification/TaskScheduler.thy ===== *)
theory TaskScheduler
  imports Backend "HOL-Library.AList"
begin

text \<open>
  The scheduler of independent tasks (\<open>src/scheduler/SchedulerTypes.h\<close>, \<open>CostModel.cpp\<close>,
  \<open>AdaptiveScheduler.cpp\<close>, the three workers \<open>CPUWorker.cpp\<close>, \<open>VulkanWorker.cpp\<close>, \<open>CUDAWorker.cpp\<close> and the
  metrics per backend of \<open>PerformanceHistory.cpp\<close>). A worker is one thread over a queue; taking a job and
  finishing it are two steps, so that runs interleave submissions, waits and the three workers. A
  callback returns or throws a \<open>std::exception\<close>, and may answer differently each time. A cost is a finite
  double, infinity or NaN, because the estimate of a backend can become zero and is divided by. Handles are counters that only go
  up. Every job is executed exactly once, in the order of submission, and waiting for it ends.
\<close>

section \<open>Workloads and results\<close>

text \<open>The results of the divisions: a finite double, infinity, or NaN for zero by zero.\<close>

datatype fp = Fin rat | Inf | NaN

fun fp_less :: "fp \<Rightarrow> fp \<Rightarrow> bool" where
  "fp_less (Fin x) (Fin y) = (x < y)"
| "fp_less (Fin x) Inf = True"
| "fp_less _ _ = False"

fun fp_map :: "(rat \<Rightarrow> rat) \<Rightarrow> fp \<Rightarrow> fp" where
  "fp_map f (Fin x) = Fin (f x)"
| "fp_map f Inf = Inf"
| "fp_map f NaN = NaN"

definition fp_div :: "rat \<Rightarrow> rat \<Rightarrow> fp" where
  "fp_div x y = (if y = 0 then (if x = 0 then NaN else Inf) else Fin (dbl (x / y)))"

datatype callback_result = Returned bool | Threw string

type_synonym callback = "nat \<Rightarrow> callback_result"

record Workload =
  wl_id :: u64
  wl_name :: string
  wl_input_bytes :: u64
  wl_output_bytes :: u64
  wl_compute_ops_estimate :: u64
  wl_input_block :: MemoryBlock
  wl_output_block :: MemoryBlock
  wl_compute_intensive :: bool
  wl_cpu_execute :: "callback option"
  wl_vulkan_execute :: "callback option"
  wl_cuda_execute :: "callback option"

record ExecutionPlan =
  xp_selected_backend :: ComputeBackend
  xp_device_name :: string
  xp_estimated_transfer_ms :: rat
  xp_estimated_compute_ms :: fp
  xp_estimated_queue_penalty_ms :: rat
  xp_total_cost_ms :: fp
  xp_requires_input_transfer :: bool
  xp_requires_output_transfer :: bool

definition xp_default :: ExecutionPlan where
  "xp_default = \<lparr>xp_selected_backend = ComputeBackend.CPU, xp_device_name = [], xp_estimated_transfer_ms = 0,
     xp_estimated_compute_ms = Fin 0, xp_estimated_queue_penalty_ms = 0, xp_total_cost_ms = Fin 0,
     xp_requires_input_transfer = False, xp_requires_output_transfer = False\<rparr>"

datatype TaskStatus = QUEUED | TRANSFERRING | RUNNING | COMPLETED | FAILED

record TaskResult =
  tr_success :: bool
  tr_status :: TaskStatus
  tr_wait_ms :: rat
  tr_transfer_ms :: rat
  tr_compute_ms :: rat
  tr_total_ms :: rat
  tr_error_message :: string

definition result_none :: TaskResult where
  "result_none = \<lparr>tr_success = False, tr_status = TaskStatus.FAILED, tr_wait_ms = 0, tr_transfer_ms = 0,
     tr_compute_ms = 0, tr_total_ms = 0, tr_error_message = []\<rparr>"

fun execute_callback :: "ComputeBackend \<Rightarrow> Workload \<Rightarrow> callback option" where
  "execute_callback ComputeBackend.CPU w = wl_cpu_execute w"
| "execute_callback ComputeBackend.VULKAN w = wl_vulkan_execute w"
| "execute_callback ComputeBackend.CUDA w = wl_cuda_execute w"

fun missing_callback :: "ComputeBackend \<Rightarrow> string" where
  "missing_callback ComputeBackend.CPU = ''CPU execute callback not provided''"
| "missing_callback ComputeBackend.VULKAN = ''Vulkan execute callback not provided''"
| "missing_callback ComputeBackend.CUDA = ''CUDA execute callback not provided / CUDA unavailable''"

section \<open>Metrics per backend\<close>

record BackendMetrics =
  bk_ema_ops_per_ms :: rat
  bk_ema_bandwidth_per_ms :: rat
  bk_sample_count :: u64

fun initial_metrics :: "ComputeBackend \<Rightarrow> BackendMetrics" where
  "initial_metrics ComputeBackend.CPU = \<lparr>bk_ema_ops_per_ms = 500, bk_ema_bandwidth_per_ms = 20 * 1024 * 1024, bk_sample_count = 0\<rparr>"
| "initial_metrics ComputeBackend.VULKAN = \<lparr>bk_ema_ops_per_ms = 2500, bk_ema_bandwidth_per_ms = 10 * 1024 * 1024, bk_sample_count = 0\<rparr>"
| "initial_metrics ComputeBackend.CUDA = \<lparr>bk_ema_ops_per_ms = 4000, bk_ema_bandwidth_per_ms = 12 * 1024 * 1024, bk_sample_count = 0\<rparr>"

definition ema :: "rat \<Rightarrow> rat \<Rightarrow> rat" where
  "ema current old = dbl (dbl (dbl (2 / 10) * current) + dbl (dbl (1 - dbl (2 / 10)) * old))"

definition recordCompletion :: "ComputeBackend \<Rightarrow> Workload \<Rightarrow> TaskResult \<Rightarrow> (ComputeBackend \<Rightarrow> BackendMetrics) \<Rightarrow> ComputeBackend \<Rightarrow> BackendMetrics" where
  "recordCompletion b w r ms = (if \<not> tr_success r \<or> tr_compute_ms r \<le> 0 then ms
     else let
       m = ms b;
       ops = dbl (dbl_of_u64 (wl_compute_ops_estimate w) / tr_compute_ms r);
       total_bytes = dbl_of_u64 (wl_input_bytes w + wl_output_bytes w);
       bw = (if tr_transfer_ms r > 0 \<and> total_bytes > 0 then dbl (total_bytes / tr_transfer_ms r)
             else bk_ema_bandwidth_per_ms m);
       m2 = (if bk_sample_count m = 0 then m\<lparr>bk_ema_ops_per_ms := ops, bk_ema_bandwidth_per_ms := bw\<rparr>
             else m\<lparr>bk_ema_ops_per_ms := ema ops (bk_ema_ops_per_ms m),
                    bk_ema_bandwidth_per_ms := ema bw (bk_ema_bandwidth_per_ms m)\<rparr>)
     in ms(b := m2\<lparr>bk_sample_count := bk_sample_count m + 1\<rparr>))"

section \<open>Cost model\<close>

text \<open>The largest double stands for an infeasible plan.\<close>

definition DBL_MAX :: rat where
  "DBL_MAX = (2 ^ 53 - 1) * 2 ^ 971"

definition memory_short :: "Workload \<Rightarrow> ComputeDevice \<Rightarrow> bool" where
  "memory_short w d \<longleftrightarrow> (let need = wl_input_bytes w + wl_output_bytes w
     in need > 0 \<and> dv_memory_available d > 0 \<and> dv_memory_available d < need)"

definition targetLoc :: "ComputeBackend \<Rightarrow> MemoryLocation" where
  "targetLoc b = (if b = ComputeBackend.VULKAN \<or> b = ComputeBackend.CUDA then MemoryLocation.ACCELERATOR else MemoryLocation.CPU)"

text \<open>The bandwidth estimate is never zero: it starts positive, the workers report no transfer time, and a
  report with one has a positive number of bytes.\<close>

definition add_transfer :: "MemoryBlock \<Rightarrow> u64 \<Rightarrow> ComputeBackend \<Rightarrow> rat \<Rightarrow> rat \<Rightarrow> rat \<times> bool" where
  "add_transfer blk n b bw acc = (if isValid blk \<and> mb_location blk \<noteq> targetLoc b
     then (dbl (acc + dbl (dbl_of_u64 n / bw)), True) else (acc, False))"

definition evaluateCandidate :: "(ComputeBackend \<Rightarrow> BackendMetrics) \<Rightarrow> Workload \<Rightarrow> ComputeDevice \<Rightarrow> ExecutionPlan" where
  "evaluateCandidate ms w d = (let
     b = dv_backend d;
     p = xp_default\<lparr>xp_selected_backend := b, xp_device_name := dv_name d, xp_total_cost_ms := Fin DBL_MAX\<rparr>
   in if memory_short w d then p
      else if execute_callback b w = None then p
      else let
        compute = fp_div (dbl_of_u64 (wl_compute_ops_estimate w)) (bk_ema_ops_per_ms (ms b));
        bw = bk_ema_bandwidth_per_ms (ms b);
        (t1, inp) = add_transfer (wl_input_block w) (wl_input_bytes w) b bw 0;
        (t2, outp) = add_transfer (wl_output_block w) (wl_output_bytes w) b bw t1;
        penalty = (if b = ComputeBackend.CPU then 2 else 10);
        total = fp_map (\<lambda>c. dbl (dbl (c + t2) + penalty)) compute;
        total2 = (if b = ComputeBackend.CPU \<and> wl_compute_intensive w then fp_map (\<lambda>c. dbl (c * (3 / 2))) total else total)
      in p\<lparr>xp_estimated_compute_ms := compute, xp_estimated_transfer_ms := t2, xp_requires_input_transfer := inp,
           xp_requires_output_transfer := outp, xp_estimated_queue_penalty_ms := penalty, xp_total_cost_ms := total2\<rparr>)"

definition better_plan :: "(ComputeBackend \<Rightarrow> BackendMetrics) \<Rightarrow> Workload \<Rightarrow> ComputeDevice \<Rightarrow> ExecutionPlan \<Rightarrow> ExecutionPlan" where
  "better_plan ms w d best = (if \<not> dv_is_available d then best
     else let c = evaluateCandidate ms w d in if fp_less (xp_total_cost_ms c) (xp_total_cost_ms best) then c else best)"

definition evaluate :: "BackendManager \<Rightarrow> (ComputeBackend \<Rightarrow> BackendMetrics) \<Rightarrow> Workload \<Rightarrow> ExecutionPlan" where
  "evaluate bm ms w = (let best = fold (better_plan ms w) (bm_devices bm) (xp_default\<lparr>xp_total_cost_ms := Fin DBL_MAX\<rparr>)
     in if xp_total_cost_ms best = Fin DBL_MAX then (case getDevice bm ComputeBackend.CPU of
          Some cpu \<Rightarrow> (evaluateCandidate ms w cpu)\<lparr>xp_total_cost_ms := Fin 999999\<rparr>
        | None \<Rightarrow> best) else best)"

section \<open>Workers\<close>

record Job =
  jb_workload :: Workload
  jb_plan :: ExecutionPlan
  jb_status :: TaskStatus
  jb_result :: TaskResult

record Worker =
  wk_next_handle :: nat
  wk_jobs :: "(nat \<times> Job) list"
  wk_queue :: "nat list"
  wk_current :: "nat option"
  wk_executed :: "(nat \<times> bool) list"

definition worker_init :: Worker where
  "worker_init = \<lparr>wk_next_handle = 1, wk_jobs = [], wk_queue = [], wk_current = None, wk_executed = []\<rparr>"

definition worker_submit :: "Workload \<Rightarrow> ExecutionPlan \<Rightarrow> Worker \<Rightarrow> nat \<times> Worker" where
  "worker_submit w p wk = (let h = wk_next_handle wk in
     (h, wk\<lparr>wk_next_handle := h + 1, wk_jobs := AList.update h \<lparr>jb_workload = w, jb_plan = p,
       jb_status = TaskStatus.QUEUED, jb_result = result_none\<rparr> (wk_jobs wk), wk_queue := wk_queue wk @ [h]\<rparr>))"

definition worker_take :: "Worker \<Rightarrow> Worker" where
  "worker_take wk = (case (wk_current wk, wk_queue wk) of
     (None, h # hs) \<Rightarrow> (case map_of (wk_jobs wk) h of
         Some j \<Rightarrow> wk\<lparr>wk_jobs := AList.update h (j\<lparr>jb_status := TaskStatus.RUNNING\<rparr>) (wk_jobs wk), wk_queue := hs, wk_current := Some h\<rparr>
       | None \<Rightarrow> wk)
   | _ \<Rightarrow> wk)"

definition run_callback :: "ComputeBackend \<Rightarrow> Workload \<Rightarrow> nat \<Rightarrow> bool \<times> string" where
  "run_callback b w time = (case execute_callback b w of
     None \<Rightarrow> (False, missing_callback b)
   | Some cb \<Rightarrow> (case cb time of Returned ok \<Rightarrow> (ok, []) | Threw what \<Rightarrow> (False, what)))"

definition worker_finish :: "ComputeBackend \<Rightarrow> rat \<Rightarrow> Worker \<Rightarrow> Worker" where
  "worker_finish b compute_ms wk = (case wk_current wk of
     None \<Rightarrow> wk
   | Some h \<Rightarrow> (case map_of (wk_jobs wk) h of
       None \<Rightarrow> wk
     | Some j \<Rightarrow> (case run_callback b (jb_workload j) (length (wk_executed wk)) of (ok, msg) \<Rightarrow>
         let st = (if ok then TaskStatus.COMPLETED else TaskStatus.FAILED) in
         wk\<lparr>wk_jobs := AList.update h (j\<lparr>jb_status := st, jb_result := (jb_result j)\<lparr>tr_success := ok, tr_status := st,
              tr_compute_ms := compute_ms, tr_total_ms := compute_ms, tr_error_message := msg\<rparr>\<rparr>) (wk_jobs wk),
            wk_current := None, wk_executed := (h, ok) # wk_executed wk\<rparr>)))"

text \<open>One round of the thread, and what it still does when the worker is destroyed: \<open>stop_\<close> ends the
  loop only when the queue is empty.\<close>

definition worker_round :: "ComputeBackend \<Rightarrow> rat \<Rightarrow> Worker \<Rightarrow> Worker" where
  "worker_round b ms wk = worker_finish b ms (worker_take wk)"

definition worker_drain :: "ComputeBackend \<Rightarrow> rat \<Rightarrow> Worker \<Rightarrow> Worker" where
  "worker_drain b ms wk = (worker_round b ms ^^ Suc (length (wk_queue wk))) wk"

text \<open>None while the caller blocks.\<close>

definition worker_wait :: "nat \<Rightarrow> Worker \<Rightarrow> TaskResult option" where
  "worker_wait h wk = (case map_of (wk_jobs wk) h of
     Some j \<Rightarrow> if jb_status j = TaskStatus.COMPLETED \<or> jb_status j = TaskStatus.FAILED then Some (jb_result j) else None
   | None \<Rightarrow> None)"

definition worker_status :: "nat \<Rightarrow> Worker \<Rightarrow> TaskStatus" where
  "worker_status h wk = (case map_of (wk_jobs wk) h of Some j \<Rightarrow> jb_status j | None \<Rightarrow> TaskStatus.FAILED)"

section \<open>Scheduler\<close>

record TaskRecord =
  rc_worker_handle :: nat
  rc_backend :: ComputeBackend
  rc_workload :: Workload
  rc_plan :: ExecutionPlan

record AdaptiveScheduler =
  as_workers :: "ComputeBackend \<Rightarrow> Worker"
  as_metrics :: "ComputeBackend \<Rightarrow> BackendMetrics"
  as_next_handle :: nat
  as_records :: "(nat \<times> TaskRecord) list"

definition scheduler_init :: AdaptiveScheduler where
  "scheduler_init = \<lparr>as_workers = \<lambda>_. worker_init, as_metrics = initial_metrics, as_next_handle = 1, as_records = []\<rparr>"

definition submitToWorker :: "Workload \<Rightarrow> ExecutionPlan \<Rightarrow> AdaptiveScheduler \<Rightarrow> nat \<times> AdaptiveScheduler" where
  "submitToWorker w p s = (let b = xp_selected_backend p; h = as_next_handle s in
     case worker_submit w p (as_workers s b) of (wh, wk) \<Rightarrow>
       (h, s\<lparr>as_workers := (as_workers s)(b := wk), as_next_handle := h + 1,
             as_records := AList.update h \<lparr>rc_worker_handle = wh, rc_backend = b, rc_workload = w, rc_plan = p\<rparr> (as_records s)\<rparr>))"

definition schedule :: "BackendManager \<Rightarrow> Workload \<Rightarrow> AdaptiveScheduler \<Rightarrow> nat \<times> AdaptiveScheduler" where
  "schedule bm w s = submitToWorker w (evaluate bm (as_metrics s) w) s"

definition scheduleToBackend :: "BackendManager \<Rightarrow> Workload \<Rightarrow> ComputeBackend \<Rightarrow> AdaptiveScheduler \<Rightarrow> nat \<times> AdaptiveScheduler" where
  "scheduleToBackend bm w b s = submitToWorker w (case getDevice bm b of
       Some d \<Rightarrow> evaluateCandidate (as_metrics s) w d
     | None \<Rightarrow> xp_default\<lparr>xp_selected_backend := b, xp_total_cost_ms := Fin 999999\<rparr>) s"

definition scheduler_wait :: "nat \<Rightarrow> AdaptiveScheduler \<Rightarrow> TaskResult option \<times> AdaptiveScheduler" where
  "scheduler_wait h s = (case map_of (as_records s) h of
     None \<Rightarrow> (Some (result_none\<lparr>tr_error_message := ''Invalid TaskHandle''\<rparr>), s)
   | Some r \<Rightarrow> (case worker_wait (rc_worker_handle r) (as_workers s (rc_backend r)) of
       None \<Rightarrow> (None, s)
     | Some res \<Rightarrow> (Some res, if tr_success res
         then s\<lparr>as_metrics := recordCompletion (rc_backend r) (rc_workload r) res (as_metrics s)\<rparr> else s)))"

definition scheduler_status :: "nat \<Rightarrow> AdaptiveScheduler \<Rightarrow> TaskStatus" where
  "scheduler_status h s = (case map_of (as_records s) h of
     Some r \<Rightarrow> worker_status (rc_worker_handle r) (as_workers s (rc_backend r)) | None \<Rightarrow> TaskStatus.FAILED)"

definition on_worker :: "ComputeBackend \<Rightarrow> (Worker \<Rightarrow> Worker) \<Rightarrow> AdaptiveScheduler \<Rightarrow> AdaptiveScheduler" where
  "on_worker b f s = s\<lparr>as_workers := (as_workers s)(b := f (as_workers s b))\<rparr>"

datatype task_op =
    Schedule BackendManager Workload | ScheduleTo BackendManager Workload ComputeBackend
  | Take ComputeBackend | Finish ComputeBackend rat | Wait nat

fun task_step :: "task_op \<Rightarrow> AdaptiveScheduler \<Rightarrow> AdaptiveScheduler" where
  "task_step (Schedule bm w) s = snd (schedule bm w s)"
| "task_step (ScheduleTo bm w b) s = snd (scheduleToBackend bm w b s)"
| "task_step (Take b) s = on_worker b worker_take s"
| "task_step (Finish b ms) s = on_worker b (worker_finish b ms) s"
| "task_step (Wait h) s = snd (scheduler_wait h s)"

definition task_run :: "task_op list \<Rightarrow> AdaptiveScheduler" where
  "task_run ops = fold task_step ops scheduler_init"

section \<open>The choice of the cost model\<close>

lemma candidate_backend [simp]: "xp_selected_backend (evaluateCandidate ms w d) = dv_backend d"
  by (simp add: evaluateCandidate_def Let_def split: prod.split)

lemma candidate_feasible:
  "xp_total_cost_ms (evaluateCandidate ms w d) \<noteq> Fin DBL_MAX \<Longrightarrow> \<not> memory_short w d \<and> execute_callback (dv_backend d) w \<noteq> None"
  by (auto simp: evaluateCandidate_def Let_def split: if_splits)

lemma not_less_Fin: "\<not> fp_less c (Fin y) \<Longrightarrow> x \<le> y \<Longrightarrow> \<not> fp_less c (Fin x)"
  by (cases c) auto

lemma better_fold:
  assumes "xp_total_cost_ms p = Fin y"
  shows "\<exists>x. xp_total_cost_ms (fold (better_plan ms w) ds p) = Fin x \<and> x \<le> y \<and>
    (fold (better_plan ms w) ds p = p \<or>
     x < y \<and> (\<exists>d\<in>set ds. dv_is_available d \<and> fold (better_plan ms w) ds p = evaluateCandidate ms w d)) \<and>
    (\<forall>d\<in>set ds. dv_is_available d \<longrightarrow> \<not> fp_less (xp_total_cost_ms (evaluateCandidate ms w d)) (Fin x))"
  using assms
proof (induction ds arbitrary: p y)
  case (Cons d ds)
  let ?q = "better_plan ms w d p"
  have "\<exists>z. xp_total_cost_ms ?q = Fin z \<and> z \<le> y \<and> (?q = p \<or> z < y \<and> dv_is_available d \<and> ?q = evaluateCandidate ms w d) \<and>
      (dv_is_available d \<longrightarrow> \<not> fp_less (xp_total_cost_ms (evaluateCandidate ms w d)) (Fin z))"
    using Cons.prems by (cases "xp_total_cost_ms (evaluateCandidate ms w d)") (auto simp: better_plan_def Let_def)
  then obtain z where z: "xp_total_cost_ms ?q = Fin z" "z \<le> y"
    "?q = p \<or> z < y \<and> dv_is_available d \<and> ?q = evaluateCandidate ms w d"
    "dv_is_available d \<longrightarrow> \<not> fp_less (xp_total_cost_ms (evaluateCandidate ms w d)) (Fin z)" by blast
  from Cons.IH [OF z(1)] obtain x where x: "xp_total_cost_ms (fold (better_plan ms w) ds ?q) = Fin x" "x \<le> z"
    "fold (better_plan ms w) ds ?q = ?q \<or>
     x < z \<and> (\<exists>d\<in>set ds. dv_is_available d \<and> fold (better_plan ms w) ds ?q = evaluateCandidate ms w d)"
    "\<forall>d\<in>set ds. dv_is_available d \<longrightarrow> \<not> fp_less (xp_total_cost_ms (evaluateCandidate ms w d)) (Fin x)" by blast
  have "fold (better_plan ms w) ds ?q = p \<or>
      x < y \<and> (\<exists>e\<in>set (d # ds). dv_is_available e \<and> fold (better_plan ms w) ds ?q = evaluateCandidate ms w e)"
    using x(1,2,3) z(1,2,3) Cons.prems by fastforce
  then show ?case using x z(2,4) not_less_Fin [OF _ x(2)] by auto
qed simp

text \<open>
  C24: The plan of the cost model. It is the plan of an available device with enough free memory for which
  the workload has a callback, at a finite cost below the infeasible one, and no available device is
  cheaper. Or no available device has such a cost, and it is the plan of the CPU at the cost that
  marks the fallback.\<close>

theorem evaluate_sound:
  "(let p = evaluate bm ms w; cost = (\<lambda>d. xp_total_cost_ms (evaluateCandidate ms w d)) in
     (\<exists>d x. d \<in> set (bm_devices bm) \<and> dv_is_available d \<and> p = evaluateCandidate ms w d \<and> memory_short w d = False \<and>
        execute_callback (dv_backend d) w \<noteq> None \<and> cost d = Fin x \<and> x < DBL_MAX \<and>
        list_all (\<lambda>d2. fp_less (cost d2) (Fin x) = False) (filter dv_is_available (bm_devices bm))) \<or>
     list_all (\<lambda>d. fp_less (cost d) (Fin DBL_MAX) = False) (filter dv_is_available (bm_devices bm)) \<and>
     xp_selected_backend p = ComputeBackend.CPU \<and>
     xp_total_cost_ms p = Fin (if getDevice bm ComputeBackend.CPU = None then DBL_MAX else 999999))"
proof -
  let ?p0 = "xp_default\<lparr>xp_total_cost_ms := Fin DBL_MAX\<rparr>"
  let ?b = "fold (better_plan ms w) (bm_devices bm) ?p0"
  have "xp_total_cost_ms ?p0 = Fin DBL_MAX" by simp
  from better_fold [OF this, of ms w "bm_devices bm"]
  obtain x where x: "xp_total_cost_ms ?b = Fin x" "?b = ?p0 \<or>
      x < DBL_MAX \<and> (\<exists>d\<in>set (bm_devices bm). dv_is_available d \<and> ?b = evaluateCandidate ms w d)"
    "\<forall>d\<in>set (bm_devices bm). dv_is_available d \<longrightarrow> \<not> fp_less (xp_total_cost_ms (evaluateCandidate ms w d)) (Fin x)"
    by blast
  show ?thesis
  proof (cases "?b = ?p0")
    case True
    then have m: "x = DBL_MAX" using x(1) by simp
    have "dv_backend cpu = ComputeBackend.CPU" if "getDevice bm ComputeBackend.CPU = Some cpu" for cpu
      using that by (auto simp: getDevice_def find_Some_iff)
    then have "xp_selected_backend (evaluate bm ms w) = ComputeBackend.CPU \<and>
        xp_total_cost_ms (evaluate bm ms w) = Fin (if getDevice bm ComputeBackend.CPU = None then DBL_MAX else 999999)"
      unfolding evaluate_def True by (simp add: xp_default_def split: option.split)
    moreover have "list_all (\<lambda>d. fp_less (xp_total_cost_ms (evaluateCandidate ms w d)) (Fin DBL_MAX) = False)
        (filter dv_is_available (bm_devices bm))"
      using x(3) m by (simp add: list_all_iff)
    ultimately show ?thesis by (simp add: Let_def)
  next
    case False
    then obtain d where d: "x < DBL_MAX" "d \<in> set (bm_devices bm)" "dv_is_available d" "?b = evaluateCandidate ms w d"
      using x(2) by blast
    have ev: "evaluate bm ms w = evaluateCandidate ms w d" using d(1) x(1) unfolding d(4) by (simp add: evaluate_def Let_def d(4))
    have "\<not> memory_short w d \<and> execute_callback (dv_backend d) w \<noteq> None"
      using candidate_feasible [of ms w d] d(1) x(1) d(4) by simp
    then show ?thesis using ev d x(1,3) unfolding Let_def list_all_iff by auto
  qed
qed

text \<open>A task without estimated operations that completes first on a backend sets its throughput to zero, and
  from then on no plan for that backend has a finite cost.\<close>

lemma zero_ops_excludes_backend:
  assumes "tr_success r" "0 < tr_compute_ms r" "wl_compute_ops_estimate w0 = 0" "bk_sample_count (ms b) = 0"
    and d: "dv_backend d = b" "\<not> memory_short w d" "execute_callback b w \<noteq> None"
  shows "xp_total_cost_ms (evaluateCandidate (recordCompletion b w0 r ms) w d) \<in> {Inf, NaN}"
proof -
  have "bk_ema_ops_per_ms (recordCompletion b w0 r ms b) = 0"
    using assms(1-4) by (simp add: recordCompletion_def Let_def dbl_of_u64_def)
  then show ?thesis
    using d by (auto simp: evaluateCandidate_def Let_def fp_div_def split: prod.split)
qed

section \<open>Every job once, in order\<close>

definition in_hand :: "Worker \<Rightarrow> nat list" where
  "in_hand wk = (case wk_current wk of None \<Rightarrow> [] | Some h \<Rightarrow> [h])"

definition job_ok :: "Worker \<Rightarrow> nat \<Rightarrow> Job \<Rightarrow> bool" where
  "job_ok wk h j \<longleftrightarrow> (if h \<in> set (wk_queue wk) then jb_status j = TaskStatus.QUEUED
     else if wk_current wk = Some h then jb_status j = TaskStatus.RUNNING
     else (h, tr_success (jb_result j)) \<in> set (wk_executed wk) \<and> tr_status (jb_result j) = jb_status j \<and>
       jb_status j = (if tr_success (jb_result j) then TaskStatus.COMPLETED else TaskStatus.FAILED))"

definition worker_inv :: "Worker \<Rightarrow> bool" where
  "worker_inv wk \<longleftrightarrow> 1 \<le> wk_next_handle wk \<and>
     rev (map fst (wk_executed wk)) @ in_hand wk @ wk_queue wk = [1..<wk_next_handle wk] \<and>
     (\<forall>h. (case map_of (wk_jobs wk) h of None \<Rightarrow> h \<notin> {1..<wk_next_handle wk}
        | Some j \<Rightarrow> h \<in> {1..<wk_next_handle wk} \<and> job_ok wk h j))"

lemma worker_parts:
  assumes "worker_inv wk"
  shows "distinct (rev (map fst (wk_executed wk)) @ in_hand wk @ wk_queue wk)"
    "set (map fst (wk_executed wk)) \<union> set (in_hand wk) \<union> set (wk_queue wk) = {1..<wk_next_handle wk}"
proof -
  have e: "rev (map fst (wk_executed wk)) @ in_hand wk @ wk_queue wk = [1..<wk_next_handle wk]"
    using assms by (simp add: worker_inv_def)
  show "distinct (rev (map fst (wk_executed wk)) @ in_hand wk @ wk_queue wk)" unfolding e by simp
  show "set (map fst (wk_executed wk)) \<union> set (in_hand wk) \<union> set (wk_queue wk) = {1..<wk_next_handle wk}"
    using arg_cong [OF e, of set] by (simp add: Un_assoc)
qed

lemma worker_init_inv: "worker_inv worker_init"
  by (simp add: worker_inv_def worker_init_def in_hand_def)

lemma worker_submit_inv:
  assumes inv: "worker_inv wk" and s: "worker_submit w p wk = (h, wk2)"
  shows "worker_inv wk2" "h = wk_next_handle wk" "map_of (wk_jobs wk2) h \<noteq> None"
proof -
  let ?n = "wk_next_handle wk"
  have wk2: "wk2 = wk\<lparr>wk_next_handle := ?n + 1, wk_jobs := AList.update ?n \<lparr>jb_workload = w, jb_plan = p,
       jb_status = TaskStatus.QUEUED, jb_result = result_none\<rparr> (wk_jobs wk), wk_queue := wk_queue wk @ [?n]\<rparr>"
    and h: "h = ?n" using s by (auto simp: worker_submit_def Let_def)
  show "h = wk_next_handle wk" by (rule h)
  show "map_of (wk_jobs wk2) h \<noteq> None" by (simp add: wk2 h map_of_update)
  have notin: "?n \<notin> set (map fst (wk_executed wk)) \<union> set (in_hand wk) \<union> set (wk_queue wk)"
    by (simp only: worker_parts(2) [OF inv]) simp
  then have cur: "wk_current wk \<noteq> Some ?n" by (auto simp: in_hand_def)
  show "worker_inv wk2"
    unfolding worker_inv_def
  proof (intro conjI allI)
    show "1 \<le> wk_next_handle wk2" by (simp add: wk2)
    show "rev (map fst (wk_executed wk2)) @ in_hand wk2 @ wk_queue wk2 = [1..<wk_next_handle wk2]"
      using inv by (simp add: worker_inv_def wk2 in_hand_def flip: append_assoc)
    fix g
    show "case map_of (wk_jobs wk2) g of None \<Rightarrow> g \<notin> {1..<wk_next_handle wk2}
        | Some j \<Rightarrow> g \<in> {1..<wk_next_handle wk2} \<and> job_ok wk2 g j"
    proof (cases "g = ?n")
      case True
      then show ?thesis using inv by (simp add: wk2 map_of_update job_ok_def worker_inv_def)
    next
      case False
      have "case map_of (wk_jobs wk) g of None \<Rightarrow> g \<notin> {1..<?n} | Some j \<Rightarrow> g \<in> {1..<?n} \<and> job_ok wk g j"
        using inv by (simp add: worker_inv_def)
      then show ?thesis using False by (auto simp: wk2 map_of_update job_ok_def split: option.splits)
    qed
  qed
qed

lemma known_job: "worker_inv wk \<Longrightarrow> h \<in> {1..<wk_next_handle wk} \<Longrightarrow> \<exists>j. map_of (wk_jobs wk) h = Some j \<and> job_ok wk h j"
  unfolding worker_inv_def by (metis (mono_tags, lifting) option.exhaust option.simps(4) option.simps(5))

lemma worker_take_inv:
  assumes inv: "worker_inv wk"
  shows "worker_inv (worker_take wk) \<and> wk_next_handle (worker_take wk) = wk_next_handle wk \<and>
    wk_executed (worker_take wk) = wk_executed wk \<and>
    (wk_current wk \<noteq> None \<or> wk_queue wk \<noteq> [] \<longrightarrow> wk_current (worker_take wk) \<noteq> None) \<and>
    length (in_hand (worker_take wk)) + length (wk_queue (worker_take wk)) = length (in_hand wk) + length (wk_queue wk)"
proof (cases "wk_current wk = None \<and> wk_queue wk \<noteq> []")
  case False
  then have "worker_take wk = wk" by (auto simp: worker_take_def split: option.split list.split)
  then show ?thesis using inv False by auto
next
  case True
  then obtain h hs where q: "wk_current wk = None" "wk_queue wk = h # hs" by (cases "wk_queue wk") auto
  have "h \<in> {1..<wk_next_handle wk}" using worker_parts(2) [OF inv] q by auto
  then obtain j where j: "map_of (wk_jobs wk) h = Some j" using known_job [OF inv] by blast
  have t: "worker_take wk = wk\<lparr>wk_jobs := AList.update h (j\<lparr>jb_status := TaskStatus.RUNNING\<rparr>) (wk_jobs wk),
      wk_queue := hs, wk_current := Some h\<rparr>" using q j by (simp add: worker_take_def)
  have d: "h \<notin> set hs" "h \<notin> fst ` set (wk_executed wk)" using worker_parts(1) [OF inv] q by (auto simp: in_hand_def)
  have "worker_inv (worker_take wk)"
    unfolding worker_inv_def
  proof (intro conjI allI)
    show "1 \<le> wk_next_handle (worker_take wk)" using inv by (simp add: t worker_inv_def)
    show "rev (map fst (wk_executed (worker_take wk))) @ in_hand (worker_take wk) @ wk_queue (worker_take wk) =
        [1..<wk_next_handle (worker_take wk)]"
      using inv q by (simp add: worker_inv_def t in_hand_def)
    fix g
    have "case map_of (wk_jobs wk) g of None \<Rightarrow> g \<notin> {1..<wk_next_handle wk}
        | Some j \<Rightarrow> g \<in> {1..<wk_next_handle wk} \<and> job_ok wk g j"
      using inv by (simp add: worker_inv_def)
    then show "case map_of (wk_jobs (worker_take wk)) g of None \<Rightarrow> g \<notin> {1..<wk_next_handle (worker_take wk)}
        | Some j \<Rightarrow> g \<in> {1..<wk_next_handle (worker_take wk)} \<and> job_ok (worker_take wk) g j"
      using q j d by (cases "g = h") (auto simp: t map_of_update job_ok_def split: option.splits)
  qed
  then show ?thesis using q by (simp add: t in_hand_def)
qed

lemma worker_finish_inv:
  assumes inv: "worker_inv wk"
  shows "worker_inv (worker_finish b ms wk) \<and> wk_next_handle (worker_finish b ms wk) = wk_next_handle wk \<and>
    wk_queue (worker_finish b ms wk) = wk_queue wk \<and> wk_current (worker_finish b ms wk) = None"
proof (cases "wk_current wk")
  case None
  then show ?thesis using inv by (simp add: worker_finish_def)
next
  case (Some h)
  have "h \<in> {1..<wk_next_handle wk}" using worker_parts(2) [OF inv] Some by (auto simp: in_hand_def)
  then obtain j where j: "map_of (wk_jobs wk) h = Some j" using known_job [OF inv] by blast
  obtain ok msg where r: "run_callback b (jb_workload j) (length (wk_executed wk)) = (ok, msg)" by fastforce
  define st where "st = (if ok then TaskStatus.COMPLETED else TaskStatus.FAILED)"
  have t: "worker_finish b ms wk = wk\<lparr>wk_jobs := AList.update h (j\<lparr>jb_status := st, jb_result := (jb_result j)\<lparr>tr_success := ok,
      tr_status := st, tr_compute_ms := ms, tr_total_ms := ms, tr_error_message := msg\<rparr>\<rparr>) (wk_jobs wk),
      wk_current := None, wk_executed := (h, ok) # wk_executed wk\<rparr>"
    using Some j r by (simp add: worker_finish_def Let_def st_def)
  have d: "h \<notin> set (wk_queue wk)" using worker_parts(1) [OF inv] Some by (auto simp: in_hand_def)
  have "worker_inv (worker_finish b ms wk)"
    unfolding worker_inv_def
  proof (intro conjI allI)
    show "1 \<le> wk_next_handle (worker_finish b ms wk)" using inv by (simp add: t worker_inv_def)
    show "rev (map fst (wk_executed (worker_finish b ms wk))) @ in_hand (worker_finish b ms wk) @ wk_queue (worker_finish b ms wk) =
        [1..<wk_next_handle (worker_finish b ms wk)]"
      using inv Some by (simp add: worker_inv_def t in_hand_def)
    fix g
    have "case map_of (wk_jobs wk) g of None \<Rightarrow> g \<notin> {1..<wk_next_handle wk}
        | Some j \<Rightarrow> g \<in> {1..<wk_next_handle wk} \<and> job_ok wk g j"
      using inv by (simp add: worker_inv_def)
    then show "case map_of (wk_jobs (worker_finish b ms wk)) g of None \<Rightarrow> g \<notin> {1..<wk_next_handle (worker_finish b ms wk)}
        | Some j \<Rightarrow> g \<in> {1..<wk_next_handle (worker_finish b ms wk)} \<and> job_ok (worker_finish b ms wk) g j"
      using Some j d by (cases "g = h") (auto simp: t map_of_update job_ok_def st_def split: option.splits)
  qed
  then show ?thesis by (simp add: t)
qed

definition task_inv :: "AdaptiveScheduler \<Rightarrow> bool" where
  "task_inv s \<longleftrightarrow> (\<forall>b. worker_inv (as_workers s b)) \<and>
     (\<forall>h r. map_of (as_records s) h = Some r \<longrightarrow> rc_worker_handle r \<in> {1..<wk_next_handle (as_workers s (rc_backend r))})"

lemma submit_sched: "task_inv s \<Longrightarrow> task_inv (snd (submitToWorker w p s))"
proof -
  assume inv: "task_inv s"
  let ?b = "xp_selected_backend p"
  obtain wh wk where sub: "worker_submit w p (as_workers s ?b) = (wh, wk)" by fastforce
  have wi: "worker_inv (as_workers s ?b)" using inv by (simp add: task_inv_def)
  note si = worker_submit_inv [OF wi sub]
  have n: "wk_next_handle wk = wk_next_handle (as_workers s ?b) + 1" using sub by (auto simp: worker_submit_def Let_def)
  have pos: "1 \<le> wk_next_handle (as_workers s ?b)" using wi by (simp add: worker_inv_def)
  show ?thesis
    using inv si n pos unfolding task_inv_def
    by (fastforce simp: submitToWorker_def Let_def sub map_of_update less_Suc_eq split: if_splits)
qed

lemma on_worker_sched:
  assumes "task_inv s" "worker_inv (f (as_workers s b))" "wk_next_handle (f (as_workers s b)) = wk_next_handle (as_workers s b)"
  shows "task_inv (on_worker b f s)"
  using assms unfolding task_inv_def on_worker_def by auto

lemma step_sched: "task_inv s \<Longrightarrow> task_inv (task_step x s)"
proof (cases x)
  case (Take b)
  assume inv: "task_inv s"
  then have "worker_inv (as_workers s b)" by (simp add: task_inv_def)
  from worker_take_inv [OF this] show ?thesis unfolding Take task_step.simps by (intro on_worker_sched inv) simp_all
next
  case (Finish b ms)
  assume inv: "task_inv s"
  then have "worker_inv (as_workers s b)" by (simp add: task_inv_def)
  from worker_finish_inv [OF this] show ?thesis unfolding Finish task_step.simps by (intro on_worker_sched inv) simp_all
next
  case (Wait h)
  assume "task_inv s"
  then show ?thesis by (simp add: Wait scheduler_wait_def task_inv_def split: option.split)
qed (simp_all add: schedule_def scheduleToBackend_def submit_sched)

lemma run_sched: "task_inv (task_run ops)"
proof -
  have "task_inv s \<Longrightarrow> task_inv (fold task_step ops s)" for s
    by (induction ops arbitrary: s) (simp_all add: step_sched)
  moreover have "task_inv scheduler_init" by (simp add: task_inv_def scheduler_init_def worker_init_inv)
  ultimately show ?thesis by (simp add: task_run_def)
qed

text \<open>A round executes one job, and so all are executed after as many rounds as there are jobs left.\<close>

lemma worker_rounds:
  assumes "worker_inv wk" "length (in_hand wk) + length (wk_queue wk) \<le> n"
  shows "worker_inv ((worker_round b ms ^^ n) wk) \<and> wk_queue ((worker_round b ms ^^ n) wk) = [] \<and>
    wk_current ((worker_round b ms ^^ n) wk) = (if n = 0 then wk_current wk else None) \<and>
    wk_next_handle ((worker_round b ms ^^ n) wk) = wk_next_handle wk"
  using assms
proof (induction n arbitrary: wk)
  case 0
  then show ?case by simp
next
  case (Suc n)
  let ?f = "worker_round b ms"
  note t = worker_take_inv [OF Suc.prems(1)]
  have fi: "worker_inv (?f wk)" "wk_next_handle (?f wk) = wk_next_handle wk"
    "wk_queue (?f wk) = wk_queue (worker_take wk)" "wk_current (?f wk) = None"
    using worker_finish_inv [OF conjunct1 [OF t], of b ms] t by (simp_all add: worker_round_def)
  have "length (in_hand (?f wk)) + length (wk_queue (?f wk)) \<le> n"
  proof (cases "wk_current wk \<noteq> None \<or> wk_queue wk \<noteq> []")
    case True
    then have "length (in_hand (worker_take wk)) = 1" using t by (auto simp: in_hand_def)
    then show ?thesis using t fi Suc.prems(2) by (simp add: in_hand_def)
  next
    case False
    then show ?thesis using t fi by (simp add: in_hand_def)
  qed
  from Suc.IH [OF fi(1) this] have "worker_inv ((?f ^^ n) (?f wk)) \<and> wk_queue ((?f ^^ n) (?f wk)) = [] \<and>
      wk_current ((?f ^^ n) (?f wk)) = None \<and> wk_next_handle ((?f ^^ n) (?f wk)) = wk_next_handle wk"
    using fi by auto
  then show ?case by (simp add: funpow_swap1)
qed

lemma drained:
  assumes "worker_inv wk"
  shows "worker_inv (worker_drain b ms wk)" "wk_queue (worker_drain b ms wk) = []" "wk_current (worker_drain b ms wk) = None"
    "wk_next_handle (worker_drain b ms wk) = wk_next_handle wk"
    "rev (map fst (wk_executed (worker_drain b ms wk))) = [1..<wk_next_handle wk]"
proof -
  have "length (in_hand wk) + length (wk_queue wk) \<le> Suc (length (wk_queue wk))" by (simp add: in_hand_def split: option.split)
  from worker_rounds [OF assms this, of b ms]
  show d: "worker_inv (worker_drain b ms wk)" "wk_queue (worker_drain b ms wk) = []" "wk_current (worker_drain b ms wk) = None"
    "wk_next_handle (worker_drain b ms wk) = wk_next_handle wk" by (simp_all only: worker_drain_def) simp_all
  then show "rev (map fst (wk_executed (worker_drain b ms wk))) = [1..<wk_next_handle wk]"
    by (simp add: worker_inv_def in_hand_def)
qed

lemma drained_result:
  assumes "worker_inv wk" "h \<in> {1..<wk_next_handle wk}"
  shows "\<exists>res. worker_wait h (worker_drain b ms wk) = Some res \<and> (h, tr_success res) \<in> set (wk_executed (worker_drain b ms wk))"
proof -
  let ?w = "worker_drain b ms wk"
  note d = drained [OF assms(1), of b ms]
  obtain j where "map_of (wk_jobs ?w) h = Some j" "job_ok ?w h j"
    using known_job [OF d(1), of h] assms(2) d(4) by auto
  then show ?thesis using d(2,3) by (auto simp: job_ok_def worker_wait_def split: if_splits)
qed

text \<open>
  C23: Every task is executed exactly once, in the order of submission to its worker, in every
  interleaving of scheduling, waiting and the steps of the workers: what a worker has executed, then
  what it is executing, then its queue are the handles from 1 in order; the rounds that are left, as
  those of its destruction, execute the rest. And waiting for a scheduled task ends: after these rounds
  wait returns a result, successful exactly when the execution of that task was.\<close>

theorem tasks_execute_once:
  "(let s = task_run ops; wk = as_workers s b in
     rev (map fst (wk_executed wk)) @ in_hand wk @ wk_queue wk = [1..<wk_next_handle wk] \<and>
     rev (map fst (wk_executed (worker_drain b ms wk))) = [1..<wk_next_handle wk] \<and>
     (case map_of (as_records s) h of
        None \<Rightarrow> fst (scheduler_wait h s) = Some (result_none\<lparr>tr_error_message := ''Invalid TaskHandle''\<rparr>)
      | Some r \<Rightarrow> (let s2 = on_worker (rc_backend r) (worker_drain (rc_backend r) ms) s in
          (\<exists>res. fst (scheduler_wait h s2) = Some res \<and>
             (rc_worker_handle r, tr_success res) \<in> set (wk_executed (as_workers s2 (rc_backend r)))))))"
proof -
  define s where "s = task_run ops"
  have inv: "task_inv s" unfolding s_def by (rule run_sched)
  have wi: "worker_inv (as_workers s b)" for b using inv by (simp add: task_inv_def)
  have "\<exists>res. worker_wait (rc_worker_handle r) (worker_drain (rc_backend r) ms (as_workers s (rc_backend r))) = Some res \<and>
      (rc_worker_handle r, tr_success res) \<in> set (wk_executed (worker_drain (rc_backend r) ms (as_workers s (rc_backend r))))"
    if "map_of (as_records s) h = Some r" for r
    using that inv by (intro drained_result wi) (simp add: task_inv_def)
  then show ?thesis
    unfolding s_def [symmetric] Let_def using wi [of b] drained(5) [OF wi [of b], of b ms]
    by (auto simp: worker_inv_def scheduler_wait_def on_worker_def split: option.split)
qed

end
