(* ===== verification/Spec2Isabelle.thy ===== *)
theory Spec2Isabelle
  imports MemoryHost ResidencySystem SchedulerRuns PlanAdapter GGUFRoundTrip KVCache PluginProtocol EngineSelection RuntimeProperties TokenizerProperties Sampler TaskScheduler
begin

text \<open>
  HeteroAccel is a C++ runtime around inference engines. It detects the machine, analyses a model,
  plans where its parts run, keeps them in memory, executes graphs of work and drives an engine, an
  external one or its own (HydroXL). This development models its core logic, with file names relative
  to \<open>src/\<close> of the repository, and proves what makes each part correct.

  The parts and how they meet.

  \<^item> Memory (\<open>src/mem\<close>): allocators give blocks of host or device memory, a pool reuses them, a residency
    table, a pressure monitor and an eviction policy keep the books, a transfer manager copies, and the
    memory manager ties them together.
  \<^item> Models (\<open>src/model\<close>): a data source reads a model file, accelerator memory holds bytes near the
    device, and the residency manager moves regions of the file into host and accelerator memory under
    two budgets, with pins, references and eviction.
  \<^item> Execution graphs (\<open>src/execution\<close>): nodes with dependencies and resources, and the scheduler that
    runs them on workers and isolates failures.
  \<^item> Planning (\<open>src/engine\<close>, \<open>src/core\<close>, \<open>src/hardware\<close>, \<open>src/backend\<close>, \<open>src/analysis\<close>, \<open>src/planner\<close>):
    engines and their capabilities, devices and their scores, the analysis of a model against both, and
    the plan; an adapter carries a plan out on the residency manager.
  \<^item> The runtime (\<open>src/inference\<close>, \<open>src/scheduler\<close>): a policy sets a ceiling of accelerator layers, a tuner
    suggests a configuration below it from past performance, workloads are registered, and the runtime
    keeps one engine per model and runs generations.
  \<^item> The orchestrator (\<open>src/orchestration\<close>): it selects a backend for a request by hardware, quantization,
    architecture and memory, and creates the engine with fallback to the CPU.
  \<^item> HydroXL (\<open>src/hydroxl\<close>): the GGUF parser, the key-value cache, the tokenizer and the sampler of the native
    engine.
  \<^item> Plugins (\<open>src/plugin\<close>): discovery, loading and the life of external libraries.
\<close>

text \<open>
  Theories and the code they model. Shared:

  \<^item> \<open>Prelude\<close>: machine integers as words, association lists for the code's maps, list lemmas, the
    collection \<open>enum_defs\<close>.
  \<^item> \<open>Double\<close>: floating-point numbers as the rationals they denote, with the rounding of IEEE 754
    written out; monotonicity and exactness of rounding.

  Memory:

  \<^item> \<open>MemTypes\<close> (\<open>MemoryTypes.h\<close>); \<open>Allocators\<close> (\<open>IMemoryAllocator.h\<close>, \<open>CPUAllocator.cpp\<close>, \<open>VulkanAllocator.cpp\<close>): the
    interface is the record of operations and the locale \<open>memory_allocator\<close>, interpreted on both allocators.
  \<^item> \<open>MemoryPool\<close> (\<open>MemoryPool.cpp\<close>): a client of the allocator contract; no double allocation, exact
    accounting in every run.
  \<^item> \<open>MemPolicy\<close> (\<open>ResidencyManager.cpp\<close>, \<open>PressureMonitor.cpp\<close>, \<open>EvictionPolicy.cpp\<close>): victims and pressure.
  \<^item> \<open>MemoryManager\<close> (\<open>TransferManager.cpp\<close>, \<open>MemoryManager.cpp\<close>) with every operation; \<open>MemoryHost\<close>: exact
    accounting without a device, whose identifiers otherwise collide (\<open>mm_id_collision\<close>).

  Models:

  \<^item> \<open>ModelTypes\<close> (\<open>ModelTypes.h\<close>, \<open>ModelRegion.h\<close>, \<open>ModelResidencyTypes.h\<close>); \<open>DataSource\<close> (\<open>IModelDataSource.h\<close>,
    \<open>FileModelDataSource.cpp\<close>) and \<open>AcceleratorMemory\<close> (\<open>IAcceleratorMemory.h\<close>, \<open>HostAcceleratorMemory.cpp\<close>): two
    contracts as locales, interpreted on the code's providers.
  \<^item> \<open>ModelResidency\<close> (\<open>ModelResidencyManager.cpp\<close>): the manager's records and operations. \<open>ResidencyContract\<close>:
    the locale \<open>residency\<close>, which joins the two contracts, and the manager's invariant. \<open>ResidencyOps\<close> and
    \<open>ResidencyRuns\<close>: every operation, and so every run, keeps it. \<open>ResidencySystem\<close>: the locale on the file
    source and the host accelerator, and the properties.

  Execution graphs:

  \<^item> \<open>ExecGraph\<close> (\<open>ExecutionGraph.cpp\<close>, \<open>ExecutionTypes.h\<close>): construction and the validation, which accepts
    exactly the acyclic graphs.
  \<^item> \<open>GraphScheduler\<close> (\<open>ExecutionGraphScheduler.cpp\<close>), \<open>SchedulerInvariant\<close>, \<open>SchedulerRuns\<close>: the loop, its
    invariant, and its runs as an inductive relation; safety, isolation of failures, termination, verdict.
\<close>

text \<open>
  Planning:

  \<^item> \<open>Engine\<close> (\<open>EngineCapability.cpp\<close>, \<open>EngineError.h\<close>, \<open>ModelDescriptor.cpp\<close>, \<open>ExecutionEngineRegistry.cpp\<close>).
  \<^item> \<open>Backend\<close> (\<open>HardwareInfo.h\<close>, \<open>HardwareDetector.cpp\<close> of \<open>src/hardware\<close>, \<open>BackendManager.cpp\<close>,
    \<open>DeviceSelector.cpp\<close>): the selector is the first best of the available devices; \<open>Analysis\<close> (\<open>GGUFInspector.cpp\<close>, \<open>CapabilityAnalyzer.cpp\<close>, \<open>CapabilityReport.cpp\<close>).
  \<^item> \<open>Planner\<close> (\<open>ExecutionPlan.h\<close>, \<open>ExecutionPlanner.cpp\<close>) and \<open>PlannerProperties\<close>: a viable plan names an
    engine, a device and memory that exist and suffice, whatever the order of registration.
  \<^item> \<open>PlanAdapter\<close> (\<open>GGUFRegionExtractor.cpp\<close>, \<open>PlanResidencyAdapter.cpp\<close>): carrying out a plan makes
    exactly the calls it stands for, within its budget, and every granted one leaves its region resident.

  Runtime and orchestrator:

  \<^item> \<open>Adaptive\<close> (\<open>PerformanceHistory.cpp\<close>, \<open>AutoTuner.cpp\<close>, \<open>ExecutionPolicyEngine.cpp\<close>, \<open>WorkloadRegistry.cpp\<close>):
    the locale \<open>tuner\<close>, interpreted on the auto-tuner, gives that it obeys its limits after any history; the
    policy's ceiling follows the resources.
  \<^item> \<open>TaskScheduler\<close> (\<open>CostModel.cpp\<close>, \<open>AdaptiveScheduler.cpp\<close> and the workers of \<open>src/scheduler\<close>): the cheapest
    feasible device is chosen, and every task is executed once, in order, and answered.
  \<^item> \<open>HeteroRuntime\<close> (\<open>HeteroRuntime.cpp\<close>): a generation is three steps, since it releases the lock during
    the inference. \<open>RuntimeProperties\<close>: the table of engines is exact under every interleaving, and a
    generation is handed an engine that holds its model within the ceiling; concrete runs show what the
    lock does not cover.
  \<^item> \<open>Orchestrator\<close> (\<open>HardwareDetector.cpp\<close>, \<open>BackendCapabilities.h\<close>, \<open>MemoryEstimator.cpp\<close> of
    \<open>src/orchestration\<close>) and \<open>EngineSelection\<close> (\<open>EngineOrchestrator.cpp\<close>, \<open>OrchestratorInit.cpp\<close>): what is
    selected, and that the fallback always gives an engine.

  HydroXL and plugins:

  \<^item> \<open>GGUFLoader\<close> (\<open>HydroXLTypes.h\<close>, \<open>GGUFLoader.cpp\<close>): the parser as functions on a stream. \<open>GGUFProperties\<close>:
    it ends, and what an accepted file guarantees. \<open>GGUFRoundTrip\<close>: the locale \<open>codec\<close>, interpreted on every
    field of the format, and the round trip.
  \<^item> \<open>KVCache\<close> (\<open>HydroXLKVCache.cpp\<close>): every run refines a map from layer and position to vectors.
  \<^item> \<open>Tokenizer\<close> (\<open>HydroXLTokenizer.cpp\<close>) and \<open>TokenizerProperties\<close>: nothing is lost.
  \<^item> \<open>Sampler\<close> (\<open>HydroXLSampler.cpp\<close>): the token returned is one of the best, and the random numbers stay in
    the lower half of their interval.
  \<^item> \<open>PluginLoader\<close> (\<open>PluginAbis.h\<close>, \<open>PluginLoader.cpp\<close>) and \<open>PluginProtocol\<close>: the calls into every module
    follow the protocol and no module leaks.
\<close>

text \<open>
  How the code is translated. Structures are records, enumerations datatypes, 32- and 64-bit integers
  words with their wrap-around, signed counters that stay small integers; maps are association lists,
  whose order stands for the iteration order the C++ standard leaves open. An operation that takes
  a lock is one atomic step. Objects behind an interface are records of operations. What the operating
  system, a driver, an allocator, a plugin, an engine or the clock answers is an argument. An operation
  that fails returns the error the code returns; one that would have undefined behaviour returns None, an
  error, or sets a flag.

  Bounds. The parser's recursion over nested arrays has the length of the file as fuel: every level reads
  at least one byte, so the fuel is never what ends it (\<open>open_terminates\<close>). The scheduler's loop has two
  rounds more than there are nodes (\<open>scheduler_terminates\<close>). The making of room in the residency
  manager is a partial function whose termination is proved; other loops are structural or have a measure.
  Limits that appear in statements (4 GiB for a cache, the counts and lengths of a GGUF file) are the source's.

  Kinds of properties: invariants over every run of a component's operations (residency, memory, pools,
  runtime, parser results), safety and protocols (scheduler, plugins, tuner), refinement of an abstract
  specification (the cache as a map, a plan as its calls, a generation's engine), round trips (GGUF,
  tokenizer), termination and liveness (parser, scheduler, fallback), exact verdicts on every branch,
  errors included, and bounds with the rounding of floating-point numbers taken into account.
\<close>

text \<open>
  Not modelled, and why.

  \<^item> The command line (\<open>src/cli\<close>), the SDK and the C and Python interfaces (\<open>src/sdk\<close>, \<open>include\<close>, \<open>python\<close>), the
    JSON and report printers, benchmarks: glue and input or output over the parts above.
  \<^item> The Vulkan backend, the shaders and \<open>VulkanTensorOps.cpp\<close>, the detectors of \<open>src/hardware\<close>: sequences of
    driver calls; their answers are inputs.
  \<^item> The numerical kernels of HydroXL and \<open>src/primitives\<close> (dequantization, matrix products, attention, the
    forward pass): approximate floating-point arithmetic whose correctness is numerical. The engine and the
    adapters around them (\<open>HydroXLModel.cpp\<close>, \<open>HydroXLEngine.cpp\<close>, \<open>HydroXLEngineAdapter.cpp\<close>) are inputs of the
    orchestrator: an engine is whether its initialization succeeds.
  \<^item> \<open>src/llm\<close>, \<open>LlamaCppExecutionEngine.cpp\<close>, \<open>LlamaCppBackend.cpp\<close>: calls into llama.cpp, a dependency the
    repository fetches. An engine is what it answers.
  \<^item> The layer, prefetch and streaming managers of phase 6 (\<open>LayerManager.cpp\<close>, \<open>PrefetchEngine.cpp\<close>, \<open>StreamingEngine.cpp\<close>,
    \<open>ResourceResidencyManager.cpp\<close>, \<open>ModelManager.cpp\<close>), superseded by the residency manager.
  \<^item> \<open>PerfProfile.cpp\<close> and \<open>Profiler.cpp\<close>: text files of measurements; their records reach the model as input.
  \<^item> \<open>HeteroAccel-Research\<close>: an earlier copy of the same sources.
\<close>

section \<open>Properties that span components\<close>

lemma ucast_double:
  fixes n :: u32
  assumes "n < 2 ^ 31"
  shows "(ucast (2 * n) :: u64) = 2 * ucast n"
proof -
  have n: "unat n < 2 ^ 31" using assms by (simp add: word_less_nat_alt)
  then have "unat (2 * n) = 2 * unat n"
    by (subst unat_mult_exact) simp_all
  moreover have "unat (2 * ucast n :: u64) = 2 * unat n"
    using n by (subst unat_mult_exact) (simp_all add: unsigned_ucast_eq take_bit_nat_eq_self)
  ultimately show ?thesis
    using n by (simp add: word_unat_eq_iff unsigned_ucast_eq take_bit_nat_eq_self)
qed

text \<open>
  C37: The memory the orchestrator estimates for the key-value cache of a model is exactly the memory the
  cache of the native engine takes for the same dimensions, whenever its allocation succeeds, and it is
  within the limit of 4 GiB the cache sets itself.\<close>

theorem kv_estimate_matches_cache:
  assumes "n_embd \<noteq> 0" "n_heads \<noteq> 0" "vocab_size \<noteq> 0" "n_layers < 2 ^ 31"
    and alloc: "kv_allocate Enough n_layers n_kv_heads max_seq_len (estimate_head_dim n_embd n_heads) c = (True, c2)"
  shows "memoryBytes c2 = me_kv_cache_bytes (estimate hw n_layers n_embd n_heads n_kv_heads n_ff vocab_size max_seq_len safety) \<and>
    memoryBytes c2 \<le> 4294967296"
proof -
  let ?d = "estimate_head_dim n_embd n_heads"
  have nz: "n_layers \<noteq> 0" "n_kv_heads \<noteq> 0" "max_seq_len \<noteq> 0"
    and le: "kv_total_bytes n_layers n_kv_heads max_seq_len ?d \<le> 4294967296"
    and c2: "kc_n_layers c2 = n_layers" "kc_n_kv_heads c2 = n_kv_heads" "kc_max_seq_len c2 = max_seq_len"
      "kc_head_dim c2 = ?d" "kc_allocated c2"
    using alloc by (auto simp: kv_allocate_def Let_def split: if_splits)
  have bytes: "memoryBytes c2 = 2 * ucast n_layers * per_layer_floats n_kv_heads max_seq_len ?d * 4"
    using c2 ucast_double [OF assms(4)] by (simp add: memoryBytes_def)
  moreover have "me_kv_cache_bytes (estimate hw n_layers n_embd n_heads n_kv_heads n_ff vocab_size max_seq_len safety) =
      2 * ucast n_layers * ucast n_kv_heads * ucast ?d * ucast max_seq_len * 4"
    using nz assms(1-3) by (simp add: estimate_def Let_def)
  moreover have "memoryBytes c2 \<le> 4294967296"
    using le by (simp add: bytes kv_total_bytes_def mult.commute [of "ucast n_layers" 2])
  ultimately show ?thesis by (simp add: per_layer_floats_def algebra_simps)
qed

theorem kv_estimate_matches_cache_witness:
  "\<forall>hw. memoryBytes (snd (kv_allocate Enough 2 1 8 (estimate_head_dim 4 2) kc_empty)) =
     me_kv_cache_bytes (estimate hw 2 4 2 1 16 32 8 1)"
proof
  fix hw
  have d: "estimate_head_dim 4 2 = 2" by (simp add: estimate_head_dim_def Let_def)
  have "kv_allocate Enough 2 1 8 (estimate_head_dim 4 2) kc_empty =
      (True, snd (kv_allocate Enough 2 1 8 (estimate_head_dim 4 2) kc_empty))"
    by (simp add: d kv_allocate_def kv_total_bytes_def per_layer_floats_def Let_def)
  from kv_estimate_matches_cache [OF _ _ _ _ this, of 32 hw 16 1]
  show "memoryBytes (snd (kv_allocate Enough 2 1 8 (estimate_head_dim 4 2) kc_empty)) =
     me_kv_cache_bytes (estimate hw 2 4 2 1 16 32 8 1)" by simp
qed

end
